(* ===== verification/Rust_Prelude.thy ===== *)
theory Rust_Prelude
  imports Main "HOL-Library.Word" "HOL-Library.AList" "HOL-Library.Sublist"
begin

text \<open>
  What the component theories share: the part of the Rust standard library the modelled code
  calls, the representation of its data, and the lemmas on them.

  \<^item> A Rust \<open>String\<close> is the list of its UTF-8 bytes; a \<open>char\<close> of HOL is one byte. Length, slicing,
    prefixes, suffixes and substring search are byte operations, as in Rust. Case conversion and
    white space are those of ASCII text: a byte above 127 is left alone by \<open>to_lowercase\<close> and
    \<open>to_uppercase\<close> and is never white space.
  \<^item> A \<open>HashMap\<close> is an association list with distinct keys; the order of the list stands for
    the unspecified iteration order.
  \<^item> A fallible operation returns a sum, \<open>Inl\<close> the error and \<open>Inr\<close> the value.
  \<^item> \<open>u32\<close> and \<open>u64\<close> are words, so their arithmetic wraps, as in the release profile
    the program is shipped with; a \<open>usize\<close> that counts elements in memory is a \<open>nat\<close>.
  \<^item> Identifiers (\<open>Uuid\<close>), times and durations are numbers; the value a call of
    \<open>Uuid::new_v4\<close> or \<open>Utc::now\<close> returns is an argument of the operation that makes the call.
\<close>

section \<open>Types and automation\<close>

type_synonym u8 = "8 word"
type_synonym u16 = "16 word"
type_synonym u32 = "32 word"
type_synonym u64 = "64 word"
type_synonym uuid = nat
type_synonym time = int
type_synonym duration = nat

text \<open>
  Facts that characterise when an operation succeeds (\<open>ok_iff\<close>), and the frame facts of the state
  updates (\<open>frame\<close>): which fields an operation leaves alone.
\<close>

named_theorems ok_iff
named_theorems frame

text \<open>JSON values, with the constructors the code matches on. A number is its literal.\<close>

datatype json =
    JNull
  | JBool bool
  | JNumber string
  | JString string
  | JArray "json list"
  | JObject "(string \<times> json) list"

text \<open>\<open>Value::get\<close> with a key, and the string behind it (\<open>and_then(|v| v.as_str())\<close>).\<close>

definition json_get :: "json \<Rightarrow> string \<Rightarrow> json option" where
  "json_get j k = (case j of JObject entries \<Rightarrow> map_of entries k | _ \<Rightarrow> None)"

definition json_get_str :: "json \<Rightarrow> string \<Rightarrow> string option" where
  "json_get_str j k = (case json_get j k of Some (JString s) \<Rightarrow> Some s | _ \<Rightarrow> None)"

section \<open>Results\<close>

abbreviation Err :: "'e \<Rightarrow> 'e + 'a" where "Err \<equiv> Inl"
abbreviation Ok :: "'a \<Rightarrow> 'e + 'a" where "Ok \<equiv> Inr"

definition is_ok :: "'e + 'a \<Rightarrow> bool" where
  "is_ok r = (case r of Inl _ \<Rightarrow> False | Inr _ \<Rightarrow> True)"

lemma is_ok_simps [simp]: "is_ok (Inl e) = False" "is_ok (Inr v) = True"
  by (simp_all add: is_ok_def)

section \<open>Strings\<close>

definition ascii_lower :: "char \<Rightarrow> char" where
  "ascii_lower c =
     (if 65 \<le> (of_char c :: nat) \<and> (of_char c :: nat) \<le> 90 then char_of (of_char c + 32 :: nat) else c)"

definition ascii_upper :: "char \<Rightarrow> char" where
  "ascii_upper c =
     (if 97 \<le> (of_char c :: nat) \<and> (of_char c :: nat) \<le> 122 then char_of (of_char c - 32 :: nat) else c)"

definition to_lowercase :: "string \<Rightarrow> string" where
  "to_lowercase s = map ascii_lower s"

definition to_uppercase :: "string \<Rightarrow> string" where
  "to_uppercase s = map ascii_upper s"

definition is_whitespace :: "char \<Rightarrow> bool" where
  "is_whitespace c = ((of_char c :: nat) = 32 \<or> (9 \<le> (of_char c :: nat) \<and> (of_char c :: nat) \<le> 13))"

definition is_ascii_digit :: "char \<Rightarrow> bool" where
  "is_ascii_digit c = (48 \<le> (of_char c :: nat) \<and> (of_char c :: nat) \<le> 57)"

definition starts_with :: "string \<Rightarrow> string \<Rightarrow> bool" where
  "starts_with s p = (take (length p) s = p)"

definition ends_with :: "string \<Rightarrow> string \<Rightarrow> bool" where
  "ends_with s p = (length p \<le> length s \<and> drop (length s - length p) s = p)"

definition strip_prefix :: "string \<Rightarrow> string \<Rightarrow> string option" where
  "strip_prefix s p = (if starts_with s p then Some (drop (length p) s) else None)"

definition strip_suffix :: "string \<Rightarrow> string \<Rightarrow> string option" where
  "strip_suffix s p = (if ends_with s p then Some (take (length s - length p) s) else None)"

text \<open>\<open>str::find\<close> and \<open>str::rfind\<close>: the first and the last position of a substring.\<close>

fun find_str :: "string \<Rightarrow> string \<Rightarrow> nat option" where
  "find_str [] p = (if p = [] then Some 0 else None)"
| "find_str (c # s) p =
     (if starts_with (c # s) p then Some 0 else map_option Suc (find_str s p))"

fun rfind_str :: "string \<Rightarrow> string \<Rightarrow> nat option" where
  "rfind_str [] p = (if p = [] then Some 0 else None)"
| "rfind_str (c # s) p =
     (case rfind_str s p of
        Some i \<Rightarrow> Some (Suc i)
      | None \<Rightarrow> if starts_with (c # s) p then Some 0 else None)"

definition contains :: "string \<Rightarrow> string \<Rightarrow> bool" where
  "contains s p = (find_str s p \<noteq> None)"

definition split_once :: "string \<Rightarrow> string \<Rightarrow> (string \<times> string) option" where
  "split_once s p =
     (case find_str s p of None \<Rightarrow> None | Some i \<Rightarrow> Some (take i s, drop (i + length p) s))"

text \<open>\<open>str::replace\<close>: every occurrence, left to right and without overlap, of a pattern that is
  not empty.\<close>

function replace_str :: "string \<Rightarrow> string \<Rightarrow> string \<Rightarrow> string" where
  "replace_str p q s =
     (if s = [] \<or> p = [] then s
      else if starts_with s p then q @ replace_str p q (drop (length p) s)
      else hd s # replace_str p q (tl s))"
  by pat_completeness auto
termination
  by (relation "measure (\<lambda>(p, q, s). length s)") auto

declare replace_str.simps [simp del]

definition trim_start :: "string \<Rightarrow> string" where
  "trim_start s = dropWhile is_whitespace s"

definition trim_end :: "string \<Rightarrow> string" where
  "trim_end s = rev (dropWhile is_whitespace (rev s))"

definition trim :: "string \<Rightarrow> string" where
  "trim s = trim_end (trim_start s)"

fun split_whitespace_aux :: "string \<Rightarrow> string \<Rightarrow> string list" where
  "split_whitespace_aux acc [] = (if acc = [] then [] else [rev acc])"
| "split_whitespace_aux acc (c # s) =
     (if is_whitespace c
      then (if acc = [] then split_whitespace_aux [] s else rev acc # split_whitespace_aux [] s)
      else split_whitespace_aux (c # acc) s)"

definition split_whitespace :: "string \<Rightarrow> string list" where
  "split_whitespace s = split_whitespace_aux [] s"

definition newline :: char where
  "newline = char_of (10 :: nat)"

definition carriage_return :: char where
  "carriage_return = char_of (13 :: nat)"

definition nul :: char where
  "nul = char_of (0 :: nat)"

text \<open>\<open>str::lines\<close>: the pieces between line feeds; a final line feed opens no further line, and
  a carriage return before a line feed belongs to the line end.\<close>

fun split_lines_aux :: "string \<Rightarrow> string \<Rightarrow> string list" where
  "split_lines_aux acc [] = (if acc = [] then [] else [rev acc])"
| "split_lines_aux acc (c # s) =
     (if c = newline
      then rev (case acc of [] \<Rightarrow> [] | a # as \<Rightarrow> if a = carriage_return then as else acc)
             # split_lines_aux [] s
      else split_lines_aux (c # acc) s)"

definition lines :: "string \<Rightarrow> string list" where
  "lines s = split_lines_aux [] s"

fun join :: "string \<Rightarrow> string list \<Rightarrow> string" where
  "join sep [] = []"
| "join sep [x] = x"
| "join sep (x # y # xs) = x @ sep @ join sep (y # xs)"

text \<open>A position of a string at which it may be sliced: not before a continuation byte.\<close>

definition is_continuation_byte :: "char \<Rightarrow> bool" where
  "is_continuation_byte c = (128 \<le> (of_char c :: nat) \<and> (of_char c :: nat) < 192)"

definition is_char_boundary :: "string \<Rightarrow> nat \<Rightarrow> bool" where
  "is_char_boundary s i =
     (i = 0 \<or> i = length s \<or> (i < length s \<and> \<not> is_continuation_byte (s ! i)))"

text \<open>The UTF-8 unit at the front of a byte sequence: whether it is a valid character, and its length;
  of an invalid one, the length of the part that a decoder replaces as a whole.\<close>

fun utf8_second_ok :: "nat \<Rightarrow> nat \<Rightarrow> bool" where
  "utf8_second_ok a b =
     (if a = 224 then 160 \<le> b \<and> b \<le> 191
      else if a = 237 then 128 \<le> b \<and> b \<le> 159
      else if a = 240 then 144 \<le> b \<and> b \<le> 191
      else if a = 244 then 128 \<le> b \<and> b \<le> 143
      else 128 \<le> b \<and> b \<le> 191)"

definition utf8_width :: "nat \<Rightarrow> nat" where
  "utf8_width a =
     (if a < 128 then 1 else if 194 \<le> a \<and> a \<le> 223 then 2 else if 224 \<le> a \<and> a \<le> 239 then 3
      else if 240 \<le> a \<and> a \<le> 244 then 4 else 0)"

fun utf8_unit :: "string \<Rightarrow> bool \<times> nat" where
  "utf8_unit [] = (True, 0)"
| "utf8_unit (a # s) =
     (let w = utf8_width (of_char a)
      in if w = 0 then (False, 1)
         else if w = 1 then (True, 1)
         else if s = [] \<or> \<not> utf8_second_ok (of_char a) (of_char (hd s)) then (False, 1)
         else (let n = length (takeWhile is_continuation_byte (take (w - 2) (tl s)))
               in (n = w - 2, n + 2)))"

lemma utf8_unit_pos: "(ok, n) = utf8_unit s \<Longrightarrow> s \<noteq> [] \<Longrightarrow> 0 < n"
  by (cases s) (auto simp: Let_def split: if_splits)

function valid_utf8 :: "string \<Rightarrow> bool" where
  "valid_utf8 s =
     (if s = [] then True
      else case utf8_unit s of (ok, n) \<Rightarrow> ok \<and> valid_utf8 (drop n s))"
  by pat_completeness auto
termination
  by (relation "measure length") (auto dest: utf8_unit_pos)

text \<open>\<open>String::from_utf8_lossy\<close>: every invalid unit becomes the replacement character.\<close>

definition replacement_char :: string where
  "replacement_char = map char_of [239, 191, 189 :: nat]"

function from_utf8_lossy :: "string \<Rightarrow> string" where
  "from_utf8_lossy s =
     (if s = [] then []
      else case utf8_unit s of
             (ok, n) \<Rightarrow> (if ok then take n s else replacement_char) @ from_utf8_lossy (drop n s))"
  by pat_completeness auto
termination
  by (relation "measure length") (auto dest: utf8_unit_pos)

declare valid_utf8.simps [simp del] from_utf8_lossy.simps [simp del]

text \<open>\<open>str::chars\<close>: each character as its bytes, a leading byte and its continuation bytes.\<close>

function utf8_chars :: "string \<Rightarrow> string list" where
  "utf8_chars [] = []"
| "utf8_chars (c # s) =
     (c # takeWhile is_continuation_byte s) # utf8_chars (dropWhile is_continuation_byte s)"
  by pat_completeness auto
termination
  by (relation "measure length") (auto simp: le_imp_less_Suc length_dropWhile_le)

text \<open>The decimal \<open>Display\<close> of an unsigned number.\<close>

fun show_nat :: "nat \<Rightarrow> string" where
  "show_nat n =
     (if n < 10 then [char_of (48 + n)] else show_nat (n div 10) @ [char_of (48 + n mod 10)])"

declare show_nat.simps [simp del]

subsection \<open>Their laws\<close>

lemma starts_with_iff: "starts_with s p \<longleftrightarrow> (\<exists>t. s = p @ t)"
  by (metis append_eq_conv_conj append_take_drop_id starts_with_def)

lemma starts_with_length: "starts_with s p \<Longrightarrow> length p \<le> length s"
  by (auto simp: starts_with_iff)

lemma starts_with_append [simp]: "starts_with (p @ t) p"
  by (simp add: starts_with_def)

lemma starts_with_Nil [simp]: "starts_with s []"
  by (simp add: starts_with_def)

lemma starts_with_simps [simp]:
  "starts_with [] (d # p) = False"
  "starts_with (c # s) (d # p) = (c = d \<and> starts_with s p)"
  by (simp_all add: starts_with_def)

lemma starts_with_Cons: "starts_with s (c # p) \<longleftrightarrow> (\<exists>t. s = c # t \<and> starts_with t p)"
  by (auto simp: starts_with_iff)

lemma ends_with_iff: "ends_with s p \<longleftrightarrow> (\<exists>t. s = t @ p)"
proof
  assume "ends_with s p"
  then have "s = take (length s - length p) s @ p"
    by (metis append_take_drop_id ends_with_def)
  then show "\<exists>t. s = t @ p" by blast
next
  assume "\<exists>t. s = t @ p"
  then show "ends_with s p" by (auto simp: ends_with_def)
qed

lemma strip_prefix_Some: "strip_prefix s p = Some t \<longleftrightarrow> s = p @ t"
  by (auto simp: strip_prefix_def starts_with_iff)

lemma strip_prefix_None: "strip_prefix s p = None \<longleftrightarrow> \<not> starts_with s p"
  by (simp add: strip_prefix_def)

lemma strip_suffix_Some: "strip_suffix s p = Some t \<longleftrightarrow> s = t @ p"
  by (auto simp: strip_suffix_def ends_with_iff)

lemma find_str_Some:
  "find_str s p = Some i \<Longrightarrow> i + length p \<le> length s \<and> starts_with (drop i s) p"
proof (induction s arbitrary: i)
  case (Cons c s)
  show ?case
  proof (cases "starts_with (c # s) p")
    case True
    with Cons.prems have "i = 0" by simp
    moreover from True have "length p \<le> length (c # s)" by (rule starts_with_length)
    ultimately show ?thesis using True by simp
  next
    case False
    with Cons.prems obtain j where "find_str s p = Some j" "i = Suc j" by auto
    with Cons.IH show ?thesis by fastforce
  qed
qed (auto split: if_splits)

lemma all_le_Suc_iff: "(\<forall>i \<le> Suc n. P i) \<longleftrightarrow> P 0 \<and> (\<forall>i \<le> n. P (Suc i))"
  by (metis Suc_le_mono le0 not0_implies_Suc)

lemma find_str_None_iff: "find_str s p = None \<longleftrightarrow> (\<forall>i \<le> length s. \<not> starts_with (drop i s) p)"
proof (induction s)
  case (Cons c s)
  then show ?case by (simp add: all_le_Suc_iff)
qed (auto simp: starts_with_def)

lemma find_str_first: "find_str s p = Some i \<Longrightarrow> j < i \<Longrightarrow> \<not> starts_with (drop j s) p"
proof (induction s arbitrary: i j)
  case (Cons c s)
  then show ?case by (cases j) (auto split: if_splits)
qed (auto split: if_splits)

lemma contains_iff: "contains s p \<longleftrightarrow> (\<exists>u v. s = u @ p @ v)"
proof
  assume "contains s p"
  then obtain i where "find_str s p = Some i" by (auto simp: contains_def)
  then obtain v where "drop i s = p @ v"
    using find_str_Some starts_with_iff by blast
  then have "s = take i s @ p @ v" by (metis append_take_drop_id)
  then show "\<exists>u v. s = u @ p @ v" by blast
next
  assume "\<exists>u v. s = u @ p @ v"
  then obtain u v where s: "s = u @ p @ v" by blast
  then have "length u \<le> length s" "starts_with (drop (length u) s) p" by auto
  then have "find_str s p \<noteq> None" using find_str_None_iff by blast
  then show "contains s p" by (simp add: contains_def)
qed

lemma contains_char_iff: "contains s [c] \<longleftrightarrow> c \<in> set s"
  by (auto simp: contains_iff in_set_conv_decomp)

lemma find_char_takeWhile:
  "(case find_str s [c] of Some i \<Rightarrow> take i s | None \<Rightarrow> s) = takeWhile (\<lambda>x. x \<noteq> c) s"
  by (induction s) (auto split: option.splits)

lemma rfind_char_None: "rfind_str s [c] = None \<longleftrightarrow> c \<notin> set s"
  by (induction s) (auto split: option.splits)

lemma rfind_char_last: "c \<notin> set p \<Longrightarrow> rfind_str (a @ c # p) [c] = Some (length a)"
proof (induction a)
  case Nil
  then have "rfind_str p [c] = None" by (simp add: rfind_char_None)
  then show ?case by simp
qed simp

lemma split_once_Some: "split_once s p = Some (a, b) \<Longrightarrow> s = a @ p @ b"
proof -
  assume "split_once s p = Some (a, b)"
  then obtain i where i: "find_str s p = Some i" and a: "a = take i s"
    and b: "b = drop (i + length p) s"
    by (auto simp: split_once_def split: option.splits)
  from i obtain v where v: "drop i s = p @ v"
    using find_str_Some starts_with_iff by blast
  then have "drop (i + length p) s = v"
    by (metis add.commute append_eq_conv_conj drop_drop)
  with a b v show ?thesis by (metis append_take_drop_id)
qed

lemma starts_with_before: "y = [] \<or> hd y \<notin> set p \<Longrightarrow> starts_with (x @ y) p = starts_with x p"
proof (induction p arbitrary: x)
  case (Cons c p)
  then show ?case by (cases x; cases y) auto
qed simp

lemma strip_prefix_before:
  "y = [] \<or> hd y \<notin> set p \<Longrightarrow> strip_prefix (x @ y) p = map_option (\<lambda>r. r @ y) (strip_prefix x p)"
  using starts_with_before [of y p x] starts_with_length [of x p] by (auto simp: strip_prefix_def)

lemma takeWhile_before:
  assumes "y = [] \<or> \<not> Q (hd y)" and "z = [] \<or> \<not> Q (hd z) \<or> (\<exists>c \<in> set b. \<not> Q c)"
  shows "takeWhile Q (b @ y) = takeWhile Q (b @ z)"
  using assms by (cases y; cases z) (auto simp: takeWhile_append takeWhile_eq_all_conv eq_commute [of b])

lemma contains_append2: "contains s v \<Longrightarrow> contains (u @ s) v"
  by (metis append.assoc contains_iff)

lemma contains_Cons_iff: "contains (c # s) v \<longleftrightarrow> starts_with (c # s) v \<or> contains s v"
  by (auto simp: contains_def)

lemma contains_drop: "contains (drop n s) v \<Longrightarrow> contains s v"
  by (metis append_take_drop_id contains_append2)

lemma take_find_char: "find_str s [c] = Some i \<Longrightarrow> c \<notin> set (take i s) \<and> (\<exists>t. drop i s = c # t)"
proof -
  assume i: "find_str s [c] = Some i"
  then have "take i s = takeWhile (\<lambda>x. x \<noteq> c) s" using find_char_takeWhile [of s c] by simp
  then have "c \<notin> set (take i s)" by (metis (full_types) set_takeWhileD)
  moreover have "\<exists>t. drop i s = c # t" using find_str_Some [OF i] by (auto simp: starts_with_iff)
  ultimately show ?thesis by blast
qed

lemma foldl_map: "foldl f a (map g xs) = foldl (\<lambda>r x. f r (g x)) a xs"
  by (induction xs arbitrary: a) simp_all

lemma replace_str_unfold:
  assumes "p \<noteq> []"
  shows "replace_str p q [] = []"
    and "starts_with (c # s) p \<Longrightarrow> replace_str p q (c # s) = q @ replace_str p q (drop (length p) (c # s))"
    and "\<not> starts_with (c # s) p \<Longrightarrow> replace_str p q (c # s) = c # replace_str p q s"
  using assms by (simp_all add: replace_str.simps [of p q "[]"] replace_str.simps [of p q "c # s"])

lemma ascii_lower_idem [simp]: "ascii_lower (ascii_lower c) = ascii_lower c"
  by (auto simp: ascii_lower_def)

lemma to_lowercase_idem [simp]: "to_lowercase (to_lowercase s) = to_lowercase s"
  by (simp add: to_lowercase_def)

lemma to_lowercase_append [simp]: "to_lowercase (s @ t) = to_lowercase s @ to_lowercase t"
  by (simp add: to_lowercase_def)

lemma length_to_lowercase [simp]: "length (to_lowercase s) = length s"
  by (simp add: to_lowercase_def)

lemma to_lowercase_Nil [simp]: "to_lowercase [] = []" "to_lowercase s = [] \<longleftrightarrow> s = []"
  by (simp_all add: to_lowercase_def)

lemma concat_utf8_chars [simp]: "concat (utf8_chars s) = s"
  by (induction s rule: utf8_chars.induct) simp_all

lemma from_utf8_lossy_valid: "valid_utf8 s \<Longrightarrow> from_utf8_lossy s = s"
proof (induction s rule: valid_utf8.induct)
  case (1 s)
  show ?case
  proof (cases "s = []")
    case False
    obtain ok n where u: "utf8_unit s = (ok, n)" by (cases "utf8_unit s")
    with "1.prems" False have "ok" "valid_utf8 (drop n s)" by (subst (asm) valid_utf8.simps, simp)+
    with "1.IH" [OF False u [symmetric]] u False show ?thesis by (subst from_utf8_lossy.simps) simp
  qed (simp add: from_utf8_lossy.simps)
qed

lemma valid_utf8_ascii: "list_all (\<lambda>c. (of_char c :: nat) < 128) s \<Longrightarrow> valid_utf8 s"
proof (induction s)
  case (Cons c s)
  then show ?case by (subst valid_utf8.simps) (simp add: Let_def utf8_width_def)
qed (simp add: valid_utf8.simps)

lemma length_utf8_chars: "length (utf8_chars s) \<le> length s"
proof (induction s rule: utf8_chars.induct)
  case (2 c s)
  then show ?case using length_dropWhile_le [of is_continuation_byte s] by simp
qed simp

end
