(* ===== verification/Containers.thy ===== *)
theory Containers
  imports Rust_Prelude
begin

text \<open>
  The containers the components keep their state in, and the two contracts the components rely
  on. \<open>key_value\<close> is the contract of a keyed store (\<open>HashMap\<close> behind a lock), discharged here
  by association lists with distinct keys. \<open>capped_history\<close> is the contract of a history that
  drops its oldest entries beyond a limit; the job transition log and the undo stack discharge it
  in their own theories.
\<close>

section \<open>HashMap\<close>

type_synonym ('k, 'v) hash_map = "('k \<times> 'v) list"

definition hm_get :: "('k, 'v) hash_map \<Rightarrow> 'k \<Rightarrow> 'v option" where
  "hm_get m k = map_of m k"

definition hm_insert :: "'k \<Rightarrow> 'v \<Rightarrow> ('k, 'v) hash_map \<Rightarrow> ('k, 'v) hash_map" where
  "hm_insert k v m = AList.update k v m"

definition hm_remove :: "'k \<Rightarrow> ('k, 'v) hash_map \<Rightarrow> ('k, 'v) hash_map" where
  "hm_remove k m = AList.delete k m"

definition hm_contains :: "('k, 'v) hash_map \<Rightarrow> 'k \<Rightarrow> bool" where
  "hm_contains m k = (hm_get m k \<noteq> None)"

text \<open>\<open>entry(k).or_insert_with(\<dots>)\<close>: the map afterwards.\<close>

definition hm_or_insert :: "'k \<Rightarrow> 'v \<Rightarrow> ('k, 'v) hash_map \<Rightarrow> ('k, 'v) hash_map" where
  "hm_or_insert k v m = (case hm_get m k of Some _ \<Rightarrow> m | None \<Rightarrow> hm_insert k v m)"

definition hm_ok :: "('k, 'v) hash_map \<Rightarrow> bool" where
  "hm_ok m = distinct (map fst m)"

locale key_value =
  fixes get :: "'m \<Rightarrow> 'k \<Rightarrow> 'v option"
    and insert :: "'k \<Rightarrow> 'v \<Rightarrow> 'm \<Rightarrow> 'm"
    and remove :: "'k \<Rightarrow> 'm \<Rightarrow> 'm"
  assumes get_insert: "get (insert k v m) k' = (if k' = k then Some v else get m k')"
    and get_remove: "get (remove k m) k' = (if k' = k then None else get m k')"
begin

lemma get_insert_same: "get (insert k v m) k = Some v"
  by (simp add: get_insert)

lemma get_insert_other: "k' \<noteq> k \<Longrightarrow> get (insert k v m) k' = get m k'"
  by (simp add: get_insert)

lemma get_or_insert:
  "get (case get m k of Some _ \<Rightarrow> m | None \<Rightarrow> insert k v m) k' =
     (if k' = k \<and> get m k = None then Some v else get m k')"
  by (auto simp: get_insert split: option.splits)

lemma get_remove_all: "get (fold remove ks m) k = (if k \<in> set ks then None else get m k)"
  by (induction ks arbitrary: m) (auto simp: get_remove)

end

interpretation hm: key_value hm_get hm_insert hm_remove
  by unfold_locales (simp_all add: hm_get_def hm_insert_def hm_remove_def
      update_conv' AList.delete_conv' map_upd_Some_unfold)

lemmas hm_simps [simp] = hm.get_insert hm.get_remove

lemma hm_get_or_insert [simp]:
  "hm_get (hm_or_insert k v m) k' = (if k' = k \<and> hm_get m k = None then Some v else hm_get m k')"
  unfolding hm_or_insert_def by (rule hm.get_or_insert)

lemma set_hm_insert: "set (hm_insert k v m) \<subseteq> insert (k, v) (set m)"
  by (induction m) (auto simp: hm_insert_def)

lemma hm_remove_set: "set (hm_remove k m) \<subseteq> set m"
  by (auto simp: hm_remove_def AList.delete_eq)

lemma hm_get_Nil [simp]: "hm_get [] k = None"
  by (simp add: hm_get_def)

lemma hm_ok_Nil [simp]: "hm_ok []"
  by (simp add: hm_ok_def)

lemma hm_ok_insert [intro, simp]: "hm_ok m \<Longrightarrow> hm_ok (hm_insert k v m)"
  by (simp add: hm_ok_def hm_insert_def distinct_update)

lemma hm_ok_or_insert [intro, simp]: "hm_ok m \<Longrightarrow> hm_ok (hm_or_insert k v m)"
  by (auto simp: hm_or_insert_def split: option.splits)

lemma hm_ok_remove [intro, simp]: "hm_ok m \<Longrightarrow> hm_ok (hm_remove k m)"
  by (simp add: hm_ok_def hm_remove_def distinct_delete)

lemma hm_ok_filter [intro, simp]: "hm_ok m \<Longrightarrow> hm_ok (filter P m)"
  by (simp add: hm_ok_def distinct_map_filter)

lemma hm_get_filter:
  "hm_ok m \<Longrightarrow> hm_get (filter P m) k =
     (case hm_get m k of Some v \<Rightarrow> if P (k, v) then Some v else None | None \<Rightarrow> None)"
proof (induction m)
  case (Cons kv m)
  have "fst kv \<notin> set (map fst m) \<Longrightarrow> map_of (filter P m) (fst kv) = None"
    by (auto simp: map_of_eq_None_iff)
  with Cons show ?case by (auto simp: hm_ok_def hm_get_def split: option.splits)
qed simp

lemma hm_get_Some_iff: "hm_ok m \<Longrightarrow> hm_get m k = Some v \<longleftrightarrow> (k, v) \<in> set m"
  by (simp add: hm_ok_def hm_get_def)

text \<open>Counting the values of a map that satisfy a predicate, through an insertion.\<close>

definition hm_count :: "('v \<Rightarrow> bool) \<Rightarrow> ('k, 'v) hash_map \<Rightarrow> nat" where
  "hm_count P m = length (filter P (map snd m))"

lemma hm_count_insert_new:
  "hm_get m k = None \<Longrightarrow> hm_count P (hm_insert k v m) = hm_count P m + (if P v then 1 else 0)"
  by (induction m) (auto simp: hm_get_def hm_count_def hm_insert_def split: if_splits)

lemma hm_count_insert_old:
  "hm_ok m \<Longrightarrow> hm_get m k = Some w \<Longrightarrow>
     hm_count P (hm_insert k v m) + (if P w then 1 else 0) = hm_count P m + (if P v then 1 else 0)"
  by (induction m) (auto simp: hm_get_def hm_ok_def hm_count_def hm_insert_def split: if_splits)

lemma hm_remove_absent: "hm_get m k = None \<Longrightarrow> hm_remove k m = m"
  by (simp add: hm_get_def hm_remove_def map_of_eq_None_iff AList.delete_id)

lemma hm_count_remove:
  "hm_ok m \<Longrightarrow> hm_count P (hm_remove k m) \<le> hm_count P m"
  by (induction m) (auto simp: hm_ok_def hm_count_def hm_remove_def AList.delete_eq split: if_splits)

section \<open>Capped histories\<close>

definition last_n :: "nat \<Rightarrow> 'a list \<Rightarrow> 'a list" where
  "last_n n xs = drop (length xs - n) xs"

lemma length_last_n [simp]: "length (last_n n xs) = min n (length xs)"
  by (simp add: last_n_def)

lemma last_n_all: "length xs \<le> n \<Longrightarrow> last_n n xs = xs"
  by (simp add: last_n_def)

lemma set_last_n: "set (last_n n xs) \<subseteq> set xs"
  by (simp add: last_n_def set_drop_subset)

lemma list_all_last_n: "list_all P xs \<Longrightarrow> list_all P (last_n n xs)"
  using set_last_n [of n xs] by (auto simp: list_all_iff)

lemma last_n_append_last_n: "last_n n (last_n n xs @ ys) = last_n n (xs @ ys)"
proof (cases "length xs \<le> n")
  case True
  then show ?thesis by (simp add: last_n_all)
next
  case False
  then have "length xs - n + n = length xs" by simp
  with False show ?thesis
    by (simp add: last_n_def drop_append) (metis Nat.add_diff_assoc add.commute nat_le_linear)
qed

lemma last_n_suffix: "suffix (last_n n xs) xs"
  by (simp add: last_n_def suffix_drop)

locale capped_history =
  fixes items :: "'s \<Rightarrow> 'a list"
    and push :: "'a \<Rightarrow> 's \<Rightarrow> 's"
    and cap :: "'s \<Rightarrow> nat"
  assumes items_push: "items (push x s) = last_n (cap s) (items s @ [x])"
    and cap_push: "cap (push x s) = cap s"
begin

lemma length_items_push: "length (items (push x s)) \<le> cap s"
  by (simp add: items_push)

lemma cap_pushes: "cap (fold push xs s) = cap s"
  by (induction xs arbitrary: s) (simp_all add: cap_push)

lemma items_pushes:
  "length (items s) \<le> cap s \<Longrightarrow> items (fold push xs s) = last_n (cap s) (items s @ xs)"
proof (induction xs arbitrary: s)
  case Nil
  then show ?case by (simp add: last_n_all)
next
  case (Cons x xs)
  have "items (fold push xs (push x s)) = last_n (cap (push x s)) (items (push x s) @ xs)"
    by (rule Cons.IH) (simp add: cap_push length_items_push)
  then show ?case
    by (simp add: cap_push items_push last_n_append_last_n)
qed

lemma newest_kept: "0 < cap s \<Longrightarrow> items (push x s) \<noteq> [] \<and> last (items (push x s)) = x"
  by (auto simp: items_push last_n_def last_drop)

end

end
