(* ===== verification/Chat_Message.thy ===== *)
theory Chat_Message
  imports Rust_Prelude
begin

text \<open>
  The conversation messages of \<open>src/llm/provider.rs\<close> that sessions, checkpoints and job memories
  hold.
\<close>

datatype attachment =
    ImageUrl string
  | ImageBase64 string string

datatype role = System | User | Assistant | ToolRole

record tool_call =
  tc_id :: string
  tc_name :: string
  tc_arguments :: json

record chat_message =
  cm_role :: role
  cm_content :: string
  cm_attachments :: "attachment list"
  cm_tool_call_id :: "string option"
  cm_name :: "string option"
  cm_tool_calls :: "tool_call list option"

definition cm_system :: "string \<Rightarrow> chat_message" where
  "cm_system content =
     \<lparr>cm_role = System, cm_content = content, cm_attachments = [], cm_tool_call_id = None,
      cm_name = None, cm_tool_calls = None\<rparr>"

definition cm_user :: "string \<Rightarrow> chat_message" where
  "cm_user content =
     \<lparr>cm_role = User, cm_content = content, cm_attachments = [], cm_tool_call_id = None,
      cm_name = None, cm_tool_calls = None\<rparr>"

definition cm_user_with_attachments :: "string \<Rightarrow> attachment list \<Rightarrow> chat_message" where
  "cm_user_with_attachments content atts =
     \<lparr>cm_role = User, cm_content = content, cm_attachments = atts, cm_tool_call_id = None,
      cm_name = None, cm_tool_calls = None\<rparr>"

definition cm_assistant :: "string \<Rightarrow> chat_message" where
  "cm_assistant content =
     \<lparr>cm_role = Assistant, cm_content = content, cm_attachments = [], cm_tool_call_id = None,
      cm_name = None, cm_tool_calls = None\<rparr>"

definition cm_assistant_with_tool_calls :: "string option \<Rightarrow> tool_call list \<Rightarrow> chat_message" where
  "cm_assistant_with_tool_calls content calls =
     \<lparr>cm_role = Assistant, cm_content = (case content of Some c \<Rightarrow> c | None \<Rightarrow> []),
      cm_attachments = [], cm_tool_call_id = None, cm_name = None,
      cm_tool_calls = (if calls = [] then None else Some calls)\<rparr>"

definition cm_tool_result :: "string \<Rightarrow> string \<Rightarrow> string \<Rightarrow> chat_message" where
  "cm_tool_result call_id tool content =
     \<lparr>cm_role = ToolRole, cm_content = content, cm_attachments = [], cm_tool_call_id = Some call_id,
      cm_name = Some tool, cm_tool_calls = None\<rparr>"

lemma cm_role_simps [simp]:
  "cm_role (cm_system c) = System"
  "cm_role (cm_user c) = User"
  "cm_role (cm_user_with_attachments c as) = User"
  "cm_role (cm_assistant c) = Assistant"
  by (simp_all add: cm_system_def cm_user_def cm_user_with_attachments_def cm_assistant_def)

lemma cm_content_simps [simp]:
  "cm_content (cm_system c) = c"
  "cm_content (cm_user c) = c"
  "cm_content (cm_user_with_attachments c as) = c"
  "cm_content (cm_assistant c) = c"
  by (simp_all add: cm_system_def cm_user_def cm_user_with_attachments_def cm_assistant_def)

end
