(* ===== verification/Session_Model.thy ===== *)
theory Session_Model
  imports Containers Chat_Message
begin

text \<open>
  Sessions, threads and turns, \<open>src/agent/session.rs\<close>. An operation on \<open>&mut self\<close> is a
  function to the object afterwards. All \<open>Utc::now\<close> calls of one operation are its argument
  \<open>now\<close>, and the identifiers it draws are arguments.
\<close>

section \<open>Turns\<close>

datatype turn_state = TurnProcessing | TurnCompleted | TurnFailed | TurnInterrupted

record turn_tool_call =
  ttc_name :: string
  ttc_parameters :: json
  ttc_result :: "json option"
  ttc_error :: "string option"

record turn =
  turn_number :: nat
  turn_user_input :: string
  turn_attachments :: "attachment list"
  turn_response :: "string option"
  turn_tool_calls :: "turn_tool_call list"
  turn_state :: turn_state
  turn_started_at :: time
  turn_completed_at :: "time option"
  turn_error :: "string option"

definition turn_new :: "time \<Rightarrow> nat \<Rightarrow> string \<Rightarrow> turn" where
  "turn_new now n user_input =
     \<lparr>turn_number = n, turn_user_input = user_input, turn_attachments = [], turn_response = None,
      turn_tool_calls = [], turn_state = TurnProcessing, turn_started_at = now,
      turn_completed_at = None, turn_error = None\<rparr>"

definition turn_complete :: "time \<Rightarrow> string \<Rightarrow> turn \<Rightarrow> turn" where
  "turn_complete now response t =
     t\<lparr>turn_response := Some response, turn_state := TurnCompleted, turn_completed_at := Some now\<rparr>"

definition turn_fail :: "time \<Rightarrow> string \<Rightarrow> turn \<Rightarrow> turn" where
  "turn_fail now err t =
     t\<lparr>turn_error := Some err, turn_state := TurnFailed, turn_completed_at := Some now\<rparr>"

definition turn_interrupt :: "time \<Rightarrow> turn \<Rightarrow> turn" where
  "turn_interrupt now t = t\<lparr>turn_state := TurnInterrupted, turn_completed_at := Some now\<rparr>"

definition record_tool_call :: "string \<Rightarrow> json \<Rightarrow> turn \<Rightarrow> turn" where
  "record_tool_call name params t =
     t\<lparr>turn_tool_calls := turn_tool_calls t @
        [\<lparr>ttc_name = name, ttc_parameters = params, ttc_result = None, ttc_error = None\<rparr>]\<rparr>"

text \<open>\<open>last_mut\<close>: an update of the last element, if there is one.\<close>

definition update_last :: "('a \<Rightarrow> 'a) \<Rightarrow> 'a list \<Rightarrow> 'a list" where
  "update_last f xs = (if xs = [] then [] else butlast xs @ [f (last xs)])"

definition record_tool_result :: "json \<Rightarrow> turn \<Rightarrow> turn" where
  "record_tool_result result t =
     t\<lparr>turn_tool_calls := update_last (\<lambda>c. c\<lparr>ttc_result := Some result\<rparr>) (turn_tool_calls t)\<rparr>"

definition record_tool_error :: "string \<Rightarrow> turn \<Rightarrow> turn" where
  "record_tool_error err t =
     t\<lparr>turn_tool_calls := update_last (\<lambda>c. c\<lparr>ttc_error := Some err\<rparr>) (turn_tool_calls t)\<rparr>"

section \<open>Threads\<close>

datatype thread_state = TIdle | TProcessing | TAwaitingApproval | TCompleted | TInterrupted

record pending_auth =
  pa_extension_name :: string

record pending_approval =
  pap_request_id :: uuid
  pap_tool_name :: string
  pap_parameters :: json
  pap_description :: string
  pap_tool_call_id :: string
  pap_context_messages :: "chat_message list"

record thread =
  thr_id :: uuid
  thr_session_id :: uuid
  thr_state :: thread_state
  thr_turns :: "turn list"
  thr_created_at :: time
  thr_updated_at :: time
  thr_metadata :: json
  thr_pending_approval :: "pending_approval option"
  thr_pending_auth :: "pending_auth option"
  thr_last_response_id :: "string option"

definition thread_with_id :: "time \<Rightarrow> uuid \<Rightarrow> uuid \<Rightarrow> thread" where
  "thread_with_id now i session_id =
     \<lparr>thr_id = i, thr_session_id = session_id, thr_state = TIdle, thr_turns = [],
      thr_created_at = now, thr_updated_at = now, thr_metadata = JNull,
      thr_pending_approval = None, thr_pending_auth = None, thr_last_response_id = None\<rparr>"

definition thread_new :: "uuid \<Rightarrow> time \<Rightarrow> uuid \<Rightarrow> thread" where
  "thread_new new_id now session_id =
     \<lparr>thr_id = new_id, thr_session_id = session_id, thr_state = TIdle, thr_turns = [],
      thr_created_at = now, thr_updated_at = now, thr_metadata = JNull,
      thr_pending_approval = None, thr_pending_auth = None, thr_last_response_id = None\<rparr>"

definition thread_turn_number :: "thread \<Rightarrow> nat" where
  "thread_turn_number t = length (thr_turns t) + 1"

definition last_turn :: "thread \<Rightarrow> turn option" where
  "last_turn t = (if thr_turns t = [] then None else Some (last (thr_turns t)))"

definition start_turn :: "time \<Rightarrow> string \<Rightarrow> thread \<Rightarrow> thread" where
  "start_turn now user_input t =
     t\<lparr>thr_turns := thr_turns t @ [turn_new now (length (thr_turns t)) user_input],
       thr_state := TProcessing, thr_updated_at := now\<rparr>"

definition complete_turn :: "time \<Rightarrow> string \<Rightarrow> thread \<Rightarrow> thread" where
  "complete_turn now response t =
     t\<lparr>thr_turns := update_last (turn_complete now response) (thr_turns t),
       thr_state := TIdle, thr_updated_at := now\<rparr>"

definition fail_turn :: "time \<Rightarrow> string \<Rightarrow> thread \<Rightarrow> thread" where
  "fail_turn now err t =
     t\<lparr>thr_turns := update_last (turn_fail now err) (thr_turns t),
       thr_state := TIdle, thr_updated_at := now\<rparr>"

definition await_approval :: "time \<Rightarrow> pending_approval \<Rightarrow> thread \<Rightarrow> thread" where
  "await_approval now pending t =
     t\<lparr>thr_state := TAwaitingApproval, thr_pending_approval := Some pending, thr_updated_at := now\<rparr>"

definition take_pending_approval :: "thread \<Rightarrow> pending_approval option \<times> thread" where
  "take_pending_approval t = (thr_pending_approval t, t\<lparr>thr_pending_approval := None\<rparr>)"

definition clear_pending_approval :: "time \<Rightarrow> thread \<Rightarrow> thread" where
  "clear_pending_approval now t =
     t\<lparr>thr_pending_approval := None, thr_state := TIdle, thr_updated_at := now\<rparr>"

definition enter_auth_mode :: "time \<Rightarrow> string \<Rightarrow> thread \<Rightarrow> thread" where
  "enter_auth_mode now extension_name t =
     t\<lparr>thr_pending_auth := Some \<lparr>pa_extension_name = extension_name\<rparr>, thr_updated_at := now\<rparr>"

definition take_pending_auth :: "thread \<Rightarrow> pending_auth option \<times> thread" where
  "take_pending_auth t = (thr_pending_auth t, t\<lparr>thr_pending_auth := None\<rparr>)"

definition thread_interrupt :: "time \<Rightarrow> thread \<Rightarrow> thread" where
  "thread_interrupt now t =
     t\<lparr>thr_turns := update_last (turn_interrupt now) (thr_turns t),
       thr_state := TInterrupted, thr_updated_at := now\<rparr>"

definition thread_resume :: "time \<Rightarrow> thread \<Rightarrow> thread" where
  "thread_resume now t =
     (if thr_state t = TInterrupted then t\<lparr>thr_state := TIdle, thr_updated_at := now\<rparr> else t)"

definition turn_messages :: "turn \<Rightarrow> chat_message list" where
  "turn_messages u =
     (if turn_attachments u = [] then cm_user (turn_user_input u)
      else cm_user_with_attachments (turn_user_input u) (turn_attachments u))
     # (case turn_response u of Some r \<Rightarrow> [cm_assistant r] | None \<Rightarrow> [])"

definition thread_messages :: "thread \<Rightarrow> chat_message list" where
  "thread_messages t = concat (map turn_messages (thr_turns t))"

definition set_current_turn_attachments :: "attachment list \<Rightarrow> thread \<Rightarrow> thread" where
  "set_current_turn_attachments atts t =
     t\<lparr>thr_turns := update_last (\<lambda>u. u\<lparr>turn_attachments := atts\<rparr>) (thr_turns t)\<rparr>"

text \<open>The \<open>enumerate\<close> loop of \<open>truncate_turns\<close>.\<close>

fun renumber :: "nat \<Rightarrow> turn list \<Rightarrow> turn list" where
  "renumber i [] = []"
| "renumber i (u # us) = u\<lparr>turn_number := i\<rparr> # renumber (Suc i) us"

definition truncate_turns :: "nat \<Rightarrow> thread \<Rightarrow> thread" where
  "truncate_turns keep t =
     (if keep < length (thr_turns t)
      then t\<lparr>thr_turns := renumber 0 (drop (length (thr_turns t) - keep) (thr_turns t))\<rparr>
      else t)"

text \<open>The \<open>while let\<close> loop of \<open>restore_from_messages\<close>, with the peek at the next message.\<close>

fun restore_turns :: "time \<Rightarrow> nat \<Rightarrow> chat_message list \<Rightarrow> turn list" where
  "restore_turns now n [] = []"
| "restore_turns now n (m # ms) =
     (if cm_role m = User then
        (case ms of
           [] \<Rightarrow> [turn_new now n (cm_content m)]
         | r # ms' \<Rightarrow>
             (if cm_role r = Assistant
              then turn_complete now (cm_content r) (turn_new now n (cm_content m))
                     # restore_turns now (Suc n) ms'
              else turn_new now n (cm_content m) # restore_turns now (Suc n) ms))
      else restore_turns now n ms)"

definition restore_from_messages :: "time \<Rightarrow> chat_message list \<Rightarrow> thread \<Rightarrow> thread" where
  "restore_from_messages now ms t =
     t\<lparr>thr_turns := restore_turns now 0 ms, thr_state := TIdle, thr_updated_at := now\<rparr>"

section \<open>Sessions\<close>

record session =
  ses_id :: uuid
  ses_user_id :: string
  ses_active_thread :: "uuid option"
  ses_threads :: "(uuid, thread) hash_map"
  ses_created_at :: time
  ses_last_active_at :: time
  ses_metadata :: json
  ses_auto_approved_tools :: "string list"

definition session_new :: "uuid \<Rightarrow> time \<Rightarrow> string \<Rightarrow> session" where
  "session_new new_id now user_id =
     \<lparr>ses_id = new_id, ses_user_id = user_id, ses_active_thread = None, ses_threads = [],
      ses_created_at = now, ses_last_active_at = now, ses_metadata = JNull,
      ses_auto_approved_tools = []\<rparr>"

definition is_tool_auto_approved :: "string \<Rightarrow> session \<Rightarrow> bool" where
  "is_tool_auto_approved tool s = (tool \<in> set (ses_auto_approved_tools s))"

definition auto_approve_tool :: "string \<Rightarrow> session \<Rightarrow> session" where
  "auto_approve_tool tool s =
     s\<lparr>ses_auto_approved_tools := List.insert tool (ses_auto_approved_tools s)\<rparr>"

definition create_thread :: "uuid \<Rightarrow> time \<Rightarrow> session \<Rightarrow> session" where
  "create_thread new_id now s =
     (let thr = thread_new new_id now (ses_id s)
      in s\<lparr>ses_threads := hm_insert (thr_id thr) thr (ses_threads s),
           ses_active_thread := Some (thr_id thr), ses_last_active_at := now\<rparr>)"

definition active_thread :: "session \<Rightarrow> thread option" where
  "active_thread s = Option.bind (ses_active_thread s) (hm_get (ses_threads s))"

text \<open>\<open>get_or_create_thread\<close> unwraps the active thread with \<open>expect\<close>: \<open>None\<close> is the panic
  of an active identifier with no thread behind it.\<close>

definition get_or_create_thread :: "uuid \<Rightarrow> time \<Rightarrow> session \<Rightarrow> (thread \<times> session) option" where
  "get_or_create_thread new_id now s =
     (let s1 = (if ses_active_thread s = None then create_thread new_id now s else s)
      in map_option (\<lambda>t. (t, s1)) (active_thread s1))"

definition switch_thread :: "uuid \<Rightarrow> time \<Rightarrow> session \<Rightarrow> bool \<times> session" where
  "switch_thread thread_id now s =
     (if hm_contains (ses_threads s) thread_id
      then (True, s\<lparr>ses_active_thread := Some thread_id, ses_last_active_at := now\<rparr>)
      else (False, s))"

section \<open>Invariants\<close>

text \<open>The number of each turn is its position.\<close>

definition turns_numbered :: "thread \<Rightarrow> bool" where
  "turns_numbered t \<longleftrightarrow> map turn_number (thr_turns t) = [0..<length (thr_turns t)]"

text \<open>The active thread of a session is one of its threads.\<close>

definition session_ok :: "session \<Rightarrow> bool" where
  "session_ok s \<longleftrightarrow>
     hm_ok (ses_threads s) \<and>
     (case ses_active_thread s of None \<Rightarrow> True | Some i \<Rightarrow> hm_contains (ses_threads s) i)"

section \<open>Lemmas\<close>

lemma update_last_simps [simp]:
  "length (update_last f xs) = length xs"
  "update_last f [] = []"
  "update_last f (xs @ [x]) = xs @ [f x]"
  by (simp_all add: update_last_def)

lemma map_update_last: "(\<And>x. g (f x) = g x) \<Longrightarrow> map g (update_last f xs) = map g xs"
  by (cases xs rule: rev_cases) simp_all

lemma turn_number_frame [frame, simp]:
  "turn_number (turn_complete now r u) = turn_number u"
  "turn_number (turn_fail now e u) = turn_number u"
  "turn_number (turn_interrupt now u) = turn_number u"
  "turn_number (turn_new now n s) = n"
  by (simp_all add: turn_complete_def turn_fail_def turn_interrupt_def turn_new_def)

lemma length_renumber [simp]: "length (renumber i us) = length us"
  by (induction us arbitrary: i) simp_all

fun numbered_from :: "nat \<Rightarrow> turn list \<Rightarrow> bool" where
  "numbered_from n [] = True"
| "numbered_from n (u # us) = (turn_number u = n \<and> numbered_from (Suc n) us)"

lemma numbered_from_iff: "numbered_from n us \<longleftrightarrow> map turn_number us = [n..<n + length us]"
proof (induction us arbitrary: n)
  case (Cons u us)
  have "[n..<n + length (u # us)] = n # [Suc n..<Suc n + length us]"
    by (simp add: upt_conv_Cons del: upt_Suc)
  with Cons show ?case by (simp del: upt_Suc)
qed simp

lemma numbered_from_renumber: "numbered_from i (renumber i us)"
  by (induction us arbitrary: i) simp_all

lemma renumber_user_inputs: "map turn_user_input (renumber i us) = map turn_user_input us"
  by (induction us arbitrary: i) simp_all

lemma numbered_from_restore: "numbered_from n (restore_turns now n ms)"
  by (induction now n ms rule: restore_turns.induct) (auto split: list.split)

lemmas map_turn_number_renumber = numbered_from_renumber [unfolded numbered_from_iff]
lemmas restore_turns_numbers = numbered_from_restore [unfolded numbered_from_iff]

lemma turns_numbered_ops:
  "turns_numbered t \<Longrightarrow> turns_numbered (start_turn now s t)"
  "turns_numbered t \<Longrightarrow> turns_numbered (complete_turn now s t)"
  "turns_numbered t \<Longrightarrow> turns_numbered (fail_turn now s t)"
  "turns_numbered t \<Longrightarrow> turns_numbered (thread_interrupt now t)"
  "turns_numbered t \<Longrightarrow> turns_numbered (set_current_turn_attachments as t)"
  "turns_numbered t \<Longrightarrow> turns_numbered (truncate_turns k t)"
  "turns_numbered (restore_from_messages now ms t)"
  by (simp_all add: turns_numbered_def start_turn_def complete_turn_def fail_turn_def
      thread_interrupt_def set_current_turn_attachments_def truncate_turns_def
      restore_from_messages_def map_update_last map_turn_number_renumber
      restore_turns_numbers [where n = 0, simplified])

text \<open>What a round trip through messages keeps of a turn: its input and its response.\<close>

definition strip_attachments :: "chat_message \<Rightarrow> chat_message" where
  "strip_attachments m = m\<lparr>cm_attachments := []\<rparr>"

lemma strip_attachments_user [simp]:
  "strip_attachments (cm_user c) = cm_user c"
  "strip_attachments (cm_user_with_attachments c as) = cm_user c"
  "strip_attachments (cm_assistant c) = cm_assistant c"
  by (simp_all add: strip_attachments_def cm_user_def cm_user_with_attachments_def cm_assistant_def)

lemma turn_messages_restored [simp]:
  "turn_messages (turn_new now n c) = [cm_user c]"
  "turn_messages (turn_complete now r (turn_new now n c)) = [cm_user c, cm_assistant r]"
  by (simp_all add: turn_messages_def turn_new_def turn_complete_def)

lemma turn_messages_cases:
  obtains (no_reply) m where "turn_messages u = [m]" "cm_role m = User"
      "strip_attachments m = cm_user (cm_content m)"
  | (reply) m r where "turn_messages u = [m, cm_assistant r]" "cm_role m = User"
      "strip_attachments m = cm_user (cm_content m)"
  by (cases "turn_response u"; cases "turn_attachments u") (auto simp: turn_messages_def)

lemma restore_turns_of_messages:
  "concat (map turn_messages (restore_turns now n (concat (map turn_messages us)))) =
     map strip_attachments (concat (map turn_messages us))"
proof (induction us arbitrary: n)
  case (Cons u us)
  show ?case
  proof (cases u rule: turn_messages_cases)
    case (reply m r)
    with Cons.IH [of "Suc n"] show ?thesis by simp
  next
    case (no_reply m)
    show ?thesis
    proof (cases us)
      case Nil
      with no_reply show ?thesis by simp
    next
      case (Cons v vs)
      then obtain m' rest where ms: "concat (map turn_messages us) = m' # rest" "cm_role m' = User"
        by (cases v rule: turn_messages_cases) auto
      with no_reply Cons.IH [of "Suc n"] show ?thesis by simp
    qed
  qed
qed simp

lemma create_thread_threads [simp]:
  "hm_get (ses_threads (create_thread i now s)) k =
     (if k = i then Some (thread_new i now (ses_id s)) else hm_get (ses_threads s) k)"
  by (simp add: create_thread_def Let_def thread_new_def)

lemma create_thread_frame [frame]:
  "ses_active_thread (create_thread i now s) = Some i"
  "ses_user_id (create_thread i now s) = ses_user_id s"
  "ses_last_active_at (create_thread i now s) = now"
  by (simp_all add: create_thread_def Let_def thread_new_def)

lemma session_ok_create: "session_ok s \<Longrightarrow> session_ok (create_thread i now s)"
  by (simp add: session_ok_def create_thread_def Let_def thread_new_def hm_contains_def)

section \<open>Reachable threads\<close>

inductive thread_step :: "thread \<Rightarrow> thread \<Rightarrow> bool" where
  thr_start: "thread_step t (start_turn now s t)"
| thr_complete: "thread_step t (complete_turn now s t)"
| thr_fail: "thread_step t (fail_turn now s t)"
| thr_await: "thread_step t (await_approval now p t)"
| thr_take_approval: "thread_step t (snd (take_pending_approval t))"
| thr_clear_approval: "thread_step t (clear_pending_approval now t)"
| thr_auth: "thread_step t (enter_auth_mode now e t)"
| thr_take_auth: "thread_step t (snd (take_pending_auth t))"
| thr_interrupt: "thread_step t (thread_interrupt now t)"
| thr_resume: "thread_step t (thread_resume now t)"
| thr_attach: "thread_step t (set_current_turn_attachments as t)"
| thr_truncate: "thread_step t (truncate_turns k t)"
| thr_restore: "thread_step t (restore_from_messages now ms t)"

inductive_cases thread_stepE: "thread_step t t'"

lemma turns_numbered_other [frame]:
  "turns_numbered (await_approval now p t) = turns_numbered t"
  "turns_numbered (snd (take_pending_approval t)) = turns_numbered t"
  "turns_numbered (clear_pending_approval now t) = turns_numbered t"
  "turns_numbered (enter_auth_mode now e t) = turns_numbered t"
  "turns_numbered (snd (take_pending_auth t)) = turns_numbered t"
  "turns_numbered (thread_resume now t) = turns_numbered t"
  by (simp_all add: turns_numbered_def await_approval_def take_pending_approval_def
      clear_pending_approval_def enter_auth_mode_def take_pending_auth_def thread_resume_def)

lemma turns_numbered_step: "thread_step t t' \<Longrightarrow> turns_numbered t \<Longrightarrow> turns_numbered t'"
  by (erule thread_stepE) (simp_all add: frame turns_numbered_ops)

text \<open>What the restored turns say depends on the messages only, not on the clock.\<close>

fun restored_messages :: "chat_message list \<Rightarrow> chat_message list list" where
  "restored_messages [] = []"
| "restored_messages (m # ms) =
     (if cm_role m = User then
        (case ms of
           [] \<Rightarrow> [[cm_user (cm_content m)]]
         | r # ms' \<Rightarrow>
             (if cm_role r = Assistant
              then [cm_user (cm_content m), cm_assistant (cm_content r)] # restored_messages ms'
              else [cm_user (cm_content m)] # restored_messages ms))
      else restored_messages ms)"

lemma turn_messages_restore: "map turn_messages (restore_turns now n ms) = restored_messages ms"
  by (induction now n ms rule: restore_turns.induct) (auto split: list.splits)

lemma messages_restored: "thread_messages (restore_from_messages now ms t) = concat (restored_messages ms)"
  by (simp add: thread_messages_def restore_from_messages_def turn_messages_restore)

lemma messages_restored_thread:
  "thread_messages (restore_from_messages now (thread_messages t) t') =
     map strip_attachments (thread_messages t)"
  by (simp add: thread_messages_def restore_from_messages_def restore_turns_of_messages)

section \<open>Properties\<close>

text \<open>Whatever happens to a thread (turns started, completed, failed, interrupted, approvals,
  authentication, truncation by compaction, restoration from a checkpoint), the number of each turn
  is its position in the thread.\<close>

theorem turn_numbers_are_positions:
  assumes "thread_step\<^sup>*\<^sup>* (thread_new i now s) t" and "k < length (thr_turns t)"
  shows "turn_number (thr_turns t ! k) = k"
proof -
  have "turns_numbered t"
    using assms(1)
  proof (induction rule: rtranclp_induct)
    case base
    show ?case by (simp add: turns_numbered_def thread_new_def)
  qed (rule turns_numbered_step)
  then have "map turn_number (thr_turns t) ! k = k"
    using assms(2) by (simp add: turns_numbered_def)
  then show ?thesis using assms(2) by simp
qed

theorem turn_numbers_are_positions_witness:
  "turn_number (thr_turns (truncate_turns 1 (start_turn 6 ''b'' (start_turn 5 ''a'' (thread_new 1 0 2)))) ! 0) = 0"
proof -
  let ?t0 = "thread_new 1 0 2" let ?t1 = "start_turn 5 ''a'' ?t0" let ?t2 = "start_turn 6 ''b'' ?t1"
  have "thread_step\<^sup>*\<^sup>* ?t0 ?t1" by (rule r_into_rtranclp, rule thr_start)
  moreover have "thread_step ?t1 ?t2" by (rule thr_start)
  moreover have "thread_step ?t2 (truncate_turns 1 ?t2)" by (rule thr_truncate)
  ultimately have "thread_step\<^sup>*\<^sup>* ?t0 (truncate_turns 1 ?t2)" by (meson rtranclp.rtrancl_into_rtrancl)
  from turn_numbers_are_positions [OF this] show ?thesis
    by (simp add: truncate_turns_def start_turn_def thread_new_def)
qed

text \<open>Restoring a thread from its own messages, which is what undo, redo and resume rely on,
  gives back the same messages up to the attachments: every user input and every response, in order.\<close>

theorem restore_messages_roundtrip:
  "thread_messages (restore_from_messages now (thread_messages t) t') =
     map strip_attachments (thread_messages t)"
  by (rule messages_restored_thread)

end
