(* ===== verification/Undo.thy ===== *)
theory Undo
  imports Containers Chat_Message
begin

text \<open>
  The undo manager, \<open>src/agent/undo.rs\<close>: a bounded stack of checkpoints and a redo stack. The back
  of the \<open>VecDeque\<close> and the top of the \<open>Vec\<close> are the ends of the lists.
\<close>

definition DEFAULT_MAX_CHECKPOINTS :: nat where
  "DEFAULT_MAX_CHECKPOINTS = 20"

record checkpoint =
  cp_id :: uuid
  cp_turn_number :: nat
  cp_messages :: "chat_message list"
  cp_description :: string

definition checkpoint_new :: "uuid \<Rightarrow> nat \<Rightarrow> chat_message list \<Rightarrow> string \<Rightarrow> checkpoint" where
  "checkpoint_new new_id n messages description =
     \<lparr>cp_id = new_id, cp_turn_number = n, cp_messages = messages, cp_description = description\<rparr>"

record undo_manager =
  um_undo_stack :: "checkpoint list"
  um_redo_stack :: "checkpoint list"
  um_max_checkpoints :: nat

definition um_new :: undo_manager where
  "um_new =
     \<lparr>um_undo_stack = [], um_redo_stack = [], um_max_checkpoints = DEFAULT_MAX_CHECKPOINTS\<rparr>"

definition um_with_max_checkpoints :: "nat \<Rightarrow> undo_manager \<Rightarrow> undo_manager" where
  "um_with_max_checkpoints mx m = m\<lparr>um_max_checkpoints := mx\<rparr>"

text \<open>The trimming loop of \<open>checkpoint\<close>.\<close>

fun pop_front_while_over :: "nat \<Rightarrow> 'a list \<Rightarrow> 'a list" where
  "pop_front_while_over mx [] = []"
| "pop_front_while_over mx (x # xs) =
     (if mx < length (x # xs) then pop_front_while_over mx xs else x # xs)"

definition push_checkpoint :: "checkpoint \<Rightarrow> undo_manager \<Rightarrow> undo_manager" where
  "push_checkpoint cp m =
     m\<lparr>um_undo_stack := pop_front_while_over (um_max_checkpoints m) (um_undo_stack m @ [cp])\<rparr>"

definition um_checkpoint ::
  "uuid \<Rightarrow> nat \<Rightarrow> chat_message list \<Rightarrow> string \<Rightarrow> undo_manager \<Rightarrow> undo_manager" where
  "um_checkpoint new_id n messages description m =
     (let m1 = m\<lparr>um_redo_stack := []\<rparr>
      in push_checkpoint (checkpoint_new new_id n messages description) m1)"

definition um_undo ::
  "uuid \<Rightarrow> nat \<Rightarrow> chat_message list \<Rightarrow> undo_manager \<Rightarrow> checkpoint option \<times> undo_manager" where
  "um_undo new_id current_turn current_messages m =
     (if um_undo_stack m = [] then (None, m)
      else
        (let current = checkpoint_new new_id current_turn current_messages
                         (''Turn '' @ show_nat current_turn);
             m1 = m\<lparr>um_redo_stack := um_redo_stack m @ [current]\<rparr>
         in (Some (last (um_undo_stack m1)), m1)))"

definition um_pop_undo :: "undo_manager \<Rightarrow> checkpoint option \<times> undo_manager" where
  "um_pop_undo m =
     (if um_undo_stack m = [] then (None, m)
      else (Some (last (um_undo_stack m)), m\<lparr>um_undo_stack := butlast (um_undo_stack m)\<rparr>))"

definition um_redo :: "undo_manager \<Rightarrow> checkpoint option \<times> undo_manager" where
  "um_redo m =
     (if um_redo_stack m = [] then (None, m)
      else (Some (last (um_redo_stack m)), m\<lparr>um_redo_stack := butlast (um_redo_stack m)\<rparr>))"

definition can_undo :: "undo_manager \<Rightarrow> bool" where
  "can_undo m = (um_undo_stack m \<noteq> [])"

definition can_redo :: "undo_manager \<Rightarrow> bool" where
  "can_redo m = (um_redo_stack m \<noteq> [])"

definition undo_count :: "undo_manager \<Rightarrow> nat" where
  "undo_count m = length (um_undo_stack m)"

definition redo_count :: "undo_manager \<Rightarrow> nat" where
  "redo_count m = length (um_redo_stack m)"

definition get_checkpoint :: "uuid \<Rightarrow> undo_manager \<Rightarrow> checkpoint option" where
  "get_checkpoint i m =
     (case find (\<lambda>c. cp_id c = i) (um_undo_stack m) of
        Some c \<Rightarrow> Some c
      | None \<Rightarrow> find (\<lambda>c. cp_id c = i) (um_redo_stack m))"

definition list_checkpoints :: "undo_manager \<Rightarrow> checkpoint list" where
  "list_checkpoints m = um_undo_stack m"

definition um_clear :: "undo_manager \<Rightarrow> undo_manager" where
  "um_clear m = m\<lparr>um_undo_stack := [], um_redo_stack := []\<rparr>"

text \<open>\<open>iter().position(\<dots>)\<close>.\<close>

fun position :: "('a \<Rightarrow> bool) \<Rightarrow> 'a list \<Rightarrow> nat option" where
  "position P [] = None"
| "position P (x # xs) = (if P x then Some 0 else map_option Suc (position P xs))"

text \<open>The loop that pops everything after the target.\<close>

function pop_back_while_over :: "nat \<Rightarrow> 'a list \<Rightarrow> 'a list" where
  "pop_back_while_over n xs = (if n < length xs then pop_back_while_over n (butlast xs) else xs)"
  by pat_completeness auto
termination
  by (relation "measure (\<lambda>(n, xs). length xs)") auto

declare pop_back_while_over.simps [simp del]

definition um_restore :: "uuid \<Rightarrow> undo_manager \<Rightarrow> checkpoint option \<times> undo_manager" where
  "um_restore checkpoint_id m =
     (case position (\<lambda>c. cp_id c = checkpoint_id) (um_undo_stack m) of
        None \<Rightarrow> (None, m)
      | Some pos \<Rightarrow>
          (let m1 = m\<lparr>um_redo_stack := []\<rparr>;
               m2 = m1\<lparr>um_undo_stack := pop_back_while_over (pos + 1) (um_undo_stack m1)\<rparr>
           in um_pop_undo m2))"

section \<open>Lemmas\<close>

lemma pop_front_while_over_eq: "pop_front_while_over mx xs = last_n mx xs"
proof (induction xs)
  case Nil
  then show ?case by (simp add: last_n_def)
next
  case (Cons x xs)
  then show ?case by (cases "mx < length (x # xs)") (auto simp: last_n_def Suc_diff_le)
qed

interpretation undo_log: capped_history um_undo_stack push_checkpoint um_max_checkpoints
  by unfold_locales (simp_all add: push_checkpoint_def pop_front_while_over_eq)

lemma um_checkpoint_stack:
  "um_undo_stack (um_checkpoint i n ms d m) =
     last_n (um_max_checkpoints m) (um_undo_stack m @ [checkpoint_new i n ms d])"
  by (simp add: um_checkpoint_def Let_def undo_log.items_push)

lemma um_checkpoint_frame [frame]:
  "um_redo_stack (um_checkpoint i n ms d m) = []"
  "um_max_checkpoints (um_checkpoint i n ms d m) = um_max_checkpoints m"
  by (simp_all add: um_checkpoint_def Let_def push_checkpoint_def)

lemma um_undo_frame [frame]:
  "um_undo_stack (snd (um_undo i n ms m)) = um_undo_stack m"
  "um_max_checkpoints (snd (um_undo i n ms m)) = um_max_checkpoints m"
  by (simp_all add: um_undo_def Let_def)

lemma um_undo_result:
  "fst (um_undo i n ms m) = (if um_undo_stack m = [] then None else Some (last (um_undo_stack m)))"
  by (simp add: um_undo_def Let_def)

lemma position_Some:
  "position P xs = Some i \<Longrightarrow> i < length xs \<and> P (xs ! i) \<and> (\<forall>j < i. \<not> P (xs ! j))"
proof (induction xs arbitrary: i)
  case (Cons x xs)
  show ?case
  proof (cases "P x")
    case False
    with Cons.prems obtain j where "position P xs = Some j" "i = Suc j" by auto
    with Cons.IH False show ?thesis by (auto simp: less_Suc_eq_0_disj)
  qed (use Cons in auto)
qed simp

lemma position_None: "position P xs = None \<longleftrightarrow> (\<forall>x \<in> set xs. \<not> P x)"
  by (induction xs) auto

lemma pop_back_while_over_eq: "pop_back_while_over n xs = take n xs"
proof (induction n xs rule: pop_back_while_over.induct)
  case (1 n xs)
  show ?case
  proof (cases "n < length xs")
    case True
    with 1 have "pop_back_while_over n xs = take n (butlast xs)"
      by (simp add: pop_back_while_over.simps [of n xs])
    also have "\<dots> = take n xs" using True by (simp add: take_butlast)
    finally show ?thesis .
  qed (simp add: pop_back_while_over.simps)
qed

text \<open>What \<open>restore\<close> does to the stack: the checkpoint and everything after it go, and the redo
  stack is emptied.\<close>

lemma um_restore_eq:
  "um_restore i m =
     (case position (\<lambda>c. cp_id c = i) (um_undo_stack m) of
        None \<Rightarrow> (None, m)
      | Some pos \<Rightarrow> (Some (um_undo_stack m ! pos),
                     m\<lparr>um_redo_stack := [], um_undo_stack := take pos (um_undo_stack m)\<rparr>))"
proof (cases "position (\<lambda>c. cp_id c = i) (um_undo_stack m)")
  case (Some pos)
  then have "pos < length (um_undo_stack m)" by (auto dest: position_Some)
  then show ?thesis
    using Some
    by (auto simp: um_restore_def um_pop_undo_def pop_back_while_over_eq take_Suc_conv_app_nth Let_def)
qed (simp add: um_restore_def)

section \<open>Properties\<close>

text \<open>After any series of checkpoints the undo stack holds the most recent ones, at most the
  configured number, oldest first, and there is nothing to redo.\<close>

theorem checkpoints_bounded:
  assumes "cps \<noteq> []" and "length (um_undo_stack m) \<le> um_max_checkpoints m"
  shows "um_undo_stack (fold (\<lambda>(i, n, ms, d). um_checkpoint i n ms d) cps m) =
           last_n (um_max_checkpoints m) (um_undo_stack m @ map (\<lambda>(i, n, ms, d). checkpoint_new i n ms d) cps) \<and>
         um_redo_stack (fold (\<lambda>(i, n, ms, d). um_checkpoint i n ms d) cps m) = []"
proof -
  let ?push = "\<lambda>(i, n, ms, d). um_checkpoint i n ms d"
  have stack: "um_undo_stack (fold ?push cps m) =
      last_n (um_max_checkpoints m) (um_undo_stack m @ map (\<lambda>(i, n, ms, d). checkpoint_new i n ms d) cps)"
    using assms(2)
  proof (induction cps arbitrary: m)
    case Nil
    then show ?case by (simp add: last_n_all)
  next
    case (Cons a cps)
    obtain i n ms d where a: "a = (i, n, ms, d)" by (cases a)
    have "length (um_undo_stack (um_checkpoint i n ms d m)) \<le> um_max_checkpoints (um_checkpoint i n ms d m)"
      by (simp add: um_checkpoint_stack frame)
    from Cons.IH [OF this] show ?case
      by (simp add: a um_checkpoint_stack frame last_n_append_last_n)
  qed
  obtain cps' i n ms d where "cps = cps' @ [(i, n, ms, d)]"
    using assms(1) by (metis rev_exhaust prod_cases4)
  then have "um_redo_stack (fold ?push cps m) = []" by (simp add: frame)
  with stack show ?thesis by blast
qed

theorem checkpoints_bounded_witness:
  "map cp_id (um_undo_stack (fold (\<lambda>(i, n, ms, d). um_checkpoint i n ms d)
      [(1, 0, [], ''a''), (2, 1, [], ''b''), (3, 2, [], ''c'')] (um_with_max_checkpoints 2 um_new))) = [2, 3]"
  using checkpoints_bounded [of "[(1, 0, [], ''a''), (2, 1, [], ''b''), (3, 2, [], ''c'')]"
      "um_with_max_checkpoints 2 um_new"]
  by (simp add: um_with_max_checkpoints_def um_new_def last_n_def checkpoint_new_def)

text \<open>Restoring a checkpoint by its identifier returns the first checkpoint with that
  identifier, drops it and everything after it from the undo stack, and empties the redo stack; an
  unknown identifier changes nothing.\<close>

theorem restore_spec:
  "(case um_restore i m of
      (None, m') \<Rightarrow> m' = m \<and> (\<forall>c \<in> set (um_undo_stack m). cp_id c \<noteq> i)
    | (Some cp, m') \<Rightarrow>
        cp_id cp = i \<and> um_redo_stack m' = [] \<and> um_max_checkpoints m' = um_max_checkpoints m \<and>
        (\<exists>after. um_undo_stack m = um_undo_stack m' @ cp # after) \<and>
        (\<forall>c \<in> set (um_undo_stack m'). cp_id c \<noteq> i))"
proof (cases "position (\<lambda>c. cp_id c = i) (um_undo_stack m)")
  case None
  moreover from this have "\<forall>c \<in> set (um_undo_stack m). cp_id c \<noteq> i" by (simp add: position_None)
  ultimately show ?thesis by (simp add: um_restore_eq)
next
  case (Some pos)
  from position_Some [OF this] have pos: "pos < length (um_undo_stack m)"
    "cp_id (um_undo_stack m ! pos) = i" "\<forall>j < pos. cp_id (um_undo_stack m ! j) \<noteq> i" by auto
  have "um_undo_stack m = take pos (um_undo_stack m) @ um_undo_stack m ! pos # drop (Suc pos) (um_undo_stack m)"
    using pos(1) by (simp add: id_take_nth_drop)
  moreover have "\<forall>c \<in> set (take pos (um_undo_stack m)). cp_id c \<noteq> i"
    using pos by (auto simp: in_set_conv_nth)
  ultimately show ?thesis using Some pos(2) by (auto simp: um_restore_eq)
qed

theorem restore_spec_witness:
  "(case um_restore 2 (um_checkpoint 2 1 [] ''b'' (um_checkpoint 1 0 [] ''a'' um_new)) of
      (None, m') \<Rightarrow> False | (Some cp, m') \<Rightarrow> cp_id cp = 2 \<and> map cp_id (um_undo_stack m') = [1])"
  using restore_spec [of "um_checkpoint 2 1 [] ''b'' (um_checkpoint 1 0 [] ''a'' um_new)" 2]
  by (simp add: um_restore_eq um_checkpoint_stack frame um_new_def DEFAULT_MAX_CHECKPOINTS_def last_n_def
      checkpoint_new_def)

end
