(* ===== verification/Session_Manager.thy ===== *)
theory Session_Manager
  imports Session_Model Undo
begin

text \<open>
  The session manager, \<open>src/agent/session_manager.rs\<close>. The value behind an \<open>Arc<Mutex<Session>>\<close>
  handle is the session stored under the user's key, and a handle is that key; a handle kept across
  a pruning is not modelled. Each method is one function from manager to manager;
  \<open>resolve_thread\<close> is the composition of the two parts between which it releases its locks.
  Times are nanoseconds.
\<close>

record thread_key =
  tk_user_id :: string
  tk_channel :: string
  tk_external_thread_id :: "string option"

record session_manager =
  sm_sessions :: "(string, session) hash_map"
  sm_thread_map :: "(thread_key, uuid) hash_map"
  sm_undo_managers :: "(uuid, undo_manager) hash_map"

definition sm_new :: session_manager where
  "sm_new = \<lparr>sm_sessions = [], sm_thread_map = [], sm_undo_managers = []\<rparr>"

definition get_or_create_session ::
  "uuid \<Rightarrow> time \<Rightarrow> string \<Rightarrow> session_manager \<Rightarrow> session \<times> session_manager" where
  "get_or_create_session sid now user_id m =
     (case hm_get (sm_sessions m) user_id of
        Some s \<Rightarrow> (s, m)
      | None \<Rightarrow>
          (let s = session_new sid now user_id
           in (s, m\<lparr>sm_sessions := hm_insert user_id s (sm_sessions m)\<rparr>)))"

text \<open>The first part of \<open>resolve_thread\<close>: the mapped thread, if the session still has it.\<close>

definition resolve_find :: "thread_key \<Rightarrow> session_manager \<Rightarrow> uuid option" where
  "resolve_find key m =
     (case hm_get (sm_thread_map m) key of
        None \<Rightarrow> None
      | Some t \<Rightarrow>
          (case hm_get (sm_sessions m) (tk_user_id key) of
             Some s \<Rightarrow> if hm_contains (ses_threads s) t then Some t else None
           | None \<Rightarrow> None))"

text \<open>The second part: a new thread, its mapping and its undo manager.\<close>

definition resolve_create :: "uuid \<Rightarrow> time \<Rightarrow> thread_key \<Rightarrow> session_manager \<Rightarrow> session_manager" where
  "resolve_create tid now key m =
     (case hm_get (sm_sessions m) (tk_user_id key) of
        None \<Rightarrow> m
      | Some s \<Rightarrow>
          (let m1 = m\<lparr>sm_sessions := hm_insert (tk_user_id key) (create_thread tid now s) (sm_sessions m)\<rparr>;
               m2 = m1\<lparr>sm_thread_map := hm_insert key tid (sm_thread_map m1)\<rparr>
           in m2\<lparr>sm_undo_managers := hm_insert tid um_new (sm_undo_managers m2)\<rparr>))"

definition resolve_thread ::
  "uuid \<Rightarrow> uuid \<Rightarrow> time \<Rightarrow> string \<Rightarrow> string \<Rightarrow> string option \<Rightarrow> session_manager \<Rightarrow>
     uuid \<times> session_manager" where
  "resolve_thread sid tid now user_id channel external m =
     (let m1 = snd (get_or_create_session sid now user_id m);
          key = \<lparr>tk_user_id = user_id, tk_channel = channel, tk_external_thread_id = external\<rparr>
      in case resolve_find key m1 of
           Some t \<Rightarrow> (t, m1)
         | None \<Rightarrow> (tid, resolve_create tid now key m1))"

text \<open>\<open>uuid_str\<close> is \<open>Uuid::to_string\<close>.\<close>

definition register_thread ::
  "(uuid \<Rightarrow> string) \<Rightarrow> string \<Rightarrow> string \<Rightarrow> uuid \<Rightarrow> session \<Rightarrow> session_manager \<Rightarrow> session_manager" where
  "register_thread uuid_str user_id channel thread_id s m =
     (let key = \<lparr>tk_user_id = user_id, tk_channel = channel,
                 tk_external_thread_id = Some (uuid_str thread_id)\<rparr>
      in m\<lparr>sm_thread_map := hm_insert key thread_id (sm_thread_map m),
           sm_undo_managers := hm_or_insert thread_id um_new (sm_undo_managers m),
           sm_sessions := hm_or_insert user_id s (sm_sessions m)\<rparr>)"

definition get_undo_manager :: "uuid \<Rightarrow> session_manager \<Rightarrow> undo_manager \<times> session_manager" where
  "get_undo_manager thread_id m =
     (case hm_get (sm_undo_managers m) thread_id of
        Some u \<Rightarrow> (u, m)
      | None \<Rightarrow> (um_new, m\<lparr>sm_undo_managers := hm_insert thread_id um_new (sm_undo_managers m)\<rparr>))"

text \<open>
  \<open>prune_stale_sessions\<close>: \<open>locked1\<close> and \<open>locked2\<close> say whose session another task holds when the
  first and the second \<open>try_lock\<close> run.
\<close>

definition stale_users ::
  "time \<Rightarrow> nat \<Rightarrow> (string \<Rightarrow> bool) \<Rightarrow> session_manager \<Rightarrow> string list" where
  "stale_users now max_idle_secs locked1 m =
     (let cutoff = now - int max_idle_secs * 1000000000
      in map fst (filter (\<lambda>(u, s). \<not> locked1 u \<and> ses_last_active_at s < cutoff) (sm_sessions m)))"

definition stale_thread_ids :: "(string \<Rightarrow> bool) \<Rightarrow> string list \<Rightarrow> session_manager \<Rightarrow> uuid list" where
  "stale_thread_ids locked2 users m =
     concat (map (\<lambda>u. case hm_get (sm_sessions m) u of
                        Some s \<Rightarrow> if locked2 u then [] else map fst (ses_threads s)
                      | None \<Rightarrow> []) users)"

definition prune_stale_sessions ::
  "time \<Rightarrow> nat \<Rightarrow> (string \<Rightarrow> bool) \<Rightarrow> (string \<Rightarrow> bool) \<Rightarrow> session_manager \<Rightarrow> nat \<times> session_manager" where
  "prune_stale_sessions now max_idle_secs locked1 locked2 m =
     (let users = stale_users now max_idle_secs locked1 m
      in if users = [] then (0, m)
         else
           (let tids = stale_thread_ids locked2 users m;
                sessions' = fold hm_remove users (sm_sessions m);
                count = length (sm_sessions m) - length sessions'
            in (count,
                m\<lparr>sm_sessions := sessions',
                  sm_thread_map := filter (\<lambda>(key, _). tk_user_id key \<notin> set users) (sm_thread_map m),
                  sm_undo_managers := fold hm_remove tids (sm_undo_managers m)\<rparr>)))"

section \<open>Isolation of users\<close>

text \<open>The threads a user's session holds.\<close>

definition has_thread :: "session_manager \<Rightarrow> string \<Rightarrow> uuid \<Rightarrow> bool" where
  "has_thread m user_id t =
     (case hm_get (sm_sessions m) user_id of
        None \<Rightarrow> False | Some s \<Rightarrow> hm_contains (ses_threads s) t)"

definition sm_inv :: "session_manager \<Rightarrow> bool" where
  "sm_inv m \<longleftrightarrow>
     hm_ok (sm_sessions m) \<and> hm_ok (sm_thread_map m) \<and>
     (\<forall>u s. hm_get (sm_sessions m) u = Some s \<longrightarrow> ses_user_id s = u \<and> session_ok s) \<and>
     (\<forall>u v t. has_thread m u t \<longrightarrow> has_thread m v t \<longrightarrow> u = v)"

text \<open>An identifier no session uses, as \<open>Uuid::new_v4\<close> gives.\<close>

definition fresh_thread :: "session_manager \<Rightarrow> uuid \<Rightarrow> bool" where
  "fresh_thread m t \<longleftrightarrow> (\<forall>u. \<not> has_thread m u t)"

inductive sm_reach :: "session_manager \<Rightarrow> bool" where
  sm_start: "sm_reach sm_new"
| sm_resolve: "sm_reach m \<Longrightarrow> fresh_thread m tid \<Longrightarrow>
     sm_reach (snd (resolve_thread sid tid now u ch ext m))"
| sm_session: "sm_reach m \<Longrightarrow> sm_reach (snd (get_or_create_session sid now u m))"
| sm_undo: "sm_reach m \<Longrightarrow> sm_reach (snd (get_undo_manager t m))"
| sm_prune: "sm_reach m \<Longrightarrow> sm_reach (snd (prune_stale_sessions now idle l1 l2 m))"

section \<open>Lemmas\<close>

lemma session_new_threads [simp]:
  "ses_threads (session_new i now u) = []" "ses_user_id (session_new i now u) = u"
  "session_ok (session_new i now u)"
  by (simp_all add: session_new_def session_ok_def)

lemma get_or_create_sessions:
  "hm_get (sm_sessions (snd (get_or_create_session sid now u m))) v =
     (if v = u \<and> hm_get (sm_sessions m) u = None then Some (session_new sid now u)
      else hm_get (sm_sessions m) v)"
  by (auto simp: get_or_create_session_def Let_def split: option.splits)

lemma get_or_create_frame [frame]:
  "sm_thread_map (snd (get_or_create_session sid now u m)) = sm_thread_map m"
  "sm_undo_managers (snd (get_or_create_session sid now u m)) = sm_undo_managers m"
  by (simp_all add: get_or_create_session_def Let_def split: option.splits)

lemma has_thread_get_or_create [simp]:
  "has_thread (snd (get_or_create_session sid now u m)) v t = has_thread m v t"
  by (simp add: has_thread_def get_or_create_sessions hm_contains_def split: option.splits)

lemma sm_inv_get_or_create: "sm_inv m \<Longrightarrow> sm_inv (snd (get_or_create_session sid now u m))"
  unfolding sm_inv_def
  by (auto simp: get_or_create_sessions frame split: if_splits)
    (auto simp: get_or_create_session_def Let_def split: option.splits)

lemma has_thread_resolve_create:
  assumes "hm_get (sm_sessions m) (tk_user_id key) = Some s"
  shows "has_thread (resolve_create tid now key m) v t =
     ((v = tk_user_id key \<and> t = tid) \<or> has_thread m v t)"
  using assms by (simp add: has_thread_def resolve_create_def Let_def hm_contains_def)

lemma sm_inv_resolve_create:
  assumes inv: "sm_inv m" and s: "hm_get (sm_sessions m) (tk_user_id key) = Some s"
    and fresh: "fresh_thread m tid"
  shows "sm_inv (resolve_create tid now key m)"
proof -
  let ?m = "resolve_create tid now key m"
  have "hm_ok (sm_sessions ?m)" "hm_ok (sm_thread_map ?m)"
    using inv s by (simp_all add: sm_inv_def resolve_create_def Let_def)
  moreover have "ses_user_id s' = u \<and> session_ok s'" if "hm_get (sm_sessions ?m) u = Some s'" for u s'
    using that inv s
    by (auto simp: sm_inv_def resolve_create_def Let_def frame session_ok_create split: if_splits)
  moreover have "u = v" if "has_thread ?m u t" "has_thread ?m v t" for u v t
    using that inv fresh unfolding has_thread_resolve_create [OF s] sm_inv_def fresh_thread_def by metis
  ultimately show ?thesis unfolding sm_inv_def by blast
qed

lemma session_after_get_or_create:
  "\<exists>s. hm_get (sm_sessions (snd (get_or_create_session sid now u m))) u = Some s"
  by (auto simp: get_or_create_sessions)

lemma resolve_find_Some: "resolve_find key m = Some t \<Longrightarrow> has_thread m (tk_user_id key) t"
  by (auto simp: resolve_find_def has_thread_def split: option.splits if_splits)

text \<open>Where the thread that \<open>resolve_thread\<close> returns lives, and what else it changes.\<close>

lemma has_thread_resolve:
  "has_thread (snd (resolve_thread sid tid now u ch ext m)) v t =
     (has_thread m v t \<or> (v = u \<and> t = fst (resolve_thread sid tid now u ch ext m)))"
proof -
  let ?m1 = "snd (get_or_create_session sid now u m)"
  let ?key = "\<lparr>tk_user_id = u, tk_channel = ch, tk_external_thread_id = ext\<rparr>"
  show ?thesis
  proof (cases "resolve_find ?key ?m1")
    case None
    obtain s where "hm_get (sm_sessions ?m1) (tk_user_id ?key) = Some s"
      using session_after_get_or_create [of sid now u m] by auto
    from has_thread_resolve_create [OF this] None show ?thesis
      by (auto simp: resolve_thread_def Let_def)
  next
    case (Some t')
    then have "has_thread m u t'" using resolve_find_Some by fastforce
    with Some show ?thesis by (auto simp: resolve_thread_def Let_def)
  qed
qed

lemma sm_inv_resolve:
  assumes "sm_inv m" and "fresh_thread m tid"
  shows "sm_inv (snd (resolve_thread sid tid now u ch ext m))"
proof -
  let ?m1 = "snd (get_or_create_session sid now u m)"
  let ?key = "\<lparr>tk_user_id = u, tk_channel = ch, tk_external_thread_id = ext\<rparr>"
  have inv: "sm_inv ?m1" using assms(1) by (rule sm_inv_get_or_create)
  have fresh: "fresh_thread ?m1 tid" using assms(2) by (simp add: fresh_thread_def)
  obtain s where "hm_get (sm_sessions ?m1) (tk_user_id ?key) = Some s"
    using session_after_get_or_create [of sid now u m] by auto
  from sm_inv_resolve_create [OF inv this fresh] inv show ?thesis
    by (cases "resolve_find ?key ?m1") (simp_all add: resolve_thread_def Let_def)
qed

lemma stale_users_iff:
  "hm_ok (sm_sessions m) \<Longrightarrow> u \<in> set (stale_users now idle locked1 m) \<longleftrightarrow>
     (\<exists>s. hm_get (sm_sessions m) u = Some s \<and> \<not> locked1 u \<and>
          ses_last_active_at s < now - int idle * 1000000000)"
  by (force simp: stale_users_def Let_def hm_get_Some_iff)

lemma prune_sessions:
  "hm_get (sm_sessions (snd (prune_stale_sessions now idle l1 l2 m))) u =
     (if u \<in> set (stale_users now idle l1 m) then None else hm_get (sm_sessions m) u)"
  by (auto simp: prune_stale_sessions_def Let_def hm.get_remove_all)

lemma prune_thread_map:
  "hm_ok (sm_thread_map m) \<Longrightarrow>
   hm_get (sm_thread_map (snd (prune_stale_sessions now idle l1 l2 m))) key =
     (if tk_user_id key \<in> set (stale_users now idle l1 m) then None else hm_get (sm_thread_map m) key)"
  by (auto simp: prune_stale_sessions_def Let_def hm_get_filter split: option.splits)

lemma prune_undo_managers:
  "hm_get (sm_undo_managers (snd (prune_stale_sessions now idle l1 l2 m))) t =
     (if t \<in> set (stale_thread_ids l2 (stale_users now idle l1 m) m) then None
      else hm_get (sm_undo_managers m) t)"
  by (auto simp: prune_stale_sessions_def Let_def hm.get_remove_all stale_thread_ids_def)

lemma hm_ok_remove_all: "hm_ok m \<Longrightarrow> hm_ok (fold hm_remove ks m)"
  by (induction ks arbitrary: m) auto

lemma has_thread_prune:
  "has_thread (snd (prune_stale_sessions now idle l1 l2 m)) u t \<Longrightarrow> has_thread m u t"
  by (auto simp: has_thread_def prune_sessions split: option.splits if_splits)

lemma sm_inv_prune:
  assumes "sm_inv m"
  shows "sm_inv (snd (prune_stale_sessions now idle l1 l2 m))"
proof -
  let ?m = "snd (prune_stale_sessions now idle l1 l2 m)"
  have "hm_ok (sm_sessions ?m)" "hm_ok (sm_thread_map ?m)"
    using assms by (auto simp: sm_inv_def prune_stale_sessions_def Let_def hm_ok_remove_all)
  moreover have "ses_user_id s = u \<and> session_ok s" if "hm_get (sm_sessions ?m) u = Some s" for u s
    using that assms by (auto simp: sm_inv_def prune_sessions split: if_splits)
  moreover have "u = v" if "has_thread ?m u t" "has_thread ?m v t" for u v t
    using has_thread_prune that assms unfolding sm_inv_def by blast
  ultimately show ?thesis unfolding sm_inv_def by blast
qed

lemma sm_reach_inv: "sm_reach m \<Longrightarrow> sm_inv m"
proof (induction rule: sm_reach.induct)
  case sm_start
  show ?case by (simp add: sm_inv_def sm_new_def has_thread_def)
next
  case (sm_undo m t)
  then show ?case
    by (auto simp: get_undo_manager_def sm_inv_def has_thread_def split: option.splits)
qed (auto intro: sm_inv_resolve sm_inv_get_or_create sm_inv_prune)

section \<open>Properties\<close>

text \<open>Resolving a message's thread in a reachable manager gives a thread of that user's session
  and of no other user's, and leaves the threads of all other users as they were.\<close>

theorem resolve_isolates_users:
  assumes "sm_reach m" and "fresh_thread m tid"
    and "resolve_thread sid tid now u ch ext m = (t, m')"
  shows "has_thread m' u t \<and> (\<forall>v. v \<noteq> u \<longrightarrow> \<not> has_thread m' v t) \<and>
     (\<forall>v k. v \<noteq> u \<longrightarrow> has_thread m' v k = has_thread m v k)"
proof -
  have h: "has_thread m' v k = (has_thread m v k \<or> (v = u \<and> k = t))" for v k
    using has_thread_resolve [of sid tid now u ch ext m v k] assms(3) by simp
  have "sm_inv m'" using sm_inv_resolve [OF sm_reach_inv [OF assms(1)] assms(2), of sid now u ch ext] assms(3)
    by simp
  with h show ?thesis unfolding sm_inv_def by blast
qed

theorem resolve_isolates_users_witness:
  "(case resolve_thread 1 2 0 ''alice'' ''web'' None sm_new of
      (t, m') \<Rightarrow> has_thread m' ''alice'' t \<and> \<not> has_thread m' ''bob'' t)"
proof -
  obtain t m' where r: "resolve_thread 1 2 0 ''alice'' ''web'' None sm_new = (t, m')" by fastforce
  have "fresh_thread sm_new 2" by (simp add: fresh_thread_def has_thread_def sm_new_def)
  from resolve_isolates_users [OF sm_start this r] have "has_thread m' ''alice'' t"
    and "v \<noteq> ''alice'' \<Longrightarrow> \<not> has_thread m' v t" for v by auto
  then have "has_thread m' ''alice'' t" "\<not> has_thread m' ''bob'' t" by simp_all
  with r show ?thesis by simp
qed

text \<open>The mapping from (user, channel, external thread) to a thread is stable: resolving the same
  key again returns the same thread and changes nothing, whatever fresh identifiers are at hand.\<close>

theorem resolve_idempotent:
  "resolve_thread sid' tid' now' u ch ext (snd (resolve_thread sid tid now u ch ext m)) =
     resolve_thread sid tid now u ch ext m"
proof -
  let ?key = "\<lparr>tk_user_id = u, tk_channel = ch, tk_external_thread_id = ext\<rparr>"
  obtain t m' where r: "resolve_thread sid tid now u ch ext m = (t, m')" by fastforce
  have t: "has_thread m' u t" using has_thread_resolve [of sid tid now u ch ext m u t] r by simp
  then obtain s where s: "hm_get (sm_sessions m') u = Some s" "hm_contains (ses_threads s) t"
    by (auto simp: has_thread_def split: option.splits)
  let ?m1 = "snd (get_or_create_session sid now u m)"
  have "hm_get (sm_thread_map m') ?key = Some t"
  proof (cases "resolve_find ?key ?m1")
    case None
    obtain s1 where "hm_get (sm_sessions ?m1) (tk_user_id ?key) = Some s1"
      using session_after_get_or_create [of sid now u m] by auto
    with None r show ?thesis by (auto simp: resolve_thread_def Let_def resolve_create_def)
  next
    case (Some t')
    with r show ?thesis
      by (auto simp: resolve_thread_def Let_def resolve_find_def split: option.splits if_splits)
  qed
  with s r show ?thesis
    by (simp add: resolve_thread_def [of sid'] get_or_create_session_def resolve_find_def Let_def)
qed

text \<open>Pruning removes exactly the sessions that were idle for longer than the limit and not
  locked, with every mapping of their users, and keeps everything of the other users.\<close>

theorem prune_spec:
  assumes "sm_reach m"
    and "prune_stale_sessions now idle l1 l2 m = (n, m')"
  shows "(\<forall>u. hm_get (sm_sessions m') u =
            (case hm_get (sm_sessions m) u of
               None \<Rightarrow> None
             | Some s \<Rightarrow> if \<not> l1 u \<and> ses_last_active_at s < now - int idle * 1000000000 then None else Some s)) \<and>
         (\<forall>key. hm_get (sm_thread_map m') key =
            (case hm_get (sm_sessions m) (tk_user_id key) of
               None \<Rightarrow> hm_get (sm_thread_map m) key
             | Some s \<Rightarrow> if \<not> l1 (tk_user_id key) \<and> ses_last_active_at s < now - int idle * 1000000000
                         then None else hm_get (sm_thread_map m) key))"
proof -
  have ok: "hm_ok (sm_sessions m)" "hm_ok (sm_thread_map m)"
    using sm_reach_inv [OF assms(1)] by (auto simp: sm_inv_def)
  have m': "m' = snd (prune_stale_sessions now idle l1 l2 m)" using assms(2) by simp
  show ?thesis
    unfolding m' prune_sessions prune_thread_map [OF ok(2)] stale_users_iff [OF ok(1)]
    by (auto split: option.split)
qed

theorem prune_spec_witness:
  "hm_get (sm_sessions (snd (prune_stale_sessions 100000000000 10 (\<lambda>_. False) (\<lambda>_. False)
      (snd (get_or_create_session 1 0 ''alice'' sm_new))))) ''alice'' = None"
proof -
  let ?m = "snd (get_or_create_session 1 0 ''alice'' sm_new)"
  have s: "hm_get (sm_sessions ?m) ''alice'' = Some (session_new 1 0 ''alice'')"
    by (simp add: get_or_create_sessions sm_new_def)
  from prune_spec [OF sm_session [OF sm_start] surjective_pairing,
      of 100000000000 10 "\<lambda>_. False" "\<lambda>_. False" 1 0 "''alice''"] s
  show ?thesis by (simp add: session_new_def)
qed

end
