(* ===== verification/Submission.thy ===== *)
theory Submission
  imports Rust_Prelude
begin

text \<open>
  The submissions an agent receives and their parser, \<open>src/agent/submission.rs\<close>. Two calls leave
  the repository and are arguments of the parser: \<open>uuid_parse\<close> is \<open>Uuid::parse_str(\<dots>).ok()\<close> and
  \<open>from_json\<close> is \<open>serde_json::from_str::<Submission>(\<dots>).ok()\<close>.
\<close>

datatype submission =
    UserInput string
  | ExecApproval uuid bool bool
  | ApprovalResponse bool bool
  | Interrupt
  | Compact
  | SubUndo
  | SubRedo
  | Resume uuid
  | Clear
  | SwitchThread uuid
  | NewThread
  | Heartbeat
  | Summarize
  | Suggest
  | Quit
  | SystemCommand string "string list"

fun is_exec_approval :: "submission \<Rightarrow> bool" where
  "is_exec_approval (ExecApproval _ _ _) = True"
| "is_exec_approval _ = False"

text \<open>The chain of commands that match the whole input, in its order; the first match wins.\<close>

definition exact_commands :: "(string \<times> submission) list" where
  "exact_commands =
     [(''/undo'', SubUndo), (''/redo'', SubRedo), (''/interrupt'', Interrupt), (''/stop'', Interrupt),
      (''/compact'', Compact), (''/clear'', Clear), (''/heartbeat'', Heartbeat),
      (''/summarize'', Summarize), (''/summary'', Summarize), (''/suggest'', Suggest),
      (''/thread new'', NewThread), (''/new'', NewThread),
      (''/help'', SystemCommand ''help'' []), (''/?'', SystemCommand ''help'' []),
      (''/version'', SystemCommand ''version'' []), (''/tools'', SystemCommand ''tools'' []),
      (''/ping'', SystemCommand ''ping'' []), (''/debug'', SystemCommand ''debug'' [])]"

definition parse_exact :: "string \<Rightarrow> submission option" where
  "parse_exact lower = map_of exact_commands lower"

text \<open>\<open>/thread <uuid>\<close> and \<open>/resume <uuid>\<close>.\<close>

definition parse_thread :: "(string \<Rightarrow> uuid option) \<Rightarrow> string \<Rightarrow> submission option" where
  "parse_thread uuid_parse lower =
     (case strip_prefix lower ''/thread '' of
        None \<Rightarrow> None
      | Some rest \<Rightarrow>
          (let rest = trim rest
           in if rest \<noteq> ''new'' then map_option SwitchThread (uuid_parse rest) else None))"

definition parse_resume :: "(string \<Rightarrow> uuid option) \<Rightarrow> string \<Rightarrow> submission option" where
  "parse_resume uuid_parse lower =
     (case strip_prefix lower ''/resume '' of
        None \<Rightarrow> None
      | Some rest \<Rightarrow> map_option Resume (uuid_parse (trim rest)))"

definition parse_json :: "(string \<Rightarrow> submission option) \<Rightarrow> string \<Rightarrow> submission option" where
  "parse_json from_json trimmed =
     (if starts_with trimmed ''{'' then
        (case from_json trimmed of
           Some s \<Rightarrow> if is_exec_approval s then Some s else None
         | None \<Rightarrow> None)
      else None)"

definition parse_approval :: "string \<Rightarrow> submission option" where
  "parse_approval lower =
     (if lower \<in> {''yes'', ''y'', ''approve'', ''ok''} then Some (ApprovalResponse True False)
      else if lower \<in> {''always'', ''yes always'', ''approve always''}
      then Some (ApprovalResponse True True)
      else if lower \<in> {''no'', ''n'', ''deny'', ''reject'', ''cancel''}
      then Some (ApprovalResponse False False)
      else None)"

definition or_else :: "'a option \<Rightarrow> 'a option \<Rightarrow> 'a option" where
  "or_else a b = (case a of Some x \<Rightarrow> Some x | None \<Rightarrow> b)"

definition parse ::
  "(string \<Rightarrow> uuid option) \<Rightarrow> (string \<Rightarrow> submission option) \<Rightarrow> string \<Rightarrow> submission" where
  "parse uuid_parse from_json content =
     (let trimmed = trim content; lower = to_lowercase trimmed
      in case parse_exact lower of
           Some s \<Rightarrow> s
         | None \<Rightarrow>
             if starts_with lower ''/model''
             then SystemCommand ''model'' (drop 1 (split_whitespace trimmed))
             else if lower = ''/quit'' \<or> lower = ''/exit'' \<or> lower = ''/shutdown'' then Quit
             else
               (case or_else (parse_thread uuid_parse lower)
                      (or_else (parse_resume uuid_parse lower)
                        (or_else (parse_json from_json trimmed) (parse_approval lower))) of
                  Some s \<Rightarrow> s
                | None \<Rightarrow> UserInput content))"

fun starts_turn :: "submission \<Rightarrow> bool" where
  "starts_turn (UserInput _) = True"
| "starts_turn _ = False"

fun is_control :: "submission \<Rightarrow> bool" where
  "is_control Interrupt = True"
| "is_control Compact = True"
| "is_control SubUndo = True"
| "is_control SubRedo = True"
| "is_control Clear = True"
| "is_control NewThread = True"
| "is_control Heartbeat = True"
| "is_control Summarize = True"
| "is_control Suggest = True"
| "is_control (SystemCommand _ _) = True"
| "is_control _ = False"

datatype submission_result =
    Response string
  | NeedApproval uuid string string json
  | OkResult "string option"
  | ErrorResult string
  | InterruptedResult

definition ok_with_message :: "string \<Rightarrow> submission_result" where
  "ok_with_message m = OkResult (Some m)"

definition result_error :: "string \<Rightarrow> submission_result" where
  "result_error m = ErrorResult m"

definition result_response :: "string \<Rightarrow> submission_result" where
  "result_response c = Response c"

section \<open>Lemmas\<close>

lemma or_else_Some: "or_else a b = Some x \<longleftrightarrow> a = Some x \<or> (a = None \<and> b = Some x)"
  by (auto simp: or_else_def split: option.splits)

lemma or_else_simps [simp]: "or_else None b = b" "or_else (Some x) b = Some x"
  by (simp_all add: or_else_def)

text \<open>The sub-parsers produce only their own kinds of submission.\<close>

lemma parse_json_kind: "parse_json from_json t = Some s \<Longrightarrow> is_exec_approval s"
  by (auto simp: parse_json_def split: if_splits option.splits)

lemma exact_commands_kind:
  "list_all (\<lambda>(l, s). is_control s \<and> l \<noteq> [] \<and> hd l = CHR ''/'') exact_commands"
  by (simp add: exact_commands_def)

lemma parse_exact_kind: "parse_exact l = Some s \<Longrightarrow> is_control s \<and> l \<noteq> [] \<and> hd l = CHR ''/''"
  using exact_commands_kind by (auto simp: parse_exact_def list_all_iff dest!: map_of_SomeD)

lemma parse_slash_only:
  assumes "\<not> starts_with lower ''/''"
  shows "parse_exact lower = None" "\<not> starts_with lower ''/model''"
    "parse_thread up lower = None" "parse_resume up lower = None"
    "lower \<noteq> ''/quit''" "lower \<noteq> ''/exit''" "lower \<noteq> ''/shutdown''"
proof -
  show "parse_exact lower = None"
  proof (cases "parse_exact lower")
    case (Some s)
    then have "lower \<noteq> [] \<and> hd lower = CHR ''/''" by (auto dest: parse_exact_kind)
    with assms show ?thesis by (cases lower) (auto simp: starts_with_Cons)
  qed simp
  show "\<not> starts_with lower ''/model''" "lower \<noteq> ''/quit''" "lower \<noteq> ''/exit''"
    "lower \<noteq> ''/shutdown''"
    using assms by (auto simp: starts_with_Cons)
  show "parse_thread up lower = None" "parse_resume up lower = None"
    using assms
    by (auto simp: parse_thread_def parse_resume_def strip_prefix_Some starts_with_Cons
        split: option.splits)
qed

lemma parse_no_slash:
  assumes "\<not> starts_with (to_lowercase (trim c)) ''/''"
  shows "parse up fj c =
     (case or_else (parse_json fj (trim c)) (parse_approval (to_lowercase (trim c))) of
        Some s \<Rightarrow> s | None \<Rightarrow> UserInput c)"
  using parse_slash_only [OF assms] by (simp add: parse_def Let_def)

lemma trim_dropWhile_idem: "trim_start (trim_start s) = trim_start s"
  by (simp add: trim_start_def dropWhile_idem)

section \<open>Properties\<close>

lemma sub_parser_kinds:
  "parse_exact l = Some s \<Longrightarrow> \<not> starts_turn s"
  "parse_thread up l = Some s \<Longrightarrow> \<exists>t. s = SwitchThread t"
  "parse_resume up l = Some s \<Longrightarrow> \<exists>t. s = Resume t"
  "parse_json fj t = Some s \<Longrightarrow> \<exists>r a w. s = ExecApproval r a w"
  "parse_approval l = Some s \<Longrightarrow> \<exists>a w. s = ApprovalResponse a w"
proof -
  show "parse_exact l = Some s \<Longrightarrow> \<not> starts_turn s"
    by (drule parse_exact_kind) (cases s; simp)
  show "parse_json fj t = Some s \<Longrightarrow> \<exists>r a w. s = ExecApproval r a w"
    by (drule parse_json_kind) (cases s; simp)
  show "parse_thread up l = Some s \<Longrightarrow> \<exists>t. s = SwitchThread t"
    by (auto simp: parse_thread_def Let_def split: option.splits if_splits)
  show "parse_resume up l = Some s \<Longrightarrow> \<exists>t. s = Resume t"
    by (auto simp: parse_resume_def split: option.splits)
  show "parse_approval l = Some s \<Longrightarrow> \<exists>a w. s = ApprovalResponse a w"
    unfolding parse_approval_def by (metis option.distinct(1) option.inject)
qed

text \<open>Input that looks like JSON can only become an execution approval or plain user input,
  whatever the JSON decoder returns: a message cannot smuggle in a command such as quit, clear or
  resume.\<close>

theorem json_input_is_approval_or_text:
  assumes "starts_with (trim c) ''{''"
  shows "parse up fj c = UserInput c \<or> (\<exists>r a w. parse up fj c = ExecApproval r a w)"
proof -
  from assms obtain t where t: "trim c = CHR ''{'' # t" by (auto simp: starts_with_Cons)
  then have l: "to_lowercase (trim c) = CHR ''{'' # to_lowercase t"
    by (simp add: to_lowercase_def ascii_lower_def)
  then have "\<not> starts_with (to_lowercase (trim c)) ''/''" by simp
  moreover have "parse_approval (to_lowercase (trim c)) = None" by (simp add: l parse_approval_def)
  ultimately show ?thesis
    using sub_parser_kinds(4) [of fj "trim c"]
    by (cases "parse_json fj (trim c)") (auto simp: parse_no_slash)
qed

theorem json_input_is_approval_or_text_witness:
  "parse (\<lambda>_. None) (\<lambda>_. Some Quit) '' {quit}'' = UserInput '' {quit}''"
  using json_input_is_approval_or_text [of "'' {quit}''" "\<lambda>_. None" "\<lambda>_. Some Quit"]
  by (simp add: parse_def parse_exact_def exact_commands_def parse_json_def parse_approval_def trim_def
      trim_end_def trim_start_def is_whitespace_def to_lowercase_def ascii_lower_def parse_thread_def
      parse_resume_def strip_prefix_def Let_def)

text \<open>A turn is started by exactly the text the user sent: a submission that starts a turn is the
  unmodified content, and content that is not blank, does not begin with a slash or a brace and is
  none of the approval words does start one.\<close>

theorem user_input_verbatim:
  "(starts_turn (parse up fj c) \<longrightarrow> parse up fj c = UserInput c) \<and>
   (\<not> starts_with (to_lowercase (trim c)) ''/'' \<and> \<not> starts_with (trim c) ''{'' \<and>
      parse_approval (to_lowercase (trim c)) = None \<longrightarrow> parse up fj c = UserInput c)"
proof -
  let ?l = "to_lowercase (trim c)"
  have "starts_turn (parse up fj c) \<Longrightarrow> parse up fj c = UserInput c"
    using sub_parser_kinds(1) [of ?l] sub_parser_kinds(2) [of up ?l] sub_parser_kinds(3) [of up ?l]
      sub_parser_kinds(4) [of fj "trim c"] sub_parser_kinds(5) [of ?l]
    unfolding parse_def Let_def
    by (cases "parse_exact ?l"; cases "parse_thread up ?l"; cases "parse_resume up ?l";
        cases "parse_json fj (trim c)"; cases "parse_approval ?l") (auto split: if_splits)
  moreover have "\<not> starts_with (to_lowercase (trim c)) ''/'' \<Longrightarrow> \<not> starts_with (trim c) ''{'' \<Longrightarrow>
      parse_approval (to_lowercase (trim c)) = None \<Longrightarrow> parse up fj c = UserInput c"
    by (simp add: parse_no_slash parse_json_def)
  ultimately show ?thesis by blast
qed

theorem user_input_verbatim_witness:
  "starts_turn (parse (\<lambda>_. None) (\<lambda>_. None) ''hello'')"
proof -
  have t: "trim ''hello'' = ''hello''" "to_lowercase ''hello'' = ''hello''"
    "parse_approval ''hello'' = None" by code_simp+
  have "parse (\<lambda>_. None) (\<lambda>_. None) ''hello'' = UserInput ''hello''"
    by (rule mp [OF conjunct2 [OF user_input_verbatim]]) (simp add: t starts_with_def)
  then show ?thesis by (simp only: starts_turn.simps)
qed

end
