(* ===== verification/Job_State.thy ===== *)
theory Job_State
  imports Containers
begin

text \<open>
  The job state machine of \<open>src/context/state.rs\<close>: the states and their transition table, the
  context a running job carries, and its operations. An operation that takes \<open>&mut self\<close> and
  returns a \<open>Result\<close> is a function to the result and the context afterwards, because some of them
  change the context and fail. \<open>Decimal\<close> amounts are a type parameter; its zero, addition and
  comparison are arguments of the operations that use them.
\<close>

section \<open>States\<close>

datatype job_state =
    JPending
  | JInProgress
  | JCompleted
  | JSubmitted
  | JAccepted
  | JFailed
  | JStuck
  | JCancelled

fun can_transition_to :: "job_state \<Rightarrow> job_state \<Rightarrow> bool" where
  "can_transition_to JPending t = (t \<in> {JInProgress, JCancelled})"
| "can_transition_to JInProgress t = (t \<in> {JCompleted, JFailed, JStuck, JCancelled})"
| "can_transition_to JCompleted t = (t \<in> {JSubmitted, JFailed})"
| "can_transition_to JSubmitted t = (t \<in> {JAccepted, JFailed})"
| "can_transition_to JStuck t = (t \<in> {JInProgress, JFailed, JCancelled})"
| "can_transition_to JAccepted t = False"
| "can_transition_to JFailed t = False"
| "can_transition_to JCancelled t = False"

fun is_terminal :: "job_state \<Rightarrow> bool" where
  "is_terminal s = (s \<in> {JAccepted, JFailed, JCancelled})"

definition is_active :: "job_state \<Rightarrow> bool" where
  "is_active s = (\<not> is_terminal s)"

fun show_job_state :: "job_state \<Rightarrow> string" where
  "show_job_state JPending = ''pending''"
| "show_job_state JInProgress = ''in_progress''"
| "show_job_state JCompleted = ''completed''"
| "show_job_state JSubmitted = ''submitted''"
| "show_job_state JAccepted = ''accepted''"
| "show_job_state JFailed = ''failed''"
| "show_job_state JStuck = ''stuck''"
| "show_job_state JCancelled = ''cancelled''"

section \<open>The context of a job\<close>

record state_transition =
  st_from :: job_state
  st_to :: job_state
  st_timestamp :: time
  st_reason :: "string option"

record 'd job_context =
  jc_job_id :: uuid
  jc_state :: job_state
  jc_user_id :: string
  jc_conversation_id :: "uuid option"
  jc_title :: string
  jc_description :: string
  jc_category :: "string option"
  jc_budget :: "'d option"
  jc_budget_token :: "string option"
  jc_bid_amount :: "'d option"
  jc_estimated_cost :: "'d option"
  jc_estimated_duration :: "duration option"
  jc_actual_cost :: 'd
  jc_total_tokens_used :: u64
  jc_max_tokens :: u64
  jc_created_at :: time
  jc_started_at :: "time option"
  jc_completed_at :: "time option"
  jc_repair_attempts :: u32
  jc_transitions :: "state_transition list"
  jc_metadata :: json

definition jc_with_user ::
  "'d \<Rightarrow> uuid \<Rightarrow> time \<Rightarrow> string \<Rightarrow> string \<Rightarrow> string \<Rightarrow> 'd job_context" where
  "jc_with_user dzero new_id now user_id title description =
     \<lparr>jc_job_id = new_id, jc_state = JPending, jc_user_id = user_id, jc_conversation_id = None,
      jc_title = title, jc_description = description, jc_category = None, jc_budget = None,
      jc_budget_token = None, jc_bid_amount = None, jc_estimated_cost = None,
      jc_estimated_duration = None, jc_actual_cost = dzero, jc_total_tokens_used = 0,
      jc_max_tokens = 0, jc_created_at = now, jc_started_at = None, jc_completed_at = None,
      jc_repair_attempts = 0, jc_transitions = [], jc_metadata = JNull\<rparr>"

definition jc_new :: "'d \<Rightarrow> uuid \<Rightarrow> time \<Rightarrow> string \<Rightarrow> string \<Rightarrow> 'd job_context" where
  "jc_new dzero new_id now title description =
     jc_with_user dzero new_id now ''default'' title description"

definition jc_default :: "'d \<Rightarrow> uuid \<Rightarrow> time \<Rightarrow> 'd job_context" where
  "jc_default dzero new_id now =
     jc_with_user dzero new_id now ''default'' ''Untitled'' ''No description''"

section \<open>Operations\<close>

definition MAX_TRANSITIONS :: nat where
  "MAX_TRANSITIONS = 200"

text \<open>The push onto the transition log and the drain that caps it.\<close>

definition push_transition :: "state_transition \<Rightarrow> 'd job_context \<Rightarrow> 'd job_context" where
  "push_transition tr c =
     (let trs = jc_transitions c @ [tr]
      in c\<lparr>jc_transitions :=
             (if MAX_TRANSITIONS < length trs then drop (length trs - MAX_TRANSITIONS) trs else trs)\<rparr>)"

text \<open>The \<open>match new_state\<close> that updates the timestamps.\<close>

definition stamp_state :: "time \<Rightarrow> job_state \<Rightarrow> 'd job_context \<Rightarrow> 'd job_context" where
  "stamp_state now new_state c =
     (if new_state = JInProgress \<and> jc_started_at c = None then c\<lparr>jc_started_at := Some now\<rparr>
      else if new_state \<in> {JCompleted, JAccepted, JFailed, JCancelled}
      then c\<lparr>jc_completed_at := Some now\<rparr>
      else c)"

definition transition_to ::
  "time \<Rightarrow> time \<Rightarrow> job_state \<Rightarrow> string option \<Rightarrow> 'd job_context \<Rightarrow> (string + unit) \<times> 'd job_context" where
  "transition_to now1 now2 new_state reason c =
     (if \<not> can_transition_to (jc_state c) new_state
      then (Err (''Cannot transition from '' @ show_job_state (jc_state c) @ '' to '' @
                 show_job_state new_state), c)
      else
        (let tr = \<lparr>st_from = jc_state c, st_to = new_state, st_timestamp = now1, st_reason = reason\<rparr>;
             c1 = push_transition tr c;
             c2 = c1\<lparr>jc_state := new_state\<rparr>
         in (Ok (), stamp_state now2 new_state c2)))"

definition add_cost :: "('d \<Rightarrow> 'd \<Rightarrow> 'd) \<Rightarrow> 'd \<Rightarrow> 'd job_context \<Rightarrow> 'd job_context" where
  "add_cost dplus cost c = c\<lparr>jc_actual_cost := dplus (jc_actual_cost c) cost\<rparr>"

definition add_tokens :: "u64 \<Rightarrow> 'd job_context \<Rightarrow> (string + unit) \<times> 'd job_context" where
  "add_tokens tokens c =
     (let c1 = c\<lparr>jc_total_tokens_used := jc_total_tokens_used c + tokens\<rparr>
      in if 0 < jc_max_tokens c1 \<and> jc_max_tokens c1 < jc_total_tokens_used c1
         then (Err (''Token budget exceeded: used '' @ show_nat (unat (jc_total_tokens_used c1)) @
                    '' of '' @ show_nat (unat (jc_max_tokens c1)) @ '' allowed tokens''), c1)
         else (Ok (), c1))"

definition budget_exceeded :: "('d \<Rightarrow> 'd \<Rightarrow> bool) \<Rightarrow> 'd job_context \<Rightarrow> bool" where
  "budget_exceeded dgreater c =
     (case jc_budget c of Some budget \<Rightarrow> dgreater (jc_actual_cost c) budget | None \<Rightarrow> False)"

text \<open>\<open>secs_since a b\<close> is \<open>a.signed_duration_since(b).num_seconds()\<close> of the \<open>chrono\<close> package.\<close>

definition elapsed :: "(time \<Rightarrow> time \<Rightarrow> int) \<Rightarrow> time \<Rightarrow> 'd job_context \<Rightarrow> duration option" where
  "elapsed secs_since now c =
     map_option
       (\<lambda>start. let end_at = (case jc_completed_at c of Some t \<Rightarrow> t | None \<Rightarrow> now)
                in nat (max (secs_since end_at start) 0))
       (jc_started_at c)"

definition mark_stuck ::
  "time \<Rightarrow> time \<Rightarrow> string \<Rightarrow> 'd job_context \<Rightarrow> (string + unit) \<times> 'd job_context" where
  "mark_stuck now1 now2 reason c = transition_to now1 now2 JStuck (Some reason) c"

definition attempt_recovery ::
  "time \<Rightarrow> time \<Rightarrow> 'd job_context \<Rightarrow> (string + unit) \<times> 'd job_context" where
  "attempt_recovery now1 now2 c =
     (if jc_state c \<noteq> JStuck then (Err ''Job is not stuck'', c)
      else
        (let c1 = c\<lparr>jc_repair_attempts := jc_repair_attempts c + 1\<rparr>
         in transition_to now1 now2 JInProgress (Some ''Recovery attempt'') c1))"

section \<open>Reachable contexts\<close>

text \<open>
  The contexts a job can reach: it starts as \<open>with_user\<close> builds it and moves by the operations
  above, each with any arguments and whether or not it succeeds.
\<close>

inductive job_step :: "('d \<Rightarrow> 'd \<Rightarrow> 'd) \<Rightarrow> 'd job_context \<Rightarrow> 'd job_context \<Rightarrow> bool"
  for dplus :: "'d \<Rightarrow> 'd \<Rightarrow> 'd"
where
  step_transition: "job_step dplus c (snd (transition_to t1 t2 s r c))"
| step_cost: "job_step dplus c (add_cost dplus cost c)"
| step_tokens: "job_step dplus c (snd (add_tokens n c))"
| step_stuck: "job_step dplus c (snd (mark_stuck t1 t2 why c))"
| step_recover: "job_step dplus c (snd (attempt_recovery t1 t2 c))"

inductive_cases job_stepE: "job_step dplus c c'"

inductive job_reach :: "'d \<Rightarrow> ('d \<Rightarrow> 'd \<Rightarrow> 'd) \<Rightarrow> 'd job_context \<Rightarrow> bool"
  for dzero :: 'd and dplus :: "'d \<Rightarrow> 'd \<Rightarrow> 'd"
where
  reach_new: "job_reach dzero dplus (jc_with_user dzero i now u t d)"
| reach_step: "job_reach dzero dplus c \<Longrightarrow> job_step dplus c c' \<Longrightarrow> job_reach dzero dplus c'"

section \<open>Invariant\<close>

text \<open>A transition log in which each entry starts where the one before it ended.\<close>

fun chained :: "state_transition list \<Rightarrow> bool" where
  "chained (a # b # trs) = (st_to a = st_from b \<and> chained (b # trs))"
| "chained _ = True"

definition log_ok :: "'d job_context \<Rightarrow> bool" where
  "log_ok c \<longleftrightarrow>
     length (jc_transitions c) \<le> MAX_TRANSITIONS \<and>
     list_all (\<lambda>tr. can_transition_to (st_from tr) (st_to tr)) (jc_transitions c) \<and>
     chained (jc_transitions c) \<and>
     (if jc_transitions c = [] then jc_state c = JPending
      else st_to (last (jc_transitions c)) = jc_state c)"

definition stamps_ok :: "'d job_context \<Rightarrow> bool" where
  "stamps_ok c \<longleftrightarrow>
     (jc_state c \<in> {JInProgress, JCompleted, JSubmitted, JAccepted, JFailed, JStuck} \<longrightarrow>
        jc_started_at c \<noteq> None) \<and>
     (jc_state c \<in> {JCompleted, JSubmitted, JAccepted, JFailed, JCancelled} \<longrightarrow>
        jc_completed_at c \<noteq> None)"

definition job_inv :: "'d job_context \<Rightarrow> bool" where
  "job_inv c \<longleftrightarrow> log_ok c \<and> stamps_ok c"

section \<open>Lemmas\<close>

lemma terminal_no_transition: "is_terminal s \<longleftrightarrow> (\<forall>t. \<not> can_transition_to s t)"
  by (cases s) auto

lemma no_transition_to_pending: "\<not> can_transition_to s JPending"
  by (cases s) auto

lemma push_transition_eq:
  "jc_transitions (push_transition tr c) = last_n MAX_TRANSITIONS (jc_transitions c @ [tr])"
  by (auto simp: push_transition_def Let_def last_n_def)

lemma push_transition_frame [frame]:
  "jc_state (push_transition tr c) = jc_state c"
  "jc_started_at (push_transition tr c) = jc_started_at c"
  "jc_completed_at (push_transition tr c) = jc_completed_at c"
  "jc_job_id (push_transition tr c) = jc_job_id c"
  "jc_user_id (push_transition tr c) = jc_user_id c"
  by (simp_all add: push_transition_def Let_def)

lemma stamp_state_frame [frame]:
  "jc_state (stamp_state now s c) = jc_state c"
  "jc_transitions (stamp_state now s c) = jc_transitions c"
  "jc_job_id (stamp_state now s c) = jc_job_id c"
  "jc_user_id (stamp_state now s c) = jc_user_id c"
  by (simp_all add: stamp_state_def)

interpretation job_log: capped_history jc_transitions push_transition "\<lambda>_. MAX_TRANSITIONS"
  by unfold_locales (simp_all add: push_transition_eq)

lemma transition_to_ok [ok_iff]:
  "fst (transition_to t1 t2 s r c) = Ok () \<longleftrightarrow> can_transition_to (jc_state c) s"
  by (simp add: transition_to_def Let_def)

lemma transition_to_state:
  "jc_state (snd (transition_to t1 t2 s r c)) =
     (if can_transition_to (jc_state c) s then s else jc_state c)"
  by (simp add: transition_to_def Let_def frame)

lemma transition_to_log:
  "can_transition_to (jc_state c) s \<Longrightarrow>
   jc_transitions (snd (transition_to t1 t2 s r c)) =
     last_n MAX_TRANSITIONS (jc_transitions c @
       [\<lparr>st_from = jc_state c, st_to = s, st_timestamp = t1, st_reason = r\<rparr>])"
  by (simp add: transition_to_def Let_def frame push_transition_eq)

lemma attempt_recovery_state:
  "jc_state (snd (attempt_recovery t1 t2 c)) =
     (if jc_state c = JStuck then JInProgress else jc_state c)"
  by (simp add: attempt_recovery_def Let_def transition_to_state)

lemma op_state_frame [frame]:
  "jc_state (add_cost dplus d c) = jc_state c"
  "jc_state (snd (add_tokens n c)) = jc_state c"
  by (simp_all add: add_cost_def add_tokens_def Let_def)

lemma job_step_state:
  "job_step dplus c c' \<Longrightarrow> jc_state c' = jc_state c \<or> can_transition_to (jc_state c) (jc_state c')"
  by (erule job_stepE)
    (auto simp: transition_to_state attempt_recovery_state mark_stuck_def frame split: if_splits)

lemma chained_append: "chained (xs @ [b]) \<longleftrightarrow> chained xs \<and> (xs \<noteq> [] \<longrightarrow> st_to (last xs) = st_from b)"
  by (induction xs rule: chained.induct) auto

lemma chained_tl: "chained xs \<Longrightarrow> chained (tl xs)"
  by (cases xs rule: chained.cases) auto

lemma chained_drop: "chained xs \<Longrightarrow> chained (drop n xs)"
  by (induction n arbitrary: xs) (auto simp: drop_Suc dest: chained_tl)

lemma chained_last_n: "chained xs \<Longrightarrow> chained (last_n n xs)"
  by (simp add: last_n_def chained_drop)

text \<open>The invariants survive a legal transition, whatever the context.\<close>

lemma log_ok_transition:
  assumes "log_ok c"
  shows "log_ok (snd (transition_to t1 t2 s r c))"
proof (cases "can_transition_to (jc_state c) s")
  case False
  with assms show ?thesis by (simp add: transition_to_def)
next
  case True
  let ?tr = "\<lparr>st_from = jc_state c, st_to = s, st_timestamp = t1, st_reason = r\<rparr>"
  let ?xs = "jc_transitions c @ [?tr]"
  have "chained ?xs" "list_all (\<lambda>tr. can_transition_to (st_from tr) (st_to tr)) ?xs"
    using assms True by (auto simp: log_ok_def chained_append split: if_splits)
  moreover have "last_n MAX_TRANSITIONS ?xs \<noteq> [] \<and> last (last_n MAX_TRANSITIONS ?xs) = ?tr"
    using job_log.newest_kept [of ?tr c] by (simp add: push_transition_eq MAX_TRANSITIONS_def)
  ultimately show ?thesis
    using True
    by (auto simp: log_ok_def transition_to_log transition_to_state
        intro: chained_last_n list_all_last_n simp del: append_is_Nil_conv list_all_append)
qed

lemma stamps_ok_transition:
  assumes "stamps_ok c"
  shows "stamps_ok (snd (transition_to t1 t2 s r c))"
proof (cases "can_transition_to (jc_state c) s")
  case False
  with assms show ?thesis by (simp add: transition_to_def)
next
  case True
  with assms show ?thesis
    by (cases "jc_state c"; cases s)
      (auto simp: stamps_ok_def transition_to_def Let_def stamp_state_def frame)
qed

lemma job_inv_transition: "job_inv c \<Longrightarrow> job_inv (snd (transition_to t1 t2 s r c))"
  by (simp add: job_inv_def log_ok_transition stamps_ok_transition)

lemma job_inv_new: "job_inv (jc_with_user dzero i now u t d)"
  by (simp add: job_inv_def log_ok_def stamps_ok_def jc_with_user_def)

lemma job_inv_other [frame]:
  "job_inv (add_cost dplus d c) = job_inv c"
  "job_inv (snd (add_tokens n c)) = job_inv c"
  "job_inv (c\<lparr>jc_repair_attempts := k\<rparr>) = job_inv c"
  by (simp_all add: job_inv_def log_ok_def stamps_ok_def add_cost_def add_tokens_def Let_def)

lemma job_inv_step: "job_step dplus c c' \<Longrightarrow> job_inv c \<Longrightarrow> job_inv c'"
  by (erule job_stepE)
    (auto simp: mark_stuck_def attempt_recovery_def Let_def frame intro!: job_inv_transition)

lemma job_reach_inv: "job_reach dzero dplus c \<Longrightarrow> job_inv c"
  by (induction rule: job_reach.induct) (auto intro: job_inv_new job_inv_step)

lemma terminal_step:
  assumes "job_step dplus c c'" and "is_terminal (jc_state c)"
  shows "jc_state c' = jc_state c \<and> jc_transitions c' = jc_transitions c"
proof -
  have no: "\<not> can_transition_to (jc_state c) t" for t using assms(2) terminal_no_transition by blast
  have "jc_state c \<noteq> JStuck" using assms(2) by auto
  with assms(1) no show ?thesis
    by (elim job_stepE)
      (auto simp: transition_to_def mark_stuck_def attempt_recovery_def add_cost_def add_tokens_def Let_def
        simp del: can_transition_to.simps)
qed

section \<open>Properties\<close>

text \<open>C30: whatever sequence of operations a job goes through, its log never exceeds 200 entries, each
  entry is a legal transition, consecutive entries are chained, and the last one ends in the current
  state (an empty log means the job is still pending).\<close>

theorem job_log_invariant:
  assumes "job_reach dzero dplus c"
  shows "length (jc_transitions c) \<le> 200 \<and>
     list_all (\<lambda>tr. can_transition_to (st_from tr) (st_to tr)) (jc_transitions c) \<and>
     chained (jc_transitions c) \<and>
     (if jc_transitions c = [] then jc_state c = JPending
      else st_to (last (jc_transitions c)) = jc_state c)"
  using job_reach_inv [OF assms] unfolding job_inv_def log_ok_def MAX_TRANSITIONS_def by blast

theorem job_log_invariant_witness:
  "st_to (last (jc_transitions
     (snd (mark_stuck 7 8 ''idle''
       (snd (transition_to 5 6 JInProgress None (jc_with_user (0 :: int) 1 0 ''u'' ''t'' ''d''))))))) =
   JStuck"
proof -
  let ?c1 = "snd (transition_to 5 6 JInProgress None (jc_with_user (0 :: int) 1 0 ''u'' ''t'' ''d''))"
  let ?c2 = "snd (mark_stuck 7 8 ''idle'' ?c1)"
  have "job_reach 0 (+) ?c2"
    by (rule reach_step [OF reach_step [OF reach_new step_transition] step_stuck])
  from job_log_invariant [OF this] show ?thesis
    by (auto simp: mark_stuck_def transition_to_state transition_to_log jc_with_user_def last_n_def
        MAX_TRANSITIONS_def split: if_splits)
qed

text \<open>A job in a terminal state never leaves it: no sequence of operations changes its state or
  adds to its log.\<close>

theorem terminal_absorbing:
  assumes "is_terminal (jc_state c)" and "(job_step dplus)\<^sup>*\<^sup>* c c'"
  shows "jc_state c' = jc_state c \<and> jc_transitions c' = jc_transitions c"
  using assms(2)
proof (induction rule: rtranclp_induct)
  case (step c1 c2)
  then have "is_terminal (jc_state c1)" using assms(1) by simp
  from terminal_step [OF step.hyps(2) this] step.IH show ?case by simp
qed simp

theorem terminal_absorbing_witness:
  "jc_state (snd (transition_to 9 9 JInProgress None
     ((jc_with_user (0 :: int) 1 0 ''u'' ''t'' ''d'')\<lparr>jc_state := JFailed\<rparr>))) = JFailed"
  using terminal_absorbing [of "(jc_with_user (0 :: int) 1 0 ''u'' ''t'' ''d'')\<lparr>jc_state := JFailed\<rparr>" "(+)",
      OF _ r_into_rtranclp [of "job_step (+)", OF step_transition]]
  by simp

text \<open>A reachable job that has run has a start time, and one that is completed, submitted,
  accepted, failed or cancelled has an end time, so \<open>elapsed\<close> of a finished run is defined and no
  longer depends on the clock.\<close>

theorem finished_job_elapsed:
  assumes "job_reach dzero dplus c"
    and "jc_state c \<in> {JCompleted, JSubmitted, JAccepted, JFailed}"
  shows "\<exists>d. \<forall>now. elapsed secs_since now c = Some d"
proof -
  from job_reach_inv [OF assms(1)] have "stamps_ok c" by (simp only: job_inv_def)
  with assms(2) obtain s e where "jc_started_at c = Some s" "jc_completed_at c = Some e"
    unfolding stamps_ok_def by blast
  then show ?thesis by (simp add: elapsed_def)
qed

theorem finished_job_elapsed_witness:
  "\<exists>d. \<forall>now. elapsed (\<lambda>a b. a - b) now
     (snd (transition_to 7 8 JCompleted None
       (snd (transition_to 5 6 JInProgress None (jc_with_user (0 :: int) 1 0 ''u'' ''t'' ''d''))))) = Some d"
proof (rule finished_job_elapsed)
  show "job_reach (0 :: int) (+) (snd (transition_to 7 8 JCompleted None
       (snd (transition_to 5 6 JInProgress None (jc_with_user 0 1 0 ''u'' ''t'' ''d'')))))"
    by (rule reach_step [OF reach_step [OF reach_new step_transition] step_transition])
qed (simp add: transition_to_state jc_with_user_def)

text \<open>As long as the 64-bit counter does not wrap, charging tokens fails exactly when the budget
  is set and the new total is above it; the tokens are charged in either case.\<close>

theorem add_tokens_budget:
  assumes "unat (jc_total_tokens_used c) + unat tokens < 2 ^ 64"
  shows "unat (jc_total_tokens_used (snd (add_tokens tokens c))) =
           unat (jc_total_tokens_used c) + unat tokens \<and>
         (fst (add_tokens tokens c) = Ok () \<longleftrightarrow>
           jc_max_tokens c = 0 \<or> unat (jc_total_tokens_used c) + unat tokens \<le> unat (jc_max_tokens c))"
proof -
  have "unat (jc_total_tokens_used c + tokens) = unat (jc_total_tokens_used c) + unat tokens"
    using assms by (simp add: unat_word_ariths)
  then show ?thesis
    by (auto simp: add_tokens_def Let_def word_less_nat_alt unat_gt_0)
qed

theorem add_tokens_budget_witness:
  "fst (add_tokens 7 ((jc_with_user (0 :: int) 1 0 ''u'' ''t'' ''d'')\<lparr>jc_max_tokens := 7\<rparr>)) = Ok ()"
  using add_tokens_budget [of "(jc_with_user (0 :: int) 1 0 ''u'' ''t'' ''d'')\<lparr>jc_max_tokens := 7\<rparr>" 7]
  by (simp add: jc_with_user_def)

end
