(* ===== verification/Job_Memory.thy ===== *)
theory Job_Memory
  imports Containers Chat_Message
begin

text \<open>
  The memory of a job, \<open>src/context/memory.rs\<close>: the record of each action, the conversation with
  its message limit, and the counters over them. A duration is a number of nanoseconds; the
  amounts are the \<open>Decimal\<close> parameter of \<open>Job_State\<close>.
\<close>

section \<open>Action records\<close>

record 'd action_record =
  ar_id :: uuid
  ar_sequence :: u32
  ar_tool_name :: string
  ar_input :: json
  ar_output_raw :: "string option"
  ar_output_sanitized :: "json option"
  ar_sanitization_warnings :: "string list"
  ar_cost :: "'d option"
  ar_duration :: duration
  ar_success :: bool
  ar_error :: "string option"
  ar_executed_at :: time

definition action_new :: "uuid \<Rightarrow> time \<Rightarrow> u32 \<Rightarrow> string \<Rightarrow> json \<Rightarrow> 'd action_record" where
  "action_new new_id now seq tool_name input =
     \<lparr>ar_id = new_id, ar_sequence = seq, ar_tool_name = tool_name, ar_input = input,
      ar_output_raw = None, ar_output_sanitized = None, ar_sanitization_warnings = [],
      ar_cost = None, ar_duration = 0, ar_success = False, ar_error = None, ar_executed_at = now\<rparr>"

definition action_succeed ::
  "string option \<Rightarrow> json \<Rightarrow> duration \<Rightarrow> 'd action_record \<Rightarrow> 'd action_record" where
  "action_succeed output_raw output_sanitized d a =
     a\<lparr>ar_success := True, ar_output_raw := output_raw,
       ar_output_sanitized := Some output_sanitized, ar_duration := d\<rparr>"

definition action_fail :: "string \<Rightarrow> duration \<Rightarrow> 'd action_record \<Rightarrow> 'd action_record" where
  "action_fail err d a = a\<lparr>ar_success := False, ar_error := Some err, ar_duration := d\<rparr>"

definition action_with_warnings :: "string list \<Rightarrow> 'd action_record \<Rightarrow> 'd action_record" where
  "action_with_warnings ws a = a\<lparr>ar_sanitization_warnings := ws\<rparr>"

definition action_with_cost :: "'d \<Rightarrow> 'd action_record \<Rightarrow> 'd action_record" where
  "action_with_cost cost a = a\<lparr>ar_cost := Some cost\<rparr>"

section \<open>Conversation memory\<close>

record conversation_memory =
  conv_messages :: "chat_message list"
  conv_max_messages :: nat

definition conv_new :: "nat \<Rightarrow> conversation_memory" where
  "conv_new max_messages = \<lparr>conv_messages = [], conv_max_messages = max_messages\<rparr>"

text \<open>The loop of \<open>add\<close>: it drops messages until the limit holds, never the system message that
  stands first.\<close>

fun trim_messages :: "nat \<Rightarrow> chat_message list \<Rightarrow> chat_message list" where
  "trim_messages mx [] = []"
| "trim_messages mx (m # ms) =
     (if length (m # ms) \<le> mx then m # ms
      else if cm_role m = System
      then (case ms of [] \<Rightarrow> [m] | _ # ms' \<Rightarrow> trim_messages mx (m # ms'))
      else trim_messages mx ms)"

definition conv_add :: "chat_message \<Rightarrow> conversation_memory \<Rightarrow> conversation_memory" where
  "conv_add message c =
     c\<lparr>conv_messages := trim_messages (conv_max_messages c) (conv_messages c @ [message])\<rparr>"

definition conv_last_n :: "nat \<Rightarrow> conversation_memory \<Rightarrow> chat_message list" where
  "conv_last_n n c = drop (length (conv_messages c) - n) (conv_messages c)"

definition conv_clear :: "conversation_memory \<Rightarrow> conversation_memory" where
  "conv_clear c = c\<lparr>conv_messages := []\<rparr>"

definition conv_len :: "conversation_memory \<Rightarrow> nat" where
  "conv_len c = length (conv_messages c)"

definition conv_is_empty :: "conversation_memory \<Rightarrow> bool" where
  "conv_is_empty c = (conv_messages c = [])"

section \<open>Memory of a job\<close>

record 'd memory =
  mem_job_id :: uuid
  mem_conversation :: conversation_memory
  mem_actions :: "'d action_record list"
  mem_next_sequence :: u32

definition mem_new :: "uuid \<Rightarrow> 'd memory" where
  "mem_new job_id =
     \<lparr>mem_job_id = job_id, mem_conversation = conv_new 100, mem_actions = [], mem_next_sequence = 0\<rparr>"

definition mem_add_message :: "chat_message \<Rightarrow> 'd memory \<Rightarrow> 'd memory" where
  "mem_add_message message m = m\<lparr>mem_conversation := conv_add message (mem_conversation m)\<rparr>"

definition mem_create_action ::
  "uuid \<Rightarrow> time \<Rightarrow> string \<Rightarrow> json \<Rightarrow> 'd memory \<Rightarrow> 'd action_record \<times> 'd memory" where
  "mem_create_action new_id now tool_name input m =
     (let seq = mem_next_sequence m
      in (action_new new_id now seq tool_name input,
          m\<lparr>mem_next_sequence := mem_next_sequence m + 1\<rparr>))"

definition mem_record_action :: "'d action_record \<Rightarrow> 'd memory \<Rightarrow> 'd memory" where
  "mem_record_action a m = m\<lparr>mem_actions := mem_actions m @ [a]\<rparr>"

definition mem_total_cost :: "'d \<Rightarrow> ('d \<Rightarrow> 'd \<Rightarrow> 'd) \<Rightarrow> 'd memory \<Rightarrow> 'd" where
  "mem_total_cost dzero dplus m =
     foldl dplus dzero (List.map_filter ar_cost (mem_actions m))"

definition mem_total_duration :: "'d memory \<Rightarrow> duration" where
  "mem_total_duration m = foldl (+) 0 (map ar_duration (mem_actions m))"

definition mem_successful_actions :: "'d memory \<Rightarrow> nat" where
  "mem_successful_actions m = length (filter ar_success (mem_actions m))"

definition mem_failed_actions :: "'d memory \<Rightarrow> nat" where
  "mem_failed_actions m = length (filter (\<lambda>a. \<not> ar_success a) (mem_actions m))"

definition mem_last_action :: "'d memory \<Rightarrow> 'd action_record option" where
  "mem_last_action m = (if mem_actions m = [] then None else Some (last (mem_actions m)))"

definition mem_actions_by_tool :: "string \<Rightarrow> 'd memory \<Rightarrow> 'd action_record list" where
  "mem_actions_by_tool tool m = filter (\<lambda>a. ar_tool_name a = tool) (mem_actions m)"

section \<open>Lemmas\<close>

text \<open>The reference for the message limit: how many messages the loop leaves.\<close>

lemma length_trim_messages: "length (trim_messages mx ms) \<le> max mx 1"
  by (induction mx ms rule: trim_messages.induct) (auto split: list.splits)

lemma trim_messages_within: "length ms \<le> mx \<Longrightarrow> trim_messages mx ms = ms"
  by (cases ms) auto

lemma trim_messages_system:
  "cm_role m = System \<Longrightarrow> trim_messages mx (m # ms) = m # last_n (mx - 1) ms"
proof (induction ms)
  case Nil
  then show ?case by (simp add: last_n_def)
next
  case (Cons a ms)
  show ?case
  proof (cases "length (m # a # ms) \<le> mx")
    case True
    then show ?thesis by (simp add: last_n_all)
  next
    case False
    then have "last_n (mx - 1) (a # ms) = last_n (mx - 1) ms"
      by (auto simp: last_n_def Suc_diff_le)
    with Cons False show ?thesis by simp
  qed
qed

lemma trim_messages_no_system:
  "\<forall>m \<in> set ms. cm_role m \<noteq> System \<Longrightarrow> trim_messages mx ms = last_n mx ms"
proof (induction mx ms rule: trim_messages.induct)
  case (1 mx)
  then show ?case by (simp add: last_n_def)
next
  case (2 mx m ms)
  show ?case
  proof (cases "length (m # ms) \<le> mx")
    case True
    then show ?thesis by (simp add: last_n_all)
  next
    case False
    then have "last_n mx (m # ms) = last_n mx ms" by (auto simp: last_n_def Suc_diff_le)
    with 2 False show ?thesis by simp
  qed
qed

text \<open>Several \<open>create_action\<close> calls in a row, each with its own arguments.\<close>

fun create_actions ::
  "(uuid \<times> time \<times> string \<times> json) list \<Rightarrow> 'd memory \<Rightarrow> 'd action_record list \<times> 'd memory" where
  "create_actions [] m = ([], m)"
| "create_actions ((new_id, now, tool, input) # cs) m =
     (let (a, m1) = mem_create_action new_id now tool input m;
          (rest, m2) = create_actions cs m1
      in (a # rest, m2))"

lemma create_actions_sequences:
  "map ar_sequence (fst (create_actions cs m)) =
     map (\<lambda>k. mem_next_sequence m + of_nat k) [0..<length cs]"
proof (induction cs m rule: create_actions.induct)
  case (2 new_id now tool input cs m)
  let ?m1 = "m\<lparr>mem_next_sequence := mem_next_sequence m + 1\<rparr>"
  have "map ar_sequence (fst (create_actions cs ?m1)) =
          map (\<lambda>k. mem_next_sequence m + 1 + of_nat k) [0..<length cs]"
    using "2.IH" [OF refl] by (simp add: mem_create_action_def Let_def)
  also have "\<dots> = map (\<lambda>k. mem_next_sequence m + of_nat k) [1..<Suc (length cs)]"
    by (simp add: map_Suc_upt [symmetric] add.assoc del: upt_Suc map_Suc_upt)
  finally show ?case
    by (simp add: mem_create_action_def Let_def action_new_def split_beta upt_conv_Cons
        del: upt_Suc)
qed simp

lemma create_actions_distinct:
  "length cs \<le> 2 ^ 32 \<Longrightarrow> distinct (map ar_sequence (fst (create_actions cs m)))"
  by (auto simp: create_actions_sequences distinct_map inj_on_def word_of_nat_eq_iff take_bit_nat_eq_self)

lemma successful_plus_failed:
  "mem_successful_actions m + mem_failed_actions m = length (mem_actions m)"
  by (simp add: mem_successful_actions_def mem_failed_actions_def sum_length_filter_compl)

lemma foldl_plus_nat: "foldl (+) (a::nat) xs = a + sum_list xs"
  by (induction xs arbitrary: a) auto

lemma total_duration_sum: "mem_total_duration m = sum_list (map ar_duration (mem_actions m))"
  by (simp add: mem_total_duration_def foldl_plus_nat)

section \<open>Properties\<close>

lemma conv_add_system:
  assumes "conv_messages c = sys # ms" and "cm_role sys = System" and "length ms < conv_max_messages c"
  shows "conv_messages (conv_add m c) = sys # last_n (conv_max_messages c - 1) (ms @ [m])"
  using assms by (simp add: conv_add_def trim_messages_system del: trim_messages.simps)

text \<open>A conversation that begins with a system message keeps it, however many messages are
  added; the rest are the most recent ones, in order, up to the limit.\<close>

theorem conversation_keeps_system:
  assumes "conv_messages c = sys # ms" and "cm_role sys = System"
    and "length (conv_messages c) \<le> conv_max_messages c"
  shows "conv_messages (fold conv_add new c) = sys # last_n (conv_max_messages c - 1) (ms @ new)"
  using assms
proof (induction new arbitrary: c ms)
  case Nil
  then show ?case by (simp add: last_n_all)
next
  case (Cons m new)
  let ?c1 = "conv_add m c"
  have c1: "conv_messages ?c1 = sys # last_n (conv_max_messages c - 1) (ms @ [m])"
    using Cons.prems by (simp add: conv_add_system)
  have mx: "conv_max_messages ?c1 = conv_max_messages c" by (simp add: conv_add_def)
  have "conv_messages (fold conv_add new ?c1) =
      sys # last_n (conv_max_messages ?c1 - 1) (last_n (conv_max_messages c - 1) (ms @ [m]) @ new)"
    by (rule Cons.IH [OF c1 Cons.prems(2)]) (use Cons.prems in \<open>simp add: c1 mx\<close>)
  then show ?case by (simp add: mx last_n_append_last_n)
qed

theorem conversation_keeps_system_witness:
  "map cm_content (conv_messages (fold conv_add [cm_user ''b'', cm_user ''c'', cm_user ''d'']
     ((conv_new 3)\<lparr>conv_messages := [cm_system ''s'', cm_user ''a'']\<rparr>))) = [''s'', ''c'', ''d'']"
  using conversation_keeps_system [of "(conv_new 3)\<lparr>conv_messages := [cm_system ''s'', cm_user ''a'']\<rparr>"
      "cm_system ''s''" "[cm_user ''a'']" "[cm_user ''b'', cm_user ''c'', cm_user ''d'']"]
  by (simp add: conv_new_def cm_system_def cm_user_def last_n_def)

text \<open>The action records a memory hands out carry distinct, consecutive sequence numbers until
  the 32-bit counter wraps around.\<close>

theorem action_sequences_distinct:
  assumes "length calls \<le> 2 ^ 32"
  shows "distinct (map ar_sequence (fst (create_actions calls m))) \<and>
     map ar_sequence (fst (create_actions calls m)) =
       map (\<lambda>k. mem_next_sequence m + of_nat k) [0..<length calls]"
  using assms create_actions_distinct create_actions_sequences by blast

theorem action_sequences_distinct_witness:
  "map ar_sequence (fst (create_actions [(7, 0, ''a'', JNull), (8, 1, ''b'', JNull)]
     (mem_new 3 :: int memory))) = [0, 1]"
  using action_sequences_distinct [of "[(7, 0, ''a'', JNull), (8, 1, ''b'', JNull)]" "mem_new 3 :: int memory"]
  by (simp add: mem_new_def)

end
