(* ===== verification/Context_Manager.thy ===== *)
theory Context_Manager
  imports Job_State Job_Memory
begin

text \<open>
  The registry of running jobs, \<open>src/context/manager.rs\<close>. Each operation holds the lock of the map
  it touches while it runs, so it is one step on the manager's state. The identifier that
  \<open>create_job_for_user\<close> draws and the time it reads are arguments.
\<close>

datatype job_error =
    JobNotFound uuid
  | JobInvalidTransition uuid string string
  | JobFailed uuid string
  | JobStuckFor uuid duration
  | MaxJobsExceeded nat
  | JobContextError uuid string

record 'd context_manager =
  cmg_contexts :: "(uuid, 'd job_context) hash_map"
  cmg_memories :: "(uuid, 'd memory) hash_map"
  cmg_max_jobs :: nat

definition cmg_new :: "nat \<Rightarrow> 'd context_manager" where
  "cmg_new max_jobs = \<lparr>cmg_contexts = [], cmg_memories = [], cmg_max_jobs = max_jobs\<rparr>"

definition cmg_default :: "'d context_manager" where
  "cmg_default = cmg_new 10"

definition active_ctx :: "'d job_context \<Rightarrow> bool" where
  "active_ctx c = is_active (jc_state c)"

definition create_job_for_user ::
  "'d \<Rightarrow> uuid \<Rightarrow> time \<Rightarrow> string \<Rightarrow> string \<Rightarrow> string \<Rightarrow> 'd context_manager \<Rightarrow>
     (job_error + uuid) \<times> 'd context_manager" where
  "create_job_for_user dzero new_id now user_id title description g =
     (let active_count = hm_count active_ctx (cmg_contexts g)
      in if cmg_max_jobs g \<le> active_count then (Err (MaxJobsExceeded (cmg_max_jobs g)), g)
         else
           (let context = jc_with_user dzero new_id now user_id title description;
                job_id = jc_job_id context;
                g1 = g\<lparr>cmg_contexts := hm_insert job_id context (cmg_contexts g)\<rparr>;
                memory = mem_new job_id
            in (Ok job_id, g1\<lparr>cmg_memories := hm_insert job_id memory (cmg_memories g1)\<rparr>)))"

definition create_job ::
  "'d \<Rightarrow> uuid \<Rightarrow> time \<Rightarrow> string \<Rightarrow> string \<Rightarrow> 'd context_manager \<Rightarrow>
     (job_error + uuid) \<times> 'd context_manager" where
  "create_job dzero new_id now title description g =
     create_job_for_user dzero new_id now ''default'' title description g"

definition get_context :: "uuid \<Rightarrow> 'd context_manager \<Rightarrow> job_error + 'd job_context" where
  "get_context job_id g =
     (case hm_get (cmg_contexts g) job_id of Some c \<Rightarrow> Ok c | None \<Rightarrow> Err (JobNotFound job_id))"

definition update_context ::
  "uuid \<Rightarrow> ('d job_context \<Rightarrow> 'r \<times> 'd job_context) \<Rightarrow> 'd context_manager \<Rightarrow>
     (job_error + 'r) \<times> 'd context_manager" where
  "update_context job_id f g =
     (case hm_get (cmg_contexts g) job_id of
        None \<Rightarrow> (Err (JobNotFound job_id), g)
      | Some c \<Rightarrow>
          (let (r, c') = f c
           in (Ok r, g\<lparr>cmg_contexts := hm_insert job_id c' (cmg_contexts g)\<rparr>)))"

definition get_memory :: "uuid \<Rightarrow> 'd context_manager \<Rightarrow> job_error + 'd memory" where
  "get_memory job_id g =
     (case hm_get (cmg_memories g) job_id of Some m \<Rightarrow> Ok m | None \<Rightarrow> Err (JobNotFound job_id))"

definition update_memory ::
  "uuid \<Rightarrow> ('d memory \<Rightarrow> 'r \<times> 'd memory) \<Rightarrow> 'd context_manager \<Rightarrow>
     (job_error + 'r) \<times> 'd context_manager" where
  "update_memory job_id f g =
     (case hm_get (cmg_memories g) job_id of
        None \<Rightarrow> (Err (JobNotFound job_id), g)
      | Some m \<Rightarrow>
          (let (r, m') = f m
           in (Ok r, g\<lparr>cmg_memories := hm_insert job_id m' (cmg_memories g)\<rparr>)))"

definition active_jobs :: "'d context_manager \<Rightarrow> uuid list" where
  "active_jobs g = map fst (filter (\<lambda>(_, c). is_active (jc_state c)) (cmg_contexts g))"

definition all_jobs :: "'d context_manager \<Rightarrow> uuid list" where
  "all_jobs g = map fst (cmg_contexts g)"

definition active_jobs_for :: "string \<Rightarrow> 'd context_manager \<Rightarrow> uuid list" where
  "active_jobs_for user_id g =
     map fst (filter (\<lambda>(_, c). jc_user_id c = user_id \<and> is_active (jc_state c)) (cmg_contexts g))"

definition all_jobs_for :: "string \<Rightarrow> 'd context_manager \<Rightarrow> uuid list" where
  "all_jobs_for user_id g = map fst (filter (\<lambda>(_, c). jc_user_id c = user_id) (cmg_contexts g))"

definition active_count :: "'d context_manager \<Rightarrow> nat" where
  "active_count g = hm_count active_ctx (cmg_contexts g)"

text \<open>\<open>remove_job\<close> takes the context out before it looks for the memory, so the error of the
  second lookup leaves the context removed.\<close>

definition remove_job ::
  "uuid \<Rightarrow> 'd context_manager \<Rightarrow> (job_error + 'd job_context \<times> 'd memory) \<times> 'd context_manager" where
  "remove_job job_id g =
     (case hm_get (cmg_contexts g) job_id of
        None \<Rightarrow> (Err (JobNotFound job_id), g)
      | Some c \<Rightarrow>
          (let g1 = g\<lparr>cmg_contexts := hm_remove job_id (cmg_contexts g)\<rparr>
           in case hm_get (cmg_memories g1) job_id of
                None \<Rightarrow> (Err (JobNotFound job_id), g1)
              | Some m \<Rightarrow> (Ok (c, m), g1\<lparr>cmg_memories := hm_remove job_id (cmg_memories g1)\<rparr>)))"

definition find_stuck_jobs :: "'d context_manager \<Rightarrow> uuid list" where
  "find_stuck_jobs g = map fst (filter (\<lambda>(_, c). jc_state c = JStuck) (cmg_contexts g))"

record context_summary =
  cs_total :: nat
  cs_pending :: nat
  cs_in_progress :: nat
  cs_completed :: nat
  cs_submitted :: nat
  cs_accepted :: nat
  cs_failed :: nat
  cs_stuck :: nat
  cs_cancelled :: nat

definition cs_empty :: context_summary where
  "cs_empty =
     \<lparr>cs_total = 0, cs_pending = 0, cs_in_progress = 0, cs_completed = 0, cs_submitted = 0,
      cs_accepted = 0, cs_failed = 0, cs_stuck = 0, cs_cancelled = 0\<rparr>"

text \<open>The \<open>match ctx.state\<close> of the counting loop.\<close>

fun cs_tally :: "job_state \<Rightarrow> context_summary \<Rightarrow> context_summary" where
  "cs_tally JPending s = s\<lparr>cs_pending := cs_pending s + 1\<rparr>"
| "cs_tally JInProgress s = s\<lparr>cs_in_progress := cs_in_progress s + 1\<rparr>"
| "cs_tally JCompleted s = s\<lparr>cs_completed := cs_completed s + 1\<rparr>"
| "cs_tally JSubmitted s = s\<lparr>cs_submitted := cs_submitted s + 1\<rparr>"
| "cs_tally JAccepted s = s\<lparr>cs_accepted := cs_accepted s + 1\<rparr>"
| "cs_tally JFailed s = s\<lparr>cs_failed := cs_failed s + 1\<rparr>"
| "cs_tally JStuck s = s\<lparr>cs_stuck := cs_stuck s + 1\<rparr>"
| "cs_tally JCancelled s = s\<lparr>cs_cancelled := cs_cancelled s + 1\<rparr>"

definition summary :: "'d context_manager \<Rightarrow> context_summary" where
  "summary g =
     (let s = fold (\<lambda>c. cs_tally (jc_state c)) (map snd (cmg_contexts g)) cs_empty
      in s\<lparr>cs_total := length (cmg_contexts g)\<rparr>)"

definition cs_parts :: "context_summary \<Rightarrow> nat" where
  "cs_parts s = cs_pending s + cs_in_progress s + cs_completed s + cs_submitted s + cs_accepted s +
                cs_failed s + cs_stuck s + cs_cancelled s"

definition summary_for :: "string \<Rightarrow> 'd context_manager \<Rightarrow> context_summary" where
  "summary_for user_id g =
     (let s = fold (\<lambda>c. cs_tally (jc_state c))
                (filter (\<lambda>c. jc_user_id c = user_id) (map snd (cmg_contexts g))) cs_empty
      in s\<lparr>cs_total := cs_parts s\<rparr>)"

section \<open>Reachable managers\<close>

text \<open>
  The steps of a manager: creating a job, applying one of the job operations to a context,
  changing a memory in any way, and removing a job.
\<close>

inductive cmg_step :: "'d \<Rightarrow> ('d \<Rightarrow> 'd \<Rightarrow> 'd) \<Rightarrow> 'd context_manager \<Rightarrow> 'd context_manager \<Rightarrow> bool"
  for dzero :: 'd and dplus :: "'d \<Rightarrow> 'd \<Rightarrow> 'd"
where
  cmg_create: "cmg_step dzero dplus g (snd (create_job_for_user dzero i now u t d g))"
| cmg_update:
    "(\<And>c. job_step dplus c (snd (f c))) \<Longrightarrow>
       cmg_step dzero dplus g (snd (update_context j (f :: _ \<Rightarrow> (string + unit) \<times> _) g))"
| cmg_memory: "cmg_step dzero dplus g (snd (update_memory j (f' :: _ \<Rightarrow> unit \<times> _) g))"
| cmg_remove: "cmg_step dzero dplus g (snd (remove_job j g))"

inductive_cases cmg_stepE: "cmg_step dzero dplus g g'"

inductive cmg_reach :: "'d \<Rightarrow> ('d \<Rightarrow> 'd \<Rightarrow> 'd) \<Rightarrow> nat \<Rightarrow> 'd context_manager \<Rightarrow> bool"
  for dzero :: 'd and dplus :: "'d \<Rightarrow> 'd \<Rightarrow> 'd" and mx :: nat
where
  cmg_start: "cmg_reach dzero dplus mx (cmg_new mx)"
| cmg_next: "cmg_reach dzero dplus mx g \<Longrightarrow> cmg_step dzero dplus g g' \<Longrightarrow> cmg_reach dzero dplus mx g'"

text \<open>The manager's invariant: keys are unique, every context has a memory, every context
  satisfies the job invariant, and the active jobs are within the limit.\<close>

definition cmg_inv :: "'d context_manager \<Rightarrow> bool" where
  "cmg_inv g \<longleftrightarrow>
     hm_ok (cmg_contexts g) \<and> hm_ok (cmg_memories g) \<and>
     (\<forall>k. (hm_get (cmg_contexts g) k = None) = (hm_get (cmg_memories g) k = None)) \<and>
     (\<forall>k c. hm_get (cmg_contexts g) k = Some c \<longrightarrow> job_inv c) \<and>
     active_count g \<le> cmg_max_jobs g"

section \<open>Lemmas\<close>

lemma active_ctx_step: "job_step dplus c c' \<Longrightarrow> active_ctx c' \<Longrightarrow> active_ctx c"
  using job_step_state [of dplus c c'] by (auto simp: active_ctx_def is_active_def)

lemma cmg_inv_create:
  assumes "cmg_inv g"
  shows "cmg_inv (snd (create_job_for_user dzero i now u t d g))"
proof (cases "cmg_max_jobs g \<le> active_count g")
  case True
  with assms show ?thesis by (simp add: create_job_for_user_def active_count_def Let_def)
next
  case False
  let ?c = "jc_with_user dzero i now u t d"
  have "hm_count active_ctx (hm_insert i ?c (cmg_contexts g)) \<le> Suc (active_count g)"
  proof (cases "hm_get (cmg_contexts g) i")
    case None
    then show ?thesis by (simp add: hm_count_insert_new active_count_def)
  next
    case (Some w)
    then show ?thesis
      using assms hm_count_insert_old [of "cmg_contexts g" i w active_ctx ?c]
      by (auto simp: cmg_inv_def active_count_def split: if_splits)
  qed
  with False assms show ?thesis
    by (auto simp: cmg_inv_def create_job_for_user_def active_count_def Let_def jc_with_user_def
        job_inv_new [unfolded jc_with_user_def] split: if_splits)
qed

lemma cmg_inv_update:
  assumes inv: "cmg_inv g" and step: "\<And>c. job_step dplus c (snd (f c))"
  shows "cmg_inv (snd (update_context j f g))"
proof (cases "hm_get (cmg_contexts g) j")
  case None
  with inv show ?thesis by (simp add: update_context_def)
next
  case (Some c)
  let ?c' = "snd (f c)"
  have "hm_count active_ctx (hm_insert j ?c' (cmg_contexts g)) \<le> hm_count active_ctx (cmg_contexts g)"
    using inv Some hm_count_insert_old [of "cmg_contexts g" j c active_ctx ?c'] active_ctx_step [OF step, of c]
    by (auto simp: cmg_inv_def split: if_splits)
  moreover have "job_inv ?c'"
    using inv Some job_inv_step [OF step, of c] by (auto simp: cmg_inv_def)
  moreover have "hm_get (cmg_memories g) j \<noteq> None"
    using inv Some by (metis cmg_inv_def option.distinct(1))
  ultimately show ?thesis
    using inv Some
    by (auto simp: cmg_inv_def update_context_def active_count_def split_beta split: if_splits)
qed

lemma cmg_inv_memory: "cmg_inv g \<Longrightarrow> cmg_inv (snd (update_memory j f g))"
  by (auto simp: cmg_inv_def update_memory_def active_count_def split_beta split: option.splits if_splits)

lemma cmg_inv_remove: "cmg_inv g \<Longrightarrow> cmg_inv (snd (remove_job j g))"
  using hm_count_remove [of "cmg_contexts g" active_ctx j]
  by (auto simp: cmg_inv_def remove_job_def active_count_def Let_def split: option.splits if_splits)

lemma cmg_inv_step: "cmg_step dzero dplus g g' \<Longrightarrow> cmg_inv g \<Longrightarrow> cmg_inv g'"
  by (erule cmg_stepE) (auto intro: cmg_inv_create cmg_inv_update cmg_inv_memory cmg_inv_remove)

lemma max_jobs_step [frame]: "cmg_step dzero dplus g g' \<Longrightarrow> cmg_max_jobs g' = cmg_max_jobs g"
  by (erule cmg_stepE)
    (auto simp: create_job_for_user_def update_context_def update_memory_def remove_job_def Let_def
      split_beta split: option.splits)

lemma cmg_reach_inv: "cmg_reach dzero dplus mx g \<Longrightarrow> cmg_inv g \<and> cmg_max_jobs g = mx"
proof (induction rule: cmg_reach.induct)
  case cmg_start
  show ?case by (simp add: cmg_inv_def cmg_new_def active_count_def hm_count_def)
next
  case (cmg_next g g')
  then show ?case using cmg_inv_step max_jobs_step by metis
qed

lemma cs_parts_tally: "cs_parts (cs_tally s t) = Suc (cs_parts t)"
  by (cases s) (simp_all add: cs_parts_def)

lemma cs_parts_fold: "cs_parts (fold (\<lambda>c. cs_tally (jc_state c)) cs s) = cs_parts s + length cs"
  by (induction cs arbitrary: s) (simp_all add: cs_parts_tally)

lemma cs_parts_total [simp]: "cs_parts (s\<lparr>cs_total := n\<rparr>) = cs_parts s"
  by (simp add: cs_parts_def)

section \<open>Properties\<close>



text \<open>Creating a job under a new identifier succeeds exactly when an active slot is free. On
  success the job is pending, belongs to the user, has an empty memory, and every other job is as
  before; on failure nothing changes.\<close>

theorem create_job_effect:
  assumes "hm_get (cmg_contexts g) i = None"
  shows "(if active_count g < cmg_max_jobs g
          then fst (create_job_for_user dzero i now u t d g) = Ok i \<and>
               get_context i (snd (create_job_for_user dzero i now u t d g)) =
                 Ok (jc_with_user dzero i now u t d) \<and>
               get_memory i (snd (create_job_for_user dzero i now u t d g)) = Ok (mem_new i) \<and>
               active_count (snd (create_job_for_user dzero i now u t d g)) = Suc (active_count g) \<and>
               (\<forall>k. k \<noteq> i \<longrightarrow> get_context k (snd (create_job_for_user dzero i now u t d g)) = get_context k g)
          else create_job_for_user dzero i now u t d g = (Err (MaxJobsExceeded (cmg_max_jobs g)), g))"
proof (cases "active_count g < cmg_max_jobs g")
  case True
  then have "\<not> cmg_max_jobs g \<le> hm_count active_ctx (cmg_contexts g)"
    by (simp add: active_count_def)
  moreover have "jc_job_id (jc_with_user dzero i now u t d) = i" "active_ctx (jc_with_user dzero i now u t d)"
    by (simp_all add: jc_with_user_def active_ctx_def is_active_def)
  ultimately show ?thesis
    using True assms
    by (simp add: create_job_for_user_def get_context_def get_memory_def active_count_def Let_def
        hm_count_insert_new)
next
  case False
  then show ?thesis by (simp add: create_job_for_user_def active_count_def Let_def)
qed

theorem create_job_effect_witness:
  "fst (create_job_for_user (0 :: int) 1 0 ''u'' ''a'' '''' (cmg_new 1)) = Ok 1"
  using create_job_effect [of "cmg_new 1" 1 "0 :: int" 0 "''u''" "''a''" "''''"]
  by (simp add: cmg_new_def active_count_def hm_count_def)

text \<open>The summary accounts for every job: its total is the number of jobs and equals the sum of
  the per-state counts, and likewise for the jobs of one user.\<close>

theorem summary_complete:
  "cs_total (summary g) = length (all_jobs g) \<and> cs_parts (summary g) = length (all_jobs g) \<and>
   cs_total (summary_for u g) = length (all_jobs_for u g) \<and>
   cs_parts (summary_for u g) = length (all_jobs_for u g)"
proof -
  have "length (filter (\<lambda>c. jc_user_id c = u) (map snd (cmg_contexts g))) = length (all_jobs_for u g)"
    by (simp add: all_jobs_for_def filter_map comp_def case_prod_unfold)
  then show ?thesis
    by (simp add: summary_def summary_for_def all_jobs_def Let_def cs_parts_fold) (simp add: cs_parts_def cs_empty_def)
qed

end
