(* ===== verification/Agent_Commands.thy ===== *)
theory Agent_Commands
  imports Session_Manager Submission Context_Manager
begin

text \<open>
  The handlers of \<open>src/agent/agent_loop.rs\<close> for the thread commands that call no language model:
  undo, redo, interrupt, clear, new thread, switch thread and resume. A handler takes the user whose
  session it was given, the thread and the session manager, and returns its result and the manager
  afterwards. \<open>uuid_str\<close> is \<open>Uuid::to_string\<close>.
\<close>

type_synonym handler_result = "(job_error + submission_result) \<times> session_manager"

text \<open>\<open>sess.threads.get_mut(&thread_id)\<close> on the user's session, and a write through it.\<close>

definition get_thread :: "string \<Rightarrow> uuid \<Rightarrow> session_manager \<Rightarrow> thread option" where
  "get_thread u t m =
     (case hm_get (sm_sessions m) u of None \<Rightarrow> None | Some s \<Rightarrow> hm_get (ses_threads s) t)"

definition put_thread :: "string \<Rightarrow> uuid \<Rightarrow> thread \<Rightarrow> session_manager \<Rightarrow> session_manager" where
  "put_thread u t thr m =
     (case hm_get (sm_sessions m) u of
        None \<Rightarrow> m
      | Some s \<Rightarrow>
          m\<lparr>sm_sessions :=
              hm_insert u (s\<lparr>ses_threads := hm_insert t thr (ses_threads s)\<rparr>) (sm_sessions m)\<rparr>)"

definition put_undo_manager :: "uuid \<Rightarrow> undo_manager \<Rightarrow> session_manager \<Rightarrow> session_manager" where
  "put_undo_manager t mgr m = m\<lparr>sm_undo_managers := hm_insert t mgr (sm_undo_managers m)\<rparr>"

definition process_undo :: "uuid \<Rightarrow> time \<Rightarrow> string \<Rightarrow> uuid \<Rightarrow> session_manager \<Rightarrow> handler_result" where
  "process_undo new_id now u t m =
     (let (mgr, m1) = get_undo_manager t m
      in if \<not> can_undo mgr then (Ok (ok_with_message ''Nothing to undo.''), m1)
         else
           case get_thread u t m1 of
             None \<Rightarrow> (Err (JobNotFound t), m1)
           | Some thr \<Rightarrow>
               (let current_messages = thread_messages thr;
                    current_turn = thread_turn_number thr;
                    (r, mgr') = um_undo new_id current_turn current_messages mgr;
                    m2 = put_undo_manager t mgr' m1
                in case r of
                     Some cp \<Rightarrow>
                       (Ok (ok_with_message
                              (''Undone to turn '' @ show_nat (cp_turn_number cp) @ ''. '' @
                               show_nat (undo_count mgr') @ '' undo(s) remaining.'')),
                        put_thread u t (restore_from_messages now (cp_messages cp) thr) m2)
                   | None \<Rightarrow> (Ok (result_error ''Undo failed.''), m2)))"

definition process_redo :: "time \<Rightarrow> string \<Rightarrow> uuid \<Rightarrow> session_manager \<Rightarrow> handler_result" where
  "process_redo now u t m =
     (let (mgr, m1) = get_undo_manager t m
      in if \<not> can_redo mgr then (Ok (ok_with_message ''Nothing to redo.''), m1)
         else
           (let (r, mgr') = um_redo mgr;
                m2 = put_undo_manager t mgr' m1
            in case r of
                 Some cp \<Rightarrow>
                   (case get_thread u t m2 of
                      None \<Rightarrow> (Err (JobNotFound t), m2)
                    | Some thr \<Rightarrow>
                        (Ok (ok_with_message
                               (''Redone to turn '' @ show_nat (cp_turn_number cp) @ ''.'')),
                         put_thread u t (restore_from_messages now (cp_messages cp) thr) m2))
               | None \<Rightarrow> (Ok (result_error ''Redo failed.''), m2)))"

definition process_interrupt :: "time \<Rightarrow> string \<Rightarrow> uuid \<Rightarrow> session_manager \<Rightarrow> handler_result" where
  "process_interrupt now u t m =
     (case get_thread u t m of
        None \<Rightarrow> (Err (JobNotFound t), m)
      | Some thr \<Rightarrow>
          if thr_state thr \<in> {TProcessing, TAwaitingApproval}
          then (Ok (ok_with_message ''Interrupted.''), put_thread u t (thread_interrupt now thr) m)
          else (Ok (ok_with_message ''Nothing to interrupt.''), m))"

definition process_clear :: "string \<Rightarrow> uuid \<Rightarrow> session_manager \<Rightarrow> handler_result" where
  "process_clear u t m =
     (case get_thread u t m of
        None \<Rightarrow> (Err (JobNotFound t), m)
      | Some thr \<Rightarrow>
          (let m1 = put_thread u t (thr\<lparr>thr_turns := [], thr_state := TIdle\<rparr>) m;
               (mgr, m2) = get_undo_manager t m1
           in (Ok (ok_with_message ''Thread cleared.''), put_undo_manager t (um_clear mgr) m2)))"

definition process_new_thread ::
  "(uuid \<Rightarrow> string) \<Rightarrow> uuid \<Rightarrow> uuid \<Rightarrow> time \<Rightarrow> string \<Rightarrow> session_manager \<Rightarrow> handler_result" where
  "process_new_thread uuid_str sid tid now u m =
     (let (s, m1) = get_or_create_session sid now u m;
          s' = create_thread tid now s
      in (Ok (ok_with_message (''New thread: '' @ uuid_str tid)),
          m1\<lparr>sm_sessions := hm_insert u s' (sm_sessions m1)\<rparr>))"

definition process_switch_thread ::
  "(uuid \<Rightarrow> string) \<Rightarrow> uuid \<Rightarrow> time \<Rightarrow> string \<Rightarrow> uuid \<Rightarrow> session_manager \<Rightarrow> handler_result" where
  "process_switch_thread uuid_str sid now u target m =
     (let (s, m1) = get_or_create_session sid now u m;
          (found, s') = switch_thread target now s
      in if found
         then (Ok (ok_with_message (''Switched to thread '' @ uuid_str target)),
               m1\<lparr>sm_sessions := hm_insert u s' (sm_sessions m1)\<rparr>)
         else (Ok (result_error ''Thread not found.''), m1))"

definition process_resume ::
  "time \<Rightarrow> string \<Rightarrow> uuid \<Rightarrow> uuid \<Rightarrow> session_manager \<Rightarrow> handler_result" where
  "process_resume now u t checkpoint_id m =
     (let (mgr, m1) = get_undo_manager t m;
          (r, mgr') = um_restore checkpoint_id mgr;
          m2 = put_undo_manager t mgr' m1
      in case r of
           Some cp \<Rightarrow>
             (case get_thread u t m2 of
                None \<Rightarrow> (Err (JobNotFound t), m2)
              | Some thr \<Rightarrow>
                  (Ok (ok_with_message (''Resumed from checkpoint: '' @ cp_description cp)),
                   put_thread u t (restore_from_messages now (cp_messages cp) thr) m2))
         | None \<Rightarrow> (Ok (result_error ''Checkpoint not found.''), m2))"

section \<open>Lemmas\<close>

lemma get_put_thread:
  "get_thread u t m \<noteq> None \<Longrightarrow>
   get_thread v k (put_thread u t thr m) = (if v = u \<and> k = t then Some thr else get_thread v k m)"
  by (auto simp: get_thread_def put_thread_def split: option.splits)

lemma get_thread_frame [frame]:
  "get_thread u t (put_undo_manager k mgr m) = get_thread u t m"
  "get_thread u t (snd (get_undo_manager k m)) = get_thread u t m"
  by (auto simp: get_thread_def put_undo_manager_def get_undo_manager_def split: option.splits)

lemma undo_managers_put [simp]:
  "sm_undo_managers (put_thread u t thr m) = sm_undo_managers m"
  by (simp add: put_thread_def split: option.splits)

lemma get_undo_manager_put:
  "fst (get_undo_manager t (put_undo_manager t mgr m)) = mgr"
  by (simp add: get_undo_manager_def put_undo_manager_def)

lemma get_undo_manager_put_thread:
  "fst (get_undo_manager k (put_thread u t thr m)) = fst (get_undo_manager k m)"
  by (simp add: get_undo_manager_def split: option.splits)

lemmas manager_simps = get_undo_manager_put get_undo_manager_put_thread

text \<open>What a successful undo and redo do to the thread and to its undo manager.\<close>

lemma process_undo_effect:
  assumes "can_undo (fst (get_undo_manager t m))" and "get_thread u t m = Some thr"
  defines "mgr \<equiv> fst (get_undo_manager t m)"
  shows "get_thread u t (snd (process_undo i now u t m)) =
           Some (restore_from_messages now (cp_messages (last (um_undo_stack mgr))) thr)"
    and "fst (get_undo_manager t (snd (process_undo i now u t m))) =
           mgr\<lparr>um_redo_stack := um_redo_stack mgr @
                [checkpoint_new i (thread_turn_number thr) (thread_messages thr)
                   (''Turn '' @ show_nat (thread_turn_number thr))]\<rparr>"
proof -
  obtain mgr1 m1 where gm: "get_undo_manager t m = (mgr1, m1)" by fastforce
  have m1: "mgr1 = mgr" "get_thread u t m1 = Some thr" "can_undo mgr"
    using gm assms get_thread_frame(2) [of u t t m] by auto
  note eval = process_undo_def gm m1 um_undo_def can_undo_def [of mgr]
  show "get_thread u t (snd (process_undo i now u t m)) =
           Some (restore_from_messages now (cp_messages (last (um_undo_stack mgr))) thr)"
    using m1(3) by (simp add: eval get_put_thread frame can_undo_def Let_def m1)
  show "fst (get_undo_manager t (snd (process_undo i now u t m))) =
           mgr\<lparr>um_redo_stack := um_redo_stack mgr @
                [checkpoint_new i (thread_turn_number thr) (thread_messages thr)
                   (''Turn '' @ show_nat (thread_turn_number thr))]\<rparr>"
    using m1(3) by (simp add: eval manager_simps can_undo_def Let_def m1)
qed

lemma process_redo_effect:
  assumes "can_redo (fst (get_undo_manager t m))" and "get_thread u t m = Some thr"
  defines "mgr \<equiv> fst (get_undo_manager t m)"
  shows "get_thread u t (snd (process_redo now u t m)) =
           Some (restore_from_messages now (cp_messages (last (um_redo_stack mgr))) thr)"
    and "fst (get_undo_manager t (snd (process_redo now u t m))) =
           mgr\<lparr>um_redo_stack := butlast (um_redo_stack mgr)\<rparr>"
proof -
  obtain mgr1 m1 where gm: "get_undo_manager t m = (mgr1, m1)" by fastforce
  have m1: "mgr1 = mgr" "get_thread u t m1 = Some thr" "can_redo mgr"
    using gm assms get_thread_frame(2) [of u t t m] by auto
  note eval = process_redo_def gm m1 um_redo_def
  show "get_thread u t (snd (process_redo now u t m)) =
           Some (restore_from_messages now (cp_messages (last (um_redo_stack mgr))) thr)"
    using m1(3) by (simp add: eval get_put_thread frame can_redo_def Let_def m1)
  show "fst (get_undo_manager t (snd (process_redo now u t m))) =
           mgr\<lparr>um_redo_stack := butlast (um_redo_stack mgr)\<rparr>"
    using m1(3) by (simp add: eval manager_simps frame can_redo_def Let_def m1)
qed

text \<open>No handler touches a thread of another user.\<close>

lemma put_thread_other: "v \<noteq> u \<Longrightarrow> get_thread v k (put_thread u t thr m) = get_thread v k m"
  by (auto simp: get_thread_def put_thread_def split: option.splits)

lemma handlers_other_user:
  assumes "v \<noteq> u"
  shows "get_thread v k (snd (process_undo i now u t m)) = get_thread v k m"
    and "get_thread v k (snd (process_redo now u t m)) = get_thread v k m"
    and "get_thread v k (snd (process_interrupt now u t m)) = get_thread v k m"
    and "get_thread v k (snd (process_clear u t m)) = get_thread v k m"
    and "get_thread v k (snd (process_resume now u t cid m)) = get_thread v k m"
proof -
  obtain mgr m1 where gm: "get_undo_manager t m = (mgr, m1)" by fastforce
  then have m1: "get_thread v k m1 = get_thread v k m"
    using get_thread_frame(2) [of v k t m] by simp
  show "get_thread v k (snd (process_undo i now u t m)) = get_thread v k m"
    using assms by (simp add: process_undo_def gm m1 put_thread_other frame Let_def split_beta split: option.split)
  show "get_thread v k (snd (process_redo now u t m)) = get_thread v k m"
    using assms by (simp add: process_redo_def gm m1 put_thread_other frame Let_def split_beta split: option.split)
  show "get_thread v k (snd (process_interrupt now u t m)) = get_thread v k m"
    using assms by (simp add: process_interrupt_def put_thread_other split: option.split)
  show "get_thread v k (snd (process_clear u t m)) = get_thread v k m"
    using assms by (simp add: process_clear_def put_thread_other frame Let_def split_beta split: option.split)
  show "get_thread v k (snd (process_resume now u t cid m)) = get_thread v k m"
    using assms by (simp add: process_resume_def gm m1 put_thread_other frame Let_def split_beta split: option.split)
qed

section \<open>Commands over all users\<close>

text \<open>The managers the commands of any users lead to, in any order; an identifier a handler draws for
  a new thread is one no session uses.\<close>

inductive agent_step :: "(uuid \<Rightarrow> string) \<Rightarrow> session_manager \<Rightarrow> session_manager \<Rightarrow> bool"
  for uuid_str :: "uuid \<Rightarrow> string"
where
  ag_resolve: "fresh_thread m tid \<Longrightarrow> agent_step uuid_str m (snd (resolve_thread sid tid now u ch ext m))"
| ag_new: "fresh_thread m tid \<Longrightarrow> agent_step uuid_str m (snd (process_new_thread uuid_str sid tid now u m))"
| ag_undo: "agent_step uuid_str m (snd (process_undo i now u t m))"
| ag_redo: "agent_step uuid_str m (snd (process_redo now u t m))"
| ag_interrupt: "agent_step uuid_str m (snd (process_interrupt now u t m))"
| ag_clear: "agent_step uuid_str m (snd (process_clear u t m))"
| ag_switch: "agent_step uuid_str m (snd (process_switch_thread uuid_str sid now u t m))"
| ag_resume: "agent_step uuid_str m (snd (process_resume now u t c m))"
| ag_prune: "agent_step uuid_str m (snd (prune_stale_sessions now idle l1 l2 m))"

inductive_cases agent_stepE: "agent_step uuid_str m m'"

lemma has_thread_get: "has_thread m u t \<longleftrightarrow> get_thread u t m \<noteq> None"
  by (auto simp: has_thread_def get_thread_def hm_contains_def split: option.splits)

lemma sm_inv_session: "sm_inv m \<Longrightarrow> hm_get (sm_sessions m) u = Some s \<Longrightarrow> ses_user_id s = u \<and> session_ok s"
  by (simp add: sm_inv_def)

lemma sm_inv_owner: "sm_inv m \<Longrightarrow> has_thread m u t \<Longrightarrow> has_thread m v t \<Longrightarrow> u = v"
  unfolding sm_inv_def by blast

lemma session_ok_put_thread:
  "session_ok s \<Longrightarrow> session_ok (s\<lparr>ses_threads := hm_insert t thr (ses_threads s)\<rparr>)"
  by (auto simp: session_ok_def hm_contains_def split: option.splits)

lemma switch_thread_frame [frame]:
  "ses_user_id (snd (switch_thread t now s)) = ses_user_id s"
  "ses_threads (snd (switch_thread t now s)) = ses_threads s"
  "session_ok s \<Longrightarrow> session_ok (snd (switch_thread t now s))"
  by (cases "hm_contains (ses_threads s) t"; simp add: switch_thread_def session_ok_def)+

lemma sm_inv_put_thread:
  assumes "sm_inv m" and "get_thread u t m = Some thr0"
  shows "sm_inv (put_thread u t thr m)"
proof -
  let ?m = "put_thread u t thr m"
  have h: "has_thread ?m v k = has_thread m v k" for v k
    using assms(2) by (simp add: has_thread_get get_put_thread)
  from assms(2) obtain s where s: "hm_get (sm_sessions m) u = Some s" "hm_get (ses_threads s) t = Some thr0"
    by (auto simp: get_thread_def split: option.splits)
  have "ses_user_id s' = v \<and> session_ok s'" if "hm_get (sm_sessions ?m) v = Some s'" for v s'
    using that s sm_inv_session [OF assms(1)]
    by (auto simp: put_thread_def session_ok_put_thread split: if_splits)
  moreover have "hm_ok (sm_sessions ?m)" "hm_ok (sm_thread_map ?m)"
    using assms(1) s by (auto simp: put_thread_def sm_inv_def)
  ultimately show ?thesis using assms(1) h unfolding sm_inv_def by blast
qed

lemma sm_inv_frame [frame]:
  "sm_inv (put_undo_manager t mgr m) = sm_inv m"
  "sm_inv (snd (get_undo_manager t m)) = sm_inv m"
  by (auto simp: sm_inv_def has_thread_def put_undo_manager_def get_undo_manager_def split: option.splits)

lemma sm_inv_put_session:
  assumes "sm_inv m" and "hm_get (sm_sessions m) u = Some s"
    and "ses_user_id s' = u" and "session_ok s'"
    and "\<And>k. hm_contains (ses_threads s') k \<Longrightarrow> hm_contains (ses_threads s) k \<or> fresh_thread m k"
  shows "sm_inv (m\<lparr>sm_sessions := hm_insert u s' (sm_sessions m)\<rparr>)"
proof -
  let ?m = "m\<lparr>sm_sessions := hm_insert u s' (sm_sessions m)\<rparr>"
  have "has_thread m v k \<or> (v = u \<and> fresh_thread m k)" if "has_thread ?m v k" for v k
    using that assms(2,5) by (auto simp: has_thread_def split: if_splits option.splits)
  then have "v = w" if "has_thread ?m v k" "has_thread ?m w k" for v w k
    using that assms(1) unfolding sm_inv_def fresh_thread_def by metis
  moreover have "ses_user_id s1 = v \<and> session_ok s1" if "hm_get (sm_sessions ?m) v = Some s1" for v s1
    using that assms by (auto simp: sm_inv_def split: if_splits)
  ultimately show ?thesis using assms(1) unfolding sm_inv_def by auto
qed

lemma sm_inv_new_thread:
  assumes "sm_inv m" and "fresh_thread m tid"
  shows "sm_inv (snd (process_new_thread uuid_str sid tid now u m))"
proof -
  obtain s m1 where g: "get_or_create_session sid now u m = (s, m1)" by fastforce
  have inv: "sm_inv m1" using sm_inv_get_or_create [OF assms(1), of sid now u] g by simp
  have s: "hm_get (sm_sessions m1) u = Some s"
    using g by (auto simp: get_or_create_session_def Let_def split: option.splits)
  have fresh: "fresh_thread m1 tid"
    using assms(2) has_thread_get_or_create [of sid now u m] g by (simp add: fresh_thread_def)
  have "sm_inv (m1\<lparr>sm_sessions := hm_insert u (create_thread tid now s) (sm_sessions m1)\<rparr>)"
  proof (rule sm_inv_put_session [OF inv s])
    show "ses_user_id (create_thread tid now s) = u" "session_ok (create_thread tid now s)"
      using inv s by (auto simp: sm_inv_def frame session_ok_create)
  qed (use fresh in \<open>auto simp: hm_contains_def split: if_splits\<close>)
  then show ?thesis by (simp add: process_new_thread_def g)
qed

lemma sm_inv_switch:
  assumes "sm_inv m"
  shows "sm_inv (snd (process_switch_thread uuid_str sid now u t m))"
proof -
  obtain s m1 where g: "get_or_create_session sid now u m = (s, m1)" by fastforce
  have inv: "sm_inv m1" using sm_inv_get_or_create [OF assms, of sid now u] g by simp
  have s: "hm_get (sm_sessions m1) u = Some s"
    using g by (auto simp: get_or_create_session_def Let_def split: option.splits)
  then have "ses_user_id s = u" "session_ok s" using inv by (auto simp: sm_inv_def)
  then have "sm_inv (m1\<lparr>sm_sessions := hm_insert u (snd (switch_thread t now s)) (sm_sessions m1)\<rparr>)"
    by (intro sm_inv_put_session [OF inv s]) (simp_all add: frame)
  with inv show ?thesis by (auto simp: process_switch_thread_def g split_beta)
qed

lemma sm_inv_handlers:
  assumes "sm_inv m"
  shows "sm_inv (snd (process_undo i now u t m))" and "sm_inv (snd (process_redo now u t m))"
    and "sm_inv (snd (process_interrupt now u t m))" and "sm_inv (snd (process_clear u t m))"
    and "sm_inv (snd (process_resume now u t c m))"
proof -
  obtain mgr m1 where gm: "get_undo_manager t m = (mgr, m1)" by fastforce
  have m1: "sm_inv m1" using sm_inv_frame(2) [of t m] gm assms by simp
  note inv = assms m1 sm_inv_put_thread frame
  show "sm_inv (snd (process_undo i now u t m))"
    by (auto simp: process_undo_def gm inv Let_def split_beta split: option.split)
  show "sm_inv (snd (process_redo now u t m))"
    by (auto simp: process_redo_def gm inv Let_def split_beta split: option.split)
  show "sm_inv (snd (process_interrupt now u t m))"
    by (auto simp: process_interrupt_def inv split: option.split)
  show "sm_inv (snd (process_clear u t m))"
    by (auto simp: process_clear_def inv Let_def split_beta split: option.split)
  show "sm_inv (snd (process_resume now u t c m))"
    by (auto simp: process_resume_def gm inv Let_def split_beta split: option.split)
qed

lemma sm_inv_agent_step: "agent_step uuid_str m m' \<Longrightarrow> sm_inv m \<Longrightarrow> sm_inv m'"
  by (erule agent_stepE)
    (auto intro: sm_inv_resolve sm_inv_new_thread sm_inv_handlers sm_inv_switch sm_inv_prune)

section \<open>Properties\<close>

text \<open>Whatever commands any users issue, in any order and interleaved with pruning, no thread
  belongs to two users, every session is filed under its own user, and its active thread is one of
  its threads.\<close>

theorem agent_sessions_isolated:
  assumes "(agent_step uuid_str)\<^sup>*\<^sup>* sm_new m"
  shows "(\<forall>u v t. get_thread u t m \<noteq> None \<and> get_thread v t m \<noteq> None \<longrightarrow> u = v) \<and>
     (\<forall>u s. hm_get (sm_sessions m) u = Some s \<longrightarrow> ses_user_id s = u \<and>
        (\<forall>t. ses_active_thread s = Some t \<longrightarrow> get_thread u t m \<noteq> None))"
proof -
  have "sm_inv m"
    using assms
  proof (induction rule: rtranclp_induct)
    case base
    show ?case by (simp add: sm_inv_def sm_new_def has_thread_def)
  qed (rule sm_inv_agent_step)
  note inv = sm_inv_owner [OF this] sm_inv_session [OF this]
  have "get_thread u t m \<noteq> None"
    if "hm_get (sm_sessions m) u = Some s" "ses_active_thread s = Some t" for u s t
    using inv(2) [OF that(1)] that by (simp add: session_ok_def hm_contains_def get_thread_def)
  with inv show ?thesis by (simp only: has_thread_get) blast
qed

theorem agent_sessions_isolated_witness:
  "get_thread ''bob'' 2 (snd (resolve_thread 1 2 0 ''alice'' ''web'' None sm_new)) = None"
proof -
  let ?m = "snd (resolve_thread 1 2 0 ''alice'' ''web'' None sm_new)"
  have "fresh_thread sm_new 2" by (simp add: fresh_thread_def has_thread_def sm_new_def)
  then have "agent_step show_nat sm_new ?m" by (rule ag_resolve)
  from agent_sessions_isolated [OF r_into_rtranclp [of "agent_step show_nat", OF this]]
  have "get_thread ''alice'' 2 ?m \<noteq> None \<and> get_thread ''bob'' 2 ?m \<noteq> None \<longrightarrow> ''alice'' = ''bob''" by blast
  moreover have "get_thread ''alice'' 2 ?m \<noteq> None"
    by (simp add: resolve_thread_def resolve_create_def resolve_find_def get_or_create_session_def sm_new_def
        get_thread_def Let_def)
  ultimately show ?thesis by auto
qed

text \<open>C35: undo followed by redo brings a thread back: its messages are those before the undo, up to
  attachments, and the undo manager is as it was.\<close>

theorem undo_redo_roundtrip:
  assumes "can_undo (fst (get_undo_manager t m))" and "get_thread u t m = Some thr"
    and "m1 = snd (process_undo i now u t m)" and "m2 = snd (process_redo now' u t m1)"
  shows "map_option thread_messages (get_thread u t m2) = Some (map strip_attachments (thread_messages thr)) \<and>
     fst (get_undo_manager t m2) = fst (get_undo_manager t m)"
proof -
  let ?mgr = "fst (get_undo_manager t m)"
  note undo = process_undo_effect [OF assms(1,2), of i now, folded assms(3)]
  have "can_redo (fst (get_undo_manager t m1))" by (simp add: undo can_redo_def)
  note redo = process_redo_effect [OF this undo(1), of now', folded assms(4)]
  show ?thesis
    by (simp add: redo undo checkpoint_new_def messages_restored_thread)
qed

text \<open>The undo command does not step back in history: it never removes the checkpoint it
  restores, so a second undo restores the same checkpoint again, the number of undos reported as
  remaining does not go down, and the redo stack grows with each call.\<close>

theorem undo_repeats_same_checkpoint:
  assumes "can_undo (fst (get_undo_manager t m))" and "get_thread u t m = Some thr"
    and "m1 = snd (process_undo i now u t m)" and "m2 = snd (process_undo j now' u t m1)"
  shows "map_option thread_messages (get_thread u t m2) = map_option thread_messages (get_thread u t m1) \<and>
     undo_count (fst (get_undo_manager t m2)) = undo_count (fst (get_undo_manager t m)) \<and>
     redo_count (fst (get_undo_manager t m2)) = redo_count (fst (get_undo_manager t m)) + 2"
proof -
  note undo = process_undo_effect [OF assms(1,2), of i now, folded assms(3)]
  have "can_undo (fst (get_undo_manager t m1))" using assms(1) by (simp add: undo can_undo_def)
  note undo2 = process_undo_effect [OF this undo(1), of j now', folded assms(4)]
  show ?thesis
    by (simp add: undo2 undo undo_count_def redo_count_def messages_restored)
qed

text \<open>A state in which both hold: one thread with one turn and one checkpoint.\<close>

definition undo_example :: session_manager where
  "undo_example =
     (let thr = start_turn 5 ''hi'' (thread_new 2 0 1);
          s = (session_new 1 0 ''u'')\<lparr>ses_threads := [(2, thr)], ses_active_thread := Some 2\<rparr>
      in \<lparr>sm_sessions = [(''u'', s)], sm_thread_map = [],
          sm_undo_managers = [(2, um_checkpoint 9 0 [] ''start'' um_new)]\<rparr>)"

lemma undo_example_ok:
  "can_undo (fst (get_undo_manager 2 undo_example))"
  "get_thread ''u'' 2 undo_example = Some (start_turn 5 ''hi'' (thread_new 2 0 1))"
  by (simp_all add: undo_example_def get_undo_manager_def can_undo_def um_checkpoint_stack um_new_def
      DEFAULT_MAX_CHECKPOINTS_def last_n_def get_thread_def Let_def hm_get_def)

theorem undo_redo_roundtrip_witness:
  "map_option thread_messages
     (get_thread ''u'' 2 (snd (process_redo 7 ''u'' 2 (snd (process_undo 8 6 ''u'' 2 undo_example))))) =
   Some [cm_user ''hi'']"
  using undo_redo_roundtrip [OF undo_example_ok refl refl, of 7 8 6]
  by (simp add: thread_messages_def start_turn_def thread_new_def turn_messages_def turn_new_def)

theorem undo_repeats_same_checkpoint_witness:
  "undo_count (fst (get_undo_manager 2 (snd (process_undo 8 7 ''u'' 2 (snd (process_undo 7 6 ''u'' 2 undo_example)))))) = 1"
  using undo_repeats_same_checkpoint [OF undo_example_ok refl refl, of 8 7 7 6]
  by (simp add: undo_example_def get_undo_manager_def undo_count_def um_checkpoint_stack um_new_def
      DEFAULT_MAX_CHECKPOINTS_def last_n_def hm_get_def)

text \<open>Clearing a thread leaves it idle and without turns, with nothing to undo or redo; a thread
  the user does not have is an error that changes nothing.\<close>

theorem clear_effect:
  "(case get_thread u t m of
      None \<Rightarrow> process_clear u t m = (Err (JobNotFound t), m)
    | Some thr \<Rightarrow>
        get_thread u t (snd (process_clear u t m)) = Some (thr\<lparr>thr_turns := [], thr_state := TIdle\<rparr>) \<and>
        \<not> can_undo (fst (get_undo_manager t (snd (process_clear u t m)))) \<and>
        \<not> can_redo (fst (get_undo_manager t (snd (process_clear u t m)))))"
  by (auto simp: process_clear_def get_put_thread frame get_undo_manager_put can_undo_def can_redo_def
      um_clear_def Let_def split_beta split: option.split)

end
