(* ===== verification/Validator.thy ===== *)
theory Validator
  imports Rust_Prelude
begin

text \<open>
  Input validation, \<open>src/safety/validator.rs\<close>. The set of forbidden patterns is a list in its
  iteration order.
\<close>

datatype validation_error_code =
    VEmpty | VTooLong | VTooShort | VInvalidFormat | VForbiddenContent | VInvalidEncoding | VSuspiciousPattern

record validation_error =
  ve_field :: string
  ve_message :: string
  ve_code :: validation_error_code

record validation_result =
  vr_is_valid :: bool
  vr_errors :: "validation_error list"
  vr_warnings :: "string list"

definition vr_ok :: validation_result where
  "vr_ok = \<lparr>vr_is_valid = True, vr_errors = [], vr_warnings = []\<rparr>"

definition vr_error :: "validation_error \<Rightarrow> validation_result" where
  "vr_error e = \<lparr>vr_is_valid = False, vr_errors = [e], vr_warnings = []\<rparr>"

definition vr_with_warning :: "string \<Rightarrow> validation_result \<Rightarrow> validation_result" where
  "vr_with_warning w r = r\<lparr>vr_warnings := vr_warnings r @ [w]\<rparr>"

definition vr_merge :: "validation_result \<Rightarrow> validation_result \<Rightarrow> validation_result" where
  "vr_merge r other =
     \<lparr>vr_is_valid = (vr_is_valid r \<and> vr_is_valid other), vr_errors = vr_errors r @ vr_errors other,
      vr_warnings = vr_warnings r @ vr_warnings other\<rparr>"

record validator =
  val_max_length :: nat
  val_min_length :: nat
  val_forbidden_patterns :: "string list"

definition val_new :: validator where
  "val_new = \<lparr>val_max_length = 100000, val_min_length = 1, val_forbidden_patterns = []\<rparr>"

definition val_with_max_length :: "nat \<Rightarrow> validator \<Rightarrow> validator" where
  "val_with_max_length mx v = v\<lparr>val_max_length := mx\<rparr>"

definition val_with_min_length :: "nat \<Rightarrow> validator \<Rightarrow> validator" where
  "val_with_min_length mn v = v\<lparr>val_min_length := mn\<rparr>"

definition val_forbid_pattern :: "string \<Rightarrow> validator \<Rightarrow> validator" where
  "val_forbid_pattern p v =
     v\<lparr>val_forbidden_patterns := List.insert (to_lowercase p) (val_forbidden_patterns v)\<rparr>"

text \<open>\<open>char::is_whitespace\<close> on the bytes of a character: ASCII white space, and the characters of
  the Unicode property White_Space above it.\<close>

definition bytes_of :: "string \<Rightarrow> nat list" where
  "bytes_of s = map of_char s"

definition char_is_whitespace :: "string \<Rightarrow> bool" where
  "char_is_whitespace c =
     (case bytes_of c of
        [a] \<Rightarrow> a = 32 \<or> 9 \<le> a \<and> a \<le> 13
      | [a, b] \<Rightarrow> a = 194 \<and> (b = 133 \<or> b = 160)
      | [a, b, d] \<Rightarrow>
          a = 225 \<and> b = 154 \<and> d = 128 \<or>
          a = 226 \<and> b = 128 \<and> (128 \<le> d \<and> d \<le> 138 \<or> d = 168 \<or> d = 169 \<or> d = 175) \<or>
          a = 226 \<and> b = 129 \<and> d = 159 \<or>
          a = 227 \<and> b = 128 \<and> d = 128
      | _ \<Rightarrow> False)"

text \<open>The loop of \<open>has_excessive_repetition\<close> over the adjacent pairs, with its two counters.\<close>

fun repeat_loop :: "string list \<Rightarrow> nat \<Rightarrow> nat \<Rightarrow> nat" where
  "repeat_loop (a # b # cs) mx cur =
     (if b = a then repeat_loop (b # cs) (max mx (cur + 1)) (cur + 1)
      else repeat_loop (b # cs) mx 1)"
| "repeat_loop _ mx cur = mx"

definition has_excessive_repetition :: "string \<Rightarrow> bool" where
  "has_excessive_repetition s =
     (if length s < 50 then False else 20 < repeat_loop (utf8_chars s) 1 1)"

text \<open>The quotient of two \<open>f64\<close> counts is above 0.9 exactly when ten times the first is above nine
  times the second, for counts below \<open>2 ^ 49\<close>.\<close>

definition high_whitespace_ratio :: "string \<Rightarrow> bool" where
  "high_whitespace_ratio s =
     (9 * length s < 10 * length (filter char_is_whitespace (utf8_chars s)) \<and> 100 < length s)"

definition input_error :: "string \<Rightarrow> validation_error_code \<Rightarrow> validation_result" where
  "input_error message code = vr_error \<lparr>ve_field = ''input'', ve_message = message, ve_code = code\<rparr>"

definition val_validate :: "validator \<Rightarrow> string \<Rightarrow> validation_result" where
  "val_validate v input =
     (if input = [] then input_error ''Input cannot be empty'' VEmpty
      else
        (let r0 = vr_ok;
             r1 = (if val_max_length v < length input
                   then vr_merge r0 (input_error (''Input too long: '' @ show_nat (length input) @
                          '' bytes (max '' @ show_nat (val_max_length v) @ '')'') VTooLong) else r0);
             r2 = (if length input < val_min_length v
                   then vr_merge r1 (input_error (''Input too short: '' @ show_nat (length input) @
                          '' bytes (min '' @ show_nat (val_min_length v) @ '')'') VTooShort) else r1);
             r3 = (if nul \<in> set input
                   then vr_merge r2 (input_error ''Input contains null bytes'' VInvalidEncoding) else r2);
             lower_input = to_lowercase input;
             r4 = fold (\<lambda>p r. if contains lower_input p
                              then vr_merge r (input_error (''Input contains forbidden pattern: '' @ p) VForbiddenContent)
                              else r) (val_forbidden_patterns v) r3;
             r5 = (if high_whitespace_ratio input
                   then vr_with_warning ''Input has unusually high whitespace ratio'' r4 else r4)
         in if has_excessive_repetition input
            then vr_with_warning ''Input has excessive character repetition'' r5 else r5))"

text \<open>\<open>check_strings\<close>: every string of a JSON value, keys apart.\<close>

fun check_strings :: "validator \<Rightarrow> json \<Rightarrow> validation_result \<Rightarrow> validation_result"
  and check_items :: "validator \<Rightarrow> json list \<Rightarrow> validation_result \<Rightarrow> validation_result"
  and check_fields :: "validator \<Rightarrow> (string \<times> json) list \<Rightarrow> validation_result \<Rightarrow> validation_result" where
  "check_strings v (JString s) r = vr_merge r (val_validate v s)"
| "check_strings v (JArray items) r = check_items v items r"
| "check_strings v (JObject fs) r = check_fields v fs r"
| "check_strings v _ r = r"
| "check_items v [] r = r"
| "check_items v (j # js) r = check_items v js (check_strings v j r)"
| "check_fields v [] r = r"
| "check_fields v ((k, j) # fs) r = check_fields v fs (check_strings v j r)"

definition validate_tool_params :: "validator \<Rightarrow> json \<Rightarrow> validation_result" where
  "validate_tool_params v params = check_strings v params vr_ok"

section \<open>Lemmas\<close>

text \<open>A result is valid exactly when it has no errors.\<close>

definition vr_consistent :: "validation_result \<Rightarrow> bool" where
  "vr_consistent r \<longleftrightarrow> (vr_is_valid r \<longleftrightarrow> vr_errors r = [])"

lemma vr_consistent_ops [simp]:
  "vr_consistent vr_ok" "vr_consistent (vr_error e)" "vr_consistent (input_error m c)"
  "vr_consistent (vr_with_warning w r) = vr_consistent r"
  "vr_consistent r \<Longrightarrow> vr_consistent r' \<Longrightarrow> vr_consistent (vr_merge r r')"
  by (auto simp: vr_consistent_def vr_ok_def vr_error_def vr_with_warning_def vr_merge_def input_error_def)

lemma valid_ops [simp]:
  "vr_is_valid vr_ok" "\<not> vr_is_valid (input_error m c)"
  "vr_is_valid (vr_with_warning w r) = vr_is_valid r"
  "vr_is_valid (vr_merge r r') = (vr_is_valid r \<and> vr_is_valid r')"
  by (auto simp: vr_ok_def vr_error_def vr_with_warning_def vr_merge_def input_error_def)

lemma forbidden_fold:
  "vr_is_valid (fold (\<lambda>p r. if contains l p then vr_merge r (input_error (m p) c) else r) ps r) \<longleftrightarrow>
     vr_is_valid r \<and> (\<forall>p \<in> set ps. \<not> contains l p)"
  "vr_consistent r \<Longrightarrow>
     vr_consistent (fold (\<lambda>p r. if contains l p then vr_merge r (input_error (m p) c) else r) ps r)"
  by (induction ps arbitrary: r) auto

lemma val_validate_consistent: "vr_consistent (val_validate v s)"
  by (simp add: val_validate_def Let_def forbidden_fold(2))

text \<open>The strings of a JSON value.\<close>

fun json_strings :: "json \<Rightarrow> string list" where
  "json_strings (JString s) = [s]"
| "json_strings (JArray items) = concat (map json_strings items)"
| "json_strings (JObject fs) = concat (map (json_strings \<circ> snd) fs)"
| "json_strings _ = []"

lemma check_strings_fold:
  "check_strings v j r = fold (\<lambda>s r. vr_merge r (val_validate v s)) (json_strings j) r"
  "check_items v js r = fold (\<lambda>s r. vr_merge r (val_validate v s)) (concat (map json_strings js)) r"
  "check_fields v fs r = fold (\<lambda>s r. vr_merge r (val_validate v s)) (concat (map (json_strings \<circ> snd) fs)) r"
  by (induction v j r and v js r and v fs r rule: check_strings_check_items_check_fields.induct)
    (simp_all add: comp_def)

lemma merge_fold_valid:
  "vr_is_valid (fold (\<lambda>s r. vr_merge r (f s)) ss r) \<longleftrightarrow> vr_is_valid r \<and> (\<forall>s \<in> set ss. vr_is_valid (f s))"
  by (induction ss arbitrary: r) auto

section \<open>Properties\<close>

lemma val_validate_valid:
  "vr_is_valid (val_validate v s) \<longleftrightarrow>
     s \<noteq> [] \<and> length s \<le> val_max_length v \<and> val_min_length v \<le> length s \<and> nul \<notin> set s \<and>
     (\<forall>p \<in> set (val_forbidden_patterns v). \<not> contains (to_lowercase s) p)"
  by (auto simp: val_validate_def Let_def forbidden_fold(1))

text \<open>Input passes validation exactly when it is not empty, is within the length limits, has no
  NUL byte and contains none of the forbidden patterns in any case; a result is marked valid exactly
  when it carries no error.\<close>

theorem validate_exact:
  "(vr_is_valid (val_validate v s) \<longleftrightarrow>
      s \<noteq> [] \<and> length s \<le> val_max_length v \<and> val_min_length v \<le> length s \<and> nul \<notin> set s \<and>
      \<not> (\<exists>p \<in> set (val_forbidden_patterns v). \<exists>a b. to_lowercase s = a @ p @ b)) \<and>
   (vr_is_valid (val_validate v s) \<longleftrightarrow> vr_errors (val_validate v s) = [])"
  using val_validate_consistent [of v s]
  by (auto simp: val_validate_valid vr_consistent_def contains_iff)

text \<open>Tool parameters are valid exactly when every string anywhere inside the JSON value is.\<close>

theorem tool_params_exact:
  "vr_is_valid (validate_tool_params v j) \<longleftrightarrow> list_all (\<lambda>s. vr_is_valid (val_validate v s)) (json_strings j)"
  by (simp add: validate_tool_params_def check_strings_fold merge_fold_valid list_all_iff)

end
