(* ===== verification/Safety_Policy.thy ===== *)
theory Safety_Policy
  imports Rust_Prelude
begin

text \<open>
  The safety policy, \<open>src/safety/policy.rs\<close>: severities with their order, rules and the default
  rules. A rule keeps the text of its regular expression; matching is the \<open>regex\<close> package, the
  argument \<open>is_match\<close> of the functions that use it, applied to the expression and the content.
\<close>

datatype severity = SevLow | SevMedium | SevHigh | SevCritical

fun severity_value :: "severity \<Rightarrow> nat" where
  "severity_value SevLow = 1"
| "severity_value SevMedium = 2"
| "severity_value SevHigh = 3"
| "severity_value SevCritical = 4"

lemma severity_value_inj: "severity_value a = severity_value b \<longleftrightarrow> a = b"
  by (cases a; cases b) simp_all

text \<open>\<open>Ord for Severity\<close> compares the values.\<close>

instantiation severity :: linorder
begin

definition less_eq_severity :: "severity \<Rightarrow> severity \<Rightarrow> bool" where
  "less_eq_severity a b = (severity_value a \<le> severity_value b)"

definition less_severity :: "severity \<Rightarrow> severity \<Rightarrow> bool" where
  "less_severity a b = (severity_value a < severity_value b)"

instance
  by standard (auto simp: less_eq_severity_def less_severity_def severity_value_inj)

end

datatype policy_action = PWarn | PBlock | PReview | PSanitize

record policy_rule =
  rule_id :: string
  rule_description :: string
  rule_severity :: severity
  rule_pattern :: string
  rule_action :: policy_action

definition rule_new :: "string \<Rightarrow> string \<Rightarrow> string \<Rightarrow> severity \<Rightarrow> policy_action \<Rightarrow> policy_rule" where
  "rule_new i description pattern sev action =
     \<lparr>rule_id = i, rule_description = description, rule_severity = sev, rule_pattern = pattern,
      rule_action = action\<rparr>"

definition rule_matches :: "(string \<Rightarrow> string \<Rightarrow> bool) \<Rightarrow> policy_rule \<Rightarrow> string \<Rightarrow> bool" where
  "rule_matches is_match r content = is_match (rule_pattern r) content"

type_synonym policy = "policy_rule list"

definition policy_new :: policy where
  "policy_new = []"

definition add_rule :: "policy_rule \<Rightarrow> policy \<Rightarrow> policy" where
  "add_rule r p = p @ [r]"

definition policy_check :: "(string \<Rightarrow> string \<Rightarrow> bool) \<Rightarrow> policy \<Rightarrow> string \<Rightarrow> policy_rule list" where
  "policy_check is_match p content = filter (\<lambda>r. rule_matches is_match r content) p"

definition is_blocked :: "(string \<Rightarrow> string \<Rightarrow> bool) \<Rightarrow> policy \<Rightarrow> string \<Rightarrow> bool" where
  "is_blocked is_match p content =
     list_ex (\<lambda>r. rule_action r = PBlock) (policy_check is_match p content)"

definition backslash :: char where
  "backslash = CHR 0x5C"

definition backtick :: char where
  "backtick = CHR 0x60"

text \<open>The default rules; \<open>e c\<close> is an escaped character of an expression.\<close>

definition policy_default :: policy where
  "policy_default =
     (let e = (\<lambda>c. [backslash, c]); s = e CHR ''s''
      in fold add_rule
        [rule_new ''system_file_access'' ''Attempt to access system files''
           (''(?i)(/etc/passwd|/etc/shadow|'' @ e CHR ''.'' @ ''ssh/|'' @ e CHR ''.'' @ ''aws/credentials)'')
           SevCritical PBlock,
         rule_new ''crypto_private_key'' ''Potential cryptocurrency private key''
           ''(?i)(private.?key|seed.?phrase|mnemonic).{0,20}[0-9a-f]{64}'' SevCritical PBlock,
         rule_new ''sql_pattern'' ''SQL-like pattern detected''
           (''(?i)(DROP'' @ s @ ''+TABLE|DELETE'' @ s @ ''+FROM|INSERT'' @ s @ ''+INTO|UPDATE'' @ s @ ''+'' @
              e CHR ''w'' @ ''+'' @ s @ ''+SET)'') SevMedium PWarn,
         rule_new ''shell_injection'' ''Potential shell command injection''
           (''(?i)(;'' @ s @ ''*rm'' @ s @ ''+-rf|;'' @ s @ ''*curl'' @ s @ ''+.*'' @ e CHR ''|'' @ s @ ''*sh|'' @
              [backtick] @ ''.*'' @ [backtick] @ '')'') SevCritical PBlock,
         rule_new ''excessive_urls'' ''Excessive number of URLs detected''
           (''(https?://[^'' @ s @ '']+'' @ s @ ''*){10,}'') SevLow PWarn,
         rule_new ''encoded_exploit'' ''Potential encoded exploit payload''
           (''(?i)(base64_decode|eval'' @ s @ ''*'' @ e CHR ''('' @ s @ ''*base64|atob'' @ s @ ''*'' @
              e CHR ''('' @ '')'') SevHigh PSanitize,
         rule_new ''obfuscated_string'' ''Potential obfuscated content''
           (''[^'' @ s @ '']{500,}'') SevMedium PWarn]
        policy_new)"

section \<open>Lemmas\<close>

lemma is_blocked_iff:
  "is_blocked is_match p content \<longleftrightarrow>
     (\<exists>r \<in> set p. rule_action r = PBlock \<and> is_match (rule_pattern r) content)"
  by (auto simp: is_blocked_def policy_check_def rule_matches_def list_ex_iff)

end
