(* ===== verification/Sanitizer.thy ===== *)
theory Sanitizer
  imports Safety_Policy "HOL-Library.Multiset"
begin

text \<open>
  The prompt-injection sanitizer, \<open>src/safety/sanitizer.rs\<close>. The packages \<open>aho_corasick\<close> and
  \<open>regex\<close> are the arguments \<open>ac\<close> and \<open>rx\<close>: \<open>ac ps s\<close> lists the matches of the patterns \<open>ps\<close> in
  \<open>s\<close> as (pattern index, start, end), \<open>rx e s\<close> those of the expression \<open>e\<close> as (start, end).
\<close>

type_synonym ac_find = "string list \<Rightarrow> string \<Rightarrow> (nat \<times> nat \<times> nat) list"
type_synonym rx_find = "string \<Rightarrow> string \<Rightarrow> (nat \<times> nat) list"

record injection_warning =
  iw_pattern :: string
  iw_severity :: severity
  iw_location :: "nat \<times> nat"
  iw_description :: string

record sanitized_output =
  so_content :: string
  so_warnings :: "injection_warning list"
  so_was_modified :: bool

record pattern_info =
  pi_pattern :: string
  pi_severity :: severity
  pi_description :: string

record regex_pattern =
  rp_regex :: string
  rp_name :: string
  rp_severity :: severity
  rp_description :: string

definition default_pattern_infos :: "pattern_info list" where
  "default_pattern_infos =
     map (\<lambda>(p, s, d). \<lparr>pi_pattern = p, pi_severity = s, pi_description = d\<rparr>)
      [(''ignore previous'', SevHigh, ''Attempt to override previous instructions''),
       (''ignore all previous'', SevCritical, ''Attempt to override all previous instructions''),
       (''disregard'', SevMedium, ''Potential instruction override''),
       (''forget everything'', SevHigh, ''Attempt to reset context''),
       (''you are now'', SevHigh, ''Attempt to change assistant role''),
       (''act as'', SevMedium, ''Potential role manipulation''),
       (''pretend to be'', SevMedium, ''Potential role manipulation''),
       (''system:'', SevCritical, ''Attempt to inject system message''),
       (''assistant:'', SevHigh, ''Attempt to inject assistant response''),
       (''user:'', SevHigh, ''Attempt to inject user message''),
       (''<|'', SevCritical, ''Potential special token injection''),
       (''|>'', SevCritical, ''Potential special token injection''),
       (''[INST]'', SevCritical, ''Potential instruction token injection''),
       (''[/INST]'', SevCritical, ''Potential instruction token injection''),
       (''new instructions'', SevHigh, ''Attempt to provide new instructions''),
       (''updated instructions'', SevHigh, ''Attempt to update instructions''),
       (replicate 3 backtick @ ''system'', SevHigh, ''Potential code block instruction injection''),
       (replicate 3 backtick @ ''bash'' @ [newline] @ ''sudo'', SevMedium,
          ''Potential dangerous command injection'')]"

definition default_regex_patterns :: "regex_pattern list" where
  "default_regex_patterns =
     (let s = [backslash, CHR ''s'']; paren = [backslash, CHR ''('']
      in [\<lparr>rp_regex = ''(?i)base64[:'' @ s @ '']+[A-Za-z0-9+/=]{50,}'', rp_name = ''base64_payload'',
           rp_severity = SevMedium, rp_description = ''Potential encoded payload''\<rparr>,
          \<lparr>rp_regex = ''(?i)eval'' @ s @ ''*'' @ paren, rp_name = ''eval_call'',
           rp_severity = SevHigh, rp_description = ''Potential code evaluation attempt''\<rparr>,
          \<lparr>rp_regex = ''(?i)exec'' @ s @ ''*'' @ paren, rp_name = ''exec_call'',
           rp_severity = SevHigh, rp_description = ''Potential code execution attempt''\<rparr>,
          \<lparr>rp_regex = [backslash] @ ''x00'', rp_name = ''null_byte'',
           rp_severity = SevCritical, rp_description = ''Null byte injection attempt''\<rparr>])"

section \<open>Escaping\<close>

definition is_role_line :: "string \<Rightarrow> bool" where
  "is_role_line line =
     (let trimmed = to_lowercase (trim_start line)
      in starts_with trimmed ''system:'' \<or> starts_with trimmed ''user:'' \<or> starts_with trimmed ''assistant:'')"

definition escape_line :: "string \<Rightarrow> string" where
  "escape_line line = (if is_role_line line then ''[ESCAPED] '' @ line else line)"

definition escape_tokens :: "string \<Rightarrow> string" where
  "escape_tokens content =
     (let e1 = replace_str ''<|'' ([backslash] @ ''<|'') content;
          e2 = replace_str ''|>'' (''|'' @ [backslash] @ ''>'') e1;
          e3 = replace_str ''[INST]'' ([backslash] @ ''[INST]'') e2
      in replace_str ''[/INST]'' ([backslash] @ ''[/INST]'') e3)"

definition escape_content :: "string \<Rightarrow> string" where
  "escape_content content =
     (let escaped = replace_str [nul] [] (escape_tokens content)
      in join [newline] (map escape_line (lines escaped)))"

section \<open>Detection\<close>

definition pattern_warning :: "nat \<times> nat \<times> nat \<Rightarrow> injection_warning" where
  "pattern_warning m =
     (case m of (i, start, end_at) \<Rightarrow>
        (let info = default_pattern_infos ! i
         in \<lparr>iw_pattern = pi_pattern info, iw_severity = pi_severity info,
             iw_location = (start, end_at), iw_description = pi_description info\<rparr>))"

definition regex_warnings :: "rx_find \<Rightarrow> string \<Rightarrow> injection_warning list" where
  "regex_warnings rx content =
     concat (map (\<lambda>p. map (\<lambda>loc. \<lparr>iw_pattern = rp_name p, iw_severity = rp_severity p,
                                   iw_location = loc, iw_description = rp_description p\<rparr>)
                        (rx (rp_regex p) content)) default_regex_patterns)"

definition sanitize :: "ac_find \<Rightarrow> rx_find \<Rightarrow> string \<Rightarrow> sanitized_output" where
  "sanitize ac rx content =
     (let found = map pattern_warning (ac (map pi_pattern default_pattern_infos) content) @
                  regex_warnings rx content;
          warnings = sort_key (\<lambda>w. 4 - severity_value (iw_severity w)) found;
          has_critical = list_ex (\<lambda>w. iw_severity w = SevCritical) warnings
      in if has_critical
         then \<lparr>so_content = escape_content content, so_warnings = warnings, so_was_modified = True\<rparr>
         else \<lparr>so_content = content, so_warnings = warnings, so_was_modified = False\<rparr>)"

definition detect :: "ac_find \<Rightarrow> rx_find \<Rightarrow> string \<Rightarrow> injection_warning list" where
  "detect ac rx content = so_warnings (sanitize ac rx content)"

section \<open>Lemmas\<close>

text \<open>\<open>lines\<close> undoes \<open>join\<close> with line feeds, on lines without line feeds and carriage returns at
  their end, up to a last empty line.\<close>

lemma split_lines_aux_noline:
  "newline \<notin> set s \<Longrightarrow> split_lines_aux acc s = (if rev acc @ s = [] then [] else [rev acc @ s])"
  by (induction s arbitrary: acc) auto

lemma set_lines_aux:
  "newline \<notin> set acc \<Longrightarrow> l \<in> set (split_lines_aux acc s) \<Longrightarrow> newline \<notin> set l"
proof (induction acc s arbitrary: l rule: split_lines_aux.induct)
  case (2 acc c s)
  show ?case
  proof (cases "c = newline")
    case True
    with "2.prems" have "l = rev (case acc of [] \<Rightarrow> [] | a # as \<Rightarrow> if a = carriage_return then as else acc) \<or>
        l \<in> set (split_lines_aux [] s)" by simp
    with 2 True show ?thesis by (auto split: list.splits if_splits)
  qed (use 2 in auto)
qed (auto split: if_splits)

lemma lines_no_newline: "l \<in> set (lines s) \<Longrightarrow> newline \<notin> set l"
  using set_lines_aux [of "[]"] by (simp add: lines_def)

text \<open>The pieces of a text between line feeds.\<close>

fun pieces :: "string \<Rightarrow> string list" where
  "pieces [] = [[]]"
| "pieces (c # s) =
     (if c = newline then [] # pieces s
      else case pieces s of [] \<Rightarrow> [[c]] | p # ps \<Rightarrow> (c # p) # ps)"

lemma pieces_noline: "newline \<notin> set l \<Longrightarrow> pieces l = [l]"
  by (induction l) auto

lemma pieces_append: "newline \<notin> set l \<Longrightarrow> pieces (l @ newline # s) = l # pieces s"
  by (induction l) auto

lemma pieces_join:
  "ls \<noteq> [] \<Longrightarrow> \<forall>l \<in> set ls. newline \<notin> set l \<Longrightarrow> pieces (join [newline] ls) = ls"
  by (induction "[newline]" ls rule: join.induct) (simp_all add: pieces_noline pieces_append)

lemma set_join: "set (join sep ls) \<subseteq> set sep \<union> \<Union> (set ` set ls)"
  by (induction sep ls rule: join.induct) auto

lemma set_split_lines_aux: "l \<in> set (split_lines_aux acc s) \<Longrightarrow> set l \<subseteq> set acc \<union> set s"
proof (induction acc s arbitrary: l rule: split_lines_aux.induct)
  case (2 acc c s)
  then show ?case by (cases "c = newline") (fastforce split: list.splits if_splits)+
qed (auto split: if_splits)

lemma set_replace_delete: "set (replace_str [c] [] s) = set s - {c}"
proof (induction s)
  case Nil
  then show ?case by (simp add: replace_str.simps)
next
  case (Cons a s)
  then show ?case by (auto simp: replace_str.simps [of "[c]" "[]" "a # s"])
qed

lemma escape_prefix_chars: "newline \<notin> set ''[ESCAPED] ''" "nul \<notin> set ''[ESCAPED] ''" "nul \<noteq> newline"
  by (simp_all add: newline_def nul_def char_of_def)

lemma escape_line_not_role: "\<not> is_role_line (escape_line l)"
  by (simp add: escape_line_def is_role_line_def Let_def trim_start_def is_whitespace_def to_lowercase_def
      ascii_lower_def)

lemma set_escape_line: "set (escape_line l) \<subseteq> set ''[ESCAPED] '' \<union> set l"
  by (auto simp: escape_line_def)

section \<open>Properties\<close>

text \<open>Escaped content holds no NUL byte and no line of it begins with a role marker, in any case
  and after any indentation, so it cannot pass for a system, user or assistant message.\<close>

theorem escape_neutralises_roles:
  "nul \<notin> set (escape_content s) \<and> list_all (\<lambda>l. \<not> is_role_line l) (pieces (escape_content s))"
proof -
  let ?e = "replace_str [nul] [] (escape_tokens s)"
  let ?ls = "map escape_line (lines ?e)"
  have content: "escape_content s = join [newline] ?ls" by (simp add: escape_content_def Let_def)
  have "set l \<subseteq> set ?e" if "l \<in> set (lines ?e)" for l
    using set_split_lines_aux [of l "[]" ?e] that by (simp add: lines_def)
  moreover have "nul \<notin> set ?e" unfolding set_replace_delete by blast
  ultimately have "nul \<notin> set (escape_line l)" if "l \<in> set (lines ?e)" for l
    using that set_escape_line [of l] escape_prefix_chars(2) by blast
  then have "nul \<notin> \<Union> (set ` set ?ls)" by simp
  moreover have "nul \<notin> set [newline]" using escape_prefix_chars(3) by simp
  ultimately have "nul \<notin> set (escape_content s)"
    using set_join [of "[newline]" ?ls] unfolding content by blast
  moreover have "list_all (\<lambda>l. \<not> is_role_line l) (pieces (escape_content s))"
  proof (cases "?ls = []")
    case True
    then show ?thesis by (simp add: content is_role_line_def trim_start_def)
  next
    case False
    have "newline \<notin> set (escape_line l)" if "l \<in> set (lines ?e)" for l
      using lines_no_newline [OF that] set_escape_line [of l] escape_prefix_chars(1) by blast
    with False have "pieces (escape_content s) = ?ls" unfolding content by (intro pieces_join) auto
    then show ?thesis by (auto simp: list_all_iff escape_line_not_role)
  qed
  ultimately show ?thesis by blast
qed

text \<open>The tokens are escaped before the NUL bytes are removed, so a NUL inside a special token
  hides it from the escaping and its removal puts the token together: the escaped content contains
  the token unescaped.\<close>

theorem escape_nul_bypass:
  "escape_content (''<'' @ [nul] @ ''|im_start|'' @ [nul] @ ''>'') = ''<|im_start|>''"
  by code_simp

text \<open>Sanitizing reports every match the two matchers find, most severe first; the content is
  changed exactly when one of them is critical, and then it is the escaped content.\<close>

theorem sanitize_spec:
  "(let r = sanitize ac rx content;
        found = map pattern_warning (ac (map pi_pattern default_pattern_infos) content) @ regex_warnings rx content
    in mset (so_warnings r) = mset found \<and> sorted (map (\<lambda>w. 4 - severity_value (iw_severity w)) (so_warnings r)) \<and>
       (so_was_modified r \<longleftrightarrow> (\<exists>w \<in> set found. iw_severity w = SevCritical)) \<and>
       so_content r = (if so_was_modified r then escape_content content else content))"
  by (simp add: sanitize_def Let_def list_ex_iff)

end
