(* ===== verification/Leak_Detector.thy ===== *)
theory Leak_Detector
  imports Sanitizer
begin

text \<open>
  The secret leak detector, \<open>src/safety/leak_detector.rs\<close>. Expressions are kept as text; \<open>rx\<close> and
  \<open>ac\<close> are the matchers of the packages \<open>regex\<close> and \<open>aho_corasick\<close>, as in the sanitizer.
\<close>

datatype leak_action = LBlock | LRedact | LWarnOnly

fun show_leak_action :: "leak_action \<Rightarrow> string" where
  "show_leak_action LBlock = ''block''"
| "show_leak_action LRedact = ''redact''"
| "show_leak_action LWarnOnly = ''warn''"

datatype leak_severity = LSevLow | LSevMedium | LSevHigh | LSevCritical

fun show_leak_severity :: "leak_severity \<Rightarrow> string" where
  "show_leak_severity LSevLow = ''low''"
| "show_leak_severity LSevMedium = ''medium''"
| "show_leak_severity LSevHigh = ''high''"
| "show_leak_severity LSevCritical = ''critical''"

record leak_pattern =
  lp_name :: string
  lp_regex :: string
  lp_severity :: leak_severity
  lp_action :: leak_action

record leak_match =
  lm_pattern_name :: string
  lm_severity :: leak_severity
  lm_action :: leak_action
  lm_location :: "nat \<times> nat"
  lm_masked_preview :: string

record leak_scan_result =
  lsr_matches :: "leak_match list"
  lsr_should_block :: bool
  lsr_redacted_content :: "string option"

definition lsr_is_clean :: "leak_scan_result \<Rightarrow> bool" where
  "lsr_is_clean r = (lsr_matches r = [])"

fun leak_severity_rank :: "leak_severity \<Rightarrow> nat" where
  "leak_severity_rank LSevLow = 0"
| "leak_severity_rank LSevMedium = 1"
| "leak_severity_rank LSevHigh = 2"
| "leak_severity_rank LSevCritical = 3"

text \<open>\<open>Iterator::max\<close>: the last of the greatest.\<close>

definition max_severity :: "leak_scan_result \<Rightarrow> leak_severity option" where
  "max_severity r =
     foldl (\<lambda>acc s. case acc of None \<Rightarrow> Some s
                    | Some b \<Rightarrow> if leak_severity_rank s < leak_severity_rank b then Some b else Some s)
       None (map lm_severity (lsr_matches r))"

section \<open>The detector\<close>

text \<open>\<open>prefix_matcher\<close> is the list of patterns its automaton was built from.\<close>

record leak_detector =
  ld_patterns :: "leak_pattern list"
  ld_prefix_matcher :: "string list option"
  ld_known_prefixes :: "(string \<times> nat) list"

definition regex_special :: "char \<Rightarrow> bool" where
  "regex_special c = (c \<in> set ''[(.*+?{|^$'' \<or> c = backslash)"

definition extract_literal_prefix :: "string \<Rightarrow> string option" where
  "extract_literal_prefix pattern =
     (let pre = takeWhile (\<lambda>c. \<not> regex_special c) pattern
      in if 3 \<le> length pre then Some pre else None)"

definition pattern_prefixes :: "leak_pattern list \<Rightarrow> (string \<times> nat) list" where
  "pattern_prefixes ps =
     List.map_filter
       (\<lambda>(i, p). case extract_literal_prefix (lp_regex p) of
                   Some pre \<Rightarrow> if 3 \<le> length pre then Some (pre, i) else None
                 | None \<Rightarrow> None) (enumerate 0 ps)"

text \<open>\<open>builds\<close> says whether building the automaton succeeds.\<close>

definition ld_with_patterns :: "(string list \<Rightarrow> bool) \<Rightarrow> leak_pattern list \<Rightarrow> leak_detector" where
  "ld_with_patterns builds ps =
     (let pres = pattern_prefixes ps
      in \<lparr>ld_patterns = ps,
          ld_prefix_matcher =
            (if pres \<noteq> [] then (if builds (map fst pres) then Some (map fst pres) else None)
             else None),
          ld_known_prefixes = pres\<rparr>)"

definition add_pattern :: "leak_pattern \<Rightarrow> leak_detector \<Rightarrow> leak_detector" where
  "add_pattern p d = d\<lparr>ld_patterns := ld_patterns d @ [p]\<rparr>"

definition pattern_count :: "leak_detector \<Rightarrow> nat" where
  "pattern_count d = length (ld_patterns d)"

definition default_patterns :: "leak_pattern list" where
  "default_patterns =
     (let e = (\<lambda>c. [backslash, c]); s = e CHR ''s''
      in map (\<lambda>(n, r, sev, act). \<lparr>lp_name = n, lp_regex = r, lp_severity = sev, lp_action = act\<rparr>)
        [(''openai_api_key'', ''sk-(?:proj-)?[a-zA-Z0-9]{20,}(?:T3BlbkFJ[a-zA-Z0-9_-]*)?'', LSevCritical, LBlock),
         (''anthropic_api_key'', ''sk-ant-api[a-zA-Z0-9_-]{90,}'', LSevCritical, LBlock),
         (''aws_access_key'', ''AKIA[0-9A-Z]{16}'', LSevCritical, LBlock),
         (''github_token'', ''gh[pousr]_[A-Za-z0-9_]{36,}'', LSevCritical, LBlock),
         (''github_fine_grained_pat'', ''github_pat_[a-zA-Z0-9]{22}_[a-zA-Z0-9]{59}'', LSevCritical, LBlock),
         (''stripe_api_key'', ''sk_(?:live|test)_[a-zA-Z0-9]{24,}'', LSevCritical, LBlock),
         (''generic_session_token'', ''sess_[a-zA-Z0-9]{32,}'', LSevCritical, LBlock),
         (''pem_private_key'', ''-----BEGIN'' @ s @ ''+(?:RSA'' @ s @ ''+)?PRIVATE'' @ s @ ''+KEY-----'', LSevCritical, LBlock),
         (''ssh_private_key'', ''-----BEGIN'' @ s @ ''+(?:OPENSSH|EC|DSA)'' @ s @ ''+PRIVATE'' @ s @ ''+KEY-----'',
            LSevCritical, LBlock),
         (''google_api_key'', ''AIza[0-9A-Za-z_-]{35}'', LSevHigh, LBlock),
         (''slack_token'', ''xox[baprs]-[0-9a-zA-Z-]{10,}'', LSevHigh, LBlock),
         (''twilio_api_key'', ''SK[a-fA-F0-9]{32}'', LSevHigh, LBlock),
         (''sendgrid_api_key'', ''SG'' @ e CHR ''.'' @ ''[a-zA-Z0-9_-]{22}'' @ e CHR ''.'' @ ''[a-zA-Z0-9_-]{43}'',
            LSevHigh, LBlock),
         (''bearer_token'', ''Bearer'' @ s @ ''+[a-zA-Z0-9_-]{20,}'', LSevHigh, LRedact),
         (''auth_header'', ''(?i)authorization:'' @ s @ ''*[a-zA-Z]+'' @ s @ ''+[a-zA-Z0-9_-]{20,}'', LSevHigh, LRedact),
         (''high_entropy_hex'', e CHR ''b'' @ ''[a-fA-F0-9]{64}'' @ e CHR ''b'', LSevMedium, LWarnOnly)])"

definition ld_new :: "(string list \<Rightarrow> bool) \<Rightarrow> leak_detector" where
  "ld_new builds = ld_with_patterns builds default_patterns"

section \<open>Scanning\<close>

definition mask_secret :: "string \<Rightarrow> string" where
  "mask_secret secret =
     (let len = length secret
      in if len \<le> 8 then replicate len CHR ''*''
         else
           (let pre = concat (take 4 (utf8_chars secret));
                suff = concat (drop (len - 4) (utf8_chars secret));
                middle_len = len - 8
            in pre @ replicate (min middle_len 8) CHR ''*'' @ suff))"

text \<open>The loop of \<open>apply_redactions\<close>; \<open>last_end\<close> is its cursor.\<close>

fun redact_loop :: "string \<Rightarrow> (nat \<times> nat) list \<Rightarrow> nat \<Rightarrow> string" where
  "redact_loop content [] last_end =
     (if last_end < length content then drop last_end content else [])"
| "redact_loop content ((start, end_at) # rs) last_end =
     (if last_end < start then drop last_end (take start content) else []) @ ''[REDACTED]'' @
     redact_loop content rs end_at"

definition apply_redactions :: "string \<Rightarrow> (nat \<times> nat) list \<Rightarrow> string" where
  "apply_redactions content ranges = (if ranges = [] then content else redact_loop content ranges 0)"

definition push_new :: "nat \<Rightarrow> nat list \<Rightarrow> nat list" where
  "push_new i is = (if i \<in> set is then is else is @ [i])"

definition candidate_indices :: "ac_find \<Rightarrow> leak_detector \<Rightarrow> string \<Rightarrow> nat list" where
  "candidate_indices ac d content =
     (case ld_prefix_matcher d of
        Some pres \<Rightarrow>
          (let found = fold (\<lambda>(k, _, _). push_new (snd (ld_known_prefixes d ! k))) (ac pres content) []
           in fold (\<lambda>i is. if i \<notin> snd ` set (ld_known_prefixes d) \<and> i \<notin> set is then is @ [i] else is)
                [0..<length (ld_patterns d)] found)
      | None \<Rightarrow> [0..<length (ld_patterns d)])"

definition pattern_matches :: "rx_find \<Rightarrow> string \<Rightarrow> leak_pattern \<Rightarrow> leak_match list" where
  "pattern_matches rx content p =
     map (\<lambda>(start, end_at).
            \<lparr>lm_pattern_name = lp_name p, lm_severity = lp_severity p, lm_action = lp_action p,
             lm_location = (start, end_at),
             lm_masked_preview = mask_secret (drop start (take end_at content))\<rparr>)
       (rx (lp_regex p) content)"

definition scan :: "ac_find \<Rightarrow> rx_find \<Rightarrow> leak_detector \<Rightarrow> string \<Rightarrow> leak_scan_result" where
  "scan ac rx d content =
     (let found = concat (map (\<lambda>i. pattern_matches rx content (ld_patterns d ! i))
                            (candidate_indices ac d content));
          should_block = list_ex (\<lambda>m. lm_action m = LBlock) found;
          redact_ranges = sort_key fst (map lm_location (filter (\<lambda>m. lm_action m = LRedact) found))
      in \<lparr>lsr_matches = sort_key (\<lambda>m. fst (lm_location m)) found,
          lsr_should_block = should_block,
          lsr_redacted_content =
            (if redact_ranges \<noteq> [] then Some (apply_redactions content redact_ranges) else None)\<rparr>)"

datatype leak_error = SecretLeakBlocked (leak_pattern_of: string) (leak_preview: string)

definition show_leak_error :: "leak_error \<Rightarrow> string" where
  "show_leak_error e =
     ''Secret leak blocked: pattern '' @ [CHR 0x27] @ leak_pattern_of e @ [CHR 0x27] @ '' matched '' @
     [CHR 0x27] @ leak_preview e @ [CHR 0x27]"

definition scan_and_clean :: "ac_find \<Rightarrow> rx_find \<Rightarrow> leak_detector \<Rightarrow> string \<Rightarrow> leak_error + string" where
  "scan_and_clean ac rx d content =
     (let result = scan ac rx d content
      in if lsr_should_block result
         then (case find (\<lambda>m. lm_action m = LBlock) (lsr_matches result) of
                 Some m \<Rightarrow> Err (SecretLeakBlocked (lm_pattern_name m) (lm_masked_preview m))
               | None \<Rightarrow> Err (SecretLeakBlocked [] []))
         else Ok (case lsr_redacted_content result of Some c \<Rightarrow> c | None \<Rightarrow> content))"

fun scan_headers ::
  "ac_find \<Rightarrow> rx_find \<Rightarrow> leak_detector \<Rightarrow> (string \<times> string) list \<Rightarrow> leak_error + unit" where
  "scan_headers ac rx d [] = Ok ()"
| "scan_headers ac rx d ((name, v) # hs) =
     (case scan_and_clean ac rx d v of
        Inl e \<Rightarrow> Err (SecretLeakBlocked (''header:'' @ name) (show_leak_error e))
      | Inr _ \<Rightarrow> scan_headers ac rx d hs)"

definition scan_http_request ::
  "ac_find \<Rightarrow> rx_find \<Rightarrow> leak_detector \<Rightarrow> string \<Rightarrow> (string \<times> string) list \<Rightarrow>
   string option \<Rightarrow> leak_error + unit" where
  "scan_http_request ac rx d url headers body =
     (case scan_and_clean ac rx d url of
        Inl e \<Rightarrow> Err e
      | Inr _ \<Rightarrow>
          (case scan_headers ac rx d headers of
             Inl e \<Rightarrow> Err e
           | Inr _ \<Rightarrow>
               (case body of
                  None \<Rightarrow> Ok ()
                | Some bytes \<Rightarrow>
                    (case scan_and_clean ac rx d (from_utf8_lossy bytes) of Inl e \<Rightarrow> Err e | Inr _ \<Rightarrow> Ok ()))))"

section \<open>Lemmas\<close>

lemma set_push_new [simp]: "set (push_new i is) = insert i (set is)"
  by (auto simp: push_new_def)

lemma set_found:
  "set (fold (\<lambda>(k, _, _). push_new (f k)) ms is) = set is \<union> f ` fst ` set ms"
  by (induction ms arbitrary: "is") auto

lemma set_unprefixed:
  "set (fold (\<lambda>i is. if i \<notin> K \<and> i \<notin> set is then is @ [i] else is) js is) = set is \<union> (set js - K)"
  by (induction js arbitrary: "is") auto

text \<open>Which patterns are tried: those without a known prefix, and those whose prefix the automaton
  reports.\<close>

lemma set_candidates:
  "set (candidate_indices ac d content) =
     (case ld_prefix_matcher d of
        None \<Rightarrow> {0..<length (ld_patterns d)}
      | Some pres \<Rightarrow>
          {snd (ld_known_prefixes d ! k) |k. k \<in> fst ` set (ac pres content)} \<union>
          ({0..<length (ld_patterns d)} - snd ` set (ld_known_prefixes d)))"
  by (auto simp: candidate_indices_def Let_def set_found set_unprefixed split: option.split)

lemma scan_should_block:
  "lsr_should_block (scan ac rx d content) \<longleftrightarrow>
     (\<exists>i \<in> set (candidate_indices ac d content).
        lp_action (ld_patterns d ! i) = LBlock \<and> rx (lp_regex (ld_patterns d ! i)) content \<noteq> [])"
proof -
  have "list_ex (\<lambda>m. lm_action m = LBlock) (pattern_matches rx content p) \<longleftrightarrow>
      lp_action p = LBlock \<and> rx (lp_regex p) content \<noteq> []" for p
    by (cases "rx (lp_regex p) content") (auto simp: pattern_matches_def list_ex_iff)
  then show ?thesis by (auto simp: scan_def Let_def list_ex_iff)
qed

text \<open>What the redaction keeps: the pieces between the ranges.\<close>

fun gaps :: "'a list \<Rightarrow> (nat \<times> nat) list \<Rightarrow> nat \<Rightarrow> 'a list list" where
  "gaps xs [] p = [drop p xs]"
| "gaps xs ((a, b) # rs) p = drop p (take a xs) # gaps xs rs b"

lemma gaps_ne [simp]: "gaps xs rs p \<noteq> []"
  by (cases "(xs, rs, p)" rule: gaps.cases) auto

lemma join_Cons: "ls \<noteq> [] \<Longrightarrow> join sep (x # ls) = x @ sep @ join sep ls"
  by (cases ls) auto

lemma redact_loop_gaps: "redact_loop s rs p = join ''[REDACTED]'' (gaps s rs p)"
  by (induction s rs p rule: redact_loop.induct) (auto simp: join_Cons)

lemma gaps_map: "gaps (map f xs) rs p = map (map f) (gaps xs rs p)"
  by (induction xs rs p rule: gaps.induct) (simp_all add: take_map drop_map)

definition covered :: "(nat \<times> nat) list \<Rightarrow> nat \<Rightarrow> bool" where
  "covered rs i \<longleftrightarrow> (\<exists>(a, b) \<in> set rs. a \<le> i \<and> i < b)"

lemma covered_Cons: "covered ((a, b) # rs) i \<longleftrightarrow> a \<le> i \<and> i < b \<or> covered rs i"
  by (auto simp: covered_def)

lemma upt_three:
  assumes "a \<le> (b :: nat)"
  shows "[0..<n] = [0..<min a n] @ [min a n..<min b n] @ [min b n..<n]"
proof -
  have cut: "[i..<k] = [i..<j] @ [j..<k]" if "i \<le> j" "j \<le> k" for i j k :: nat
    using upt_add_eq_append [OF that(1), of "k - j"] that(2) by simp
  show ?thesis
    using cut [of 0 "min a n" n] cut [of "min a n" "min b n" n] assms by simp
qed

lemma filter_ge_upt: "filter (\<lambda>i. p \<le> i) [0..<m] = drop p [0..<m]"
  by (induction m) (auto simp: drop_upt)

lemma filter_upt_split:
  assumes "p \<le> b" "a \<le> b" and "\<And>i. i < a \<Longrightarrow> Q i"
  shows "filter (\<lambda>i. p \<le> i \<and> \<not> (a \<le> i \<and> i < b) \<and> Q i) [0..<n] =
     drop p (take a [0..<n]) @ filter (\<lambda>i. b \<le> i \<and> Q i) [0..<n]"
proof -
  let ?P = "\<lambda>i. p \<le> i \<and> \<not> (a \<le> i \<and> i < b) \<and> Q i" and ?R = "\<lambda>i. b \<le> i \<and> Q i"
  have "filter ?P [0..<min a n] = filter (\<lambda>i. p \<le> i) [0..<min a n]"
    using assms(3) by (intro filter_cong) auto
  moreover have "filter ?P [min a n..<min b n] = []" "filter ?R [0..<min a n] = []"
    "filter ?R [min a n..<min b n] = []"
    using assms(2) by (auto simp: filter_empty_conv)
  moreover have "filter ?P [min b n..<n] = filter ?R [min b n..<n]"
    using assms(1,2) by (intro filter_cong) auto
  moreover have "take a [0..<n] = [0..<min a n]" by (simp add: take_upt min_def)
  ultimately show ?thesis
    by (subst (1 3) upt_three [OF assms(2), of n]) (simp only: filter_append filter_ge_upt append_Nil)
qed

text \<open>Ranges in order: starts and ends do not go backwards.\<close>

fun in_order :: "nat \<Rightarrow> nat \<Rightarrow> (nat \<times> nat) list \<Rightarrow> bool" where
  "in_order s e [] = True"
| "in_order s e ((a, b) # rs) = (s \<le> a \<and> e \<le> b \<and> a \<le> b \<and> in_order a b rs)"

lemma in_order_uncovered: "in_order s e rs \<Longrightarrow> i < s \<Longrightarrow> \<not> covered rs i"
  by (induction s e rs rule: in_order.induct) (auto simp: covered_Cons covered_def)

lemma concat_gaps:
  "in_order s p rs \<Longrightarrow> concat (gaps [0..<n] rs p) = filter (\<lambda>i. p \<le> i \<and> \<not> covered rs i) [0..<n]"
proof (induction s p rs rule: in_order.induct)
  case (1 s e)
  then show ?case by (simp add: filter_ge_upt covered_def)
next
  case (2 s e a b rs)
  then have "concat (gaps [0..<n] rs b) = filter (\<lambda>i. b \<le> i \<and> \<not> covered rs i) [0..<n]" by simp
  moreover have "\<not> covered rs i" if "i < a" for i
    using that "2.prems" in_order_uncovered [of a b rs i] by simp
  ultimately show ?case
    using "2.prems" filter_upt_split [of e b a "\<lambda>i. \<not> covered rs i" n] by (simp add: covered_Cons)
qed

section \<open>Properties\<close>



text \<open>For nested ranges the cursor moves backwards and the tail of the outer range is copied into
  the output: the redacted text still shows a part of the secret.\<close>

theorem redaction_nested_leaks:
  "apply_redactions ''key=SECRETVALUE'' [(4, 15), (6, 8)] = ''key=[REDACTED][REDACTED]ETVALUE''"
  by code_simp

text \<open>Content is blocked exactly when a blocking pattern that is tried has a match in it; a
  pattern without a literal prefix is always tried, one with a prefix when the automaton reports the
  prefix. Content that is not blocked and in which no redacting pattern has a match passes unchanged.\<close>

theorem scan_and_clean_blocks:
  "(is_ok (scan_and_clean ac rx d content) \<longleftrightarrow>
     \<not> (\<exists>i \<in> set (candidate_indices ac d content).
          lp_action (ld_patterns d ! i) = LBlock \<and> rx (lp_regex (ld_patterns d ! i)) content \<noteq> [])) \<and>
   (\<forall>i < length (ld_patterns d). i \<notin> snd ` set (ld_known_prefixes d) \<longrightarrow> i \<in> set (candidate_indices ac d content)) \<and>
   (list_all (\<lambda>p. lp_action p = LRedact \<longrightarrow> rx (lp_regex p) content = []) (map ((!) (ld_patterns d)) (candidate_indices ac d content)) \<and>
      is_ok (scan_and_clean ac rx d content) \<longrightarrow> scan_and_clean ac rx d content = Ok content)"
proof (intro conjI)
  show "is_ok (scan_and_clean ac rx d content) \<longleftrightarrow>
     \<not> (\<exists>i \<in> set (candidate_indices ac d content).
          lp_action (ld_patterns d ! i) = LBlock \<and> rx (lp_regex (ld_patterns d ! i)) content \<noteq> [])"
    unfolding scan_should_block [symmetric] by (simp add: scan_and_clean_def Let_def split: option.split)
  show "\<forall>i < length (ld_patterns d). i \<notin> snd ` set (ld_known_prefixes d) \<longrightarrow> i \<in> set (candidate_indices ac d content)"
    by (auto simp: set_candidates split: option.split)
  have none: "lsr_redacted_content (scan ac rx d content) = None"
    if "list_all (\<lambda>p. lp_action p = LRedact \<longrightarrow> rx (lp_regex p) content = [])
          (map ((!) (ld_patterns d)) (candidate_indices ac d content))"
  proof -
    have "filter (\<lambda>m. lm_action m = LRedact) (concat (map (\<lambda>i. pattern_matches rx content (ld_patterns d ! i))
        (candidate_indices ac d content))) = []"
      using that by (auto simp: list_all_iff filter_empty_conv pattern_matches_def)
    then show ?thesis by (simp add: scan_def Let_def)
  qed
  show "list_all (\<lambda>p. lp_action p = LRedact \<longrightarrow> rx (lp_regex p) content = []) (map ((!) (ld_patterns d)) (candidate_indices ac d content)) \<and>
      is_ok (scan_and_clean ac rx d content) \<longrightarrow> scan_and_clean ac rx d content = Ok content"
    using none by (auto simp: scan_and_clean_def Let_def split: option.splits if_splits)
qed

theorem scan_and_clean_blocks_witness:
  "\<not> is_ok (scan_and_clean (\<lambda>_ _. [(0, 0, 3)]) (\<lambda>e s. if starts_with e ''sk-('' then [(0, 5)] else [])
       (ld_new (\<lambda>_. True)) ''sk-ab'') \<and>
   12 \<in> set (candidate_indices (\<lambda>_ _. []) (ld_new (\<lambda>_. True)) ''x'')"
proof -
  have "\<exists>i \<in> set (candidate_indices (\<lambda>_ _. [(0, 0, 3)]) (ld_new (\<lambda>_. True)) ''sk-ab'').
      lp_action (ld_patterns (ld_new (\<lambda>_. True)) ! i) = LBlock \<and>
      (\<lambda>e s. if starts_with e ''sk-('' then [(0, 5)] else []) (lp_regex (ld_patterns (ld_new (\<lambda>_. True)) ! i)) ''sk-ab'' \<noteq> []"
    by code_simp
  with scan_and_clean_blocks [of "\<lambda>_ _. [(0, 0, 3)]" "\<lambda>e s. if starts_with e ''sk-('' then [(0, 5)] else []"
      "ld_new (\<lambda>_. True)" "''sk-ab''"]
  have "\<not> is_ok (scan_and_clean (\<lambda>_ _. [(0, 0, 3)]) (\<lambda>e s. if starts_with e ''sk-('' then [(0, 5)] else [])
       (ld_new (\<lambda>_. True)) ''sk-ab'')" by blast
  moreover have "12 \<in> set (candidate_indices (\<lambda>_ _. []) (ld_new (\<lambda>_. True)) ''x'')" by code_simp
  ultimately show ?thesis by blast
qed

text \<open>The documented behaviour of a standard, non-overlapping search: a reported match is an
  occurrence of its pattern, and no pattern occurs inside it that ends earlier.\<close>

definition standard_matches :: "string list \<Rightarrow> string \<Rightarrow> (nat \<times> nat \<times> nat) list \<Rightarrow> bool" where
  "standard_matches ps s ms \<longleftrightarrow>
     (\<forall>(k, start, end_at) \<in> set ms. k < length ps \<and> starts_with (drop start s) (ps ! k) \<and>
        end_at = start + length (ps ! k) \<and>
        \<not> (\<exists>k' < length ps. start + length (ps ! k') < end_at \<and> starts_with (drop start s) (ps ! k')))"

lemma default_prefixes:
  "pattern_prefixes default_patterns =
     [(''sk-'', 0), (''sk-ant-api'', 1), (''AKIA'', 2), (''github_pat_'', 4), (''sk_'', 5), (''sess_'', 6),
      (''-----BEGIN'', 7), (''-----BEGIN'', 8), (''AIza'', 9), (''xox'', 10), (''Bearer'', 13)]"
  by code_simp

lemma ld_new_simps:
  "ld_patterns (ld_new (\<lambda>_. True)) = default_patterns"
  "ld_known_prefixes (ld_new (\<lambda>_. True)) = pattern_prefixes default_patterns"
  "ld_prefix_matcher (ld_new (\<lambda>_. True)) = Some (map fst (pattern_prefixes default_patterns))"
  by (simp_all add: ld_new_def ld_with_patterns_def Let_def default_prefixes)

text \<open>The pattern for Anthropic keys is never tried. Its prefix begins with the prefix of the
  OpenAI pattern, which a standard search reports first, so whatever the content, the detector of
  the default patterns does not look for Anthropic keys.\<close>

theorem anthropic_pattern_never_tried:
  assumes "standard_matches (map fst (pattern_prefixes default_patterns)) content
             (ac (map fst (pattern_prefixes default_patterns)) content)"
  shows "lp_name (default_patterns ! 1) = ''anthropic_api_key'' \<and>
     1 \<notin> set (candidate_indices ac (ld_new (\<lambda>_. True)) content)"
proof
  show "lp_name (default_patterns ! 1) = ''anthropic_api_key''" by code_simp
  let ?ps = "map fst (pattern_prefixes default_patterns)"
  have never: "snd (pattern_prefixes default_patterns ! k) \<noteq> 1" if "k \<in> fst ` set (ac ?ps content)" for k
  proof
    assume "snd (pattern_prefixes default_patterns ! k) = 1"
    note that = \<open>k \<in> fst ` set (ac ?ps content)\<close> this
    from that(1) obtain st en where m: "(k, st, en) \<in> set (ac ?ps content)" by auto
    with assms have k: "k < length ?ps" and occ: "starts_with (drop st content) (?ps ! k)"
      and en: "en = st + length (?ps ! k)"
      and first: "\<And>k'. k' < length ?ps \<Longrightarrow> starts_with (drop st content) (?ps ! k') \<Longrightarrow> \<not> st + length (?ps ! k') < en"
      by (auto simp: standard_matches_def)
    from k that(2) have "k = 1"
      by (auto simp: default_prefixes less_Suc_eq numeral_eq_Suc)
    then have "?ps ! k = ''sk-ant-api''" by (simp add: default_prefixes)
    with occ obtain t where "drop st content = ''sk-ant-api'' @ t" by (auto simp: starts_with_iff)
    then have "starts_with (drop st content) (?ps ! 0)" by (simp add: default_prefixes)
    from first [OF _ this] en \<open>?ps ! k = ''sk-ant-api''\<close> show False by (simp add: default_prefixes)
  qed
  have known: "1 \<in> snd ` set (pattern_prefixes default_patterns)" by (simp add: default_prefixes)
  show "1 \<notin> set (candidate_indices ac (ld_new (\<lambda>_. True)) content)"
  proof
    assume "1 \<in> set (candidate_indices ac (ld_new (\<lambda>_. True)) content)"
    with known have "1 \<in> {snd (pattern_prefixes default_patterns ! k) |k. k \<in> fst ` set (ac ?ps content)}"
      by (simp only: set_candidates ld_new_simps option.case Un_iff Diff_iff simp_thms)
    then obtain k where "k \<in> fst ` set (ac ?ps content)" "snd (pattern_prefixes default_patterns ! k) = 1"
      unfolding mem_Collect_eq by (elim exE conjE) (rule that, assumption, erule sym)
    from never [OF this(1)] this(2) show False by (rule notE)
  qed
qed

theorem anthropic_pattern_never_tried_witness:
  "1 \<notin> set (candidate_indices (\<lambda>_ _. [(0, 0, 3)]) (ld_new (\<lambda>_. True)) ''sk-ant-api03'')"
proof -
  have "standard_matches (map fst (pattern_prefixes default_patterns)) ''sk-ant-api03'' [(0, 0, 3)]"
    unfolding default_prefixes by code_simp
  from anthropic_pattern_never_tried [of "''sk-ant-api03''" "\<lambda>_ _. [(0, 0, 3)]", OF this] show ?thesis by blast
qed

end
