(* ===== verification/Safety_Layer.thy ===== *)
theory Safety_Layer
  imports Validator Leak_Detector
begin

text \<open>
  The safety layer, \<open>src/safety/mod.rs\<close>: it combines the leak detector, the policy and the sanitizer
  on tool output, and wraps content for the model. \<open>is_match\<close>, \<open>ac\<close> and \<open>rx\<close> are the matchers of
  the packages \<open>regex\<close> and \<open>aho_corasick\<close>.
\<close>

record safety_config =
  sfc_max_output_length :: nat
  sfc_injection_check_enabled :: bool

record safety_layer =
  sl_validator :: validator
  sl_policy :: policy
  sl_leak_detector :: leak_detector
  sl_config :: safety_config

definition sl_new :: "(string list \<Rightarrow> bool) \<Rightarrow> safety_config \<Rightarrow> safety_layer" where
  "sl_new builds config =
     \<lparr>sl_validator = val_new, sl_policy = policy_default, sl_leak_detector = ld_new builds, sl_config = config\<rparr>"

definition truncation_notice :: "nat \<Rightarrow> nat \<Rightarrow> string" where
  "truncation_notice len mx =
     ''[Output truncated: '' @ show_nat len @ '' bytes exceeded maximum of '' @ show_nat mx @ '' bytes]''"

definition leak_notice :: string where
  "leak_notice = ''[Output blocked due to potential secret leakage]''"

definition policy_notice :: string where
  "policy_notice = ''[Output blocked by safety policy]''"

definition sanitize_tool_output ::
  "(string \<Rightarrow> string \<Rightarrow> bool) \<Rightarrow> ac_find \<Rightarrow> rx_find \<Rightarrow> safety_layer \<Rightarrow> string \<Rightarrow> string \<Rightarrow> sanitized_output" where
  "sanitize_tool_output is_match ac rx sl tool_name output =
     (if sfc_max_output_length (sl_config sl) < length output
      then \<lparr>so_content = truncation_notice (length output) (sfc_max_output_length (sl_config sl)),
            so_warnings = [\<lparr>iw_pattern = ''output_too_large'', iw_severity = SevLow,
                            iw_location = (0, length output),
                            iw_description = ''Output from tool '' @ [CHR 0x27] @ tool_name @ [CHR 0x27] @
                              '' was truncated due to size''\<rparr>],
            so_was_modified = True\<rparr>
      else
        case scan_and_clean ac rx (sl_leak_detector sl) output of
          Inl _ \<Rightarrow> \<lparr>so_content = leak_notice, so_warnings = [], so_was_modified = True\<rparr>
        | Inr cleaned \<Rightarrow>
            (let was_modified = (cleaned \<noteq> output);
                 content = (if cleaned \<noteq> output then cleaned else output);
                 violations = policy_check is_match (sl_policy sl) content
             in if list_ex (\<lambda>r. rule_action r = PBlock) violations
                then \<lparr>so_content = policy_notice, so_warnings = [], so_was_modified = True\<rparr>
                else
                  (let force_sanitize = list_ex (\<lambda>r. rule_action r = PSanitize) violations;
                       was_modified' = (force_sanitize \<or> was_modified)
                   in if sfc_injection_check_enabled (sl_config sl) \<or> force_sanitize
                      then (let sanitized = sanitize ac rx content
                            in sanitized\<lparr>so_was_modified := so_was_modified sanitized \<or> was_modified'\<rparr>)
                      else \<lparr>so_content = content, so_warnings = [], so_was_modified = was_modified'\<rparr>)))"

definition sl_validate_input :: "safety_layer \<Rightarrow> string \<Rightarrow> validation_result" where
  "sl_validate_input sl input = val_validate (sl_validator sl) input"

definition sl_check_policy :: "(string \<Rightarrow> string \<Rightarrow> bool) \<Rightarrow> safety_layer \<Rightarrow> string \<Rightarrow> policy_rule list" where
  "sl_check_policy is_match sl content = policy_check is_match (sl_policy sl) content"

definition dquote :: char where
  "dquote = CHR 0x22"

definition escape_xml_attr :: "string \<Rightarrow> string" where
  "escape_xml_attr s =
     replace_str ''>'' ''&gt;'' (replace_str ''<'' ''&lt;''
       (replace_str [dquote] ''&quot;'' (replace_str ''&'' ''&amp;'' s)))"

definition escape_xml_content :: "string \<Rightarrow> string" where
  "escape_xml_content s =
     replace_str ''>'' ''&gt;'' (replace_str ''<'' ''&lt;'' (replace_str ''&'' ''&amp;'' s))"

definition wrap_for_llm :: "string \<Rightarrow> string \<Rightarrow> bool \<Rightarrow> string" where
  "wrap_for_llm tool_name content sanitized =
     ''<tool_output name='' @ [dquote] @ escape_xml_attr tool_name @ [dquote] @ '' sanitized='' @ [dquote] @
     (if sanitized then ''true'' else ''false'') @ [dquote] @ ''>'' @ [newline] @
     escape_xml_content content @ [newline] @ ''</tool_output>''"

section \<open>Lemmas\<close>

lemma replace_char_concat: "replace_str [c] q s = concat (map (\<lambda>x. if x = c then q else [x]) s)"
proof (induction s)
  case Nil
  then show ?case by (simp add: replace_str.simps)
next
  case (Cons a s)
  then show ?case by (simp add: replace_str.simps [of "[c]" q "a # s"])
qed

text \<open>The chained replacements act on each character of the original on its own.\<close>

definition xml_content_char :: "char \<Rightarrow> string" where
  "xml_content_char c =
     (if c = CHR ''&'' then ''&amp;'' else if c = CHR ''<'' then ''&lt;'' else if c = CHR ''>'' then ''&gt;'' else [c])"

definition xml_attr_char :: "char \<Rightarrow> string" where
  "xml_attr_char c = (if c = dquote then ''&quot;'' else xml_content_char c)"

lemma concat_map_concat: "concat (map f (concat (map g s))) = concat (map (\<lambda>x. concat (map f (g x))) s)"
  by (induction s) simp_all

lemma escape_xml_content_chars: "escape_xml_content s = concat (map xml_content_char s)"
  unfolding escape_xml_content_def replace_char_concat concat_map_concat
  by (intro arg_cong [of _ _ concat] map_cong refl) (simp add: xml_content_char_def)

lemma escape_xml_attr_chars: "escape_xml_attr s = concat (map xml_attr_char s)"
  unfolding escape_xml_attr_def replace_char_concat concat_map_concat
  by (intro arg_cong [of _ _ concat] map_cong refl) (simp add: xml_attr_char_def xml_content_char_def dquote_def)

text \<open>The reader of XML character data: the five references the escapes produce.\<close>

function xml_unescape :: "string \<Rightarrow> string" where
  "xml_unescape s =
     (if s = [] then []
      else if starts_with s ''&amp;'' then CHR ''&'' # xml_unescape (drop 5 s)
      else if starts_with s ''&lt;'' then CHR ''<'' # xml_unescape (drop 4 s)
      else if starts_with s ''&gt;'' then CHR ''>'' # xml_unescape (drop 4 s)
      else if starts_with s ''&quot;'' then dquote # xml_unescape (drop 6 s)
      else hd s # xml_unescape (tl s))"
  by pat_completeness auto
termination
  by (relation "measure length") auto

declare xml_unescape.simps [simp del]

lemma xml_unescape_chars:
  "xml_unescape (xml_content_char c @ s) = c # xml_unescape s"
  "xml_unescape (xml_attr_char c @ s) = c # xml_unescape s"
  by (simp_all add: xml_content_char_def xml_attr_char_def dquote_def xml_unescape.simps [of "_ # _"])

lemma concat_map_Nil [simp]: "concat (map (\<lambda>_. []) xs) = []"
  by (induction xs) simp_all

text \<open>With matchers that find nothing, output within the limit passes.\<close>

lemma quiet_output:
  "length output \<le> sfc_max_output_length (sl_config sl) \<Longrightarrow>
   sanitize_tool_output (\<lambda>_ _. False) (\<lambda>_ _. []) (\<lambda>_ _. []) sl tool output =
     \<lparr>so_content = output, so_warnings = [], so_was_modified = False\<rparr>"
  by (simp add: sanitize_tool_output_def scan_and_clean_def scan_def pattern_matches_def sanitize_def
      regex_warnings_def policy_check_def rule_matches_def Let_def)

section \<open>Properties\<close>

text \<open>C36: content wrapped for the model cannot break out of its element: the escaped name and content
  hold no angle bracket and the name no quotation mark, so the only tags of the wrapped text are the
  ones the wrapper writes; and nothing is lost, an XML reader gets the original content and name back.\<close>

theorem wrap_for_llm_confined:
  "wrap_for_llm name content sanitized =
     ''<tool_output name='' @ [dquote] @ escape_xml_attr name @ [dquote] @ '' sanitized='' @ [dquote] @
     (if sanitized then ''true'' else ''false'') @ [dquote] @ ''>'' @ [newline] @
     escape_xml_content content @ [newline] @ ''</tool_output>'' \<and>
   set (escape_xml_content content) \<inter> {CHR ''<'', CHR ''>''} = {} \<and>
   set (escape_xml_attr name) \<inter> {CHR ''<'', CHR ''>'', dquote} = {} \<and>
   xml_unescape (escape_xml_content content) = content \<and> xml_unescape (escape_xml_attr name) = name"
proof -
  have c: "set (xml_content_char c) \<inter> {CHR ''<'', CHR ''>''} = {}"
    "set (xml_attr_char c) \<inter> {CHR ''<'', CHR ''>'', dquote} = {}" for c
    by (simp_all add: xml_content_char_def xml_attr_char_def dquote_def)
  have "xml_unescape (concat (map xml_content_char s)) = s" "xml_unescape (concat (map xml_attr_char s)) = s" for s
    by (induction s) (simp_all add: xml_unescape_chars xml_unescape.simps [of "[]"])
  with c show ?thesis
    unfolding escape_xml_content_chars escape_xml_attr_chars wrap_for_llm_def by fastforce
qed

text \<open>C31: tool output reaches the model only after every check: unless the layer answers with one of
  its notices, the output is within the size limit, the leak detector did not block it, no blocking
  rule of the policy matches the cleaned text, and the content is the cleaned text or its escaped form.\<close>

theorem tool_output_checked:
  assumes "so_content (sanitize_tool_output is_match ac rx sl tool output) \<notin>
     {truncation_notice (length output) (sfc_max_output_length (sl_config sl)), leak_notice, policy_notice}"
  shows "\<exists>cleaned. length output \<le> sfc_max_output_length (sl_config sl) \<and>
     scan_and_clean ac rx (sl_leak_detector sl) output = Ok cleaned \<and>
     \<not> is_blocked is_match (sl_policy sl) cleaned \<and>
     so_content (sanitize_tool_output is_match ac rx sl tool output) \<in> {cleaned, escape_content cleaned}"
  using assms
  by (auto simp: sanitize_tool_output_def sanitize_def Let_def is_blocked_def split: if_splits sum.splits)

theorem tool_output_checked_witness:
  "so_content (sanitize_tool_output (\<lambda>_ _. False) (\<lambda>_ _. []) (\<lambda>_ _. [])
      (sl_new (\<lambda>_. True) \<lparr>sfc_max_output_length = 100, sfc_injection_check_enabled = True\<rparr>) ''t'' ''hello'') = ''hello'' \<and>
   (\<exists>cleaned. scan_and_clean (\<lambda>_ _. []) (\<lambda>_ _. []) (ld_new (\<lambda>_. True)) ''hello'' = Ok cleaned)"
proof -
  let ?sl = "sl_new (\<lambda>_. True) \<lparr>sfc_max_output_length = 100, sfc_injection_check_enabled = True\<rparr>"
  have h: "so_content (sanitize_tool_output (\<lambda>_ _. False) (\<lambda>_ _. []) (\<lambda>_ _. []) ?sl ''t'' ''hello'') = ''hello''"
    by (subst quiet_output) (simp_all add: sl_new_def)
  have "''hello'' \<notin> {truncation_notice (length ''hello'') (sfc_max_output_length (sl_config ?sl)), leak_notice, policy_notice}"
    by (simp add: truncation_notice_def leak_notice_def policy_notice_def)
  with h tool_output_checked [of "\<lambda>_ _. False" "\<lambda>_ _. []" "\<lambda>_ _. []" ?sl "''t''" "''hello''"]
  show ?thesis by (auto simp: sl_new_def)
qed

text \<open>An output the layer reports as not modified is passed on byte for byte.\<close>

theorem unmodified_is_verbatim:
  assumes "\<not> so_was_modified (sanitize_tool_output is_match ac rx sl tool output)"
  shows "so_content (sanitize_tool_output is_match ac rx sl tool output) = output"
  using assms
  by (auto simp: sanitize_tool_output_def sanitize_def Let_def split: if_splits sum.splits)

theorem unmodified_is_verbatim_witness:
  "so_content (sanitize_tool_output (\<lambda>_ _. False) (\<lambda>_ _. []) (\<lambda>_ _. [])
      (sl_new (\<lambda>_. True) \<lparr>sfc_max_output_length = 100, sfc_injection_check_enabled = True\<rparr>) ''t'' ''ok'') = ''ok''"
proof (rule unmodified_is_verbatim)
  show "\<not> so_was_modified (sanitize_tool_output (\<lambda>_ _. False) (\<lambda>_ _. []) (\<lambda>_ _. [])
      (sl_new (\<lambda>_. True) \<lparr>sfc_max_output_length = 100, sfc_injection_check_enabled = True\<rparr>) ''t'' ''ok'')"
    by (subst quiet_output) (simp_all add: sl_new_def)
qed

end
