(* ===== verification/Llm_Resilience.thy ===== *)
theory Llm_Resilience
  imports Chat_Message Containers "HOL-Library.Char_ord" "HOL-Library.List_Lexorder"
begin

text \<open>
  How a request to a language model survives failures: the failover chain of \<open>src/llm/failover.rs\<close>,
  the tracked provider of \<open>src/llm/tracked.rs\<close> that retries and records the cost of a call, the
  delays of \<open>src/llm/retry.rs\<close> and the price table of \<open>src/llm/costs.rs\<close>.

  A provider is reached through the trait \<open>LlmProvider\<close>; its answer to the \<open>i\<close>-th call is an
  argument. Decimal arithmetic (\<open>rust_decimal\<close>) is the record \<open>decimal_ops\<close>, the settings table of
  the database is a function, and random numbers are arguments.
\<close>

section \<open>Errors\<close>

text \<open>The payload of the wrapped library errors is their message; durations are milliseconds.\<close>

datatype llm_error =
    RequestFailedLlm string string
  | RateLimitedLlm string "duration option"
  | InvalidResponse string string
  | ContextLengthExceeded nat nat
  | ModelNotAvailable string string
  | AuthFailed string
  | SessionExpired string
  | SessionRenewalFailed string string
  | HttpError string
  | JsonError string
  | IoError string

fun is_retryable :: "llm_error \<Rightarrow> bool" where
  "is_retryable (RequestFailedLlm _ _) = True"
| "is_retryable (RateLimitedLlm _ _) = True"
| "is_retryable (InvalidResponse _ _) = True"
| "is_retryable (SessionRenewalFailed _ _) = True"
| "is_retryable (ModelNotAvailable _ _) = True"
| "is_retryable (HttpError _) = True"
| "is_retryable (IoError _) = True"
| "is_retryable _ = False"

fun is_retryable_error :: "llm_error \<Rightarrow> bool" where
  "is_retryable_error (RequestFailedLlm _ _) = True"
| "is_retryable_error (InvalidResponse _ _) = True"
| "is_retryable_error (SessionRenewalFailed _ _) = True"
| "is_retryable_error (HttpError _) = True"
| "is_retryable_error (IoError _) = True"
| "is_retryable_error _ = False"

section \<open>The failover chain\<close>

record 'p failover_provider =
  fp_providers :: "'p list"
  fp_last_used :: nat

definition fp_new :: "'p list \<Rightarrow> llm_error + 'p failover_provider" where
  "fp_new providers =
     (if providers = []
      then Err (RequestFailedLlm ''failover'' ''FailoverProvider requires at least one provider'')
      else Ok \<lparr>fp_providers = providers, fp_last_used = 0\<rparr>)"

text \<open>The wait after an error, before the next provider.\<close>

fun failover_delay :: "llm_error \<Rightarrow> duration list" where
  "failover_delay (RateLimitedLlm _ retry_after) =
     [min (case retry_after of Some d \<Rightarrow> d | None \<Rightarrow> 1000) 30000]"
| "failover_delay _ = []"

text \<open>The loop of \<open>try_providers\<close> from index \<open>i\<close>: the result (None is the panic on an empty list), the
  index stored as last used, and the waits.\<close>

fun try_loop ::
  "(nat \<Rightarrow> 'p \<Rightarrow> llm_error + 'a) \<Rightarrow> nat \<Rightarrow> nat \<Rightarrow> 'p list \<Rightarrow> llm_error option \<Rightarrow>
   (llm_error + 'a) option \<times> nat option \<times> duration list" where
  "try_loop call n i [] last_error = (map_option Inl last_error, None, [])"
| "try_loop call n i (p # ps) last_error =
     (case call i p of
        Inr response \<Rightarrow> (Some (Ok response), Some i, [])
      | Inl err \<Rightarrow>
          if \<not> is_retryable err then (Some (Err err), None, [])
          else
            (case try_loop call n (i + 1) ps (Some err) of
               (r, used, waits) \<Rightarrow> (r, used, (if i + 1 < n then failover_delay err else []) @ waits)))"

definition try_providers ::
  "(nat \<Rightarrow> 'p \<Rightarrow> llm_error + 'a) \<Rightarrow> 'p failover_provider \<Rightarrow>
   (llm_error + 'a) option \<times> 'p failover_provider \<times> duration list" where
  "try_providers call f =
     (case try_loop call (length (fp_providers f)) 0 (fp_providers f) None of
        (r, used, waits) \<Rightarrow>
          (r, (case used of Some i \<Rightarrow> f\<lparr>fp_last_used := i\<rparr> | None \<Rightarrow> f), waits))"

text \<open>\<open>model_name\<close> and \<open>cost_per_token\<close> ask the provider that was used last; an index out of range
  panics.\<close>

definition fp_current :: "'p failover_provider \<Rightarrow> 'p option" where
  "fp_current f =
     (if fp_last_used f < length (fp_providers f) then Some (fp_providers f ! fp_last_used f) else None)"

definition fp_list_models :: "('p \<Rightarrow> llm_error + string list) \<Rightarrow> 'p failover_provider \<Rightarrow> string list" where
  "fp_list_models list_models f =
     remdups_adj (sort (concat (map (\<lambda>p. case list_models p of Inr ms \<Rightarrow> ms | Inl _ \<Rightarrow> []) (fp_providers f))))"

section \<open>Delays between retries\<close>

definition is_retryable_status :: "nat \<Rightarrow> bool" where
  "is_retryable_status status = (status \<in> {429, 500, 502, 503, 504})"

definition u64_max :: nat where
  "u64_max = 2 ^ 64 - 1"

definition saturating_base :: "u32 \<Rightarrow> u64" where
  "saturating_base attempt = word_of_nat (min (1000 * min (2 ^ unat attempt) u64_max) u64_max)"

text \<open>\<open>offset\<close> is the random number; the casts to \<open>i64\<close> keep the bits, and the last comparison is
  signed. The result is in milliseconds.\<close>

definition retry_backoff_delay :: "u64 \<Rightarrow> u32 \<Rightarrow> u64" where
  "retry_backoff_delay offset attempt =
     (let base_ms = saturating_base attempt;
          jitter_range = base_ms div 4;
          jitter = (if 0 < jitter_range then offset - jitter_range else 0);
          delay_ms = base_ms + jitter
      in if sint delay_ms < 100 then 100 else delay_ms)"

section \<open>Prices\<close>

record 'd decimal_ops =
  do_literal :: "string \<Rightarrow> 'd"
  do_parse :: "string \<Rightarrow> 'd option"
  do_of_u32 :: "u32 \<Rightarrow> 'd"
  do_add :: "'d \<Rightarrow> 'd \<Rightarrow> 'd"
  do_mul :: "'d \<Rightarrow> 'd \<Rightarrow> 'd"
  do_div :: "'d \<Rightarrow> 'd \<Rightarrow> 'd"

definition is_local_model :: "string \<Rightarrow> bool" where
  "is_local_model model_id =
     (let lower = to_lowercase model_id
      in list_ex (starts_with lower)
           [''llama'', ''mistral'', ''mixtral'', ''phi'', ''gemma'', ''qwen'', ''codellama'', ''deepseek'',
            ''starcoder'', ''vicuna'', ''yi''] \<or>
         contains lower '':latest'' \<or> contains lower '':instruct'')"

text \<open>The arms of \<open>model_cost\<close> with literal patterns, in order.\<close>

definition model_prices :: "(string list \<times> string \<times> string) list" where
  "model_prices =
     [([''gpt-4o'', ''gpt-4o-2024-11-20'', ''gpt-4o-2024-08-06''], ''0.0000025'', ''0.00001''),
      ([''gpt-4o-mini'', ''gpt-4o-mini-2024-07-18''], ''0.00000015'', ''0.0000006''),
      ([''gpt-4-turbo'', ''gpt-4-turbo-2024-04-09''], ''0.00001'', ''0.00003''),
      ([''gpt-4'', ''gpt-4-0613''], ''0.00003'', ''0.00006''),
      ([''gpt-3.5-turbo'', ''gpt-3.5-turbo-0125''], ''0.0000005'', ''0.0000015''),
      ([''o1'', ''o1-2024-12-17''], ''0.000015'', ''0.00006''),
      ([''o1-mini'', ''o1-mini-2024-09-12''], ''0.000003'', ''0.000012''),
      ([''o3-mini'', ''o3-mini-2025-01-31''], ''0.0000011'', ''0.0000044''),
      ([''claude-3-5-sonnet-20241022'', ''claude-3-5-sonnet-latest'', ''claude-sonnet-4-20250514''],
        ''0.000003'', ''0.000015''),
      ([''claude-3-5-haiku-20241022'', ''claude-3-5-haiku-latest''], ''0.0000008'', ''0.000004''),
      ([''claude-3-opus-20240229'', ''claude-3-opus-latest'', ''claude-opus-4-20250514''],
        ''0.000015'', ''0.000075''),
      ([''claude-3-haiku-20240307''], ''0.00000025'', ''0.00000125'')]"

definition model_cost :: "'d decimal_ops \<Rightarrow> string \<Rightarrow> ('d \<times> 'd) option" where
  "model_cost ops model_id =
     (let name = (case rfind_str model_id ''/'' of Some i \<Rightarrow> drop (i + 1) model_id | None \<Rightarrow> model_id)
      in case find (\<lambda>(names, _). name \<in> set names) model_prices of
           Some (_, i, out) \<Rightarrow> Some (do_literal ops i, do_literal ops out)
         | None \<Rightarrow>
             if is_local_model name then Some (do_literal ops ''0'', do_literal ops ''0'') else None)"

definition default_cost :: "'d decimal_ops \<Rightarrow> 'd \<times> 'd" where
  "default_cost ops = (do_literal ops ''0.0000025'', do_literal ops ''0.00001'')"

section \<open>The tracked provider\<close>

record tracked_provider =
  tp_max_retries :: u32
  tp_provider_name :: string

text \<open>\<open>setting\<close> is the JSON value of the user's setting for the model, if it could be read.\<close>

definition configured_rates :: "'d decimal_ops \<Rightarrow> json \<Rightarrow> ('d \<times> 'd) option" where
  "configured_rates ops value =
     (case (json_get_str value ''input'', json_get_str value ''output'') of
        (Some input, Some output) \<Rightarrow>
          (case (do_parse ops input, do_parse ops output) of
             (Some i, Some out) \<Rightarrow>
               (let per_million = do_literal ops ''1000000'' in Some (do_div ops i per_million, do_div ops out per_million))
           | _ \<Rightarrow> None)
      | _ \<Rightarrow> None)"

definition resolve_cost_rates :: "'d decimal_ops \<Rightarrow> json option \<Rightarrow> string \<Rightarrow> 'd \<times> 'd \<times> bool" where
  "resolve_cost_rates ops setting model =
     (case (case setting of Some value \<Rightarrow> configured_rates ops value | None \<Rightarrow> None) of
        Some (i, out) \<Rightarrow> (i, out, False)
      | None \<Rightarrow>
          (case model_cost ops model of
             Some (i, out) \<Rightarrow> (i, out, False)
           | None \<Rightarrow> (case default_cost ops of (i, out) \<Rightarrow> (i, out, True))))"

datatype finish_reason = Stop | Length | ToolUse | ContentFilter | UnknownReason

record completion_response =
  rsp_content :: string
  rsp_input_tokens :: u32
  rsp_output_tokens :: u32
  rsp_finish_reason :: finish_reason
  rsp_response_id :: "string option"

record 'd llm_call_record =
  lcr_job_id :: "uuid option"
  lcr_conversation_id :: "uuid option"
  lcr_provider :: string
  lcr_model :: string
  lcr_input_tokens :: u32
  lcr_output_tokens :: u32
  lcr_cost :: 'd
  lcr_cost_unknown :: bool
  lcr_purpose :: "string option"
  lcr_latency_ms :: u64

definition call_record ::
  "'d decimal_ops \<Rightarrow> json option \<Rightarrow> string \<Rightarrow> tracked_provider \<Rightarrow> u64 \<Rightarrow> uuid option \<Rightarrow> string \<Rightarrow>
   completion_response \<Rightarrow> 'd llm_call_record" where
  "call_record ops setting model tp latency conv purpose response =
     (case resolve_cost_rates ops setting model of
        (input_rate, output_rate, cost_unknown) \<Rightarrow>
          \<lparr>lcr_job_id = None, lcr_conversation_id = conv, lcr_provider = tp_provider_name tp, lcr_model = model,
           lcr_input_tokens = rsp_input_tokens response, lcr_output_tokens = rsp_output_tokens response,
           lcr_cost = do_add ops (do_mul ops input_rate (do_of_u32 ops (rsp_input_tokens response)))
                        (do_mul ops output_rate (do_of_u32 ops (rsp_output_tokens response))),
           lcr_cost_unknown = cost_unknown, lcr_purpose = Some purpose, lcr_latency_ms = latency\<rparr>)"

text \<open>The loop of \<open>complete\<close> and \<open>complete_with_tools\<close> from an attempt on: the result, the response
  whose call is recorded, the waits, and the number of calls.\<close>

function retry_loop ::
  "(nat \<Rightarrow> llm_error + 'r) \<Rightarrow> (nat \<Rightarrow> u64) \<Rightarrow> string \<Rightarrow> nat \<Rightarrow> nat \<Rightarrow> llm_error option \<Rightarrow>
   (llm_error + 'r) \<times> u64 list \<times> nat" where
  "retry_loop inner rng provider_name max_retries attempt last_error =
     (if max_retries < attempt
      then (Err (case last_error of Some e \<Rightarrow> e
                 | None \<Rightarrow> RequestFailedLlm provider_name ''All retry attempts exhausted''), [], 0)
      else
        (let waits = (if 0 < attempt
                      then [retry_backoff_delay (rng attempt) (word_of_nat (attempt - 1))] else [])
         in case inner attempt of
              Inr response \<Rightarrow> (Ok response, waits, 1)
            | Inl e \<Rightarrow>
                if attempt < max_retries \<and> is_retryable_error e
                then (case retry_loop inner rng provider_name max_retries (attempt + 1) (Some e) of
                        (r, ws, n) \<Rightarrow> (r, waits @ ws, n + 1))
                else (Err e, waits, 1)))"
  by pat_completeness auto
termination
  by (relation "measure (\<lambda>(_, _, _, m, a, _). Suc m - a)") auto

declare retry_loop.simps [simp del]

definition tracked_complete ::
  "'d decimal_ops \<Rightarrow> json option \<Rightarrow> string \<Rightarrow> (nat \<Rightarrow> u64) \<Rightarrow> u64 \<Rightarrow> uuid option \<Rightarrow> string \<Rightarrow> tracked_provider \<Rightarrow>
   (nat \<Rightarrow> llm_error + completion_response) \<Rightarrow>
   (llm_error + completion_response) \<times> 'd llm_call_record list \<times> u64 list \<times> nat" where
  "tracked_complete ops setting model rng latency conv purpose tp inner =
     (case retry_loop inner rng (tp_provider_name tp) (unat (tp_max_retries tp)) 0 None of
        (r, waits, n) \<Rightarrow>
          (r, (case r of Inr response \<Rightarrow> [call_record ops setting model tp latency conv purpose response] | Inl _ \<Rightarrow> []),
           waits, n))"

section \<open>Reference notions\<close>

text \<open>The result a series of attempts settles on: the first that is a success or an error not worth
  another attempt, otherwise the last.\<close>

fun settle :: "(llm_error \<Rightarrow> bool) \<Rightarrow> (llm_error + 'a) list \<Rightarrow> (llm_error + 'a) option" where
  "settle retry [] = None"
| "settle retry (r # rs) =
     (case r of Inl e \<Rightarrow> if retry e \<and> rs \<noteq> [] then settle retry rs else Some r | Inr _ \<Rightarrow> Some r)"

text \<open>How many attempts that takes.\<close>

fun attempts_made :: "(llm_error \<Rightarrow> bool) \<Rightarrow> (llm_error + 'a) list \<Rightarrow> nat" where
  "attempts_made retry [] = 0"
| "attempts_made retry (r # rs) =
     (case r of Inl e \<Rightarrow> if retry e \<and> rs \<noteq> [] then Suc (attempts_made retry rs) else 1 | Inr _ \<Rightarrow> 1)"

text \<open>The failover loop.\<close>

definition answers :: "(nat \<Rightarrow> 'p \<Rightarrow> llm_error + 'a) \<Rightarrow> nat \<Rightarrow> 'p list \<Rightarrow> (llm_error + 'a) list" where
  "answers call i ps = map (\<lambda>(k, p). call k p) (enumerate i ps)"

text \<open>A chain whose first provider is rate limited, over decimals that are natural numbers.\<close>

definition example_decimals :: "nat decimal_ops" where
  "example_decimals =
     \<lparr>do_literal = \<lambda>_. 1, do_parse = \<lambda>_. None, do_of_u32 = unat, do_add = (+), do_mul = (*), do_div = (div)\<rparr>"

definition example_response :: completion_response where
  "example_response = \<lparr>rsp_content = ''hi'', rsp_input_tokens = 1, rsp_output_tokens = 1,
                       rsp_finish_reason = Stop, rsp_response_id = None\<rparr>"

definition example_chain :: "(nat \<Rightarrow> llm_error + completion_response) failover_provider" where
  "example_chain =
     \<lparr>fp_providers = [\<lambda>_. Err (RateLimitedLlm ''a'' None), \<lambda>_. Ok example_response], fp_last_used = 0\<rparr>"

section \<open>Lemmas\<close>

lemma attempts_made_le: "attempts_made retry rs \<le> length rs"
  by (induction rs) (auto split: sum.split)

lemma settle_Some: "rs \<noteq> [] \<Longrightarrow> \<exists>r \<in> set rs. settle retry rs = Some r"
  by (induction rs) (auto split: sum.split)

lemma settle_eq_nth: "rs \<noteq> [] \<Longrightarrow> settle retry rs = Some (rs ! (attempts_made retry rs - 1))"
proof (induction rs)
  case (Cons r rs)
  have "0 < attempts_made retry rs" if "rs \<noteq> []" using that by (cases rs) (auto split: sum.split)
  with Cons show ?case by (auto simp: nth_Cons' split: sum.split)
qed simp

lemma answers_simps [simp]:
  "answers call i [] = []" "answers call i (p # ps) = call i p # answers call (Suc i) ps"
  by (simp_all add: answers_def)

lemma length_answers [simp]: "length (answers call i ps) = length ps"
  by (simp add: answers_def)

lemma answers_Nil [simp]: "answers call i ps = [] \<longleftrightarrow> ps = []"
  using length_answers [of call i ps] by (metis length_0_conv)

lemma try_loop_settle:
  "ps \<noteq> [] \<Longrightarrow> fst (try_loop call n i ps lerr) = settle is_retryable (answers call i ps)"
proof (induction ps arbitrary: i lerr)
  case (Cons p ps)
  then show ?case by (cases ps) (auto simp: case_prod_beta split: sum.split)
qed simp

lemma try_loop_used:
  assumes "fst (try_loop call n i ps lerr) = Some (Ok v)" and "ps \<noteq> []"
  shows "\<exists>k < length ps. fst (snd (try_loop call n i ps lerr)) = Some (i + k) \<and> call (i + k) (ps ! k) = Ok v"
  using assms
proof (induction ps arbitrary: i lerr)
  case (Cons p ps)
  show ?case
  proof (cases "call i p")
    case (Inl e)
    with Cons.prems have r: "is_retryable e" by (auto split: if_splits)
    show ?thesis
    proof (cases "ps = []")
      case False
      from Cons.IH [of "Suc i" "Some e"] Cons.prems Inl r False obtain k where
        "k < length ps" "fst (snd (try_loop call n (Suc i) ps (Some e))) = Some (Suc i + k)"
        "call (Suc i + k) (ps ! k) = Ok v" by (auto simp: case_prod_beta)
      with Inl r show ?thesis by (intro exI [of _ "Suc k"]) (simp add: case_prod_beta)
    qed (use Cons.prems Inl r in simp)
  qed (use Cons.prems in auto)
qed simp

lemma failover_delay_bound: "length (failover_delay e) \<le> 1 \<and> (\<forall>w \<in> set (failover_delay e). w \<le> 30000)"
  by (cases e) auto

lemma try_loop_waits:
  assumes "n = i + length ps"
  shows "length (snd (snd (try_loop call n i ps lerr))) \<le> length ps - 1 \<and>
    (\<forall>w \<in> set (snd (snd (try_loop call n i ps lerr))). w \<le> 30000)"
  using assms
proof (induction ps arbitrary: i lerr)
  case (Cons p ps)
  show ?case
  proof (cases "call i p")
    case (Inl e)
    with Cons.IH [of "Suc i" "Some e"] Cons.prems failover_delay_bound [of e] show ?thesis
      by (cases ps) (auto simp: case_prod_beta)
  qed simp
qed simp

text \<open>The retry loop.\<close>

lemma retry_loop_settle:
  assumes "a \<le> m"
  shows "Some (fst (retry_loop inner rng nm m a lerr)) = settle is_retryable_error (map inner [a..<Suc m]) \<and>
    snd (snd (retry_loop inner rng nm m a lerr)) = attempts_made is_retryable_error (map inner [a..<Suc m]) \<and>
    length (fst (snd (retry_loop inner rng nm m a lerr))) + (if a = 0 then 1 else 0) =
      snd (snd (retry_loop inner rng nm m a lerr))"
  using assms
proof (induction "m - a" arbitrary: a lerr)
  case 0
  then show ?case unfolding retry_loop.simps [of inner rng nm m a lerr] by (auto simp: Let_def split: sum.split)
next
  case (Suc d)
  then have a: "a < m" and d: "d = m - Suc a" by simp_all
  have u: "[a..<Suc m] = a # [Suc a..<Suc m]" using Suc.prems by (rule upt_conv_Cons [OF le_imp_less_Suc])
  show ?case
    unfolding retry_loop.simps [of inner rng nm m a lerr] u
    using a Suc.hyps(1) [OF d, of "Some e" for e]
    by (auto simp: Let_def case_prod_beta simp del: upt_Suc split: sum.split)
qed

lemma saturating_base_unat:
  assumes "unat attempt \<le> 52"
  shows "unat (saturating_base attempt) = 1000 * 2 ^ unat attempt" and "1000 * 2 ^ unat attempt \<le> (1000 * 2 ^ 52 :: nat)"
proof -
  have p: "(2 :: nat) ^ unat attempt \<le> 2 ^ 52" using assms by (rule power_increasing) simp
  then show "1000 * 2 ^ unat attempt \<le> (1000 * 2 ^ 52 :: nat)" by simp
  have m: "min (1000 * min (2 ^ unat attempt) u64_max) u64_max = 1000 * 2 ^ unat attempt"
    using p by (simp add: u64_max_def min_def)
  have "1000 * 2 ^ unat attempt < (2 ^ 64 :: nat)" using p by simp
  then show "unat (saturating_base attempt) = 1000 * 2 ^ unat attempt"
    unfolding saturating_base_def m unat_of_nat by simp
qed

lemma sint_small:
  assumes "unat (w :: u64) < 2 ^ 63"
  shows "sint w = int (unat w)"
proof -
  have "int (unat w) < int (2 ^ 63)" using assms by (simp only: of_nat_less_iff)
  then have "uint w < 2 ^ 63" by simp
  then have "signed_take_bit 63 (uint w) = uint w"
    using uint_ge_0 [of w] by (intro signed_take_bit_int_eq_self) linarith+
  then show ?thesis by (simp add: sint_uint)
qed

lemma distinct_remdups_adj_sorted: "sorted xs \<Longrightarrow> distinct (remdups_adj xs)" for xs :: "'a::linorder list"
  by (induction xs rule: remdups_adj.induct) auto

section \<open>Properties\<close>

text \<open>A failover chain answers with what the providers, asked in order, settle on: the first success or
  the first error another provider cannot fix, otherwise the last error. It never panics; after a
  success the model name and the cost are those of the provider that answered; it waits at most once
  before each further provider, and at most 30 seconds.\<close>

theorem failover_settles:
  assumes "fp_new ps = Ok f"
  shows "fst (try_providers call f) = settle is_retryable (answers call 0 ps) \<and>
     fst (try_providers call f) \<noteq> None \<and>
     (\<forall>v. fst (try_providers call f) = Some (Ok v) \<longrightarrow>
        (\<exists>k p. fp_last_used (fst (snd (try_providers call f))) = k \<and>
           fp_current (fst (snd (try_providers call f))) = Some p \<and> call k p = Ok v)) \<and>
     length (snd (snd (try_providers call f))) \<le> length ps - 1 \<and>
     (\<forall>w \<in> set (snd (snd (try_providers call f))). w \<le> 30000)"
proof -
  have f: "ps \<noteq> []" "fp_providers f = ps" using assms by (auto simp: fp_new_def split: if_splits)
  obtain r used waits where l: "try_loop call (length ps) 0 ps None = (r, used, waits)" by (metis prod_cases3)
  have t: "try_providers call f = (r, (case used of Some i \<Rightarrow> f\<lparr>fp_last_used := i\<rparr> | None \<Rightarrow> f), waits)"
    by (simp add: try_providers_def f l)
  have "r = settle is_retryable (answers call 0 ps)"
    using try_loop_settle [OF f(1), of call "length ps" 0 None] l by simp
  moreover have "settle is_retryable (answers call 0 ps) \<noteq> None"
    using settle_Some [of "answers call 0 ps" is_retryable] f(1) by fastforce
  moreover have "\<exists>k p. fp_last_used (case used of Some i \<Rightarrow> f\<lparr>fp_last_used := i\<rparr> | None \<Rightarrow> f) = k \<and>
      fp_current (case used of Some i \<Rightarrow> f\<lparr>fp_last_used := i\<rparr> | None \<Rightarrow> f) = Some p \<and> call k p = Ok v"
    if "r = Some (Ok v)" for v
    using try_loop_used [of call "length ps" 0 ps None v] l that f by (auto simp: fp_current_def)
  ultimately show ?thesis
    using try_loop_waits [of "length ps" 0 ps call None] l unfolding t by simp
qed

theorem failover_settles_witness:
  "fst (try_providers (\<lambda>i p. p) \<lparr>fp_providers = [Err (IoError ''down''), Ok (7 :: nat)], fp_last_used = 0\<rparr>) = Some (Ok 7)"
  using failover_settles [of "[Err (IoError ''down''), Ok (7 :: nat)]" _ "\<lambda>i p. p"] by (simp add: fp_new_def)

text \<open>A tracked provider ends after at most one call more than its retries, with the first success or
  the first error not worth a retry, otherwise the last error; it waits once before each retry, and
  records exactly one call in the database if it succeeds and none otherwise.\<close>

theorem retry_settles:
  "(case tracked_complete ops setting model rng latency conv purpose tp inner of
      (r, records, waits, n) \<Rightarrow>
        Some r = settle is_retryable_error (map inner [0..<Suc (unat (tp_max_retries tp))]) \<and>
        n = attempts_made is_retryable_error (map inner [0..<Suc (unat (tp_max_retries tp))]) \<and>
        n \<le> Suc (unat (tp_max_retries tp)) \<and> length waits + 1 = n \<and>
        length records = (if is_ok r then 1 else 0))"
proof -
  let ?m = "unat (tp_max_retries tp)"
  obtain r waits n where l: "retry_loop inner rng (tp_provider_name tp) ?m 0 None = (r, waits, n)" by (metis prod_cases3)
  from retry_loop_settle [of 0 ?m inner rng "tp_provider_name tp" None] l
    attempts_made_le [of is_retryable_error "map inner [0..<Suc ?m]"]
  show ?thesis by (simp add: tracked_complete_def is_ok_def split: sum.split del: upt_Suc)
qed

text \<open>A chain of tracked providers does not retry a rate-limited provider: it is asked once, and the
  next provider answers after the announced wait.\<close>

theorem rate_limit_fails_over:
  assumes "fp_providers f = p # q # ps" and "p 0 = Err (RateLimitedLlm nm after)" and "q 0 = Ok v"
  shows "fst (tracked_complete ops setting model rng latency conv purpose tp p) = Err (RateLimitedLlm nm after) \<and>
     snd (snd (snd (tracked_complete ops setting model rng latency conv purpose tp p))) = 1 \<and>
     (case try_providers (\<lambda>i inner. fst (tracked_complete ops setting model rng latency conv purpose tp inner)) f of
        (r, f', waits) \<Rightarrow> r = Some (Ok v) \<and> fp_last_used f' = 1 \<and>
          waits = [min (case after of Some d \<Rightarrow> d | None \<Rightarrow> 1000) 30000])"
proof -
  have "tracked_complete ops setting model rng latency conv purpose tp p = (Err (RateLimitedLlm nm after), [], [], 1)"
    "fst (tracked_complete ops setting model rng latency conv purpose tp q) = Ok v"
    using assms(2,3) by (simp_all add: tracked_complete_def retry_loop.simps [where attempt = 0] Let_def)
  with assms(1) show ?thesis by (simp add: try_providers_def)
qed

theorem rate_limit_fails_over_witness:
  "\<exists>f'. try_providers (\<lambda>i inner. fst (tracked_complete example_decimals None ''m'' (\<lambda>_. 0) 5 None ''complete''
       \<lparr>tp_max_retries = 3, tp_provider_name = ''a''\<rparr> inner)) example_chain =
     (Some (Ok example_response), f', [1000])"
  using rate_limit_fails_over [of example_chain _ _ "[]" "''a''" None example_response example_decimals None "''m''"
      "\<lambda>_. 0" 5 None "''complete''" "\<lparr>tp_max_retries = 3, tp_provider_name = ''a''\<rparr>"]
  by (auto simp: example_chain_def split: prod.splits)

text \<open>Up to the 52nd attempt the delay before a retry is within a quarter of the doubled base delay, so
  the 64-bit arithmetic does not overflow there.\<close>

theorem retry_delay_bounds:
  assumes "unat attempt \<le> 52" and "unat offset \<le> 2 * (1000 * 2 ^ unat attempt div 4)"
  shows "3 * (1000 * 2 ^ unat attempt) div 4 \<le> unat (retry_backoff_delay offset attempt) \<and>
     unat (retry_backoff_delay offset attempt) \<le> 5 * (1000 * 2 ^ unat attempt) div 4"
proof -
  let ?b = "1000 * 2 ^ unat attempt :: nat" and ?w = "saturating_base attempt"
  note b = saturating_base_unat [OF assms(1)]
  have q: "unat (?w div 4) = ?b div 4" by (simp add: unat_div b)
  have "1 \<le> (2 :: nat) ^ unat attempt" by simp
  then have pos: "1000 \<le> ?b" by linarith
  then have "0 < ?b div 4" by simp
  then have lt: "0 < ?w div 4" using q by (simp add: word_less_nat_alt)
  have "unat (?w - ?w div 4) = ?b - ?b div 4"
    using q b by (simp add: unat_sub_if')
  then have "unat ((?w - ?w div 4) + offset) = ?b - ?b div 4 + unat offset"
    using assms(2) b(2) by (simp add: unat_plus_if')
  moreover have "(?w - ?w div 4) + offset = ?w + (offset - ?w div 4)" by simp
  ultimately have e: "unat (?w + (offset - ?w div 4)) = ?b - ?b div 4 + unat offset" by simp
  then have "sint (?w + (offset - ?w div 4)) = int (?b - ?b div 4 + unat offset)"
    using sint_small [of "?w + (offset - ?w div 4)"] assms(2) b(2) by simp
  moreover have "100 \<le> ?b - ?b div 4 + unat offset" using pos by linarith
  ultimately have "\<not> sint (?w + (offset - ?w div 4)) < 100" by linarith
  then have "retry_backoff_delay offset attempt = ?w + (offset - ?w div 4)"
    using lt by (simp add: retry_backoff_delay_def Let_def)
  with e assms(2) show ?thesis by simp
qed

theorem retry_delay_bounds_witness:
  "750 \<le> unat (retry_backoff_delay 500 0) \<and> unat (retry_backoff_delay 500 0) \<le> 1250"
  using retry_delay_bounds [of 0 500] by simp

text \<open>The casts to signed numbers break the doubling for large attempts: the base saturates, reads as
  minus one, and the delay falls back to a tenth of a second.\<close>

theorem retry_delay_overflow: "retry_backoff_delay 0 64 = 100"
  by (simp add: retry_backoff_delay_def saturating_base_def u64_max_def)

text \<open>The models of a chain are those of the providers that could list theirs, sorted and without
  repetition.\<close>

theorem list_models_union:
  "sorted (fp_list_models lm f) \<and> distinct (fp_list_models lm f) \<and>
   set (fp_list_models lm f) = {m. \<exists>p \<in> set (fp_providers f). \<exists>ms. lm p = Ok ms \<and> m \<in> set ms}"
  by (auto simp: fp_list_models_def distinct_remdups_adj_sorted split: sum.splits) (metis sum.inject(2))

end
