(* ===== verification/Context_Compaction.thy ===== *)
theory Context_Compaction
  imports Complex_Main Session_Model Llm_Resilience
begin

text \<open>
  The size of a conversation and how it is reduced: \<open>src/agent/context_monitor.rs\<close> and
  \<open>src/agent/compaction.rs\<close>.

  The code multiplies and divides counts as \<open>f64\<close>. The model computes with exact rationals: a
  division of two counts and a decimal constant are both rounded to the nearest double, so a
  comparison of them agrees with the exact one, and \<open>(n as f64 * 1.3) as usize\<close> is the exact quotient,
  for counts far beyond the size of a message. A comparison with a quotient is cleared of its
  denominator, which also gives the infinite quotient of a limit of zero its meaning.

  The language model, the workspace and the formatted dates are arguments; a write to the workspace
  is returned as the path and the text that was appended.
\<close>

section \<open>Estimates\<close>

definition DEFAULT_CONTEXT_LIMIT :: nat where
  "DEFAULT_CONTEXT_LIMIT = 100000"

definition COMPACTION_THRESHOLD :: rat where
  "COMPACTION_THRESHOLD = 4 / 5"

definition estimate_text_tokens :: "string \<Rightarrow> nat" where
  "estimate_text_tokens text = 13 * length (split_whitespace text) div 10"

definition estimate_message_tokens :: "chat_message \<Rightarrow> nat" where
  "estimate_message_tokens m = 13 * length (split_whitespace (cm_content m)) div 10 + 4"

datatype compaction_strategy = Summarize nat | Truncate nat | MoveToWorkspace

definition strategy_default :: compaction_strategy where
  "strategy_default = Summarize 5"

record context_monitor =
  cmo_context_limit :: nat
  cmo_threshold_ratio :: rat

definition cmo_new :: context_monitor where
  "cmo_new = \<lparr>cmo_context_limit = DEFAULT_CONTEXT_LIMIT, cmo_threshold_ratio = COMPACTION_THRESHOLD\<rparr>"

definition cmo_with_limit :: "nat \<Rightarrow> context_monitor \<Rightarrow> context_monitor" where
  "cmo_with_limit limit c = c\<lparr>cmo_context_limit := limit\<rparr>"

definition cmo_with_threshold :: "rat \<Rightarrow> context_monitor \<Rightarrow> context_monitor" where
  "cmo_with_threshold ratio c = c\<lparr>cmo_threshold_ratio := max (1 / 2) (min (19 / 20) ratio)\<rparr>"

definition estimate_tokens :: "chat_message list \<Rightarrow> nat" where
  "estimate_tokens ms = sum_list (map estimate_message_tokens ms)"

definition cmo_threshold :: "context_monitor \<Rightarrow> nat" where
  "cmo_threshold c = nat \<lfloor>of_nat (cmo_context_limit c) * cmo_threshold_ratio c\<rfloor>"

definition needs_compaction :: "context_monitor \<Rightarrow> chat_message list \<Rightarrow> bool" where
  "needs_compaction c ms = (cmo_threshold c \<le> estimate_tokens ms)"

definition usage_percent :: "context_monitor \<Rightarrow> chat_message list \<Rightarrow> rat" where
  "usage_percent c ms = of_nat (estimate_tokens ms) / of_nat (cmo_context_limit c) * 100"

definition suggest_compaction :: "context_monitor \<Rightarrow> chat_message list \<Rightarrow> compaction_strategy option" where
  "suggest_compaction c ms =
     (if \<not> needs_compaction c ms then None
      else
        (let tokens = estimate_tokens ms
         in if 95 * cmo_context_limit c < 100 * tokens then Some (Truncate 3)
            else if 85 * cmo_context_limit c < 100 * tokens then Some (Summarize 5)
            else Some MoveToWorkspace))"

record context_breakdown =
  cb_total_tokens :: nat
  cb_system_tokens :: nat
  cb_user_tokens :: nat
  cb_assistant_tokens :: nat
  cb_tool_tokens :: nat
  cb_message_count :: nat

definition breakdown_add :: "context_breakdown \<Rightarrow> chat_message \<Rightarrow> context_breakdown" where
  "breakdown_add b m =
     (let tokens = estimate_message_tokens m;
          b' = b\<lparr>cb_total_tokens := cb_total_tokens b + tokens\<rparr>
      in case cm_role m of
           System \<Rightarrow> b'\<lparr>cb_system_tokens := cb_system_tokens b' + tokens\<rparr>
         | User \<Rightarrow> b'\<lparr>cb_user_tokens := cb_user_tokens b' + tokens\<rparr>
         | Assistant \<Rightarrow> b'\<lparr>cb_assistant_tokens := cb_assistant_tokens b' + tokens\<rparr>
         | ToolRole \<Rightarrow> b'\<lparr>cb_tool_tokens := cb_tool_tokens b' + tokens\<rparr>)"

definition analyze :: "chat_message list \<Rightarrow> context_breakdown" where
  "analyze ms =
     foldl breakdown_add
       \<lparr>cb_total_tokens = 0, cb_system_tokens = 0, cb_user_tokens = 0, cb_assistant_tokens = 0,
        cb_tool_tokens = 0, cb_message_count = length ms\<rparr> ms"

section \<open>Compaction\<close>

record compaction_result =
  cpr_turns_removed :: nat
  cpr_tokens_before :: nat
  cpr_tokens_after :: nat
  cpr_summary_written :: bool
  cpr_summary :: "string option"

record compaction_partial =
  cpp_turns_removed :: nat
  cpp_summary_written :: bool
  cpp_summary :: "string option"

definition cpp_empty :: compaction_partial where
  "cpp_empty = \<lparr>cpp_turns_removed = 0, cpp_summary_written = False, cpp_summary = None\<rparr>"

text \<open>What compaction calls: the model's answer to a request, whether the workspace exists and accepts
  an entry, and the date and the time of day.\<close>

record compaction_env =
  ce_complete :: "chat_message list \<Rightarrow> llm_error + string"
  ce_workspace :: "(string \<Rightarrow> string \<Rightarrow> bool) option"
  ce_date :: string
  ce_clock :: string

type_synonym daily_write = "string \<times> string"

definition nl :: string where
  "nl = [newline]"

definition format_turn :: "turn \<Rightarrow> string" where
  "format_turn u =
     ''**Turn '' @ show_nat (turn_number u + 1) @ ''**'' @ nl @
     ''User: '' @ turn_user_input u @ nl @
     (case turn_response u of Some r \<Rightarrow> ''Agent: '' @ r @ nl | None \<Rightarrow> []) @
     (if turn_tool_calls u = [] then []
      else ''Tools: '' @ join '', '' (map ttc_name (turn_tool_calls u)) @ nl)"

definition format_turns_for_storage :: "turn list \<Rightarrow> string" where
  "format_turns_for_storage us = join nl (map format_turn us)"

definition format_message :: "chat_message \<Rightarrow> string" where
  "format_message m =
     (case cm_role m of
        User \<Rightarrow> ''User: '' @ cm_content m
      | Assistant \<Rightarrow> ''Assistant: '' @ cm_content m
      | System \<Rightarrow> ''System: '' @ cm_content m
      | ToolRole \<Rightarrow> ''Tool '' @ (case cm_name m of Some n \<Rightarrow> n | None \<Rightarrow> ''unknown'') @ '': '' @ cm_content m)"

definition summary_prompt :: string where
  "summary_prompt =
     join nl [''Summarize the following conversation concisely. Focus on:'', ''- Key decisions made'',
       ''- Important information exchanged'', ''- Actions taken'', ''- Outcomes achieved'', '''',
       ''Be brief but capture all important details. Use bullet points.'']"

definition generate_summary :: "compaction_env \<Rightarrow> chat_message list \<Rightarrow> llm_error + string" where
  "generate_summary env ms =
     ce_complete env
       [cm_system summary_prompt,
        cm_user (''Please summarize this conversation:'' @ nl @ nl @ join (nl @ nl) (map format_message ms))]"

text \<open>\<open>write_summary_to_workspace\<close> and \<open>write_context_to_workspace\<close> differ in the title of the entry.\<close>

definition daily_entry :: "compaction_env \<Rightarrow> string \<Rightarrow> string \<Rightarrow> daily_write" where
  "daily_entry env title text =
     (''daily/'' @ ce_date env @ ''.md'',
      nl @ ''## '' @ title @ '' ('' @ ce_clock env @ '')'' @ nl @ nl @ text @ nl)"

definition write_to_workspace ::
  "compaction_env \<Rightarrow> string \<Rightarrow> string \<Rightarrow> (string \<Rightarrow> string \<Rightarrow> bool) \<Rightarrow> bool \<times> daily_write list" where
  "write_to_workspace env title text ws_append =
     (let (path, entry) = daily_entry env title text
      in (ws_append path entry, if ws_append path entry then [(path, entry)] else []))"

definition turns_to_messages :: "turn list \<Rightarrow> chat_message list" where
  "turns_to_messages us =
     concat (map (\<lambda>u. cm_user (turn_user_input u) #
                      (case turn_response u of Some r \<Rightarrow> [cm_assistant r] | None \<Rightarrow> [])) us)"

definition compact_truncate :: "nat \<Rightarrow> thread \<Rightarrow> compaction_partial \<times> thread" where
  "compact_truncate keep_recent t =
     (let t' = truncate_turns keep_recent t
      in (\<lparr>cpp_turns_removed = length (thr_turns t) - length (thr_turns t'),
           cpp_summary_written = False, cpp_summary = None\<rparr>, t'))"

definition compact_with_summary ::
  "compaction_env \<Rightarrow> nat \<Rightarrow> thread \<Rightarrow> (llm_error + compaction_partial) \<times> thread \<times> daily_write list" where
  "compact_with_summary env keep_recent t =
     (if length (thr_turns t) \<le> keep_recent then (Ok cpp_empty, t, [])
      else
        (let turns_to_remove = length (thr_turns t) - keep_recent;
             old_turns = take turns_to_remove (thr_turns t)
         in case generate_summary env (turns_to_messages old_turns) of
              Inl e \<Rightarrow> (Err e, t, [])
            | Inr summary \<Rightarrow>
                (let (written, ws) = (case ce_workspace env of
                                        Some ws_append \<Rightarrow> write_to_workspace env ''Context Summary'' summary ws_append
                                      | None \<Rightarrow> (False, []))
                 in (Ok \<lparr>cpp_turns_removed = turns_to_remove, cpp_summary_written = written,
                         cpp_summary = Some summary\<rparr>,
                     truncate_turns keep_recent t, ws))))"

definition compact_to_workspace ::
  "compaction_env \<Rightarrow> thread \<Rightarrow> compaction_partial \<times> thread \<times> daily_write list" where
  "compact_to_workspace env t =
     (case ce_workspace env of
        None \<Rightarrow> (let (p, t') = compact_truncate 5 t in (p, t', []))
      | Some ws_append \<Rightarrow>
          (let keep_recent = 10
           in if length (thr_turns t) \<le> keep_recent then (cpp_empty, t, [])
              else
                (let turns_to_remove = length (thr_turns t) - keep_recent;
                     content = format_turns_for_storage (take turns_to_remove (thr_turns t));
                     (written, ws) = write_to_workspace env ''Archived Context'' content ws_append
                 in (\<lparr>cpp_turns_removed = turns_to_remove, cpp_summary_written = written,
                      cpp_summary = None\<rparr>, truncate_turns keep_recent t, ws))))"

definition compact ::
  "compaction_env \<Rightarrow> compaction_strategy \<Rightarrow> thread \<Rightarrow>
   (llm_error + compaction_result) \<times> thread \<times> daily_write list" where
  "compact env strategy t =
     (let tokens_before = cb_total_tokens (analyze (thread_messages t));
          (r, t', ws) =
            (case strategy of
               Summarize keep_recent \<Rightarrow> compact_with_summary env keep_recent t
             | Truncate keep_recent \<Rightarrow> (let (p, t') = compact_truncate keep_recent t in (Ok p, t', []))
             | MoveToWorkspace \<Rightarrow> (let (p, t', ws) = compact_to_workspace env t in (Ok p, t', ws)))
      in case r of
           Inl e \<Rightarrow> (Err e, t', ws)
         | Inr p \<Rightarrow>
             (Ok \<lparr>cpr_turns_removed = cpp_turns_removed p, cpr_tokens_before = tokens_before,
                  cpr_tokens_after = cb_total_tokens (analyze (thread_messages t')),
                  cpr_summary_written = cpp_summary_written p, cpr_summary = cpp_summary p\<rparr>, t', ws))"

section \<open>Reference notions\<close>

text \<open>How many of the latest turns a strategy keeps.\<close>

definition kept_turns :: "compaction_env \<Rightarrow> compaction_strategy \<Rightarrow> nat" where
  "kept_turns env strategy =
     (case strategy of
        Summarize k \<Rightarrow> k | Truncate k \<Rightarrow> k
      | MoveToWorkspace \<Rightarrow> (if ce_workspace env = None then 5 else 10))"

text \<open>A turn but for its number.\<close>

definition unnumbered :: "turn \<Rightarrow> turn" where
  "unnumbered u = u\<lparr>turn_number := 0\<rparr>"

section \<open>Lemmas\<close>

lemma map_unnumbered_renumber: "map unnumbered (renumber i us) = map unnumbered us"
  by (induction us arbitrary: i) (simp_all add: unnumbered_def)

lemma map_turn_messages_renumber: "map turn_messages (renumber i us) = map turn_messages us"
  by (induction us arbitrary: i) (simp_all add: turn_messages_def)

lemma truncate_turns_keeps:
  "map unnumbered (thr_turns (truncate_turns k t)) = map unnumbered (last_n k (thr_turns t))"
  by (auto simp: truncate_turns_def map_unnumbered_renumber last_n_def)

lemma truncate_turns_noop: "length (thr_turns t) \<le> k \<Longrightarrow> truncate_turns k t = t"
  by (simp add: truncate_turns_def)

lemma truncate_turns_frame:
  "(truncate_turns k t)\<lparr>thr_turns := us\<rparr> = t\<lparr>thr_turns := us\<rparr>"
  by (simp add: truncate_turns_def)

lemma length_truncate_turns: "length (thr_turns (truncate_turns k t)) = min k (length (thr_turns t))"
  by (simp add: truncate_turns_def)

lemma foldl_breakdown_total:
  "cb_total_tokens (foldl breakdown_add b ms) = cb_total_tokens b + estimate_tokens ms"
  by (induction ms arbitrary: b)
     (simp_all add: estimate_tokens_def breakdown_add_def Let_def split: role.split)

lemma analyze_total: "cb_total_tokens (analyze ms) = estimate_tokens ms"
  by (simp add: analyze_def foldl_breakdown_total)

lemma foldl_breakdown_parts:
  "cb_total_tokens b = cb_system_tokens b + cb_user_tokens b + cb_assistant_tokens b + cb_tool_tokens b \<Longrightarrow>
   (let r = foldl breakdown_add b ms
    in cb_total_tokens r = cb_system_tokens r + cb_user_tokens r + cb_assistant_tokens r + cb_tool_tokens r)"
proof (induction ms arbitrary: b)
  case (Cons m ms)
  have "cb_total_tokens (breakdown_add b m) =
        cb_system_tokens (breakdown_add b m) + cb_user_tokens (breakdown_add b m) +
        cb_assistant_tokens (breakdown_add b m) + cb_tool_tokens (breakdown_add b m)"
    using Cons.prems by (simp add: breakdown_add_def Let_def split: role.split)
  from Cons.IH [OF this] show ?case by simp
qed simp

lemma analyze_parts:
  "cb_total_tokens (analyze ms) =
     cb_system_tokens (analyze ms) + cb_user_tokens (analyze ms) + cb_assistant_tokens (analyze ms) +
     cb_tool_tokens (analyze ms)"
  unfolding analyze_def by (rule foldl_breakdown_parts [unfolded Let_def]) simp

lemma estimate_truncated:
  "estimate_tokens (thread_messages (truncate_turns k t)) \<le> estimate_tokens (thread_messages t)"
proof -
  have "thread_messages t =
        concat (map turn_messages (take (length (thr_turns t) - k) (thr_turns t))) @
        concat (map turn_messages (drop (length (thr_turns t) - k) (thr_turns t)))"
    by (simp add: thread_messages_def flip: concat_append map_append)
  moreover have "thread_messages (truncate_turns k t) =
        concat (map turn_messages (drop (length (thr_turns t) - k) (thr_turns t)))"
    by (simp add: thread_messages_def truncate_turns_def map_turn_messages_renumber)
  ultimately show ?thesis by (simp add: estimate_tokens_def)
qed

text \<open>What a strategy does to the thread: nothing when it fails, else the older turns go.\<close>

lemma compact_cases:
  assumes "compact env strategy t = (r, t', ws)"
  shows "case r of Inl _ \<Rightarrow> t' = t \<and> ws = []
         | Inr _ \<Rightarrow> t' = truncate_turns (kept_turns env strategy) t"
proof (cases strategy)
  case (Summarize k)
  with assms show ?thesis
    by (auto simp: compact_def kept_turns_def compact_with_summary_def truncate_turns_noop Let_def
        split: sum.splits prod.splits if_splits)
next
  case (Truncate k)
  with assms show ?thesis by (auto simp: compact_def kept_turns_def compact_truncate_def Let_def)
next
  case MoveToWorkspace
  with assms show ?thesis
    by (auto simp: compact_def kept_turns_def compact_to_workspace_def compact_truncate_def
        truncate_turns_noop Let_def split: option.splits prod.splits if_splits)
qed

lemma compact_thread:
  "fst (snd (compact env strategy t)) =
     (if is_ok (fst (compact env strategy t)) then truncate_turns (kept_turns env strategy) t else t)"
  using compact_cases [of env strategy t] by (cases "compact env strategy t") (auto simp: is_ok_def split: sum.splits)

lemma compact_failure_writes: "\<not> is_ok (fst (compact env strategy t)) \<Longrightarrow> snd (snd (compact env strategy t)) = []"
  using compact_cases [of env strategy t] by (cases "compact env strategy t") (auto simp: is_ok_def split: sum.splits)

lemma compact_reports:
  "fst (compact env strategy t) = Ok r \<Longrightarrow>
     cpr_turns_removed r = length (thr_turns t) - kept_turns env strategy \<and>
     cpr_tokens_before r = estimate_tokens (thread_messages t) \<and>
     cpr_tokens_after r = estimate_tokens (thread_messages (fst (snd (compact env strategy t))))"
  by (auto simp: compact_def kept_turns_def compact_with_summary_def compact_to_workspace_def
      compact_truncate_def cpp_empty_def Let_def analyze_total length_truncate_turns
      split: compaction_strategy.splits option.splits sum.splits prod.splits if_splits)

lemma summary_written_or_kept:
  "fst (compact env strategy t) = Ok r \<Longrightarrow> cpr_summary_written r \<longleftrightarrow> snd (snd (compact env strategy t)) \<noteq> []"
  by (auto simp: compact_def compact_with_summary_def compact_to_workspace_def write_to_workspace_def
      compact_truncate_def cpp_empty_def Let_def daily_entry_def
      split: compaction_strategy.splits option.splits sum.splits prod.splits if_splits)

lemma default_threshold: "cmo_threshold cmo_new = 80000"
  by (simp add: cmo_threshold_def cmo_new_def DEFAULT_CONTEXT_LIMIT_def COMPACTION_THRESHOLD_def)

section \<open>Properties\<close>

text \<open>Compaction forgets exactly the oldest turns: if it fails the thread and the workspace stay as they were; otherwise the turns left are the latest ones the strategy keeps, with nothing but their numbers changed and numbered from zero when any was removed, every other field of the thread is as before, the report counts what was removed, and the estimate of the conversation has not grown.\<close>

theorem compaction_keeps_recent:
  "case compact env strategy t of (r, t', ws) \<Rightarrow>
     (case r of
        Inl _ \<Rightarrow> t' = t \<and> ws = []
      | Inr res \<Rightarrow>
          map unnumbered (thr_turns t') = map unnumbered (last_n (kept_turns env strategy) (thr_turns t)) \<and>
          (t' = t \<or> turns_numbered t') \<and>
          t'\<lparr>thr_turns := thr_turns t\<rparr> = t \<and>
          cpr_turns_removed res = length (thr_turns t) - length (thr_turns t') \<and>
          cpr_tokens_before res = estimate_tokens (thread_messages t) \<and>
          cpr_tokens_after res = estimate_tokens (thread_messages t') \<and>
          cpr_tokens_after res \<le> cpr_tokens_before res)"
proof -
  obtain r t' ws where c: "compact env strategy t = (r, t', ws)" by (metis prod_cases3)
  show ?thesis
  proof (cases r)
    case (Inl e)
    then show ?thesis
      using c compact_thread [of env strategy t] compact_failure_writes [of env strategy t] by (simp add: is_ok_def)
  next
    case (Inr res)
    then have t': "t' = truncate_turns (kept_turns env strategy) t"
      using c compact_thread [of env strategy t] by (simp add: is_ok_def)
    have "t' = t \<or> turns_numbered t'"
      by (auto simp: t' truncate_turns_def turns_numbered_def map_turn_number_renumber)
    then show ?thesis
      using Inr c compact_reports [of env strategy t res] estimate_truncated [of "kept_turns env strategy" t]
      by (auto simp: t' truncate_turns_keeps truncate_turns_frame length_truncate_turns)
  qed
qed

text \<open>The strategy the default monitor suggests is decided by the estimate alone: none below 80000 tokens, archiving up to 85000, a summary up to 95000, and truncation beyond.\<close>

theorem suggested_strategy_exact:
  "suggest_compaction cmo_new ms =
     (let n = estimate_tokens ms
      in if n < 80000 then None else if n \<le> 85000 then Some MoveToWorkspace
         else if n \<le> 95000 then Some (Summarize 5) else Some (Truncate 3))"
  by (simp add: suggest_compaction_def needs_compaction_def default_threshold Let_def)
     (simp add: cmo_new_def DEFAULT_CONTEXT_LIMIT_def)

text \<open>The breakdown of a context counts every message once: its total is the sum over the roles and the estimate the monitor uses.\<close>

theorem breakdown_sums:
  "cb_total_tokens (analyze ms) = estimate_tokens ms \<and>
   cb_total_tokens (analyze ms) =
     cb_system_tokens (analyze ms) + cb_user_tokens (analyze ms) + cb_assistant_tokens (analyze ms) +
     cb_tool_tokens (analyze ms)"
  by (rule conjI [OF analyze_total analyze_parts])

text \<open>A thread of at most three turns is left as it is by every strategy the monitor can suggest, however large its messages are.\<close>

theorem short_threads_never_shrink:
  assumes "length (thr_turns t) \<le> 3" and "suggest_compaction c ms = Some strategy"
  shows "fst (snd (compact env strategy t)) = t"
proof -
  have "3 \<le> kept_turns env strategy"
    using assms(2) by (auto simp: suggest_compaction_def kept_turns_def Let_def split: if_splits)
  with assms(1) show ?thesis by (simp add: compact_thread truncate_turns_noop)
qed

theorem short_threads_never_shrink_witness:
  "fst (snd (compact env (Truncate 3) (start_turn 0 ''hi'' (thread_with_id 0 1 2)))) =
     start_turn 0 ''hi'' (thread_with_id 0 1 2)"
  by (rule short_threads_never_shrink [of _ "cmo_with_limit 1 cmo_new" "[cm_user ''hi'']"])
     (simp_all add: start_turn_def thread_with_id_def suggest_compaction_def needs_compaction_def
       cmo_threshold_def cmo_with_limit_def cmo_new_def COMPACTION_THRESHOLD_def estimate_tokens_def
       estimate_message_tokens_def Let_def)

end
