(* ===== verification/Tool_Registry.thy ===== *)
theory Tool_Registry
  imports Containers
begin

text \<open>
  Tools and their registry, \<open>src/tools/tool.rs\<close> and \<open>src/tools/registry.rs\<close>. A tool is what the
  trait \<open>Tool\<close> tells about it; what an execution of it returns is a parameter of the code that
  executes it. The two locks of the registry are taken one after the other; an operation is one step.
  The tools a registration builds (\<open>Arc::new(EchoTool)\<close> and the like) are arguments.
\<close>

section \<open>Tools\<close>

datatype tool_domain = Orchestrator | Container

text \<open>The errors of a tool, \<open>tools::tool::ToolError\<close>; durations are milliseconds.\<close>

datatype tool_error =
    InvalidParameters string
  | ExecutionFailed string
  | TimeoutAfter duration
  | NotAuthorized string
  | RateLimitedTool "duration option"
  | ExternalService string
  | SandboxError string

text \<open>The cost of an output, a decimal that no code modelled here reads, is left out.\<close>

record tool_output =
  out_result :: json
  out_duration :: duration
  out_raw :: "string option"

definition output_success :: "json \<Rightarrow> duration \<Rightarrow> tool_output" where
  "output_success result d = \<lparr>out_result = result, out_duration = d, out_raw = None\<rparr>"

definition output_text :: "string \<Rightarrow> duration \<Rightarrow> tool_output" where
  "output_text text d = \<lparr>out_result = JString text, out_duration = d, out_raw = None\<rparr>"

record tool =
  tool_name :: string
  tool_description :: string
  tool_parameters_schema :: json
  tool_requires_approval :: bool
  tool_requires_sanitization :: bool
  tool_execution_timeout :: duration
  tool_domain :: tool_domain

text \<open>A tool with the defaults of the trait.\<close>

definition tool_defaults :: "string \<Rightarrow> string \<Rightarrow> json \<Rightarrow> tool" where
  "tool_defaults name description schema =
     \<lparr>tool_name = name, tool_description = description, tool_parameters_schema = schema,
      tool_requires_approval = False, tool_requires_sanitization = True,
      tool_execution_timeout = 60000, tool_domain = Orchestrator\<rparr>"

record tool_definition =
  td_name :: string
  td_description :: string
  td_parameters :: json

definition schema :: "tool \<Rightarrow> tool_definition" where
  "schema t = \<lparr>td_name = tool_name t, td_description = tool_description t,
               td_parameters = tool_parameters_schema t\<rparr>"

section \<open>The registry\<close>

definition PROTECTED_TOOL_NAMES :: "string list" where
  "PROTECTED_TOOL_NAMES =
     [''echo'', ''time'', ''json'', ''http'', ''shell'', ''read_file'', ''write_file'', ''list_dir'',
      ''apply_patch'', ''memory_search'', ''memory_write'', ''memory_read'', ''memory_tree'', ''create_job'',
      ''list_jobs'', ''job_status'', ''cancel_job'', ''build_software'', ''tool_search'', ''tool_install'',
      ''tool_auth'', ''tool_activate'', ''tool_list'', ''tool_remove'', ''routine_create'', ''routine_list'',
      ''routine_update'', ''routine_delete'', ''routine_history'', ''web_search'', ''create_entity'',
      ''update_entity'', ''create_relationship'', ''search_entities'', ''get_entity_context'',
      ''delete_entity'', ''merge_entities'', ''stage_candidate'', ''list_candidates'', ''approve_candidate'',
      ''reject_candidate'']"

record tool_registry =
  tr_tools :: "(string, tool) hash_map"
  tr_builtin_names :: "string list"

definition tr_new :: tool_registry where
  "tr_new = \<lparr>tr_tools = [], tr_builtin_names = []\<rparr>"

definition tr_register :: "tool \<Rightarrow> tool_registry \<Rightarrow> tool_registry" where
  "tr_register t r =
     (if tool_name t \<in> set (tr_builtin_names r) then r
      else r\<lparr>tr_tools := hm_insert (tool_name t) t (tr_tools r)\<rparr>)"

text \<open>\<open>try_write\<close> may find either lock taken: the flags tell whether it was obtained.\<close>

definition tr_register_sync :: "bool \<Rightarrow> bool \<Rightarrow> tool \<Rightarrow> tool_registry \<Rightarrow> tool_registry" where
  "tr_register_sync tools_free builtins_free t r =
     (if \<not> tools_free then r
      else
        (let r' = r\<lparr>tr_tools := hm_insert (tool_name t) t (tr_tools r)\<rparr>
         in if tool_name t \<in> set PROTECTED_TOOL_NAMES \<and> builtins_free
            then r'\<lparr>tr_builtin_names := List.insert (tool_name t) (tr_builtin_names r')\<rparr>
            else r'))"

definition tr_unregister :: "string \<Rightarrow> tool_registry \<Rightarrow> tool option \<times> tool_registry" where
  "tr_unregister name r = (hm_get (tr_tools r) name, r\<lparr>tr_tools := hm_remove name (tr_tools r)\<rparr>)"

definition tr_get :: "tool_registry \<Rightarrow> string \<Rightarrow> tool option" where
  "tr_get r name = hm_get (tr_tools r) name"

definition tr_has :: "tool_registry \<Rightarrow> string \<Rightarrow> bool" where
  "tr_has r name = hm_contains (tr_tools r) name"

definition tr_list :: "tool_registry \<Rightarrow> string list" where
  "tr_list r = map fst (tr_tools r)"

definition tr_count :: "bool \<Rightarrow> tool_registry \<Rightarrow> nat" where
  "tr_count tools_free r = (if tools_free then length (tr_tools r) else 0)"

definition tr_all :: "tool_registry \<Rightarrow> tool list" where
  "tr_all r = map snd (tr_tools r)"

definition tool_definitions :: "tool_registry \<Rightarrow> tool_definition list" where
  "tool_definitions r = map (schema \<circ> snd) (tr_tools r)"

definition tool_definitions_for :: "string list \<Rightarrow> tool_registry \<Rightarrow> tool_definition list" where
  "tool_definitions_for names r = map schema (List.map_filter (hm_get (tr_tools r)) names)"

definition tool_definitions_for_domain :: "tool_domain \<Rightarrow> tool_registry \<Rightarrow> tool_definition list" where
  "tool_definitions_for_domain d r = map schema (filter (\<lambda>t. tool_domain t = d) (tr_all r))"

text \<open>The groups of built-in tools are registered one after the other; the builder tool goes through
  the other entry.\<close>

definition register_group :: "tool list \<Rightarrow> tool_registry \<Rightarrow> tool_registry" where
  "register_group ts r = foldl (\<lambda>r t. tr_register_sync True True t r) r ts"

definition register_builder_tool :: "tool list \<Rightarrow> tool \<Rightarrow> tool_registry \<Rightarrow> tool_registry" where
  "register_builder_tool dev_tools build_software r = tr_register build_software (register_group dev_tools r)"

section \<open>Reference notions\<close>

text \<open>What tools installed later can do to a registry.\<close>

datatype registry_event = Register tool | Unregister string

fun dynamic_step :: "tool_registry \<Rightarrow> registry_event \<Rightarrow> tool_registry" where
  "dynamic_step r (Register t) = tr_register t r"
| "dynamic_step r (Unregister n) = snd (tr_unregister n r)"

text \<open>Every tool is filed under its own name, once.\<close>

definition registry_ok :: "tool_registry \<Rightarrow> bool" where
  "registry_ok r \<longleftrightarrow> hm_ok (tr_tools r) \<and> (\<forall>(n, t) \<in> set (tr_tools r). n = tool_name t)"

section \<open>Lemmas\<close>

lemma builtin_names_dynamic [simp]: "tr_builtin_names (dynamic_step r s) = tr_builtin_names r"
  by (cases s) (simp_all add: tr_register_def tr_unregister_def)

lemma get_dynamic_step:
  assumes "n \<in> set (tr_builtin_names r)"
  shows "tr_get (dynamic_step r s) n \<in> {tr_get r n, None}"
  using assms by (cases s) (auto simp: tr_register_def tr_unregister_def tr_get_def)

lemma get_dynamic_steps:
  assumes "n \<in> set (tr_builtin_names r)"
  shows "tr_get (foldl dynamic_step r ss) n \<in> {tr_get r n, None}"
  using assms
proof (induction ss arbitrary: r)
  case (Cons s ss)
  have "tr_get (foldl dynamic_step (dynamic_step r s) ss) n \<in> {tr_get (dynamic_step r s) n, None}"
    by (rule Cons.IH) (simp add: Cons.prems)
  with get_dynamic_step [OF Cons.prems, of s] show ?case by auto
qed simp

lemma builtin_names_group:
  "set (tr_builtin_names (register_group ts r)) \<subseteq> set (tr_builtin_names r) \<union> tool_name ` set ts"
  unfolding register_group_def
proof (induction ts arbitrary: r)
  case (Cons t ts)
  have "set (tr_builtin_names (tr_register_sync True True t r)) \<subseteq> insert (tool_name t) (set (tr_builtin_names r))"
    by (auto simp: tr_register_sync_def Let_def)
  with Cons [of "tr_register_sync True True t r"] show ?case by auto
qed simp

lemma tr_builtin_names_new: "tr_builtin_names tr_new = []"
  by (simp add: tr_new_def)

lemma registry_ok_insert: "registry_ok r \<Longrightarrow> registry_ok (r\<lparr>tr_tools := hm_insert (tool_name t) t (tr_tools r)\<rparr>)"
  using set_hm_insert [of "tool_name t" t "tr_tools r"] by (fastforce simp: registry_ok_def)

lemma registry_ok_ops:
  "registry_ok tr_new"
  "registry_ok r \<Longrightarrow> registry_ok (tr_register t r)"
  "registry_ok r \<Longrightarrow> registry_ok (tr_register_sync a b t r)"
  "registry_ok r \<Longrightarrow> registry_ok (snd (tr_unregister n r))"
  using registry_ok_insert [of r t] hm_remove_set [of n "tr_tools r"]
  by (auto simp: registry_ok_def tr_new_def tr_register_def tr_register_sync_def tr_unregister_def Let_def)

section \<open>Properties\<close>

text \<open>A built-in tool cannot be replaced: once a protected tool has been registered at start-up, any
  sequence of later registrations and removals leaves its name with that tool or with none.\<close>

theorem builtin_not_shadowed:
  assumes "tool_name t \<in> set PROTECTED_TOOL_NAMES"
  shows "tr_get (foldl dynamic_step (tr_register_sync True True t r) events) (tool_name t) \<in> {Some t, None}"
proof -
  have "tool_name t \<in> set (tr_builtin_names (tr_register_sync True True t r))"
    and "tr_get (tr_register_sync True True t r) (tool_name t) = Some t"
    using assms by (simp_all add: tr_register_sync_def tr_get_def Let_def)
  then show ?thesis using get_dynamic_steps by metis
qed

theorem builtin_not_shadowed_witness:
  "tr_get (foldl dynamic_step (tr_register_sync True True (tool_defaults ''shell'' ''run'' JNull) tr_new)
       [Unregister ''shell'', Register (tool_defaults ''shell'' ''evil'' JNull)]) ''shell''
     \<in> {Some (tool_defaults ''shell'' ''run'' JNull), None}"
  using builtin_not_shadowed [of "tool_defaults ''shell'' ''run'' JNull" tr_new
      "[Unregister ''shell'', Register (tool_defaults ''shell'' ''evil'' JNull)]"]
  by (simp add: PROTECTED_TOOL_NAMES_def tool_defaults_def)

text \<open>The builder tool is registered through the entry for dynamic tools, so its protected name is
  never marked as built in and a later tool of the same name replaces it.\<close>

theorem builder_tool_replaceable:
  assumes "\<forall>d \<in> set dev_tools. tool_name d \<noteq> ''build_software''"
    and "tool_name build_software = ''build_software''" and "tool_name t = ''build_software''"
  shows "''build_software'' \<in> set PROTECTED_TOOL_NAMES \<and>
     tr_get (tr_register t (register_builder_tool dev_tools build_software tr_new)) ''build_software'' = Some t"
proof -
  have "''build_software'' \<notin> set (tr_builtin_names (register_group dev_tools tr_new))"
    using builtin_names_group [of dev_tools tr_new] assms(1) tr_builtin_names_new by fastforce
  then show ?thesis
    using assms(2,3) by (simp add: register_builder_tool_def tr_register_def tr_get_def PROTECTED_TOOL_NAMES_def)
qed

theorem builder_tool_replaceable_witness:
  "tr_get (tr_register (tool_defaults ''build_software'' ''evil'' JNull)
       (register_builder_tool [tool_defaults ''shell'' ''run'' JNull]
          (tool_defaults ''build_software'' ''builder'' JNull) tr_new)) ''build_software'' =
     Some (tool_defaults ''build_software'' ''evil'' JNull)"
  using builder_tool_replaceable [of "[tool_defaults ''shell'' ''run'' JNull]"
      "tool_defaults ''build_software'' ''builder'' JNull" "tool_defaults ''build_software'' ''evil'' JNull"]
  by (simp add: tool_defaults_def)

end
