(* ===== verification/Host_Pattern.thy ===== *)
theory Host_Pattern
  imports Rust_Prelude
begin

text \<open>
  The contract of a host pattern. Three components match a host name against patterns such as
  \<open>api.example.com\<close> and \<open>*.example.com\<close>: the endpoint allowlist and the credential injector of the
  WASM sandbox and the domain allowlist of the container proxy. What all of them owe their clients
  is that a match puts the host inside the zone of the pattern; the interpretations are in their
  theories.
\<close>

text \<open>A host is in the zone of a pattern: it is the pattern, or the pattern is a wildcard and the
  host is its base domain or ends in a dot and its base domain.\<close>

definition in_zone :: "(string \<Rightarrow> string) \<Rightarrow> string \<Rightarrow> string \<Rightarrow> bool" where
  "in_zone norm pattern host \<longleftrightarrow>
     norm host = norm pattern \<or>
     (\<exists>base. pattern = ''*.'' @ base \<and>
        (norm host = norm base \<or> (\<exists>sub. norm host = sub @ ''.'' @ norm base)))"

locale zone_matcher =
  fixes norm :: "string \<Rightarrow> string"
    and matches :: "string \<Rightarrow> string \<Rightarrow> bool"
  assumes sound: "matches pattern host \<Longrightarrow> in_zone norm pattern host"
    and exact: "norm host = norm pattern \<Longrightarrow> \<not> starts_with pattern ''*.'' \<Longrightarrow> matches pattern host"
    and subdomain: "norm host = sub @ ''.'' @ norm base \<Longrightarrow> matches (''*.'' @ base) host"
begin

text \<open>A list of patterns admits only hosts inside the zone of one of them.\<close>

lemma any_sound: "\<exists>p \<in> set ps. matches p host \<Longrightarrow> \<exists>p \<in> set ps. in_zone norm p host"
  using sound by blast

text \<open>A pattern without the wildcard admits only itself.\<close>

lemma literal_only:
  assumes "\<not> starts_with pattern ''*.''"
  shows "matches pattern host \<longleftrightarrow> norm host = norm pattern"
proof
  assume "matches pattern host"
  then have "in_zone norm pattern host" by (rule sound)
  with assms show "norm host = norm pattern" by (auto simp: in_zone_def)
qed (use assms exact in blast)

text \<open>A host that merely ends in the base domain, as \<open>evilexample.com\<close> does in \<open>example.com\<close>, is
  not admitted by the wildcard.\<close>

lemma no_lookalike:
  assumes "matches (''*.'' @ base) host" and "norm host = pre @ norm base" and "pre \<noteq> []"
    and "last pre \<noteq> CHR ''.''" and "norm (''*.'' @ base) \<noteq> norm host"
  shows False
proof -
  from sound [OF assms(1)] assms(5) have
    "norm host = norm base \<or> (\<exists>sub. norm host = sub @ ''.'' @ norm base)"
    by (auto simp: in_zone_def)
  with assms(2,3) obtain sub where "pre = sub @ ''.''" by auto
  with assms(4) show False by simp
qed

end

end
