(* ===== verification/Proxy_Policy.thy ===== *)
theory Proxy_Policy
  imports Host_Pattern
begin

text \<open>
  The network proxy of the container sandbox: the configuration of
  \<open>src/sandbox/config.rs\<close>, the domain allowlist, the policy deciders and the request handlers of
  \<open>src/sandbox/proxy\<close>. What a request does on the network is the argument \<open>send\<close> of the handlers;
  a panic is the value None.
\<close>

section \<open>Configuration\<close>

datatype sandbox_policy = ReadOnly | WorkspaceWrite | FullAccess

definition allows_writes :: "sandbox_policy \<Rightarrow> bool" where
  "allows_writes p = (case p of WorkspaceWrite \<Rightarrow> True | FullAccess \<Rightarrow> True | _ \<Rightarrow> False)"

definition has_full_network :: "sandbox_policy \<Rightarrow> bool" where
  "has_full_network p = (case p of FullAccess \<Rightarrow> True | _ \<Rightarrow> False)"

definition is_sandboxed :: "sandbox_policy \<Rightarrow> bool" where
  "is_sandboxed p = (\<not> (case p of FullAccess \<Rightarrow> True | _ \<Rightarrow> False))"

definition policy_from_str :: "string \<Rightarrow> string + sandbox_policy" where
  "policy_from_str s =
     (let l = to_lowercase s
      in if l \<in> set [''readonly'', ''read_only'', ''ro''] then Ok ReadOnly
         else if l \<in> set [''workspacewrite'', ''workspace_write'', ''rw''] then Ok WorkspaceWrite
         else if l \<in> set [''fullaccess'', ''full_access'', ''full'', ''none''] then Ok FullAccess
         else Err (''invalid sandbox policy '' @ [CHR 0x27] @ s @ [CHR 0x27] @ '', expected '' @
                   [CHR 0x27] @ ''readonly'' @ [CHR 0x27] @ '', '' @ [CHR 0x27] @ ''workspace_write'' @
                   [CHR 0x27] @ '', or '' @ [CHR 0x27] @ ''full_access'' @ [CHR 0x27]))"

datatype proxy_location = PAuthorizationBearer | PHeader string | PQueryParam string

record proxy_mapping =
  pm_domain :: string
  pm_secret_name :: string
  pm_location :: proxy_location

definition default_allowlist :: "string list" where
  "default_allowlist =
     [''crates.io'', ''static.crates.io'', ''index.crates.io'', ''registry.npmjs.org'',
      ''proxy.golang.org'', ''pypi.org'', ''files.pythonhosted.org'', ''docs.rs'',
      ''doc.rust-lang.org'', ''nodejs.org'', ''go.dev'', ''docs.python.org'', ''github.com'',
      ''raw.githubusercontent.com'', ''api.github.com'', ''codeload.github.com'',
      ''api.openai.com'', ''api.anthropic.com'']"

definition default_credential_mappings :: "proxy_mapping list" where
  "default_credential_mappings =
     [\<lparr>pm_domain = ''api.openai.com'', pm_secret_name = ''OPENAI_API_KEY'',
       pm_location = PAuthorizationBearer\<rparr>,
      \<lparr>pm_domain = ''api.anthropic.com'', pm_secret_name = ''ANTHROPIC_API_KEY'',
       pm_location = PHeader ''x-api-key''\<rparr>]"

section \<open>The domain allowlist\<close>

record domain_pattern =
  dp_pattern :: string
  dp_is_wildcard :: bool
  dp_base_domain :: string

definition dp_new :: "string \<Rightarrow> domain_pattern" where
  "dp_new pattern =
     (let wild = starts_with pattern ''*.''
      in \<lparr>dp_pattern = pattern, dp_is_wildcard = wild,
          dp_base_domain = (if wild then to_lowercase (drop 2 pattern) else to_lowercase pattern)\<rparr>)"

definition dp_matches :: "domain_pattern \<Rightarrow> string \<Rightarrow> bool" where
  "dp_matches p host =
     (let host_lower = to_lowercase host
      in if dp_is_wildcard p
         then host_lower = dp_base_domain p \<or> ends_with host_lower (''.'' @ dp_base_domain p)
         else host_lower = dp_base_domain p)"

datatype domain_validation_result = DomainAllowed | DomainDenied string

definition dv_is_allowed :: "domain_validation_result \<Rightarrow> bool" where
  "dv_is_allowed r = (case r of DomainAllowed \<Rightarrow> True | _ \<Rightarrow> False)"

record domain_allowlist =
  da_patterns :: "domain_pattern list"

definition da_new :: "string list \<Rightarrow> domain_allowlist" where
  "da_new domains = \<lparr>da_patterns = map dp_new domains\<rparr>"

definition da_empty :: domain_allowlist where
  "da_empty = \<lparr>da_patterns = []\<rparr>"

definition da_add :: "string \<Rightarrow> domain_allowlist \<Rightarrow> domain_allowlist" where
  "da_add pattern a = a\<lparr>da_patterns := da_patterns a @ [dp_new pattern]\<rparr>"

definition da_is_allowed :: "domain_allowlist \<Rightarrow> string \<Rightarrow> domain_validation_result" where
  "da_is_allowed a host =
     (if da_patterns a = [] then DomainDenied ''empty allowlist''
      else if list_ex (\<lambda>p. dp_matches p host) (da_patterns a) then DomainAllowed
      else DomainDenied (''host '' @ [CHR 0x27] @ host @ [CHR 0x27] @ '' not in allowlist: ['' @
             join '', '' (map dp_pattern (da_patterns a)) @ '']''))"

definition da_len :: "domain_allowlist \<Rightarrow> nat" where
  "da_len a = length (da_patterns a)"

text \<open>\<open>extract_host\<close>. The slice between the brackets of an IPv6 address panics when the closing
  bracket comes first.\<close>

definition strip_port :: "string \<Rightarrow> string" where
  "strip_port host_and_port =
     (case rfind_str host_and_port '':'' of
        Some colon_idx \<Rightarrow>
          if list_all is_ascii_digit (drop (colon_idx + 1) host_and_port)
          then take colon_idx host_and_port else host_and_port
      | None \<Rightarrow> host_and_port)"

definition extract_host :: "string \<Rightarrow> string option option" where
  "extract_host url =
     (case (case strip_prefix url ''https://'' of
              Some r \<Rightarrow> Some r | None \<Rightarrow> strip_prefix url ''http://'') of
        None \<Rightarrow> Some None
      | Some rest \<Rightarrow>
          (let host_end = (case find_str rest ''/'' of Some i \<Rightarrow> i | None \<Rightarrow> length rest);
               host_and_port = take host_end rest;
               finish = (\<lambda>host. if host = [] then None else Some (to_lowercase host))
           in case find_str host_and_port ''['' of
                Some bracket_idx \<Rightarrow>
                  (case find_str host_and_port '']'' of
                     None \<Rightarrow> Some None
                   | Some close_bracket \<Rightarrow>
                       if close_bracket < bracket_idx + 1 then None
                       else Some (finish (drop (bracket_idx + 1) (take close_bracket host_and_port))))
              | None \<Rightarrow> Some (finish (strip_port host_and_port))))"

section \<open>Policy decisions\<close>

record network_request =
  nr_method :: string
  nr_url :: string
  nr_host :: string
  nr_path :: string

definition extract_path :: "string \<Rightarrow> string" where
  "extract_path url =
     (case find_str url ''://'' of
        Some idx \<Rightarrow>
          (let rest = drop (idx + 3) url
           in case find_str rest ''/'' of Some path_start \<Rightarrow> drop path_start rest | None \<Rightarrow> ''/'')
      | None \<Rightarrow> ''/'')"

definition nr_from_url :: "string \<Rightarrow> string \<Rightarrow> network_request option option" where
  "nr_from_url method url =
     (case extract_host url of
        None \<Rightarrow> None
      | Some None \<Rightarrow> Some None
      | Some (Some host) \<Rightarrow>
          Some (Some \<lparr>nr_method = to_uppercase method, nr_url = url, nr_host = host,
                      nr_path = extract_path url\<rparr>))"

datatype network_decision =
    Allow
  | AllowWithCredentials string proxy_location
  | Deny string

definition nd_is_allowed :: "network_decision \<Rightarrow> bool" where
  "nd_is_allowed d = (case d of Deny _ \<Rightarrow> False | _ \<Rightarrow> True)"

text \<open>The implementations of the trait \<open>NetworkPolicyDecider\<close>.\<close>

record default_policy_decider =
  dpd_allowlist :: domain_allowlist
  dpd_credential_mappings :: "proxy_mapping list"

datatype policy_decider =
    DefaultPolicyDecider default_policy_decider
  | AllowAllDecider
  | DenyAllDecider string

definition find_credential :: "default_policy_decider \<Rightarrow> string \<Rightarrow> proxy_mapping option" where
  "find_credential d host =
     (let host_lower = to_lowercase host
      in find (\<lambda>m. to_lowercase (pm_domain m) = host_lower) (dpd_credential_mappings d))"

fun decide :: "policy_decider \<Rightarrow> network_request \<Rightarrow> network_decision" where
  "decide (DefaultPolicyDecider d) request =
     (case da_is_allowed (dpd_allowlist d) (nr_host request) of
        DomainDenied reason \<Rightarrow> Deny reason
      | DomainAllowed \<Rightarrow>
          (case find_credential d (nr_host request) of
             Some m \<Rightarrow> AllowWithCredentials (pm_secret_name m) (pm_location m)
           | None \<Rightarrow> Allow))"
| "decide AllowAllDecider request = Allow"
| "decide (DenyAllDecider reason) request = Deny reason"

section \<open>The builder\<close>

record network_proxy_builder =
  npb_allowlist :: "string list"
  npb_credential_mappings :: "proxy_mapping list"
  npb_policy :: sandbox_policy

definition npb_new :: network_proxy_builder where
  "npb_new =
     \<lparr>npb_allowlist = default_allowlist, npb_credential_mappings = default_credential_mappings,
      npb_policy = ReadOnly\<rparr>"

definition npb_with_allowlist :: "string list \<Rightarrow> network_proxy_builder \<Rightarrow> network_proxy_builder" where
  "npb_with_allowlist domains b = b\<lparr>npb_allowlist := domains\<rparr>"

definition npb_allow_domain :: "string \<Rightarrow> network_proxy_builder \<Rightarrow> network_proxy_builder" where
  "npb_allow_domain domain b = b\<lparr>npb_allowlist := npb_allowlist b @ [domain]\<rparr>"

definition npb_with_credentials :: "proxy_mapping list \<Rightarrow> network_proxy_builder \<Rightarrow> network_proxy_builder" where
  "npb_with_credentials ms b = b\<lparr>npb_credential_mappings := ms\<rparr>"

definition npb_with_policy :: "sandbox_policy \<Rightarrow> network_proxy_builder \<Rightarrow> network_proxy_builder" where
  "npb_with_policy p b = b\<lparr>npb_policy := p\<rparr>"

text \<open>The decider of the proxy that is built.\<close>

definition npb_build :: "network_proxy_builder \<Rightarrow> policy_decider" where
  "npb_build b =
     (if has_full_network (npb_policy b) then AllowAllDecider
      else DefaultPolicyDecider
             \<lparr>dpd_allowlist = da_new (npb_allowlist b),
              dpd_credential_mappings = npb_credential_mappings b\<rparr>)"

section \<open>The request handlers\<close>

text \<open>An incoming request: its target is the URI text for an ordinary request and the host of the
  authority, when there is one, for CONNECT. The header values are those readable as text; the body
  is None when reading it fails.\<close>

record proxy_request =
  pr_method :: string
  pr_uri :: string
  pr_connect_host :: "string option"
  pr_headers :: "(string \<times> string) list"
  pr_body :: "string option"

record proxy_response =
  ps_status :: nat
  ps_headers :: "(string \<times> string) list"
  ps_body :: string

record outgoing_request =
  og_method :: string
  og_uri :: string
  og_headers :: "(string \<times> string) list"
  og_query :: "(string \<times> string) list"
  og_body :: "string option"

definition is_hop_by_hop_header :: "string \<Rightarrow> bool" where
  "is_hop_by_hop_header name =
     (to_lowercase name \<in> set [''connection'', ''keep-alive'', ''proxy-authenticate'',
        ''proxy-authorization'', ''te'', ''trailers'', ''transfer-encoding'', ''upgrade''])"

definition error_response :: "nat \<Rightarrow> string \<Rightarrow> proxy_response" where
  "error_response status message =
     \<lparr>ps_status = status, ps_headers = [(''Content-Type'', ''text/plain'')], ps_body = message\<rparr>"

definition add_header :: "string \<Rightarrow> string \<Rightarrow> outgoing_request \<Rightarrow> outgoing_request" where
  "add_header n v r = r\<lparr>og_headers := og_headers r @ [(n, v)]\<rparr>"

text \<open>The credential part of \<open>forward_request\<close>; \<open>resolve\<close> is the credential resolver.\<close>

definition inject_decision ::
  "(string \<Rightarrow> string option) \<Rightarrow> network_decision \<Rightarrow> outgoing_request \<Rightarrow> outgoing_request" where
  "inject_decision resolve decision r =
     (case decision of
        AllowWithCredentials secret_name location \<Rightarrow>
          (case resolve secret_name of
             Some credential \<Rightarrow>
               (case location of
                  PAuthorizationBearer \<Rightarrow> add_header ''Authorization'' (''Bearer '' @ credential) r
                | PHeader name \<Rightarrow> add_header name credential r
                | PQueryParam name \<Rightarrow> r\<lparr>og_query := og_query r @ [(name, credential)]\<rparr>)
           | None \<Rightarrow> r)
      | _ \<Rightarrow> r)"

text \<open>The request \<open>forward_request\<close> builds from a body it has read.\<close>

definition outgoing ::
  "(string \<Rightarrow> string option) \<Rightarrow> proxy_request \<Rightarrow> network_decision \<Rightarrow> string \<Rightarrow> outgoing_request" where
  "outgoing resolve req decision body =
     (let r0 = \<lparr>og_method = pr_method req, og_uri = pr_uri req,
                og_headers = filter (\<lambda>(n, v). \<not> is_hop_by_hop_header n) (pr_headers req),
                og_query = [], og_body = None\<rparr>;
          r1 = inject_decision resolve decision r0
      in if body = [] then r1 else r1\<lparr>og_body := Some body\<rparr>)"

text \<open>\<open>send\<close> is the network. The requests sent on are the second result.\<close>

datatype send_result = SendFailed string | ResponseBodyFailed | Responded proxy_response

definition forward_request ::
  "(outgoing_request \<Rightarrow> send_result) \<Rightarrow> (string \<Rightarrow> string option) \<Rightarrow>
   proxy_request \<Rightarrow> network_decision \<Rightarrow> proxy_response \<times> outgoing_request list" where
  "forward_request send resolve req decision =
     (case pr_body req of
        None \<Rightarrow> (error_response 500 ''Failed to read body'', [])
      | Some body \<Rightarrow>
          (let og = outgoing resolve req decision body
           in (case send og of
                 Responded response \<Rightarrow>
                   response\<lparr>ps_headers :=
                     filter (\<lambda>(n, v). \<not> is_hop_by_hop_header n) (ps_headers response)\<rparr>
               | ResponseBodyFailed \<Rightarrow> error_response 502 ''Failed to read response''
               | SendFailed e \<Rightarrow> error_response 502 (''Request failed: '' @ e),
               [og])))"

definition handle_connect :: "policy_decider \<Rightarrow> proxy_request \<Rightarrow> proxy_response" where
  "handle_connect decider req =
     (case pr_connect_host req of
        None \<Rightarrow> error_response 400 ''Missing host''
      | Some host \<Rightarrow>
          (case decide decider \<lparr>nr_method = ''CONNECT'', nr_url = ''https://'' @ host,
                                nr_host = host, nr_path = ''/''\<rparr> of
             Deny reason \<Rightarrow> error_response 403 reason
           | _ \<Rightarrow> \<lparr>ps_status = 200, ps_headers = [], ps_body = []\<rparr>))"

text \<open>\<open>handle_request\<close> with the request counter; the requests sent on are the third result.\<close>

definition handle_request ::
  "(outgoing_request \<Rightarrow> send_result) \<Rightarrow> (string \<Rightarrow> string option) \<Rightarrow> policy_decider \<Rightarrow>
   proxy_request \<Rightarrow> u64 \<Rightarrow> (proxy_response \<times> u64 \<times> outgoing_request list) option" where
  "handle_request send resolve decider req count =
     (let count' = count + 1
      in if pr_method req = ''CONNECT'' then Some (handle_connect decider req, count', [])
         else
           case nr_from_url (pr_method req) (pr_uri req) of
             None \<Rightarrow> None
           | Some None \<Rightarrow> Some (error_response 400 ''Invalid URL'', count', [])
           | Some (Some network_req) \<Rightarrow>
               (case decide decider network_req of
                  Deny reason \<Rightarrow> Some (error_response 403 reason, count', [])
                | decision \<Rightarrow>
                    (case forward_request send resolve req decision of
                       (response, sent) \<Rightarrow> Some (response, count', sent))))"

section \<open>Lemmas\<close>

lemma dp_matches_iff:
  "dp_matches (dp_new p) host \<longleftrightarrow>
     (if starts_with p ''*.''
      then to_lowercase host = to_lowercase (drop 2 p) \<or>
           (\<exists>sub. to_lowercase host = sub @ ''.'' @ to_lowercase (drop 2 p))
      else to_lowercase host = to_lowercase p)"
  by (auto simp: dp_matches_def dp_new_def Let_def ends_with_iff)

interpretation proxy_zone: zone_matcher to_lowercase "\<lambda>p h. dp_matches (dp_new p) h"
proof unfold_locales
  fix p h
  assume "dp_matches (dp_new p) h"
  then show "in_zone to_lowercase p h"
    by (cases "starts_with p ''*.''") (auto simp: dp_matches_iff in_zone_def starts_with_iff)
qed (auto simp: dp_matches_iff)

lemma da_is_allowed_iff:
  "da_is_allowed (da_new domains) host = DomainAllowed \<longleftrightarrow>
     (\<exists>p \<in> set domains. dp_matches (dp_new p) host)"
  by (auto simp: da_is_allowed_def da_new_def list_ex_iff)

lemma da_is_allowed_zone:
  "da_is_allowed (da_new domains) host = DomainAllowed \<Longrightarrow>
     \<exists>p \<in> set domains. in_zone to_lowercase p host"
  unfolding da_is_allowed_iff by (rule proxy_zone.any_sound)

lemma find_credential_Some:
  "find_credential d host = Some m \<Longrightarrow>
     m \<in> set (dpd_credential_mappings d) \<and> to_lowercase (pm_domain m) = to_lowercase host"
  by (auto simp: find_credential_def Let_def find_Some_iff in_set_conv_nth)

text \<open>Every request the handler sends on was allowed by the decider for the host it extracted.\<close>

lemma handle_request_sent:
  assumes "handle_request send resolve decider req n = Some (r, n', sent)" and "og \<in> set sent"
  shows "\<exists>network_req body. nr_from_url (pr_method req) (pr_uri req) = Some (Some network_req) \<and>
           nd_is_allowed (decide decider network_req) \<and> pr_body req = Some body \<and>
           og = outgoing resolve req (decide decider network_req) body"
  using assms
  by (auto simp: handle_request_def forward_request_def Let_def nd_is_allowed_def
      split: if_splits option.splits network_decision.splits)

section \<open>Properties\<close>


definition proxy_example :: proxy_request where
  "proxy_example = \<lparr>pr_method = ''GET'', pr_uri = ''http://crates.io/api'', pr_connect_host = None,
     pr_headers = [(''Connection'', ''close''), (''Accept'', ''*/*'')], pr_body = Some ''''\<rparr>"


text \<open>The proxy takes whatever stands in brackets anywhere in the authority for the host: with the
  brackets in the user information, a request to \<open>evil.com\<close> is decided as one to \<open>crates.io\<close>, and a
  closing bracket before the opening one makes the extraction panic.\<close>

theorem bracket_host_confusion:
  "extract_host ''http://[crates.io]@evil.com/'' = Some (Some ''crates.io'') \<and>
   da_is_allowed (da_new default_allowlist) ''crates.io'' = DomainAllowed \<and>
   extract_host ''http://a]b[c/'' = None"
  by code_simp

text \<open>The proxy tunnels a CONNECT only to a host in the zone of an allowed domain, and answers 403
  to every other host.\<close>

theorem connect_only_allowed:
  assumes "is_sandboxed (npb_policy b)" and "pr_connect_host req = Some host"
  shows "ps_status (handle_connect (npb_build b) req) =
     (if \<exists>p \<in> set (npb_allowlist b). in_zone to_lowercase p host \<and> dp_matches (dp_new p) host then 200 else 403)"
proof -
  have b: "npb_build b = DefaultPolicyDecider \<lparr>dpd_allowlist = da_new (npb_allowlist b),
      dpd_credential_mappings = npb_credential_mappings b\<rparr>"
    using assms(1) by (cases "npb_policy b") (simp_all add: npb_build_def has_full_network_def is_sandboxed_def)
  have "da_is_allowed (da_new (npb_allowlist b)) host = DomainAllowed \<longleftrightarrow>
      (\<exists>p \<in> set (npb_allowlist b). in_zone to_lowercase p host \<and> dp_matches (dp_new p) host)"
    using proxy_zone.sound by (auto simp: da_is_allowed_iff)
  then show ?thesis
    using assms(2)
    by (auto simp: handle_connect_def b error_response_def split: domain_validation_result.split option.split)
qed

theorem connect_only_allowed_witness:
  "ps_status (handle_connect (npb_build npb_new) (proxy_example\<lparr>pr_connect_host := Some ''evil.com''\<rparr>)) = 403"
proof -
  have "\<not> list_ex (\<lambda>p. dp_matches (dp_new p) ''evil.com'') default_allowlist" by code_simp
  with connect_only_allowed [of npb_new "proxy_example\<lparr>pr_connect_host := Some ''evil.com''\<rparr>" "''evil.com''"]
  show ?thesis by (auto simp: npb_new_def is_sandboxed_def list_ex_iff)
qed

end
