(* ===== verification/Shell_Tool.thy ===== *)
theory Shell_Tool
  imports Tool_Registry Proxy_Policy
begin

text \<open>
  The shell tool, \<open>src/tools/builtin/shell.rs\<close>, with the filters every command passes, the choice
  between the container and a direct process, and the bounds on its output; and the helpers of
  \<open>src/util.rs\<close>. What a command does is a parameter (\<open>shell_env\<close>); every run is returned in a log.
\<close>

section \<open>Filters\<close>

definition MAX_OUTPUT_SIZE :: nat where
  "MAX_OUTPUT_SIZE = 64 * 1024"

definition SHELL_TIMEOUT :: duration where
  "SHELL_TIMEOUT = 120000"

definition BLOCKED_COMMANDS :: "string list" where
  "BLOCKED_COMMANDS =
     [''rm -rf /'', ''rm -rf /*'', '':(){ :|:& };:'', ''dd if=/dev/zero'', ''mkfs'', ''chmod -R 777 /'',
      ''> /dev/sda'', ''curl | sh'', ''wget | sh'', ''curl | bash'', ''wget | bash'']"

definition DANGEROUS_PATTERNS :: "string list" where
  "DANGEROUS_PATTERNS =
     [''sudo '', ''doas '', '' | sh'', '' | bash'', '' | zsh'', ''eval '', ''$(curl'', ''$(wget'', ''/etc/passwd'',
      ''/etc/shadow'', ''~/.ssh'', ''.bash_history'', ''id_rsa'']"

definition NEVER_AUTO_APPROVE_PATTERNS :: "string list" where
  "NEVER_AUTO_APPROVE_PATTERNS =
     [''rm -rf'', ''rm -fr'', ''chmod -r 777'', ''chmod 777'', ''chown -r'', ''shutdown'', ''reboot'', ''poweroff'',
      ''init 0'', ''init 6'', ''iptables'', ''nft '', ''useradd'', ''userdel'', ''passwd'', ''visudo'', ''crontab'',
      ''systemctl disable'', ''launchctl unload'', ''kill -9'', ''killall'', ''pkill'', ''docker rm'', ''docker rmi'',
      ''docker system prune'', ''git push --force'', ''git push -f'', ''git reset --hard'', ''git clean -f'',
      ''DROP TABLE'', ''DROP DATABASE'', ''TRUNCATE'', ''DELETE FROM'']"

definition requires_explicit_approval :: "string \<Rightarrow> bool" where
  "requires_explicit_approval command =
     (let lower = to_lowercase command
      in list_ex (\<lambda>p. contains lower (to_lowercase p)) NEVER_AUTO_APPROVE_PATTERNS)"

text \<open>What the tool asks of its sandbox manager: whether it runs, and whether it is enabled.\<close>

record sandbox_handle =
  sh_initialized :: bool
  sh_enabled :: bool

record shell_tool =
  st_working_dir :: "string option"
  st_timeout :: duration
  st_allow_dangerous :: bool
  st_sandbox :: "sandbox_handle option"
  st_sandbox_policy :: sandbox_policy

definition shell_new :: shell_tool where
  "shell_new = \<lparr>st_working_dir = None, st_timeout = SHELL_TIMEOUT, st_allow_dangerous = False,
                st_sandbox = None, st_sandbox_policy = ReadOnly\<rparr>"

definition shell_with_working_dir :: "string \<Rightarrow> shell_tool \<Rightarrow> shell_tool" where
  "shell_with_working_dir dir st = st\<lparr>st_working_dir := Some dir\<rparr>"

definition shell_with_timeout :: "duration \<Rightarrow> shell_tool \<Rightarrow> shell_tool" where
  "shell_with_timeout d st = st\<lparr>st_timeout := d\<rparr>"

definition shell_with_sandbox :: "sandbox_handle \<Rightarrow> shell_tool \<Rightarrow> shell_tool" where
  "shell_with_sandbox sandbox st = st\<lparr>st_sandbox := Some sandbox\<rparr>"

definition shell_with_sandbox_policy :: "sandbox_policy \<Rightarrow> shell_tool \<Rightarrow> shell_tool" where
  "shell_with_sandbox_policy p st = st\<lparr>st_sandbox_policy := p\<rparr>"

definition shell_is_blocked :: "shell_tool \<Rightarrow> string \<Rightarrow> string option" where
  "shell_is_blocked st cmd =
     (let normalized = to_lowercase cmd
      in if list_ex (contains normalized) BLOCKED_COMMANDS then Some ''Command contains blocked pattern''
         else if \<not> st_allow_dangerous st \<and> list_ex (contains normalized) DANGEROUS_PATTERNS
         then Some ''Command contains potentially dangerous pattern''
         else None)"

section \<open>Output\<close>

text \<open>The loop of \<open>floor_char_boundary\<close> steps back from \<open>i\<close>.\<close>

fun step_back :: "string \<Rightarrow> nat \<Rightarrow> nat" where
  "step_back s 0 = 0"
| "step_back s (Suc i) = (if is_char_boundary s (Suc i) then Suc i else step_back s i)"

definition floor_char_boundary :: "string \<Rightarrow> nat \<Rightarrow> nat" where
  "floor_char_boundary s pos = (if length s \<le> pos then length s else step_back s pos)"

text \<open>\<open>&s[a..b]\<close>: None is the panic of a slice that splits a character or is out of range.\<close>

definition slice :: "string \<Rightarrow> nat \<Rightarrow> nat \<Rightarrow> string option" where
  "slice s a b =
     (if a \<le> b \<and> b \<le> length s \<and> is_char_boundary s a \<and> is_char_boundary s b
      then Some (drop a (take b s)) else None)"

definition truncate_output :: "string \<Rightarrow> string option" where
  "truncate_output s =
     (if length s \<le> MAX_OUTPUT_SIZE then Some s
      else
        (let half = MAX_OUTPUT_SIZE div 2;
             head_end = floor_char_boundary s half;
             tail_start = floor_char_boundary s (length s - half)
         in case (slice s 0 head_end, slice s tail_start (length s)) of
              (Some h, Some t) \<Rightarrow>
                Some (h @ [newline, newline] @ ''... [truncated '' @ show_nat (length s - MAX_OUTPUT_SIZE) @
                      '' bytes] ...'' @ [newline, newline] @ t)
            | _ \<Rightarrow> None))"

definition truncate_for_error :: "string \<Rightarrow> string" where
  "truncate_for_error s =
     (if length (utf8_chars s) \<le> 100 then s else concat (take 100 (utf8_chars s)) @ ''...'')"

section \<open>Execution\<close>

text \<open>What becomes of a process: it cannot start, waiting for it fails, its time runs out, or it exits
  with the bytes one read returned from each stream and perhaps an exit code.\<close>

datatype process_outcome =
    SpawnFailed string
  | WaitFailed string
  | ProcessTimeout
  | Exited string string "int option"

datatype sandbox_outcome = SandboxFailed string | SandboxTimeout | SandboxDone string int

datatype shell_run =
    RunSandboxed string string sandbox_policy duration
  | RunDirect string string duration

record shell_env =
  se_sandbox :: "shell_run \<Rightarrow> sandbox_outcome"
  se_process :: "shell_run \<Rightarrow> process_outcome"
  se_current_dir :: "string option"
  se_as_u64 :: "string \<Rightarrow> nat option"
  se_elapsed :: duration

definition execute_sandboxed ::
  "shell_env \<Rightarrow> shell_tool \<Rightarrow> string \<Rightarrow> string \<Rightarrow> duration \<Rightarrow>
   (tool_error + string \<times> int) option \<times> shell_run list" where
  "execute_sandboxed env st cmd workdir d =
     (let run = RunSandboxed cmd workdir (st_sandbox_policy st) d
      in ((case se_sandbox env run of
             SandboxDone output code \<Rightarrow> map_option (\<lambda>combined. Ok (combined, code)) (truncate_output output)
           | SandboxFailed e \<Rightarrow> Some (Err (ExecutionFailed (''Sandbox error: '' @ e)))
           | SandboxTimeout \<Rightarrow> Some (Err (TimeoutAfter d))), [run]))"

definition combine_streams :: "string \<Rightarrow> string \<Rightarrow> string" where
  "combine_streams out err =
     (let stdout = from_utf8_lossy out; stderr = from_utf8_lossy err
      in if stderr = [] then stdout else if stdout = [] then stderr
         else stdout @ [newline, newline] @ ''--- stderr ---'' @ [newline] @ stderr)"

definition execute_direct ::
  "shell_env \<Rightarrow> string \<Rightarrow> string \<Rightarrow> duration \<Rightarrow> (tool_error + string \<times> int) option \<times> shell_run list" where
  "execute_direct env cmd workdir d =
     (let run = RunDirect cmd workdir d
      in ((case se_process env run of
             SpawnFailed e \<Rightarrow> Some (Err (ExecutionFailed (''Failed to spawn command: '' @ e)))
           | WaitFailed e \<Rightarrow> Some (Err (ExecutionFailed (''Command execution failed: '' @ e)))
           | ProcessTimeout \<Rightarrow> Some (Err (TimeoutAfter d))
           | Exited out err code \<Rightarrow>
               map_option (\<lambda>t. Ok (t, case code of Some c \<Rightarrow> c | None \<Rightarrow> -1))
                 (truncate_output (combine_streams out err))), [run]))"

definition execute_command ::
  "shell_env \<Rightarrow> shell_tool \<Rightarrow> string \<Rightarrow> string option \<Rightarrow> nat option \<Rightarrow>
   (tool_error + string \<times> int) option \<times> shell_run list" where
  "execute_command env st cmd workdir timeout =
     (case shell_is_blocked st cmd of
        Some reason \<Rightarrow> (Some (Err (NotAuthorized (reason @ '': '' @ truncate_for_error cmd))), [])
      | None \<Rightarrow>
          (let cwd = (case workdir of Some w \<Rightarrow> w
                      | None \<Rightarrow> (case st_working_dir st of Some w \<Rightarrow> w
                                | None \<Rightarrow> (case se_current_dir env of Some w \<Rightarrow> w | None \<Rightarrow> ''.'')));
               d = (case timeout of Some secs \<Rightarrow> secs * 1000 | None \<Rightarrow> st_timeout st)
           in case st_sandbox st of
                Some sandbox \<Rightarrow>
                  if sh_initialized sandbox \<or> sh_enabled sandbox then execute_sandboxed env st cmd cwd d
                  else execute_direct env cmd cwd d
              | None \<Rightarrow> execute_direct env cmd cwd d))"

definition show_int :: "int \<Rightarrow> string" where
  "show_int i = (if i < 0 then CHR ''-'' # show_nat (nat (- i)) else show_nat (nat i))"

definition json_get_u64 :: "(string \<Rightarrow> nat option) \<Rightarrow> json \<Rightarrow> string \<Rightarrow> nat option" where
  "json_get_u64 as_u64 j k = (case json_get j k of Some (JNumber lit) \<Rightarrow> as_u64 lit | _ \<Rightarrow> None)"

definition shell_execute ::
  "shell_env \<Rightarrow> shell_tool \<Rightarrow> json \<Rightarrow> (tool_error + tool_output) option \<times> shell_run list" where
  "shell_execute env st params =
     (case json_get_str params ''command'' of
        None \<Rightarrow> (Some (Err (InvalidParameters (''missing '' @ [CHR 0x27] @ ''command'' @ [CHR 0x27] @ '' parameter''))), [])
      | Some command \<Rightarrow>
          (case execute_command env st command (json_get_str params ''workdir'') (json_get_u64 (se_as_u64 env) params ''timeout'') of
             (None, runs) \<Rightarrow> (None, runs)
           | (Some (Inl e), runs) \<Rightarrow> (Some (Err e), runs)
           | (Some (Inr (output, exit_code)), runs) \<Rightarrow>
               (Some (Ok (output_success
                  (JObject [(''output'', JString output), (''exit_code'', JNumber (show_int exit_code)),
                            (''success'', JBool (exit_code = 0)), (''sandboxed'', JBool (st_sandbox st \<noteq> None))])
                  (se_elapsed env))), runs)))"

definition shell_as_tool :: "string \<Rightarrow> json \<Rightarrow> tool" where
  "shell_as_tool description params_schema =
     (tool_defaults ''shell'' description params_schema)
       \<lparr>tool_requires_approval := True, tool_requires_sanitization := True, tool_domain := Container\<rparr>"

section \<open>Completion phrases\<close>

definition positive_phrases :: "string list" where
  "positive_phrases =
     [''job is complete'', ''job is done'', ''job is finished'', ''task is complete'', ''task is done'',
      ''task is finished'', ''work is complete'', ''work is done'', ''work is finished'', ''successfully completed'',
      ''have completed the job'', ''have completed the task'', ''have finished the job'', ''have finished the task'',
      ''all steps are complete'', ''all steps are done'', ''i have completed'',
      ''i'' @ [CHR 0x27] @ ''ve completed'', ''all done'', ''all tasks complete'']"

definition negative_phrases :: "string list" where
  "negative_phrases =
     [''not complete'', ''not done'', ''not finished'', ''incomplete'', ''unfinished'',
      ''isn'' @ [CHR 0x27] @ ''t done'', ''isn'' @ [CHR 0x27] @ ''t complete'', ''isn'' @ [CHR 0x27] @ ''t finished'',
      ''not yet done'', ''not yet complete'', ''not yet finished'']"

definition llm_signals_completion :: "string \<Rightarrow> bool" where
  "llm_signals_completion response =
     (let lower = to_lowercase response
      in if list_ex (contains lower) negative_phrases then False
         else list_ex (contains lower) positive_phrases)"

section \<open>Lemmas\<close>

lemma step_back_boundary: "is_char_boundary s (step_back s i)"
  by (induction i) (auto simp: is_char_boundary_def)

lemma step_back_le: "step_back s i \<le> i"
  by (induction i) (auto intro: le_SucI)

lemma step_back_greatest: "j \<le> i \<Longrightarrow> is_char_boundary s j \<Longrightarrow> j \<le> step_back s i"
proof (induction i)
  case (Suc i)
  then show ?case by (cases "j = Suc i") auto
qed simp

lemma floor_boundary [simp]: "is_char_boundary s (floor_char_boundary s pos)"
  by (simp add: floor_char_boundary_def step_back_boundary) (simp add: is_char_boundary_def)

lemma floor_le [simp]: "floor_char_boundary s pos \<le> length s"
  using step_back_le [of s pos] by (simp add: floor_char_boundary_def)

lemma floor_le_pos: "pos \<le> length s \<Longrightarrow> floor_char_boundary s pos \<le> pos"
  using step_back_le [of s pos] by (simp add: floor_char_boundary_def)

lemma floor_at_most: "floor_char_boundary s pos \<le> pos"
  using step_back_le [of s pos] by (simp add: floor_char_boundary_def)

lemma floor_greatest: "j \<le> pos \<Longrightarrow> j \<le> length s \<Longrightarrow> is_char_boundary s j \<Longrightarrow> j \<le> floor_char_boundary s pos"
  using step_back_greatest [of j pos s] by (simp add: floor_char_boundary_def)

lemma boundary_ends [simp]: "is_char_boundary s 0" "is_char_boundary s (length s)"
  by (simp_all add: is_char_boundary_def)

lemma slice_floor [simp]:
  "slice s 0 (floor_char_boundary s pos) = Some (take (floor_char_boundary s pos) s)"
  "slice s (floor_char_boundary s pos) (length s) = Some (drop (floor_char_boundary s pos) s)"
  by (simp_all add: slice_def)

text \<open>The runs of a command.\<close>

lemma execute_command_runs:
  assumes "run \<in> set (snd (execute_command env st cmd workdir timeout))"
  shows "shell_is_blocked st cmd = None \<and>
     (case run of
        RunSandboxed c w p d \<Rightarrow> c = cmd \<and> p = st_sandbox_policy st
      | RunDirect c w d \<Rightarrow> c = cmd \<and>
          (case st_sandbox st of None \<Rightarrow> True | Some sb \<Rightarrow> \<not> sh_initialized sb \<and> \<not> sh_enabled sb))"
  using assms
  by (auto simp: execute_command_def execute_sandboxed_def execute_direct_def Let_def
      split: option.splits if_splits)

lemma contains_Cons: "contains (c # s) p \<longleftrightarrow> starts_with (c # s) p \<or> contains s p"
  by (auto simp: contains_def)

lemma lowercase_no_upper: "c \<in> set (to_lowercase s) \<Longrightarrow> c \<noteq> CHR ''R''"
proof -
  assume "c \<in> set (to_lowercase s)"
  then obtain x where c: "c = ascii_lower x" by (auto simp: to_lowercase_def)
  have "(of_char c :: nat) \<noteq> 82"
    by (auto simp: c ascii_lower_def)
  then show ?thesis by auto
qed

lemma contains_subset: "contains s p \<Longrightarrow> set p \<subseteq> set s"
  by (metis Un_upper1 contains_iff le_supI2 set_append)

lemmas shell_filter_eval = shell_is_blocked_def shell_new_def BLOCKED_COMMANDS_def DANGEROUS_PATTERNS_def
  contains_def to_lowercase_def ascii_lower_def starts_with_def

section \<open>Properties\<close>

text \<open>The shell tool runs only the command it was given, never one the filters block, and it starts a process on the host only if no sandbox is configured or the configured one is neither running nor enabled: there is no silent fallback from the container to the host.\<close>

theorem shell_runs_confined:
  assumes "run \<in> set (snd (shell_execute env st params))"
  shows "\<exists>cmd. json_get_str params ''command'' = Some cmd \<and> shell_is_blocked st cmd = None \<and>
     (case run of
        RunSandboxed c w p d \<Rightarrow> c = cmd \<and> p = st_sandbox_policy st
      | RunDirect c w d \<Rightarrow> c = cmd \<and>
          (case st_sandbox st of None \<Rightarrow> True | Some sb \<Rightarrow> \<not> sh_initialized sb \<and> \<not> sh_enabled sb))"
proof (cases "json_get_str params ''command''")
  case (Some cmd)
  then have "run \<in> set (snd (execute_command env st cmd (json_get_str params ''workdir'')
                               (json_get_u64 (se_as_u64 env) params ''timeout'')))"
    using assms by (auto simp: shell_execute_def split: prod.splits option.splits sum.splits)
  from execute_command_runs [OF this] Some show ?thesis by blast
qed (use assms in \<open>simp add: shell_execute_def\<close>)

theorem shell_runs_confined_witness:
  "\<exists>cmd. json_get_str (JObject [(''command'', JString ''ls'')]) ''command'' = Some cmd \<and> shell_is_blocked shell_new cmd = None"
proof -
  let ?env = "\<lparr>se_sandbox = \<lambda>_. SandboxTimeout, se_process = \<lambda>_. ProcessTimeout, se_current_dir = None,
               se_as_u64 = \<lambda>_. None, se_elapsed = 0\<rparr>"
  have "RunDirect ''ls'' ''.'' 120000 \<in> set (snd (shell_execute ?env shell_new (JObject [(''command'', JString ''ls'')])))"
    by (simp add: shell_execute_def json_get_str_def json_get_def json_get_u64_def execute_command_def
        shell_filter_eval execute_direct_def Let_def SHELL_TIMEOUT_def)
  from shell_runs_confined [OF this] show ?thesis by auto
qed

text \<open>Truncating output never panics: output within the limit is unchanged, longer output becomes a prefix of at most half the limit and a suffix, both cut between characters, around a notice.\<close>

theorem shell_output_bounded:
  "\<exists>t. truncate_output s = Some t \<and>
     (if length s \<le> MAX_OUTPUT_SIZE then t = s
      else \<exists>h m u. t = h @ m @ u \<and> prefix h s \<and> suffix u s \<and>
             length h \<le> MAX_OUTPUT_SIZE div 2 \<and> MAX_OUTPUT_SIZE div 2 \<le> length u \<and>
             is_char_boundary s (length h) \<and> is_char_boundary s (length s - length u))"
proof (cases "length s \<le> MAX_OUTPUT_SIZE")
  case False
  let ?half = "MAX_OUTPUT_SIZE div 2"
  let ?a = "floor_char_boundary s ?half" and ?b = "floor_char_boundary s (length s - ?half)"
  have a: "?a \<le> ?half" and b: "?b \<le> length s - ?half"
    using False by (auto intro!: floor_le_pos simp: MAX_OUTPUT_SIZE_def)
  have bl: "?b \<le> length s" by simp
  have "\<exists>h m u. the (truncate_output s) = h @ m @ u \<and> prefix h s \<and> suffix u s \<and>
             length h \<le> ?half \<and> ?half \<le> length u \<and>
             is_char_boundary s (length h) \<and> is_char_boundary s (length s - length u)"
    using False a b bl
    by (intro exI [of _ "take ?a s"] exI [of _ "drop ?b s"]
        exI [of _ "[newline, newline] @ ''... [truncated '' @ show_nat (length s - MAX_OUTPUT_SIZE) @
                      '' bytes] ...'' @ [newline, newline]"])
       (auto simp: truncate_output_def Let_def take_is_prefix suffix_drop min_def MAX_OUTPUT_SIZE_def)
  then show ?thesis using False by (simp add: truncate_output_def Let_def)
qed (simp add: truncate_output_def)

text \<open>The boundary found is the largest position at or before the given one at which the string may be cut.\<close>

theorem floor_char_boundary_exact:
  "floor_char_boundary s pos = Max {j. j \<le> pos \<and> j \<le> length s \<and> is_char_boundary s j}"
proof (rule Max_eqI [symmetric])
  show "finite {j. j \<le> pos \<and> j \<le> length s \<and> is_char_boundary s j}" by simp
  show "floor_char_boundary s pos \<in> {j. j \<le> pos \<and> j \<le> length s \<and> is_char_boundary s j}"
    using floor_le_pos [of pos s] floor_le [of s pos] floor_boundary [of s pos]
    by (simp add: floor_at_most)
qed (auto intro: floor_greatest)

text \<open>The blocked command chmod -R 777 / contains an upper-case letter and is compared with the lower-cased command, so it never matches, and the command it names passes the filter.\<close>

theorem blocked_chmod_never_matches:
  "\<not> contains (to_lowercase cmd) ''chmod -R 777 /'' \<and>
   shell_is_blocked shell_new ''chmod -R 777 /'' = None"
proof
  show "\<not> contains (to_lowercase cmd) ''chmod -R 777 /''"
  proof
    assume "contains (to_lowercase cmd) ''chmod -R 777 /''"
    from contains_subset [OF this] have "CHR ''R'' \<in> set (to_lowercase cmd)" by simp
    then show False using lowercase_no_upper by blast
  qed
  have l: "to_lowercase ''chmod -R 777 /'' = ''chmod -r 777 /''"
    by code_simp
  have "\<not> list_ex (contains ''chmod -r 777 /'') (BLOCKED_COMMANDS @ DANGEROUS_PATTERNS)"
    by (simp add: BLOCKED_COMMANDS_def DANGEROUS_PATTERNS_def contains_def starts_with_def)
  then show "shell_is_blocked shell_new ''chmod -R 777 /'' = None"
    by (simp add: shell_is_blocked_def l shell_new_def)
qed

end
