(* ===== verification/Message_Router.thy ===== *)
theory Message_Router
  imports Containers
begin

text \<open>
  The router of explicit commands, \<open>src/agent/router.rs\<close>, and the expansion of skills by
  \<open>try_resolve_skill\<close> of \<open>src/agent/agent_loop.rs\<close>, which \<open>process_user_input\<close> calls after it.
  The workspace is the function \<open>read\<close> from a path to a document.
\<close>

section \<open>Commands\<close>

datatype message_intent =
    CreateJob string string "string option"
  | CheckJobStatus "string option"
  | CancelJob string
  | ListJobs "string option"
  | HelpJob string
  | Chat string
  | Command string "string list"
  | UnknownIntent

record router =
  rt_command_prefix :: string

definition router_new :: router where
  "router_new = \<lparr>rt_command_prefix = ''/''\<rparr>"

definition router_with_prefix :: "string \<Rightarrow> router \<Rightarrow> router" where
  "router_with_prefix p r = r\<lparr>rt_command_prefix := p\<rparr>"

definition is_command :: "router \<Rightarrow> string \<Rightarrow> bool" where
  "is_command r content = starts_with (trim content) (rt_command_prefix r)"

definition parse_command :: "router \<Rightarrow> string \<Rightarrow> message_intent" where
  "parse_command r content =
     (let without_prefix = (case strip_prefix content (rt_command_prefix r) of Some s \<Rightarrow> s | None \<Rightarrow> content);
          parts = split_whitespace without_prefix
      in case parts of
           [] \<Rightarrow> UnknownIntent
         | p # args \<Rightarrow>
             (let cmd = to_lowercase p; arg = (case args of [] \<Rightarrow> None | a # _ \<Rightarrow> Some a)
              in if cmd \<in> {''job'', ''create''} then CreateJob (join '' '' args) (join '' '' args) None
                 else if cmd = ''status'' then CheckJobStatus arg
                 else if cmd = ''cancel'' then (case arg of Some j \<Rightarrow> CancelJob j | None \<Rightarrow> UnknownIntent)
                 else if cmd \<in> {''list'', ''jobs''} then ListJobs arg
                 else if cmd = ''help'' then (case arg of Some j \<Rightarrow> HelpJob j | None \<Rightarrow> Command ''help'' [])
                 else Command cmd args))"

definition route_command :: "router \<Rightarrow> string \<Rightarrow> message_intent option" where
  "route_command r message =
     (let content = trim message
      in if starts_with content (rt_command_prefix r) then Some (parse_command r content) else None)"

section \<open>Skills\<close>

definition BUILTIN :: "string list" where
  "BUILTIN =
     [''undo'', ''redo'', ''interrupt'', ''stop'', ''compact'', ''clear'', ''heartbeat'', ''summarize'', ''summary'',
      ''suggest'', ''thread'', ''new'', ''resume'', ''quit'', ''exit'', ''shutdown'', ''help'', ''?'', ''version'',
      ''tools'', ''ping'', ''debug'', ''model'']"

definition is_skill_char :: "char \<Rightarrow> bool" where
  "is_skill_char c =
     (is_ascii_digit c \<or> (65 \<le> (of_char c :: nat) \<and> (of_char c :: nat) \<le> 90) \<or>
      (97 \<le> (of_char c :: nat) \<and> (of_char c :: nat) \<le> 122) \<or> c = CHR ''-'')"

text \<open>\<open>split_once(char::is_whitespace)\<close> with the rest trimmed.\<close>

definition split_skill :: "string \<Rightarrow> string \<times> string option" where
  "split_skill rest =
     (let n = takeWhile (\<lambda>c. \<not> is_whitespace c) rest
      in if n = rest then (rest, None) else (n, Some (trim (drop (length n + 1) rest))))"

definition skill_prompt :: "string \<Rightarrow> string" where
  "skill_prompt content =
     (let ls = (if starts_with content ''#'' then tl (lines content) else lines content)
      in trim (join [newline] (dropWhile (\<lambda>l. trim l = []) ls)))"

definition try_resolve_skill :: "(string \<Rightarrow> string option) option \<Rightarrow> string \<Rightarrow> string option" where
  "try_resolve_skill workspace content =
     (let trimmed = trim content
      in if \<not> starts_with trimmed ''/'' then None
         else
           case workspace of
             None \<Rightarrow> None
           | Some read \<Rightarrow>
               (let (raw, args) = split_skill (drop 1 trimmed);
                    skill_name = to_lowercase raw
                in if skill_name \<in> set BUILTIN then None
                   else if skill_name = [] \<or> \<not> list_all is_skill_char skill_name then None
                   else
                     case read (''skills/'' @ skill_name @ ''.md'') of
                       None \<Rightarrow> None
                     | Some doc \<Rightarrow>
                         Some (case args of
                                 Some extra \<Rightarrow>
                                   if extra \<noteq> [] then skill_prompt doc @ [newline, newline] @ extra else skill_prompt doc
                               | None \<Rightarrow> skill_prompt doc)))"

section \<open>Properties\<close>

text \<open>The path read for a skill stays in the directory of skills: it has no separator and no dot beyond
  the two the format puts there.\<close>

theorem skill_path_confined:
  assumes "try_resolve_skill (Some read) content = Some prompt"
  shows "\<exists>name. name \<noteq> [] \<and> list_all is_skill_char name \<and> name \<notin> set BUILTIN \<and>
     CHR ''/'' \<notin> set name \<and> CHR ''.'' \<notin> set name \<and> read (''skills/'' @ name @ ''.md'') \<noteq> None"
proof -
  let ?name = "to_lowercase (fst (split_skill (drop 1 (trim content))))"
  have *: "?name \<noteq> [] \<and> list_all is_skill_char ?name \<and> ?name \<notin> set BUILTIN \<and> read (''skills/'' @ ?name @ ''.md'') \<noteq> None"
    using assms by (auto simp: try_resolve_skill_def Let_def split: prod.splits if_splits option.splits)
  moreover have "c \<noteq> CHR ''/'' \<and> c \<noteq> CHR ''.''" if "is_skill_char c" for c
    using that by (auto simp: is_skill_char_def is_ascii_digit_def)
  ultimately show ?thesis by (intro exI [of _ ?name]) (auto simp: list_all_iff)
qed

theorem skill_path_confined_witness:
  "\<exists>name. name \<noteq> [] \<and> list_all is_skill_char name \<and> name \<notin> set BUILTIN \<and>
     CHR ''/'' \<notin> set name \<and> CHR ''.'' \<notin> set name \<and>
     (\<lambda>p. if p = ''skills/plan.md'' then Some ''do it'' else None) (''skills/'' @ name @ ''.md'') \<noteq> None"
  by (rule skill_path_confined [of _ "''/plan''" "''do it''"]) code_simp

text \<open>Every input that could name a skill is taken by the router first, which returns an intent for
  whatever begins with the command prefix, so the expansion of skills is never reached.\<close>

theorem skills_unreachable:
  assumes "try_resolve_skill workspace content \<noteq> None"
  shows "route_command router_new content \<noteq> None"
  using assms by (auto simp: try_resolve_skill_def route_command_def router_new_def Let_def split: if_splits)

theorem skills_unreachable_witness:
  "route_command router_new ''/plan the week'' \<noteq> None"
  by (rule skills_unreachable [of "Some (\<lambda>_. Some ''do it'')"]) code_simp

end
