(* ===== verification/Llm_Reasoning.thy ===== *)
theory Llm_Reasoning
  imports Complex_Main Llm_Resilience Tool_Registry
begin

text \<open>
  Reasoning on top of a language model, \<open>src/llm/reasoning.rs\<close>: the requests for a plan, for tool
  calls, for an evaluation and for an answer, and what is made of the model's text before a user sees
  it: tool calls that a model wrote as tags are recovered, internal tags are removed.

  The provider behind the trait \<open>LlmProvider\<close> is the record \<open>llm\<close>; the parsers that \<open>serde\<close> derives
  are arguments. Fractions (\<open>f32\<close>, \<open>f64\<close>) are rational numbers. A panic is \<open>None\<close>; whether the debug
  level of the log is enabled, on which one of them depends, is an argument.
\<close>

section \<open>Requests and answers\<close>

record completion_request =
  rq_messages :: "chat_message list"
  rq_max_tokens :: "u32 option"
  rq_temperature :: "rat option"
  rq_stop_sequences :: "string list option"
  rq_metadata :: "(string, string) hash_map"

definition request_new :: "chat_message list \<Rightarrow> completion_request" where
  "request_new ms =
     \<lparr>rq_messages = ms, rq_max_tokens = None, rq_temperature = None, rq_stop_sequences = None, rq_metadata = []\<rparr>"

record tool_completion_request =
  tq_messages :: "chat_message list"
  tq_tools :: "tool_definition list"
  tq_max_tokens :: "u32 option"
  tq_temperature :: "rat option"
  tq_tool_choice :: "string option"
  tq_metadata :: "(string, string) hash_map"

definition tool_request_new :: "chat_message list \<Rightarrow> tool_definition list \<Rightarrow> tool_completion_request" where
  "tool_request_new ms tools =
     \<lparr>tq_messages = ms, tq_tools = tools, tq_max_tokens = None, tq_temperature = None, tq_tool_choice = None,
      tq_metadata = []\<rparr>"

record tool_completion_response =
  tcr_content :: "string option"
  tcr_tool_calls :: "tool_call list"
  tcr_input_tokens :: u32
  tcr_output_tokens :: u32
  tcr_finish_reason :: finish_reason
  tcr_response_id :: "string option"

record llm =
  llm_model_name :: string
  llm_complete :: "completion_request \<Rightarrow> llm_error + completion_response"
  llm_complete_with_tools :: "tool_completion_request \<Rightarrow> llm_error + tool_completion_response"

record reasoning_context =
  rc_messages :: "chat_message list"
  rc_available_tools :: "tool_definition list"
  rc_job_description :: "string option"
  rc_current_state :: "string option"
  rc_metadata :: "(string, string) hash_map"

definition rc_new :: reasoning_context where
  "rc_new = \<lparr>rc_messages = [], rc_available_tools = [], rc_job_description = None, rc_current_state = None, rc_metadata = []\<rparr>"

definition rc_push :: "chat_message \<Rightarrow> reasoning_context \<Rightarrow> reasoning_context" where
  "rc_push m rc = rc\<lparr>rc_messages := rc_messages rc @ [m]\<rparr>"

record planned_action =
  pa_tool_name :: string
  pa_parameters :: json
  pa_reasoning :: string
  pa_expected_outcome :: string

record action_plan =
  ap_goal :: string
  ap_actions :: "planned_action list"
  ap_estimated_cost :: "rat option"
  ap_estimated_time_secs :: "u64 option"
  ap_confidence :: rat

record tool_selection =
  ts_tool_name :: string
  ts_parameters :: json
  ts_reasoning :: string
  ts_alternatives :: "string list"
  ts_tool_call_id :: string

record token_usage =
  tu_input_tokens :: u32
  tu_output_tokens :: u32

definition tu_total :: "token_usage \<Rightarrow> u32" where
  "tu_total u = tu_input_tokens u + tu_output_tokens u"

datatype respond_result = RText string | RToolCalls "tool_call list" "string option"

record respond_output =
  ro_result :: respond_result
  ro_usage :: token_usage

record success_evaluation =
  sev_success :: bool
  sev_confidence :: rat
  sev_reasoning :: string
  sev_issues :: "string list"
  sev_suggestions :: "string list"

record reasoning =
  rs_llm :: llm
  rs_workspace_system_prompt :: "string option"

definition reasoning_new :: "llm \<Rightarrow> reasoning" where
  "reasoning_new l = \<lparr>rs_llm = l, rs_workspace_system_prompt = None\<rparr>"

definition with_system_prompt :: "string \<Rightarrow> reasoning \<Rightarrow> reasoning" where
  "with_system_prompt prompt r = (if prompt \<noteq> [] then r\<lparr>rs_workspace_system_prompt := Some prompt\<rparr> else r)"

section \<open>Prompts\<close>

definition em_dash :: string where
  "em_dash = map char_of [226, 128, 148 :: nat]"

definition arrow_mark :: string where
  "arrow_mark = map char_of [226, 134, 146 :: nat]"

definition apostrophe :: string where
  "apostrophe = [CHR 0x27]"

definition dquote_mark :: char where
  "dquote_mark = CHR 0x22"

definition PLANNING_HEAD :: string where
  "PLANNING_HEAD = join [newline]
     [''You are a planning assistant for an autonomous agent. Your job is to create detailed, actionable plans.'',
      [],
      ''Available tools:'',
      []]"

definition PLANNING_TAIL :: string where
  "PLANNING_TAIL = join [newline]
     [[],
      [],
      ''When creating a plan:'',
      ''1. Break down the goal into specific, achievable steps'',
      ''2. Select the most appropriate tool for each step'',
      ''3. Consider dependencies between steps'',
      ''4. Estimate costs and time realistically'',
      ''5. Identify potential failure points'',
      [],
      ''Respond with a JSON plan in this format:'',
      ''{'',
      ''    '' @ [dquote_mark] @ ''goal'' @ [dquote_mark] @ '': '' @ [dquote_mark] @ ''Clear statement of the goal'' @ [dquote_mark] @ '','',
      ''    '' @ [dquote_mark] @ ''actions'' @ [dquote_mark] @ '': ['',
      ''        {'',
      ''            '' @ [dquote_mark] @ ''tool_name'' @ [dquote_mark] @ '': '' @ [dquote_mark] @ ''tool_to_use'' @ [dquote_mark] @ '','',
      ''            '' @ [dquote_mark] @ ''parameters'' @ [dquote_mark] @ '': {},'',
      ''            '' @ [dquote_mark] @ ''reasoning'' @ [dquote_mark] @ '': '' @ [dquote_mark] @ ''Why this action'' @ [dquote_mark] @ '','',
      ''            '' @ [dquote_mark] @ ''expected_outcome'' @ [dquote_mark] @ '': '' @ [dquote_mark] @ ''What should happen'' @ [dquote_mark],
      ''        }'',
      ''    ],'',
      ''    '' @ [dquote_mark] @ ''estimated_cost'' @ [dquote_mark] @ '': 0.0,'',
      ''    '' @ [dquote_mark] @ ''estimated_time_secs'' @ [dquote_mark] @ '': 0,'',
      ''    '' @ [dquote_mark] @ ''confidence'' @ [dquote_mark] @ '': 0.0-1.0'',
      ''}'']"

definition EVALUATION_PROMPT :: string where
  "EVALUATION_PROMPT = join [newline]
     [''You are an evaluation assistant. Your job is to determine if a task was completed successfully.'',
      [],
      ''Analyze the task description and the result, then provide:'',
      ''1. Whether the task was successful (true/false)'',
      ''2. A confidence score (0-1)'',
      ''3. Detailed reasoning'',
      ''4. Any issues found'',
      ''5. Suggestions for improvement'',
      [],
      ''Respond in JSON format:'',
      ''{'',
      ''    '' @ [dquote_mark] @ ''success'' @ [dquote_mark] @ '': true/false,'',
      ''    '' @ [dquote_mark] @ ''confidence'' @ [dquote_mark] @ '': 0.0-1.0,'',
      ''    '' @ [dquote_mark] @ ''reasoning'' @ [dquote_mark] @ '': '' @ [dquote_mark] @ ''...'' @ [dquote_mark] @ '','',
      ''    '' @ [dquote_mark] @ ''issues'' @ [dquote_mark] @ '': ['' @ [dquote_mark] @ ''...'' @ [dquote_mark] @ ''],'',
      ''    '' @ [dquote_mark] @ ''suggestions'' @ [dquote_mark] @ '': ['' @ [dquote_mark] @ ''...'' @ [dquote_mark] @ '']'',
      ''}'']"

definition PROMPT_PERSONA :: string where
  "PROMPT_PERSONA = join [newline]
     [''You are RustyTalon, a personal AI assistant. Talk like a knowledgeable friend '' @ em_dash @ '' warm, direct, zero corporate fluff.'',
      []]"

definition PROMPT_TONE :: string where
  "PROMPT_TONE = join [newline]
     [''## Tone'',
      [],
      ''Match the user'' @ apostrophe @ ''s energy. Casual message '' @ arrow_mark @ '' casual reply. Focused question '' @ arrow_mark @ '' focused answer. Never demand structured input or ask someone to restate their request in a specific format. If you need clarification, ask one short question.'',
      [],
      ''Never say: '' @ [dquote_mark] @ ''Great question!'' @ [dquote_mark] @ '', '' @ [dquote_mark] @ ''Certainly!'' @ [dquote_mark] @ '', '' @ [dquote_mark] @ ''I appreciate your enthusiasm'' @ [dquote_mark] @ '', '' @ [dquote_mark] @ ''I'' @ apostrophe @ ''d be happy to help'' @ [dquote_mark] @ '', '' @ [dquote_mark] @ ''I don'' @ apostrophe @ ''t have a task yet'' @ [dquote_mark] @ '', '' @ [dquote_mark] @ ''you haven'' @ apostrophe @ ''t told me what you want me to do'' @ [dquote_mark] @ ''.'',
      []]"

definition PROMPT_WHAT_CAN_YOU_DO :: string where
  "PROMPT_WHAT_CAN_YOU_DO = join [newline]
     [''## Responding to '' @ [dquote_mark] @ ''what can you do?'' @ [dquote_mark] @ '' / '' @ [dquote_mark] @ ''how can you help?'' @ [dquote_mark],
      [],
      ''Answer like you'' @ apostrophe @ ''re catching up with a friend, not reading a product brochure. Keep it short and invite them in. For example:'',
      [],
      ''User: '' @ [dquote_mark] @ ''Hey, what can you help me with?'' @ [dquote_mark],
      ''You: '' @ [dquote_mark] @ ''Pretty much whatever you throw at me '' @ em_dash @ '' automating stuff, writing scripts, managing files, setting up schedules, searching through notes, fetching data from the web. What are you trying to get done?'' @ [dquote_mark],
      [],
      ''User: '' @ [dquote_mark] @ ''What are you good at?'' @ [dquote_mark],
      ''You: '' @ [dquote_mark] @ ''Honestly, a bit of everything. I can run jobs in the background, remember things between conversations, build new tools if I'' @ apostrophe @ ''m missing something, and hook into Telegram or Slack if you want. What'' @ apostrophe @ ''s on your mind?'' @ [dquote_mark],
      [],
      ''Never respond to these with '' @ [dquote_mark] @ ''I don'' @ apostrophe @ ''t have a task'' @ [dquote_mark] @ '' or any variant of that.'',
      []]"

definition PROMPT_CAPABILITIES :: string where
  "PROMPT_CAPABILITIES = join [newline]
     [''## Capabilities (draw on these naturally, don'' @ apostrophe @ ''t recite them as a list)'',
      [],
      ''Run jobs in parallel with automatic recovery. Persistent memory across sessions. Read/write files, shell commands, URL fetching. Scheduled and event-driven automations. Build new tools on the fly (WASM/MCP). Reachable from browser, terminal, Telegram, Slack, webhooks. Sandboxed Docker execution for risky work.'',
      []]"

definition PROMPT_THINKING :: string where
  "PROMPT_THINKING = join [newline]
     [''## Thinking'',
      [],
      ''Use <thinking> tags for internal reasoning '' @ em_dash @ '' only content outside them reaches the user.'',
      [],
      ''<thinking>'',
      ''reasoning...'',
      ''</thinking>'',
      ''Response to user.'',
      []]"

definition PROMPT_GUIDELINES :: string where
  "PROMPT_GUIDELINES = join [newline]
     [''## Guidelines'',
      ''- Be concise '' @ em_dash @ '' don'' @ apostrophe @ ''t pad'',
      ''- Markdown where it genuinely helps'',
      ''- Language-tagged code blocks for code'',
      ''- Call tools when useful'']"

definition PROMPT_END :: string where
  "PROMPT_END = join [newline]
     [[],
      [],
      ''The user sees ONLY content outside <thinking> tags.'']"

definition build_planning_prompt :: "reasoning_context \<Rightarrow> string" where
  "build_planning_prompt rc =
     (let tools_desc =
            (if rc_available_tools rc = [] then ''No tools available.''
             else join [newline] (map (\<lambda>t. ''- '' @ td_name t @ '': '' @ td_description t) (rc_available_tools rc)))
      in PLANNING_HEAD @ tools_desc @ PLANNING_TAIL)"

definition tools_section :: "tool_definition list \<Rightarrow> string" where
  "tools_section tools =
     (if tools = [] then []
      else
        [newline, newline] @ ''## Available Tools'' @ [newline] @ ''You have access to these tools:'' @ [newline] @
        join [newline] (map (\<lambda>t. ''  - '' @ td_name t @ '': '' @ td_description t) tools) @
        [newline, newline] @ ''Call tools when they would help accomplish the task.'')"

definition build_conversation_prompt :: "reasoning \<Rightarrow> reasoning_context \<Rightarrow> string" where
  "build_conversation_prompt r rc =
     (let identity_section =
            (case rs_workspace_system_prompt r of
               Some identity \<Rightarrow> [newline, newline] @ ''---'' @ [newline, newline] @ identity
             | None \<Rightarrow> [])
      in join [newline]
           [PROMPT_PERSONA, PROMPT_TONE, PROMPT_WHAT_CAN_YOU_DO, PROMPT_CAPABILITIES, PROMPT_THINKING, PROMPT_GUIDELINES] @
         tools_section (rc_available_tools rc) @ PROMPT_END @ identity_section)"

section \<open>Text of the model\<close>

definition extract_json :: "string \<Rightarrow> string option" where
  "extract_json text =
     (case (find_str text ''{'', rfind_str text ''}'') of
        (Some s, Some e) \<Rightarrow> if s < e then Some (take (e + 1 - s) (drop s text)) else None
      | _ \<Rightarrow> None)"

subsection \<open>Tool calls written as text\<close>

definition recover_tags :: "(string \<times> string) list" where
  "recover_tags =
     [(''<tool_call>'', ''</tool_call>''), (''<|tool_call|>'', ''<|/tool_call|>''),
      (''<function_call>'', ''</function_call>''), (''<|function_call|>'', ''<|/function_call|>'')]"

text \<open>The call behind the text between two tags, if it names an available tool; \<open>n\<close> is the number of
  calls found before.\<close>

definition recover_call :: "(string \<Rightarrow> json option) \<Rightarrow> string list \<Rightarrow> nat \<Rightarrow> string \<Rightarrow> tool_call option" where
  "recover_call of_text names n inner =
     (if inner = [] then None
      else
        case (case of_text inner of
                Some parsed \<Rightarrow>
                  (case json_get_str parsed ''name'' of
                     Some name \<Rightarrow> if name \<in> set names then Some (parsed, name) else None
                   | None \<Rightarrow> None)
              | None \<Rightarrow> None) of
          Some (parsed, name) \<Rightarrow>
            Some \<lparr>tc_id = ''recovered_'' @ show_nat n, tc_name = name,
                  tc_arguments = (case json_get parsed ''arguments'' of Some a \<Rightarrow> a | None \<Rightarrow> JObject [])\<rparr>
        | None \<Rightarrow>
            (let name = trim inner
             in if name \<in> set names
                then Some \<lparr>tc_id = ''recovered_'' @ show_nat n, tc_name = name, tc_arguments = JObject []\<rparr>
                else None))"

lemma find_str_nonempty: "find_str s p = Some i \<Longrightarrow> p \<noteq> [] \<Longrightarrow> 0 < length s"
  by (auto dest!: find_str_Some)

text \<open>The loop for one pair of tags. No tag is empty; the test for it only makes the recursion end.\<close>

function recover_loop ::
  "(string \<Rightarrow> json option) \<Rightarrow> string list \<Rightarrow> string \<Rightarrow> string \<Rightarrow> string \<Rightarrow> tool_call list \<Rightarrow> tool_call list" where
  "recover_loop of_text names open_tag close_tag remaining calls =
     (case find_str remaining open_tag of
        None \<Rightarrow> calls
      | Some start \<Rightarrow>
          (let after = drop (start + length open_tag) remaining
           in case find_str after close_tag of
                None \<Rightarrow> calls
              | Some end_at \<Rightarrow>
                  if open_tag = [] then calls
                  else
                    recover_loop of_text names open_tag close_tag (drop (end_at + length close_tag) after)
                      (case recover_call of_text names (length calls) (trim (take end_at after)) of
                         Some c \<Rightarrow> calls @ [c] | None \<Rightarrow> calls)))"
  by pat_completeness auto
termination
  by (relation "measure (\<lambda>(_, _, _, _, remaining, _). length remaining)")
    (auto dest: find_str_Some find_str_nonempty)

declare recover_loop.simps [simp del]

definition recover_tool_calls_from_content ::
  "(string \<Rightarrow> json option) \<Rightarrow> string \<Rightarrow> tool_definition list \<Rightarrow> tool_call list" where
  "recover_tool_calls_from_content of_text content tools =
     fold (\<lambda>(open_tag, close_tag). recover_loop of_text (map td_name tools) open_tag close_tag content)
       recover_tags []"

subsection \<open>Removing tags\<close>

definition INTERNAL_TAGS :: "string list" where
  "INTERNAL_TAGS = [''thinking'', ''tool_call'', ''function_call'', ''tool_calls'']"

text \<open>The first of two positions.\<close>

fun first_pos :: "nat option \<Rightarrow> nat option \<Rightarrow> nat option" where
  "first_pos (Some a) (Some b) = Some (min a b)"
| "first_pos (Some a) None = Some a"
| "first_pos None (Some b) = Some b"
| "first_pos None None = None"

text \<open>The loop of \<open>strip_xml_tag\<close> from \<open>remaining\<close>: what it appends to the result. When an opening tag
  has no end the loop breaks, and \<open>remaining\<close>, from its start, follows what was appended before.\<close>

function strip_xml_loop :: "string \<Rightarrow> string \<Rightarrow> string" where
  "strip_xml_loop tag remaining =
     (case first_pos (find_str remaining (''<'' @ tag @ ''>'')) (find_str remaining (''<'' @ tag @ '' '')) of
        None \<Rightarrow> remaining
      | Some start \<Rightarrow>
          take start remaining @
          (case find_str (drop start remaining) ''>'' of
             None \<Rightarrow> remaining
           | Some pos \<Rightarrow>
               (let open_end = start + pos + 1;
                    close = ''</'' @ tag @ ''>''
                in case find_str (drop open_end remaining) close of
                     None \<Rightarrow> []
                   | Some close_offset \<Rightarrow>
                       strip_xml_loop tag (drop (open_end + close_offset + length close) remaining))))"
  by pat_completeness auto
termination
  by (relation "measure (\<lambda>(_, remaining). length remaining)") (auto dest: find_str_Some)

declare strip_xml_loop.simps [simp del]

definition strip_xml_tag :: "string \<Rightarrow> string \<Rightarrow> string" where
  "strip_xml_tag text tag = strip_xml_loop tag text"

function strip_pipe_loop :: "string \<Rightarrow> string \<Rightarrow> string" where
  "strip_pipe_loop tag remaining =
     (case find_str remaining (''<|'' @ tag @ ''|>'') of
        None \<Rightarrow> remaining
      | Some start \<Rightarrow>
          take start remaining @
          (let close = ''<|/'' @ tag @ ''|>''
           in case find_str (drop start remaining) close of
                None \<Rightarrow> []
              | Some close_offset \<Rightarrow>
                  strip_pipe_loop tag (drop (start + close_offset + length close) remaining)))"
  by pat_completeness auto
termination
  by (relation "measure (\<lambda>(_, remaining). length remaining)") (auto dest: find_str_Some)

declare strip_pipe_loop.simps [simp del]

definition strip_pipe_tag :: "string \<Rightarrow> string \<Rightarrow> string" where
  "strip_pipe_tag text tag = strip_pipe_loop tag text"

definition three_newlines :: string where "three_newlines = [newline, newline, newline]"

lemma replace_str_shorter:
  "length q < length p \<Longrightarrow>
     length (replace_str p q s) \<le> length s \<and> (contains s p \<longrightarrow> length (replace_str p q s) < length s)"
proof (induction p q s rule: replace_str.induct)
  case (1 p q s)
  consider "s = []" | "s \<noteq> []" "starts_with s p" | "s \<noteq> []" "\<not> starts_with s p" by blast
  then show ?case
  proof cases
    case 1
    with \<open>length q < length p\<close> show ?thesis by (subst replace_str.simps) (auto simp: contains_def)
  next
    case 2
    moreover have "p \<noteq> []" using \<open>length q < length p\<close> by auto
    ultimately have "length (replace_str p q (drop (length p) s)) \<le> length (drop (length p) s)"
      using "1.IH"(1) "1.prems" by blast
    moreover have "length p \<le> length s" using 2(2) by (rule starts_with_length)
    ultimately show ?thesis
      using 2 \<open>p \<noteq> []\<close> "1.prems" by (subst replace_str.simps, subst replace_str.simps) auto
  next
    case 3
    moreover have "p \<noteq> []" using \<open>length q < length p\<close> by auto
    ultimately have "length (replace_str p q (tl s)) \<le> length (tl s) \<and>
        (contains (tl s) p \<longrightarrow> length (replace_str p q (tl s)) < length (tl s))"
      using "1.IH"(2) "1.prems" by blast
    moreover obtain c t where "s = c # t" using 3(1) by (cases s) auto
    moreover have "replace_str p q s = hd s # replace_str p q (tl s)"
      using 3 \<open>p \<noteq> []\<close> by (subst replace_str.simps) simp
    ultimately show ?thesis using 3(2) by (auto simp: contains_Cons_iff)
  qed
qed

function collapse_newlines :: "string \<Rightarrow> string" where
  "collapse_newlines s =
     (if contains s three_newlines
      then collapse_newlines (replace_str three_newlines [newline, newline] s)
      else s)"
  by pat_completeness auto
termination
  by (relation "measure length") (auto simp: three_newlines_def replace_str_shorter)

declare collapse_newlines.simps [simp del]

definition strip_internal_tags :: "string \<Rightarrow> string" where
  "strip_internal_tags text =
     trim (collapse_newlines (fold (\<lambda>tag s. strip_pipe_tag (strip_xml_tag s tag) tag) INTERNAL_TAGS text))"

text \<open>Whether an answer starts here: Markdown, or a usual opening.\<close>

definition markdown_start :: "string \<Rightarrow> bool" where
  "markdown_start s = (s \<noteq> [] \<and> hd s \<in> set ''#`*-'')"

definition answer_start :: "string \<Rightarrow> bool" where
  "answer_start s \<longleftrightarrow>
     markdown_start s \<or> starts_with (to_lowercase s) ''here'' \<or>
     starts_with (to_lowercase s) (''i'' @ apostrophe @ ''d'') \<or> starts_with (to_lowercase s) ''sure''"

definition strip_reasoning_patterns :: "string \<Rightarrow> string" where
  "strip_reasoning_patterns input =
     (let text = trim input
      in if text = [] then text
         else if markdown_start text then text
         else
           case find_str text [newline, newline] of
             Some idx \<Rightarrow>
               (let after_break = trim (drop (idx + 2) text)
                in if after_break \<noteq> [] \<and> answer_start after_break then after_break else text)
           | None \<Rightarrow> text)"

text \<open>The preview in the log message is a slice of at most 200 bytes.\<close>

definition clean_response :: "bool \<Rightarrow> string \<Rightarrow> string option" where
  "clean_response debug text =
     (let stripped = strip_internal_tags text;
          result = strip_reasoning_patterns stripped
      in if result = [] \<and> text \<noteq> [] \<and> debug \<and> \<not> is_char_boundary text (min (length text) 200)
         then None
         else Some result)"

section \<open>Calling the model\<close>

definition invalid_response :: "llm \<Rightarrow> string \<Rightarrow> string \<Rightarrow> llm_error" where
  "invalid_response l what e = InvalidResponse (llm_model_name l) (''Failed to parse '' @ what @ '': '' @ e)"

definition parse_plan :: "(string \<Rightarrow> string + action_plan) \<Rightarrow> llm \<Rightarrow> string \<Rightarrow> llm_error + action_plan" where
  "parse_plan of_text l content =
     (case of_text (case extract_json content of Some j \<Rightarrow> j | None \<Rightarrow> content) of
        Inl e \<Rightarrow> Err (invalid_response l ''plan'' e) | Inr p \<Rightarrow> Ok p)"

definition parse_evaluation ::
  "(string \<Rightarrow> string + success_evaluation) \<Rightarrow> llm \<Rightarrow> string \<Rightarrow> llm_error + success_evaluation" where
  "parse_evaluation of_text l content =
     (case of_text (case extract_json content of Some j \<Rightarrow> j | None \<Rightarrow> content) of
        Inl e \<Rightarrow> Err (invalid_response l ''evaluation'' e) | Inr v \<Rightarrow> Ok v)"

definition plan :: "(string \<Rightarrow> string + action_plan) \<Rightarrow> reasoning \<Rightarrow> reasoning_context \<Rightarrow> llm_error + action_plan" where
  "plan of_text r rc =
     (let messages = cm_system (build_planning_prompt rc) # rc_messages rc @
            (case rc_job_description rc of
               Some job \<Rightarrow> [cm_user (''Please create a plan to complete this job:'' @ [newline, newline] @ job)]
             | None \<Rightarrow> [])
      in case llm_complete (rs_llm r) ((request_new messages)\<lparr>rq_max_tokens := Some 2048, rq_temperature := Some (3 / 10)\<rparr>) of
           Inl e \<Rightarrow> Err e
         | Inr response \<Rightarrow> parse_plan of_text (rs_llm r) (rsp_content response))"

definition selection_of :: "string \<Rightarrow> tool_call \<Rightarrow> tool_selection" where
  "selection_of thought tc =
     \<lparr>ts_tool_name = tc_name tc, ts_parameters = tc_arguments tc, ts_reasoning = thought, ts_alternatives = [],
      ts_tool_call_id = tc_id tc\<rparr>"

definition select_tools :: "reasoning \<Rightarrow> reasoning_context \<Rightarrow> llm_error + tool_selection list" where
  "select_tools r rc =
     (if rc_available_tools rc = [] then Ok []
      else
        case llm_complete_with_tools (rs_llm r)
               ((tool_request_new (rc_messages rc) (rc_available_tools rc))
                  \<lparr>tq_max_tokens := Some 1024, tq_tool_choice := Some ''auto'', tq_metadata := rc_metadata rc\<rparr>) of
          Inl e \<Rightarrow> Err e
        | Inr response \<Rightarrow>
            Ok (map (selection_of (case tcr_content response of Some c \<Rightarrow> c | None \<Rightarrow> [])) (tcr_tool_calls response)))"

definition select_tool :: "reasoning \<Rightarrow> reasoning_context \<Rightarrow> llm_error + tool_selection option" where
  "select_tool r rc =
     (case select_tools r rc of
        Inl e \<Rightarrow> Err e
      | Inr tools \<Rightarrow> Ok (case tools of [] \<Rightarrow> None | t # _ \<Rightarrow> Some t))"

definition evaluate_success ::
  "(string \<Rightarrow> string + success_evaluation) \<Rightarrow> reasoning \<Rightarrow> reasoning_context \<Rightarrow> string \<Rightarrow> llm_error + success_evaluation" where
  "evaluate_success of_text r rc result =
     (let question =
            (case rc_job_description rc of
               Some job \<Rightarrow> ''Task description:'' @ [newline] @ job @ [newline, newline] @ ''Result:'' @ [newline] @ result
             | None \<Rightarrow> ''Result to evaluate:'' @ [newline] @ result);
          messages = [cm_system EVALUATION_PROMPT, cm_user question]
      in case llm_complete (rs_llm r) ((request_new messages)\<lparr>rq_max_tokens := Some 1024, rq_temperature := Some (1 / 10)\<rparr>) of
           Inl e \<Rightarrow> Err e
         | Inr response \<Rightarrow> parse_evaluation of_text (rs_llm r) (rsp_content response))"

definition NO_ANSWER :: string where
  "NO_ANSWER = ''I'' @ apostrophe @ ''m not sure how to respond to that.''"

definition respond_with_tools ::
  "bool \<Rightarrow> (string \<Rightarrow> json option) \<Rightarrow> reasoning \<Rightarrow> reasoning_context \<Rightarrow> (llm_error + respond_output) option" where
  "respond_with_tools debug of_text r rc =
     (let messages = cm_system (build_conversation_prompt r rc) # rc_messages rc
      in if rc_available_tools rc \<noteq> []
         then
           (case llm_complete_with_tools (rs_llm r)
                   ((tool_request_new messages (rc_available_tools rc))
                      \<lparr>tq_max_tokens := Some 4096, tq_temperature := Some (7 / 10), tq_tool_choice := Some ''auto'',
                       tq_metadata := rc_metadata rc\<rparr>) of
              Inl e \<Rightarrow> Some (Err e)
            | Inr response \<Rightarrow>
                (let usage = \<lparr>tu_input_tokens = tcr_input_tokens response, tu_output_tokens = tcr_output_tokens response\<rparr>
                 in if tcr_tool_calls response \<noteq> []
                    then Some (Ok \<lparr>ro_result = RToolCalls (tcr_tool_calls response) (tcr_content response), ro_usage = usage\<rparr>)
                    else
                      (let content = (case tcr_content response of Some c \<Rightarrow> c | None \<Rightarrow> NO_ANSWER);
                           recovered = recover_tool_calls_from_content of_text content (rc_available_tools rc)
                       in map_option
                            (\<lambda>cleaned.
                               Ok \<lparr>ro_result =
                                     (if recovered \<noteq> []
                                      then RToolCalls recovered (if cleaned = [] then None else Some cleaned)
                                      else RText cleaned),
                                   ro_usage = usage\<rparr>)
                            (clean_response debug content))))
         else
           (case llm_complete (rs_llm r)
                   ((request_new messages)\<lparr>rq_max_tokens := Some 4096, rq_temperature := Some (7 / 10),
                                          rq_metadata := rc_metadata rc\<rparr>) of
              Inl e \<Rightarrow> Some (Err e)
            | Inr response \<Rightarrow>
                map_option
                  (\<lambda>cleaned. Ok \<lparr>ro_result = RText cleaned,
                                 ro_usage = \<lparr>tu_input_tokens = rsp_input_tokens response,
                                             tu_output_tokens = rsp_output_tokens response\<rparr>\<rparr>)
                  (clean_response debug (rsp_content response))))"

definition respond ::
  "bool \<Rightarrow> (string \<Rightarrow> json option) \<Rightarrow> (json \<Rightarrow> string) \<Rightarrow> reasoning \<Rightarrow> reasoning_context \<Rightarrow> (llm_error + string) option" where
  "respond debug of_text show_json r rc =
     map_option
       (\<lambda>answer.
          case answer of
            Inl e \<Rightarrow> Err e
          | Inr out \<Rightarrow>
              (case ro_result out of
                 RText text \<Rightarrow> Ok text
               | RToolCalls calls _ \<Rightarrow>
                   Ok (''[Calling tools: '' @
                       join '', '' (map (\<lambda>tc. ''`'' @ tc_name tc @ ''('' @ show_json (tc_arguments tc) @ '')`'') calls) @ '']'')))
       (respond_with_tools debug of_text r rc)"

section \<open>Lemmas\<close>

text \<open>A pattern whose first character does not recur in it is found where it was put, after a text
  that does not contain it.\<close>

lemma starts_with_overlap:
  assumes "x \<notin> set q" and "\<not> starts_with a (x # q)" and "a \<noteq> []"
  shows "\<not> starts_with (a @ (x # t)) (x # q)"
proof (cases "length q < length a")
  case True
  have "starts_with (a @ x # t) (x # q) \<longleftrightarrow> take (length (x # q)) (a @ x # t) = x # q"
    by (simp only: starts_with_def)
  moreover have "take (length (x # q)) (a @ x # t) = take (length (x # q)) a" using True by simp
  ultimately show ?thesis using assms(2) unfolding starts_with_def by metis
next
  case False
  show ?thesis
  proof
    assume "starts_with (a @ x # t) (x # q)"
    then obtain v where v: "a @ x # t = (x # q) @ v" by (auto simp: starts_with_iff)
    from False \<open>a \<noteq> []\<close> obtain n where n: "length a = Suc n" "n < length q" by (cases a) auto
    have "(a @ x # t) ! length a = ((x # q) @ v) ! length a" using v by simp
    then have "x = q ! n" using n by (simp add: nth_append)
    with n assms(1) show False by simp
  qed
qed

lemma find_str_put:
  assumes "x \<notin> set q" and "\<not> contains a (x # q)"
  shows "find_str (a @ (x # q) @ t) (x # q) = Some (length a)"
  using assms(2)
proof (induction a)
  case Nil
  show ?case using starts_with_append [of "x # q" t] by simp
next
  case (Cons c a)
  then have "\<not> starts_with (c # a) (x # q)" "\<not> contains a (x # q)" by (simp_all add: contains_Cons_iff)
  moreover from this have "\<not> starts_with ((c # a) @ x # (q @ t)) (x # q)"
    using starts_with_overlap [OF assms(1), of "c # a" "q @ t"] by blast
  ultimately show ?case using Cons.IH by simp
qed

lemma find_str_char: "c \<notin> set a \<Longrightarrow> find_str (a @ c # t) [c] = Some (length a)"
  using find_str_put [of c "[]" a t] by (simp add: contains_char_iff)

lemma find_str_absent: "x \<notin> set s \<Longrightarrow> find_str s (x # q) = None"
proof -
  assume "x \<notin> set s"
  then have "\<not> contains s (x # q)" by (auto simp: contains_iff)
  then show ?thesis by (simp add: contains_def)
qed

text \<open>Two patterns that begin with the same character: the second does not occur before the first.\<close>

lemma find_str_later:
  assumes "x \<notin> set q" "\<not> contains a (x # q)" and "find_str (a @ x # t) (x # q) = Some i"
  shows "length a \<le> i"
proof (rule ccontr)
  assume "\<not> length a \<le> i"
  then have i: "i < length a" by simp
  have "starts_with (drop i a @ x # t) (x # q)" using find_str_Some [OF assms(3)] i by simp
  moreover have "\<not> starts_with (drop i a) (x # q)"
  proof
    assume "starts_with (drop i a) (x # q)"
    then obtain v where "drop i a = (x # q) @ v" by (auto simp: starts_with_iff)
    then have "a = take i a @ (x # q) @ v" by (metis append_take_drop_id)
    with assms(2) show False by (metis contains_iff)
  qed
  ultimately show False using starts_with_overlap [OF assms(1)] i by fastforce
qed

subsection \<open>Tags\<close>

definition tag_free :: "string \<Rightarrow> string \<Rightarrow> bool" where
  "tag_free tag s \<longleftrightarrow> \<not> contains s (''<'' @ tag @ ''>'') \<and> \<not> contains s (''<'' @ tag @ '' '')"

definition plain_tag :: "string \<Rightarrow> bool" where
  "plain_tag tag \<longleftrightarrow> set tag \<inter> set ''<>'' = {}"

lemma open_found:
  assumes "plain_tag tag" "tag_free tag a" "attrs = [] \<or> (\<exists>as. attrs = CHR '' '' # as)"
  shows "first_pos (find_str (a @ ''<'' @ tag @ attrs @ ''>'' @ t) (''<'' @ tag @ ''>''))
           (find_str (a @ ''<'' @ tag @ attrs @ ''>'' @ t) (''<'' @ tag @ '' '')) = Some (length a)"
proof -
  let ?s = "a @ ''<'' @ tag @ attrs @ ''>'' @ t"
  have notin: "CHR ''<'' \<notin> set (tag @ ''>'')" "CHR ''<'' \<notin> set (tag @ '' '')" using assms(1) by (auto simp: plain_tag_def)
  have free: "\<not> contains a (CHR ''<'' # tag @ ''>'')" "\<not> contains a (CHR ''<'' # tag @ '' '')"
    using assms(2) by (simp_all add: tag_free_def)
  have later: "length a \<le> i" if "find_str ?s (''<'' @ tag @ ''>'') = Some i" for i
    using find_str_later [OF notin(1) free(1), of "tag @ attrs @ ''>'' @ t" i] that by simp
  have later': "length a \<le> i" if "find_str ?s (''<'' @ tag @ '' '') = Some i" for i
    using find_str_later [OF notin(2) free(2), of "tag @ attrs @ ''>'' @ t" i] that by simp
  show ?thesis
  proof (cases attrs)
    case Nil
    then have "find_str ?s (''<'' @ tag @ ''>'') = Some (length a)"
      using find_str_put [OF notin(1) free(1), of t] by simp
    then show ?thesis using later' by (cases "find_str ?s (''<'' @ tag @ '' '')") auto
  next
    case (Cons c as)
    then have "attrs = CHR '' '' # as" using assms(3) by auto
    then have "find_str ?s (''<'' @ tag @ '' '') = Some (length a)"
      using find_str_put [OF notin(2) free(2), of "as @ ''>'' @ t"] by simp
    then show ?thesis using later by (cases "find_str ?s (''<'' @ tag @ ''>'')") auto
  qed
qed

text \<open>A well-formed block is removed, and the loop goes on after it.\<close>

lemma strip_xml_block:
  assumes "plain_tag tag" "tag_free tag a" "attrs = [] \<or> (\<exists>as. attrs = CHR '' '' # as)" "CHR ''>'' \<notin> set attrs"
    and "\<not> contains b (''</'' @ tag @ ''>'')"
  shows "strip_xml_loop tag (a @ ''<'' @ tag @ attrs @ ''>'' @ b @ ''</'' @ tag @ ''>'' @ c) = a @ strip_xml_loop tag c"
proof -
  let ?s = "a @ ''<'' @ tag @ attrs @ ''>'' @ b @ ''</'' @ tag @ ''>'' @ c"
  have start: "first_pos (find_str ?s (''<'' @ tag @ ''>'')) (find_str ?s (''<'' @ tag @ '' '')) = Some (length a)"
    by (rule open_found [OF assms(1-3)])
  have gt: "find_str (drop (length a) ?s) ''>'' = Some (length (''<'' @ tag @ attrs))"
    using find_str_char [of "CHR ''>''" "''<'' @ tag @ attrs" "b @ ''</'' @ tag @ ''>'' @ c"] assms(1,4)
    by (auto simp: plain_tag_def)
  have close: "find_str (b @ ''</'' @ tag @ ''>'' @ c) (''</'' @ tag @ ''>'') = Some (length b)"
    using find_str_put [of "CHR ''<''" "''/'' @ tag @ ''>''" b c] assms(1,5) by (auto simp: plain_tag_def)
  have "n = length x \<Longrightarrow> drop n (x @ c) = c" for n and x :: string by simp
  note rest = this [of "2 * length tag + (5 + (length attrs + length b))"
      "''<'' @ tag @ attrs @ ''>'' @ b @ ''</'' @ tag @ ''>''"]
  show ?thesis
    using start gt close rest by (subst strip_xml_loop.simps) simp
qed

lemma strip_xml_unfinished:
  assumes "plain_tag tag" "tag_free tag a" "CHR ''>'' \<notin> set b"
  shows "strip_xml_loop tag (a @ ''<'' @ tag @ '' '' @ b) = a @ a @ ''<'' @ tag @ '' '' @ b"
proof -
  let ?s = "a @ ''<'' @ tag @ '' '' @ b"
  have notin: "CHR ''<'' \<notin> set (tag @ ''>'')" "CHR ''<'' \<notin> set (tag @ '' '')" using assms(1) by (auto simp: plain_tag_def)
  have free: "\<not> contains a (CHR ''<'' # tag @ ''>'')" "\<not> contains a (CHR ''<'' # tag @ '' '')"
    using assms(2) by (simp_all add: tag_free_def)
  have "find_str ?s (''<'' @ tag @ '' '') = Some (length a)" using find_str_put [OF notin(2) free(2), of b] by simp
  moreover have "length a \<le> i" if "find_str ?s (''<'' @ tag @ ''>'') = Some i" for i
    using find_str_later [OF notin(1) free(1), of "tag @ '' '' @ b" i] that by simp
  ultimately have start: "first_pos (find_str ?s (''<'' @ tag @ ''>'')) (find_str ?s (''<'' @ tag @ '' '')) = Some (length a)"
    by (cases "find_str ?s (''<'' @ tag @ ''>'')") auto
  have gt: "find_str (drop (length a) ?s) ''>'' = None"
    using assms by (intro find_str_absent) (auto simp: plain_tag_def)
  show ?thesis using start gt by (subst strip_xml_loop.simps) simp
qed

lemma strip_xml_free: "CHR ''<'' \<notin> set s \<Longrightarrow> strip_xml_loop tag s = s"
  by (subst strip_xml_loop.simps) (simp add: find_str_absent)

lemma strip_pipe_free: "CHR ''<'' \<notin> set s \<Longrightarrow> strip_pipe_loop tag s = s"
  by (subst strip_pipe_loop.simps) (simp add: find_str_absent)

lemma plain_thinking: "plain_tag ''thinking''"
  by (simp add: plain_tag_def)

text \<open>Recovered calls.\<close>

definition known_calls :: "string list \<Rightarrow> tool_call list \<Rightarrow> bool" where
  "known_calls names calls \<longleftrightarrow>
     tc_name ` set calls \<subseteq> set names \<and>
     map tc_id calls = map (\<lambda>n. ''recovered_'' @ show_nat n) [0..<length calls]"

lemma recover_call_known:
  "recover_call of_text names n inner = Some c \<Longrightarrow> tc_name c \<in> set names \<and> tc_id c = ''recovered_'' @ show_nat n"
  by (auto simp: recover_call_def Let_def split: if_splits option.splits)

lemma recover_loop_known:
  "known_calls names calls \<Longrightarrow> known_calls names (recover_loop of_text names open_tag close_tag remaining calls)"
proof (induction of_text names open_tag close_tag remaining calls rule: recover_loop.induct)
  case (1 of_text names open_tag close_tag remaining calls)
  have "known_calls names (calls @ [c])" if "recover_call of_text names (length calls) inner = Some c" for c inner
    using recover_call_known [OF that] "1.prems" by (auto simp: known_calls_def)
  then have step: "known_calls names (case recover_call of_text names (length calls) inner of
      Some c \<Rightarrow> calls @ [c] | None \<Rightarrow> calls)" for inner
    using "1.prems" by (simp split: option.split)
  show ?case
  proof (cases "\<exists>start end_at. find_str remaining open_tag = Some start \<and>
      find_str (drop (start + length open_tag) remaining) close_tag = Some end_at \<and> open_tag \<noteq> []")
    case True
    then obtain start end_at where found: "find_str remaining open_tag = Some start"
      "find_str (drop (start + length open_tag) remaining) close_tag = Some end_at" "open_tag \<noteq> []" by blast
    then show ?thesis
      using "1.IH" [OF found(1) refl found(2,3) step] by (subst recover_loop.simps) (simp add: Let_def)
  next
    case False
    then show ?thesis
      using "1.prems" by (subst recover_loop.simps) (auto simp: Let_def split: option.split)
  qed
qed

lemma recovered_known:
  "known_calls (map td_name tools) (recover_tool_calls_from_content of_text content tools)"
proof -
  have "known_calls names calls \<Longrightarrow>
      known_calls names (fold (\<lambda>(o', c'). recover_loop of_text names o' c' content) tags calls)" for names calls tags
    by (induction tags arbitrary: calls) (auto simp: recover_loop_known)
  moreover have "known_calls (map td_name tools) []" by (simp add: known_calls_def)
  ultimately show ?thesis unfolding recover_tool_calls_from_content_def by blast
qed

section \<open>Theorems\<close>



text \<open>Text without a less-than sign loses nothing but surplus white space to the removal of tags.\<close>

theorem plain_text_kept:
  assumes "CHR ''<'' \<notin> set text" and "\<not> contains text [newline, newline, newline]"
  shows "strip_internal_tags text = trim text"
proof -
  have "fold (\<lambda>tag s. strip_pipe_tag (strip_xml_tag s tag) tag) tags text = text" for tags
    using assms(1) by (induction tags) (simp_all add: strip_xml_tag_def strip_pipe_tag_def strip_xml_free strip_pipe_free)
  then show ?thesis
    using assms(2) by (simp add: strip_internal_tags_def collapse_newlines.simps three_newlines_def)
qed

theorem plain_text_kept_witness: "strip_internal_tags '' ok '' = trim '' ok ''"
  by (rule plain_text_kept) (simp_all add: contains_def newline_def char_of_def)

text \<open>A call that the model wrote as text is taken for a tool call only if it names a tool the model was offered, and the identifiers of such calls number them. Every tool call of a response is of that kind or one the provider returned as such.\<close>

theorem response_calls_known:
  assumes "respond_with_tools debug of_text r rc = Some (Ok out)" and "ro_result out = RToolCalls calls content"
  shows "(\<exists>request response. llm_complete_with_tools (rs_llm r) request = Ok response \<and> calls = tcr_tool_calls response) \<or>
         (tc_name ` set calls \<subseteq> td_name ` set (rc_available_tools rc) \<and>
          map tc_id calls = map (\<lambda>n. ''recovered_'' @ show_nat n) [0..<length calls])"
proof -
  have "(\<exists>request response. llm_complete_with_tools (rs_llm r) request = Ok response \<and> calls = tcr_tool_calls response) \<or>
        (\<exists>c. calls = recover_tool_calls_from_content of_text c (rc_available_tools rc))"
    using assms unfolding respond_with_tools_def Let_def
    by (auto split: if_splits sum.splits) metis+
  then consider "\<exists>request response. llm_complete_with_tools (rs_llm r) request = Ok response \<and> calls = tcr_tool_calls response"
    | c where "calls = recover_tool_calls_from_content of_text c (rc_available_tools rc)" by blast
  then show ?thesis
  proof cases
    case (2 c)
    then show ?thesis
      using recovered_known [of "rc_available_tools rc" of_text c] unfolding known_calls_def by auto
  qed blast
qed

definition example_llm :: "string \<Rightarrow> llm" where
  "example_llm answer =
     \<lparr>llm_model_name = ''m'', llm_complete = \<lambda>_. Err (AuthFailed ''m''),
      llm_complete_with_tools = \<lambda>_. Ok \<lparr>tcr_content = Some answer, tcr_tool_calls = [], tcr_input_tokens = 1,
        tcr_output_tokens = 1, tcr_finish_reason = Stop, tcr_response_id = None\<rparr>\<rparr>"

definition example_rc :: reasoning_context where
  "example_rc = rc_new\<lparr>rc_available_tools := [\<lparr>td_name = ''time'', td_description = ''Clock'', td_parameters = JNull\<rparr>]\<rparr>"

definition example_calls :: "tool_call list" where
  "example_calls = [\<lparr>tc_id = ''recovered_0'', tc_name = ''time'', tc_arguments = JObject []\<rparr>]"

lemma example_respond:
  "respond_with_tools False (\<lambda>_. None) (reasoning_new (example_llm ''<tool_call>time</tool_call>'')) example_rc =
     Some (Ok \<lparr>ro_result = RToolCalls example_calls None, ro_usage = \<lparr>tu_input_tokens = 1, tu_output_tokens = 1\<rparr>\<rparr>)"
  by code_simp

theorem response_calls_known_witness:
  "(\<exists>request response. llm_complete_with_tools (rs_llm (reasoning_new (example_llm ''<tool_call>time</tool_call>''))) request =
                         Ok response \<and> example_calls = tcr_tool_calls response) \<or>
   (tc_name ` set example_calls \<subseteq> td_name ` set (rc_available_tools example_rc) \<and>
    map tc_id example_calls = map (\<lambda>n. ''recovered_'' @ show_nat n) [0..<length example_calls])"
  by (rule response_calls_known [OF example_respond]) simp

text \<open>An opening tag that is never finished does not hide what follows it; it repeats the text before it.\<close>

theorem unfinished_tag_repeats:
  assumes "tag_free ''thinking'' before" and "CHR ''>'' \<notin> set thought"
  shows "strip_xml_tag (before @ ''<thinking '' @ thought) ''thinking'' = before @ before @ ''<thinking '' @ thought"
  using strip_xml_unfinished [OF plain_thinking assms] by (simp add: strip_xml_tag_def)

theorem unfinished_tag_repeats_witness:
  "strip_xml_tag (''Hi '' @ ''<thinking '' @ ''hard'') ''thinking'' = ''Hi '' @ ''Hi '' @ ''<thinking '' @ ''hard''"
  by (rule unfinished_tag_repeats) (simp_all add: tag_free_def contains_def)

text \<open>The removal of one block can put another one together, which reaches the user.\<close>

theorem removal_builds_tag:
  "strip_internal_tags ''<thin<thinking></thinking>king>secret</thinking>'' = ''<thinking>secret</thinking>''"
  by code_simp

text \<open>With debug logging, a response of which nothing is left panics when byte 200 is inside a character.\<close>

theorem debug_preview_panics:
  "clean_response True (''<thinking >'' @ concat (replicate 100 (map char_of [195, 169 :: nat]))) = None"
  by code_simp

end
