(* ===== verification/Agent_Turn.thy ===== *)
theory Agent_Turn
  imports Session_Model Undo Submission Context_Manager Safety_Layer Context_Compaction Tool_Registry Shell_Tool
    Message_Router Llm_Reasoning
begin

text \<open>
  A turn of a conversation, \<open>src/agent/agent_loop.rs\<close>: the user's input, the loop that calls the
  language model and executes the tools it asks for, the approval of a tool, the token of an
  extension, and the compaction command.

  A turn holds the lock of its session only for moments. Whatever other tasks do to the session and
  to its undo history in between is \<open>ae_between\<close>, applied whenever the turn takes the lock; nothing is assumed about it
  unless a theorem says so. The world counts the steps of the turn, so that the answers of the model,
  of the tools, of the clock and of the registry may differ at every step. It also keeps what the turn
  did outside the session: the tools it executed, the contexts it sent to the model, and the messages
  it stored. Status messages to the channel and audit events are output and left out.
\<close>

section \<open>Data\<close>

text \<open>The tool errors of \<open>src/error.rs\<close> that a turn raises, and the errors a turn returns.\<close>

datatype chat_tool_error =
    ToolNotFound string
  | ToolExecutionFailed string string
  | ToolTimeout string duration
  | ToolInvalidParameters string string
  | ToolAuthRequired string

datatype agent_error = ErrLlm llm_error | ErrTool chat_tool_error | ErrJob job_error

datatype loop_result = LoopResponse string | LoopNeedApproval pending_approval

text \<open>The outcome of \<open>Tool::execute\<close> under its time limit.\<close>

datatype tool_outcome = OutTimeout | OutError tool_error | OutOk json

record auth_result =
  ar_status :: string
  ar_instructions :: "string option"

record extension_ops =
  xo_auth :: "string \<Rightarrow> string \<Rightarrow> string + auth_result"
  xo_activate :: "string \<Rightarrow> string + string list"

record agent_env =
  ae_between :: "nat \<Rightarrow> session \<times> undo_manager \<Rightarrow> session \<times> undo_manager"
  ae_now :: "nat \<Rightarrow> time"
  ae_uuid :: "nat \<Rightarrow> uuid"
  ae_tools :: "nat \<Rightarrow> tool_registry"
  ae_system_prompt :: "nat \<Rightarrow> (string + string) option"
  ae_respond :: "nat \<Rightarrow> string option \<Rightarrow> chat_message list \<Rightarrow> tool_definition list \<Rightarrow> llm_error + respond_result"
  ae_execute :: "nat \<Rightarrow> tool \<Rightarrow> json \<Rightarrow> tool_outcome"
  ae_json_parse :: "string \<Rightarrow> json option"
  ae_json_pretty :: "json \<Rightarrow> string + string"
  ae_display :: "agent_error \<Rightarrow> string"
  ae_display_tool_error :: "tool_error \<Rightarrow> string"
  ae_safety :: safety_layer
  ae_is_match :: "string \<Rightarrow> string \<Rightarrow> bool"
  ae_ac :: ac_find
  ae_rx :: rx_find
  ae_response_chain :: "nat \<Rightarrow> string option"
  ae_compaction :: "nat \<Rightarrow> compaction_env"
  ae_monitor :: context_monitor
  ae_skills :: "(string \<Rightarrow> string option) option"
  ae_job_command :: "nat \<Rightarrow> message_intent \<Rightarrow> agent_error + submission_result"
  ae_attachments :: "attachment list"
  ae_format_pct :: "rat \<Rightarrow> string"
  ae_extensions :: "extension_ops option"

record agent_world =
  aw_session :: session
  aw_undo :: undo_manager
  aw_step :: nat
  aw_executed :: "(string \<times> json) list"
  aw_prompts :: "chat_message list list"
  aw_persisted :: "(string \<times> string option) list"

section \<open>Steps\<close>

definition tick :: "agent_world \<Rightarrow> agent_world" where
  "tick w = w\<lparr>aw_step := aw_step w + 1\<rparr>"

text \<open>\<open>session.lock().await\<close>: other tasks have run since the turn last held the lock.\<close>

definition lock :: "agent_env \<Rightarrow> agent_world \<Rightarrow> agent_world" where
  "lock env w =
     (let (s, u) = ae_between env (aw_step w) (aw_session w, aw_undo w)
      in tick (w\<lparr>aw_session := s, aw_undo := u\<rparr>))"

definition thread_of :: "uuid \<Rightarrow> agent_world \<Rightarrow> thread option" where
  "thread_of tid w = hm_get (ses_threads (aw_session w)) tid"

text \<open>\<open>if let Some(thread) = sess.threads.get_mut(&thread_id)\<close>, with an update through it.\<close>

definition with_thread :: "uuid \<Rightarrow> (thread \<Rightarrow> thread) \<Rightarrow> agent_world \<Rightarrow> agent_world" where
  "with_thread tid f w =
     (case thread_of tid w of
        None \<Rightarrow> w
      | Some t \<Rightarrow> w\<lparr>aw_session := (aw_session w)\<lparr>ses_threads := hm_insert tid (f t) (ses_threads (aw_session w))\<rparr>\<rparr>)"

definition with_last_turn :: "(turn \<Rightarrow> turn) \<Rightarrow> thread \<Rightarrow> thread" where
  "with_last_turn f t = t\<lparr>thr_turns := update_last f (thr_turns t)\<rparr>"

section \<open>Sources\<close>

definition extract_web_search_urls :: "(string \<Rightarrow> json option) \<Rightarrow> string \<Rightarrow> string list" where
  "extract_web_search_urls of_text result_json =
     (case of_text result_json of
        None \<Rightarrow> []
      | Some v \<Rightarrow>
          (case json_get v ''results'' of
             Some (JArray items) \<Rightarrow> List.map_filter (\<lambda>item. json_get_str item ''url'') items
           | _ \<Rightarrow> []))"

definition append_sources :: "string \<Rightarrow> string list \<Rightarrow> string" where
  "append_sources response urls =
     (if urls = [] then response
      else
        (let unique = rev (remdups (rev urls))
         in response @ [newline, newline] @ ''Sources:'' @ [newline] @
            concat (map (\<lambda>(i, u). show_nat (i + 1) @ ''. '' @ u @ [newline]) (enumerate 0 unique))))"

definition tool_sources :: "agent_env \<Rightarrow> string \<Rightarrow> json \<Rightarrow> agent_error + string \<Rightarrow> string list" where
  "tool_sources env name args r =
     (case r of
        Inl _ \<Rightarrow> []
      | Inr result_str \<Rightarrow>
          if name = ''web_search'' then extract_web_search_urls (ae_json_parse env) result_str
          else if name = ''http''
          then (case json_get_str args ''url'' of Some u \<Rightarrow> [u] | None \<Rightarrow> [])
          else [])"

section \<open>Executing a tool\<close>

definition show_errors :: "validation_error list \<Rightarrow> string" where
  "show_errors es = join ''; '' (map (\<lambda>e. ve_field e @ '': '' @ ve_message e) es)"

definition tool_result_of :: "agent_env \<Rightarrow> string \<Rightarrow> duration \<Rightarrow> tool_outcome \<Rightarrow> agent_error + string" where
  "tool_result_of env name d outcome =
     (case outcome of
        OutTimeout \<Rightarrow> Err (ErrTool (ToolTimeout name d))
      | OutError e \<Rightarrow> Err (ErrTool (ToolExecutionFailed name (ae_display_tool_error env e)))
      | OutOk v \<Rightarrow>
          (case ae_json_pretty env v of
             Inl e \<Rightarrow> Err (ErrTool (ToolExecutionFailed name (''Failed to serialize result: '' @ e)))
           | Inr s \<Rightarrow> Ok s))"

definition execute_chat_tool ::
  "agent_env \<Rightarrow> string \<Rightarrow> json \<Rightarrow> agent_world \<Rightarrow> (agent_error + string) \<times> agent_world" where
  "execute_chat_tool env name params w =
     (case tr_get (ae_tools env (aw_step w)) name of
        None \<Rightarrow> (Err (ErrTool (ToolNotFound name)), tick w)
      | Some tool \<Rightarrow>
          (let validation = validate_tool_params (sl_validator (ae_safety env)) params
           in if \<not> vr_is_valid validation
              then (Err (ErrTool (ToolInvalidParameters name
                      (''Invalid tool parameters: '' @ show_errors (vr_errors validation)))), tick w)
              else
                (tool_result_of env name (tool_execution_timeout tool) (ae_execute env (aw_step w) tool params),
                 tick (w\<lparr>aw_executed := aw_executed w @ [(name, params)]\<rparr>))))"

definition detect_auth_awaiting ::
  "(string \<Rightarrow> json option) \<Rightarrow> string \<Rightarrow> agent_error + string \<Rightarrow> (string \<times> string) option" where
  "detect_auth_awaiting of_text tname result =
     (if tname \<noteq> ''tool_auth'' \<and> tname \<noteq> ''tool_activate'' then None
      else
        case result of
          Inl _ \<Rightarrow> None
        | Inr output \<Rightarrow>
            (case of_text output of
               None \<Rightarrow> None
             | Some parsed \<Rightarrow>
                 if json_get parsed ''awaiting_token'' \<noteq> Some (JBool True) then None
                 else
                   (case json_get_str parsed ''name'' of
                      None \<Rightarrow> None
                    | Some name \<Rightarrow>
                        Some (name,
                              (case json_get_str parsed ''instructions'' of
                                 Some i \<Rightarrow> i | None \<Rightarrow> ''Please provide your API token/key.'')))))"

definition record_result :: "agent_env \<Rightarrow> uuid \<Rightarrow> agent_error + string \<Rightarrow> agent_world \<Rightarrow> agent_world" where
  "record_result env tid r w =
     with_thread tid
       (with_last_turn (case r of
                          Inr output \<Rightarrow> record_tool_result (JString output)
                        | Inl e \<Rightarrow> record_tool_error (ae_display env e)))
       (lock env w)"

text \<open>The tool message of the context: the output sanitized and wrapped, or the error.\<close>

definition result_content :: "agent_env \<Rightarrow> string \<Rightarrow> agent_error + string \<Rightarrow> string" where
  "result_content env name r =
     (case r of
        Inr output \<Rightarrow>
          (let sanitized = sanitize_tool_output (ae_is_match env) (ae_ac env) (ae_rx env) (ae_safety env) name output
           in wrap_for_llm name (so_content sanitized) (so_was_modified sanitized))
      | Inl e \<Rightarrow> ''Error: '' @ ae_display env e)"

section \<open>The agentic loop\<close>

definition shell_command :: "agent_env \<Rightarrow> json \<Rightarrow> string option" where
  "shell_command env args =
     or_else (json_get_str args ''command'')
       (case args of
          JString s \<Rightarrow> (case ae_json_parse env s of Some v \<Rightarrow> json_get_str v ''command'' | None \<Rightarrow> None)
        | _ \<Rightarrow> None)"

text \<open>The check before a tool is executed: the tool it must be approved for, if any.\<close>

definition check_approval :: "agent_env \<Rightarrow> tool_call \<Rightarrow> agent_world \<Rightarrow> tool option \<times> agent_world" where
  "check_approval env tc w =
     (case tr_get (ae_tools env (aw_step w)) (tc_name tc) of
        Some tool \<Rightarrow>
          if \<not> tool_requires_approval tool then (None, tick w)
          else
            (let w1 = lock env (tick w);
                 auto_approved = is_tool_auto_approved (tc_name tc) (aw_session w1);
                 explicit = (tc_name tc = ''shell'' \<and>
                             (case shell_command env (tc_arguments tc) of
                                Some cmd \<Rightarrow> requires_explicit_approval cmd | None \<Rightarrow> False))
             in if auto_approved \<and> \<not> explicit then (None, w1) else (Some tool, w1))
      | None \<Rightarrow> (None, tick w))"

text \<open>The calls of one response: the early result, if any, and the context, sources and world after.\<close>

fun run_tools ::
  "agent_env \<Rightarrow> uuid \<Rightarrow> tool_call list \<Rightarrow> chat_message list \<Rightarrow> string list \<Rightarrow> agent_world \<Rightarrow>
   loop_result option \<times> chat_message list \<times> string list \<times> agent_world" where
  "run_tools env tid [] ctx urls w = (None, ctx, urls, w)"
| "run_tools env tid (tc # tcs) ctx urls w =
     (let (gate, w1) = check_approval env tc w
      in case gate of
           Some tool \<Rightarrow>
             (Some (LoopNeedApproval
                \<lparr>pap_request_id = ae_uuid env (aw_step w1), pap_tool_name = tc_name tc,
                 pap_parameters = tc_arguments tc, pap_description = tool_description tool,
                 pap_tool_call_id = tc_id tc, pap_context_messages = ctx\<rparr>), ctx, urls, tick w1)
         | None \<Rightarrow>
             (let (r, w2) = execute_chat_tool env (tc_name tc) (tc_arguments tc) w1;
                  urls' = urls @ tool_sources env (tc_name tc) (tc_arguments tc) r;
                  w3 = record_result env tid r w2
              in case detect_auth_awaiting (ae_json_parse env) (tc_name tc) r of
                   Some (ext_name, instructions) \<Rightarrow>
                     (let w4 = lock env w3
                      in (Some (LoopResponse instructions), ctx, urls',
                          with_thread tid (enter_auth_mode (ae_now env (aw_step w4)) ext_name) w4))
                 | None \<Rightarrow>
                     run_tools env tid tcs
                       (ctx @ [cm_tool_result (tc_id tc) (tc_name tc) (result_content env (tc_name tc) r)]) urls' w3))"

definition MAX_TOOL_ITERATIONS :: nat where
  "MAX_TOOL_ITERATIONS = 10"

definition record_calls :: "agent_env \<Rightarrow> uuid \<Rightarrow> tool_call list \<Rightarrow> agent_world \<Rightarrow> agent_world" where
  "record_calls env tid tcs w =
     with_thread tid
       (with_last_turn (\<lambda>u. foldl (\<lambda>u tc. record_tool_call (tc_name tc) (tc_arguments tc) u) u tcs)) (lock env w)"

text \<open>The loop, with the number of iterations begun before.\<close>

function agentic_loop ::
  "agent_env \<Rightarrow> uuid \<Rightarrow> string option \<Rightarrow> nat \<Rightarrow> chat_message list \<Rightarrow> string list \<Rightarrow> agent_world \<Rightarrow>
   (agent_error + loop_result) \<times> agent_world" where
  "agentic_loop env tid prompt iteration ctx urls w =
     (let iteration' = iteration + 1
      in if MAX_TOOL_ITERATIONS < iteration'
         then (Err (ErrLlm (InvalidResponse ''agent''
                 (''Exceeded maximum tool iterations ('' @ show_nat MAX_TOOL_ITERATIONS @ '')''))), w)
         else
           (let w1 = lock env w
            in if (case thread_of tid w1 of Some t \<Rightarrow> thr_state t = TInterrupted | None \<Rightarrow> False)
               then (Err (ErrJob (JobContextError tid ''Interrupted'')), w1)
               else
                 (let tool_defs = tool_definitions (ae_tools env (aw_step w1));
                      w2 = tick (w1\<lparr>aw_prompts := aw_prompts w1 @ [ctx]\<rparr>)
                  in case ae_respond env (aw_step w1) prompt ctx tool_defs of
                       Inl e \<Rightarrow> (Err (ErrLlm e), w2)
                     | Inr (RText text) \<Rightarrow> (Ok (LoopResponse (append_sources text urls)), w2)
                     | Inr (RToolCalls tcs content) \<Rightarrow>
                         (case run_tools env tid tcs (ctx @ [cm_assistant_with_tool_calls content tcs]) urls
                                 (record_calls env tid tcs w2) of
                            (Some r, _, _, w3) \<Rightarrow> (Ok r, w3)
                          | (None, ctx', urls', w3) \<Rightarrow> agentic_loop env tid prompt iteration' ctx' urls' w3))))"
  by pat_completeness auto
termination
  by (relation "measure (\<lambda>(_, _, _, i, _, _, _). Suc MAX_TOOL_ITERATIONS - i)") auto

declare agentic_loop.simps [simp del]

definition quoted :: "string \<Rightarrow> string" where
  "quoted s = ''- *'' @ [CHR 0x22] @ s @ [CHR 0x22] @ ''*''"

definition WELCOME :: string where
  "WELCOME = join nl
     [''Hey, glad you'' @ apostrophe @ ''re here! I'' @ apostrophe @ ''m RustyTalon '' @ em_dash @
        '' think of me as a capable friend who lives in your terminal (and browser, and Telegram, and wherever else you want me).'',
      [], ''**What should I call you?**'', [],
      ''While you think about that, here'' @ apostrophe @ ''s a taste of what I can do:'', [],
      quoted ''Remind me every morning at 9am to review my tasks'',
      quoted ''Remember that I prefer Python for scripting'',
      quoted ''Watch my Downloads folder and tell me when new files show up'',
      quoted ''Help me write a script to back up my Documents folder weekly'', [],
      ''Just tell me your name and we'' @ apostrophe @ ''ll get started '' @ em_dash @ '' or skip straight to whatever you need.'']"

definition NAME_CAPTURE :: string where
  "NAME_CAPTURE =
     ''## Capturing user'' @ apostrophe @ ''s name'' @ nl @ nl @
     ''The previous assistant message asked the user what to call them. '' @
     ''The user'' @ apostrophe @ ''s latest message is likely their name or how they want to be addressed. '' @
     ''Extract it and immediately call the memory_write tool to save it to USER.md '' @
     ''with content like '' @ [CHR 0x22] @ ''Name: Alex'' @ [CHR 0x22] @ '' so you remember it in all future sessions. '' @
     ''Then greet them by name and ask what they'' @ apostrophe @ ''d like to work on.''"

definition run_agentic_loop ::
  "agent_env \<Rightarrow> uuid \<Rightarrow> chat_message list \<Rightarrow> agent_world \<Rightarrow> (agent_error + loop_result) \<times> agent_world" where
  "run_agentic_loop env tid initial_messages w =
     (let workspace = ae_system_prompt env (aw_step w);
          system_prompt = (case workspace of Some (Inr p) \<Rightarrow> if p = [] then None else Some p | _ \<Rightarrow> None);
          w1 = tick w
      in if length initial_messages = 1 \<and> system_prompt = None \<and> workspace \<noteq> None
         then (Ok (LoopResponse WELCOME), w1)
         else
           (let prompt = (if workspace \<noteq> None \<and> system_prompt = None \<and> length initial_messages = 3
                          then Some NAME_CAPTURE else system_prompt)
            in agentic_loop env tid prompt 0 initial_messages [] w1))"

section \<open>The user's input\<close>

type_synonym turn_result = "(agent_error + submission_result) \<times> agent_world"

definition persist_response_chain :: "agent_env \<Rightarrow> nat \<Rightarrow> thread \<Rightarrow> thread" where
  "persist_response_chain env i t =
     (case ae_response_chain env i of None \<Rightarrow> t | Some rid \<Rightarrow> t\<lparr>thr_last_response_id := Some rid\<rparr>)"

definition persist_turn :: "string \<Rightarrow> string option \<Rightarrow> agent_world \<Rightarrow> agent_world" where
  "persist_turn user_input response w = w\<lparr>aw_persisted := aw_persisted w @ [(user_input, response)]\<rparr>"

text \<open>What is done with the result of the loop. A turn that came from the user's input is stored.\<close>

definition finish_turn ::
  "agent_env \<Rightarrow> uuid \<Rightarrow> (string option \<Rightarrow> agent_world \<Rightarrow> agent_world) \<Rightarrow> agent_error + loop_result \<Rightarrow> agent_world \<Rightarrow> turn_result" where
  "finish_turn env tid persist result w =
     (let now = ae_now env (aw_step w)
      in case result of
           Inr (LoopResponse response) \<Rightarrow>
             (Ok (result_response response),
              persist (Some response)
                (with_thread tid (persist_response_chain env (aw_step w) \<circ> complete_turn now response) w))
         | Inr (LoopNeedApproval pending) \<Rightarrow>
             (Ok (NeedApproval (pap_request_id pending) (pap_tool_name pending) (pap_description pending)
                    (pap_parameters pending)),
              with_thread tid (await_approval now pending) w)
         | Inl e \<Rightarrow>
             (Ok (result_error (ae_display env e)),
              persist None (with_thread tid (fail_turn now (ae_display env e)) w)))"

definition state_refusal :: "thread_state \<Rightarrow> string option" where
  "state_refusal s =
     (case s of
        TProcessing \<Rightarrow> Some ''Turn in progress. Use /interrupt to cancel.''
      | TAwaitingApproval \<Rightarrow> Some ''Waiting for approval. Use /interrupt to cancel.''
      | TCompleted \<Rightarrow> Some ''Thread completed. Use /thread new.''
      | _ \<Rightarrow> None)"

text \<open>The compaction before the turn; its failure is only logged.\<close>

definition auto_compact :: "agent_env \<Rightarrow> nat \<Rightarrow> thread \<Rightarrow> thread" where
  "auto_compact env i t =
     (case suggest_compaction (ae_monitor env) (thread_messages t) of
        None \<Rightarrow> t
      | Some strategy \<Rightarrow> fst (snd (compact (ae_compaction env i) strategy t)))"

text \<open>The turn proper, from the compaction on.\<close>

definition run_turn :: "agent_env \<Rightarrow> uuid \<Rightarrow> string \<Rightarrow> agent_world \<Rightarrow> turn_result" where
  "run_turn env tid content w =
     (let w1 = lock env w
      in case thread_of tid w1 of
           None \<Rightarrow> (Err (ErrJob (JobNotFound tid)), w1)
         | Some _ \<Rightarrow>
             (let w2 = lock env (with_thread tid (auto_compact env (aw_step w1)) w1)
              in case thread_of tid w2 of
                   None \<Rightarrow> (Err (ErrJob (JobNotFound tid)), w2)
                 | Some t2 \<Rightarrow>
                     (let w3 = lock env (w2\<lparr>aw_undo :=
                                 um_checkpoint (ae_uuid env (aw_step w2)) (thread_turn_number t2) (thread_messages t2)
                                   (''Before turn '' @ show_nat (thread_turn_number t2)) (aw_undo w2)\<rparr>)
                      in case thread_of tid w3 of
                           None \<Rightarrow> (Err (ErrJob (JobNotFound tid)), w3)
                         | Some t3 \<Rightarrow>
                             (let t4 = start_turn (ae_now env (aw_step w3)) content t3;
                                  t5 = (if ae_attachments env = [] then t4
                                        else set_current_turn_attachments (ae_attachments env) t4);
                                  (result, w4) =
                                    run_agentic_loop env tid (thread_messages t5) (with_thread tid (\<lambda>_. t5) w3);
                                  w5 = lock env w4
                              in case thread_of tid w5 of
                                   None \<Rightarrow> (Err (ErrJob (JobNotFound tid)), w5)
                                 | Some t \<Rightarrow>
                                     if thr_state t = TInterrupted then (Ok InterruptedResult, w5)
                                     else finish_turn env tid (persist_turn content) result w5))))"

definition process_user_input :: "agent_env \<Rightarrow> uuid \<Rightarrow> string \<Rightarrow> agent_world \<Rightarrow> turn_result" where
  "process_user_input env tid content w =
     (let w1 = lock env w
      in case thread_of tid w1 of
           None \<Rightarrow> (Err (ErrJob (JobNotFound tid)), w1)
         | Some t \<Rightarrow>
             (case state_refusal (thr_state t) of
                Some msg \<Rightarrow> (Ok (result_error msg), w1)
              | None \<Rightarrow>
                  (let validation = sl_validate_input (ae_safety env) content
                   in if \<not> vr_is_valid validation
                      then (Ok (result_error (''Input rejected by safety validation: '' @
                               show_errors (vr_errors validation))), w1)
                      else if list_ex (\<lambda>rule. rule_action rule = PBlock)
                                (sl_check_policy (ae_is_match env) (ae_safety env) content)
                      then (Ok (result_error ''Input rejected by safety policy.''), w1)
                      else
                        (case route_command router_new content of
                           Some intent \<Rightarrow> (ae_job_command env (aw_step w1) intent, tick w1)
                         | None \<Rightarrow>
                             (let content' = (case try_resolve_skill (ae_skills env) content of
                                                Some expanded \<Rightarrow> expanded | None \<Rightarrow> content)
                              in run_turn env tid content' w1)))))"

section \<open>Approval\<close>

text \<open>The approved tool is executed and the loop goes on.\<close>

definition run_approved :: "agent_env \<Rightarrow> uuid \<Rightarrow> bool \<Rightarrow> pending_approval \<Rightarrow> agent_world \<Rightarrow> turn_result" where
  "run_approved env tid always pending w =
     (let w1 = (if always
                then (let w' = lock env w
                      in w'\<lparr>aw_session := auto_approve_tool (pap_tool_name pending) (aw_session w')\<rparr>)
                else w);
          w2 = with_thread tid (\<lambda>t. t\<lparr>thr_state := TProcessing\<rparr>) (lock env w1);
          (r, w3) = execute_chat_tool env (pap_tool_name pending) (pap_parameters pending) w2;
          w4 = record_result env tid r w3
      in case detect_auth_awaiting (ae_json_parse env) (pap_tool_name pending) r of
           Some (ext_name, instructions) \<Rightarrow>
             (let w5 = lock env w4; now = ae_now env (aw_step w5)
              in (Ok (result_response instructions),
                  with_thread tid (complete_turn now instructions \<circ> enter_auth_mode now ext_name) w5))
         | None \<Rightarrow>
             (let ctx = pap_context_messages pending @
                        [cm_tool_result (pap_tool_call_id pending) (pap_tool_name pending)
                           (result_content env (pap_tool_name pending) r)];
                  (result, w5) = run_agentic_loop env tid ctx w4;
                  w6 = lock env w5
              in case thread_of tid w6 of
                   None \<Rightarrow> (Err (ErrJob (JobNotFound tid)), w6)
                 | Some _ \<Rightarrow> finish_turn env tid (\<lambda>_ w. w) result w6))"

definition process_approval ::
  "agent_env \<Rightarrow> uuid \<Rightarrow> uuid option \<Rightarrow> bool \<Rightarrow> bool \<Rightarrow> agent_world \<Rightarrow> turn_result" where
  "process_approval env tid request_id approved always w =
     (let w1 = lock env w
      in case thread_of tid w1 of
           None \<Rightarrow> (Err (ErrJob (JobNotFound tid)), w1)
         | Some t \<Rightarrow>
             if thr_state t \<noteq> TAwaitingApproval then (Ok (result_error ''No pending approval request.''), w1)
             else
               (let w2 = with_thread tid (snd \<circ> take_pending_approval) w1
                in case fst (take_pending_approval t) of
                     None \<Rightarrow> (Ok (result_error ''No pending approval request.''), w2)
                   | Some pending \<Rightarrow>
                       if (case request_id of Some req_id \<Rightarrow> req_id \<noteq> pap_request_id pending | None \<Rightarrow> False)
                       then (let w3 = lock env w2
                             in (Ok (result_error ''Request ID mismatch. Use the correct request ID.''),
                                 with_thread tid (await_approval (ae_now env (aw_step w3)) pending) w3))
                       else if approved then run_approved env tid always pending w2
                       else
                         (let w3 = lock env w2
                          in (Ok (result_response
                                (''Tool '' @ apostrophe @ pap_tool_name pending @ apostrophe @
                                 '' was rejected. The agent will not execute this tool.'' @ nl @ nl @
                                 ''You can continue the conversation or try a different approach.'')),
                              with_thread tid (clear_pending_approval (ae_now env (aw_step w3))) w3))))"

section \<open>Tokens and compaction\<close>

definition process_auth_token ::
  "agent_env \<Rightarrow> uuid \<Rightarrow> pending_auth \<Rightarrow> string \<Rightarrow> agent_world \<Rightarrow> string \<times> agent_world" where
  "process_auth_token env tid pending raw_token w =
     (let token = trim raw_token;
          name = pa_extension_name pending;
          w1 = with_thread tid (\<lambda>t. t\<lparr>thr_pending_auth := None\<rparr>) (lock env w)
      in case ae_extensions env of
           None \<Rightarrow> (''Extension manager not available.'', w1)
         | Some ops \<Rightarrow>
             (case xo_auth ops name token of
                Inl e \<Rightarrow> (''Authentication failed for '' @ name @ '': '' @ e, w1)
              | Inr result \<Rightarrow>
                  if ar_status result = ''authenticated'' then
                    ((case xo_activate ops name of
                        Inr tools \<Rightarrow>
                          name @ '' authenticated and activated ('' @ show_nat (length tools) @ '' tools loaded).'' @
                          (if tools = [] then [] else nl @ nl @ ''Tools: '' @ join '', '' tools)
                      | Inl e \<Rightarrow>
                          name @ '' authenticated successfully, but activation failed: '' @ e @
                          ''. Try activating manually.''), w1)
                  else
                    (let w2 = lock env w1
                     in (case ar_instructions result of Some i \<Rightarrow> i | None \<Rightarrow> ''Invalid token. Please try again.'',
                         with_thread tid (enter_auth_mode (ae_now env (aw_step w2)) name) w2))))"

definition right_arrow :: string where
  "right_arrow = map char_of [226, 134, 146 :: nat]"

definition process_compact :: "agent_env \<Rightarrow> uuid \<Rightarrow> agent_world \<Rightarrow> turn_result" where
  "process_compact env tid w =
     (let w1 = lock env w
      in case thread_of tid w1 of
           None \<Rightarrow> (Err (ErrJob (JobNotFound tid)), w1)
         | Some t \<Rightarrow>
             (let messages = thread_messages t;
                  usage = usage_percent (ae_monitor env) messages;
                  strategy = (case suggest_compaction (ae_monitor env) messages of
                                Some s \<Rightarrow> s | None \<Rightarrow> compaction_strategy.Summarize 5);
                  (r, t', _) = compact (ae_compaction env (aw_step w1)) strategy t;
                  w2 = with_thread tid (\<lambda>_. t') w1
              in case r of
                   Inr res \<Rightarrow>
                     (Ok (ok_with_message
                        (''Compacted: '' @ show_nat (cpr_turns_removed res) @ '' turns removed, '' @
                         show_nat (cpr_tokens_before res) @ '' '' @ right_arrow @ '' '' @
                         show_nat (cpr_tokens_after res) @ '' tokens (was '' @ ae_format_pct env usage @ ''% full)'' @
                         (if cpr_summary_written res then '', summary saved to workspace'' else []))), w2)
                 | Inl e \<Rightarrow> (Ok (result_error (''Compaction failed: '' @ ae_display env (ErrLlm e))), w2)))"

section \<open>Reference notions\<close>

definition not_auto_approved :: "string \<Rightarrow> agent_world \<Rightarrow> bool" where
  "not_auto_approved n w \<longleftrightarrow> n \<notin> set (ses_auto_approved_tools (aw_session w))"

text \<open>A tool that is registered throughout the turn and asks for approval.\<close>

definition always_gated :: "agent_env \<Rightarrow> string \<Rightarrow> bool" where
  "always_gated env n \<longleftrightarrow> (\<forall>i. case tr_get (ae_tools env i) n of Some t \<Rightarrow> tool_requires_approval t | None \<Rightarrow> False)"

text \<open>No other task approves the tool in the meantime.\<close>

definition nobody_approves :: "agent_env \<Rightarrow> string \<Rightarrow> bool" where
  "nobody_approves env n \<longleftrightarrow>
     (\<forall>i s u. n \<notin> set (ses_auto_approved_tools s) \<longrightarrow>
        n \<notin> set (ses_auto_approved_tools (fst (ae_between env i (s, u)))))"

text \<open>A call of the shell whose command must be approved every time.\<close>

definition destructive_call :: "agent_env \<Rightarrow> string \<times> json \<Rightarrow> bool" where
  "destructive_call env e \<longleftrightarrow>
     fst e = ''shell'' \<and>
     (case shell_command env (snd e) of Some cmd \<Rightarrow> requires_explicit_approval cmd | None \<Rightarrow> False)"

text \<open>The runs of the loop as a relation: what it may do from a number of iterations, a context and a
  world, with the result and the world afterwards.\<close>

definition sent :: "agent_env \<Rightarrow> chat_message list \<Rightarrow> agent_world \<Rightarrow> agent_world" where
  "sent env ctx w = tick ((lock env w)\<lparr>aw_prompts := aw_prompts w @ [ctx]\<rparr>)"

text \<open>A contract of the approval check: while \<open>I\<close> holds, calls in \<open>Q\<close> are held for approval. Then no
  run of the loop executes a call in \<open>Q\<close>, whatever other tasks do.\<close>

definition quiet :: "(agent_env \<Rightarrow> string \<times> json \<Rightarrow> bool) \<Rightarrow> (agent_env \<Rightarrow> agent_world \<Rightarrow> bool) \<Rightarrow>
    agent_env \<Rightarrow> agent_world \<Rightarrow> agent_world \<Rightarrow> bool" where
  "quiet Q I env w w' \<longleftrightarrow>
     (I env w \<longrightarrow> I env w' \<and> filter (Q env) (aw_executed w') = filter (Q env) (aw_executed w))"

text \<open>What the model may read of a tool: its output sanitized and wrapped, or the text of an error.\<close>

definition may_read :: "agent_env \<Rightarrow> chat_message \<Rightarrow> bool" where
  "may_read env m \<longleftrightarrow>
     (cm_role m = ToolRole \<longrightarrow>
        (\<exists>name output. cm_content m =
           (let s = sanitize_tool_output (ae_is_match env) (ae_ac env) (ae_rx env) (ae_safety env) name output
            in wrap_for_llm name (so_content s) (so_was_modified s))) \<or>
        (\<exists>e. cm_content m = ''Error: '' @ ae_display env e))"

definition extends :: "agent_env \<Rightarrow> chat_message list \<Rightarrow> chat_message list \<Rightarrow> bool" where
  "extends env ctx ctx' \<longleftrightarrow> (\<exists>xs. ctx' = ctx @ xs \<and> list_all (may_read env) xs)"

text \<open>How a turn leaves its thread, by its result.\<close>

definition settled :: "submission_result \<Rightarrow> thread option \<Rightarrow> bool" where
  "settled res t \<longleftrightarrow>
     (case t of
        None \<Rightarrow> True
      | Some t \<Rightarrow>
          (case res of
             NeedApproval rid name desc params \<Rightarrow>
               thr_state t = TAwaitingApproval \<and> map_option pap_request_id (thr_pending_approval t) = Some rid
           | InterruptedResult \<Rightarrow> thr_state t = TInterrupted
           | _ \<Rightarrow> thr_state t = TIdle))"

text \<open>An agent for the examples: its shell asks for approval, and the model calls it.\<close>

definition example_shell :: tool where
  "example_shell = shell_as_tool ''Execute shell commands.'' JNull"

definition example_agent :: agent_env where
  "example_agent =
     \<lparr>ae_between = \<lambda>_ su. su, ae_now = int, ae_uuid = \<lambda>i. i,
      ae_tools = \<lambda>_. tr_register_sync True True example_shell tr_new,
      ae_system_prompt = \<lambda>_. None,
      ae_respond = \<lambda>_ _ _ _. Ok (RToolCalls [\<lparr>tc_id = ''c1'', tc_name = ''shell'',
                       tc_arguments = JObject [(''command'', JString ''ls'')]\<rparr>] None),
      ae_execute = \<lambda>_ _ _. OutOk JNull, ae_json_parse = \<lambda>_. None, ae_json_pretty = \<lambda>_. Ok ''null'',
      ae_display = \<lambda>_. ''failed'', ae_display_tool_error = \<lambda>_. ''failed'',
      ae_safety = sl_new (\<lambda>_. True) \<lparr>sfc_max_output_length = 1000, sfc_injection_check_enabled = True\<rparr>,
      ae_is_match = \<lambda>_ _. False, ae_ac = \<lambda>_ _. [], ae_rx = \<lambda>_ _. [], ae_response_chain = \<lambda>_. None,
      ae_compaction = \<lambda>_. \<lparr>ce_complete = \<lambda>_. Ok [], ce_workspace = None, ce_date = [], ce_clock = []\<rparr>,
      ae_monitor = cmo_new, ae_skills = None, ae_job_command = \<lambda>_ _. Ok (OkResult None),
      ae_attachments = [], ae_format_pct = \<lambda>_. [], ae_extensions = None\<rparr>"

definition example_pending :: pending_approval where
  "example_pending = \<lparr>pap_request_id = 7, pap_tool_name = ''shell'',
     pap_parameters = JObject [(''command'', JString ''ls'')], pap_description = ''Execute shell commands.'',
     pap_tool_call_id = ''c1'', pap_context_messages = [cm_user ''list my files'']\<rparr>"

definition example_world :: agent_world where
  "example_world =
     \<lparr>aw_session = (create_thread 1 0 (session_new 9 0 ''alice'')), aw_undo = um_new, aw_step = 0,
      aw_executed = [], aw_prompts = [], aw_persisted = []\<rparr>"

definition example_waiting :: agent_world where
  "example_waiting = with_thread 1 (await_approval 0 example_pending) example_world"

section \<open>Lemmas\<close>

lemma world_frame [frame, simp]:
  "aw_executed (tick w) = aw_executed w"
  "aw_executed (lock env w) = aw_executed w"
  "aw_executed (with_thread tid f w) = aw_executed w"
  "aw_executed (record_result env tid r w) = aw_executed w"
  "aw_executed (record_calls env tid tcs w) = aw_executed w"
  "aw_executed (persist_turn c resp w) = aw_executed w"
  "aw_prompts (tick w) = aw_prompts w"
  "aw_prompts (lock env w) = aw_prompts w"
  "aw_prompts (with_thread tid f w) = aw_prompts w"
  "aw_prompts (record_result env tid r w) = aw_prompts w"
  "aw_prompts (record_calls env tid tcs w) = aw_prompts w"
  "aw_prompts (persist_turn c resp w) = aw_prompts w"
  "aw_persisted (tick w) = aw_persisted w"
  "aw_persisted (lock env w) = aw_persisted w"
  "aw_persisted (with_thread tid f w) = aw_persisted w"
  "aw_persisted (record_result env tid r w) = aw_persisted w"
  "aw_persisted (record_calls env tid tcs w) = aw_persisted w"
  by (simp_all add: tick_def lock_def with_thread_def record_result_def record_calls_def persist_turn_def
      Let_def split: prod.split option.split)

lemma execute_chat_tool_frame [simp]:
  "aw_prompts (snd (execute_chat_tool env n p w)) = aw_prompts w"
  "aw_persisted (snd (execute_chat_tool env n p w)) = aw_persisted w"
  "aw_session (snd (execute_chat_tool env n p w)) = aw_session w"
  by (auto simp: execute_chat_tool_def tick_def Let_def split: option.split)

lemma execute_chat_tool_log:
  "aw_executed (snd (execute_chat_tool env n p w)) \<in> {aw_executed w, aw_executed w @ [(n, p)]}"
  by (auto simp: execute_chat_tool_def Let_def split: option.split)

lemma check_approval_frame [simp]:
  "aw_executed (snd (check_approval env tc w)) = aw_executed w"
  "aw_prompts (snd (check_approval env tc w)) = aw_prompts w"
  "aw_persisted (snd (check_approval env tc w)) = aw_persisted w"
  by (auto simp: check_approval_def Let_def split: option.split)

lemma auto_approved_frame [simp]:
  "ses_auto_approved_tools (aw_session (tick w)) = ses_auto_approved_tools (aw_session w)"
  "ses_auto_approved_tools (aw_session (with_thread tid f w)) = ses_auto_approved_tools (aw_session w)"
  by (simp_all add: tick_def with_thread_def split: option.split)

inductive loop_run ::
  "agent_env \<Rightarrow> uuid \<Rightarrow> nat \<Rightarrow> chat_message list \<Rightarrow> agent_world \<Rightarrow> agent_error + loop_result \<Rightarrow> agent_world \<Rightarrow> bool"
  for env :: agent_env and tid :: uuid where
  exhausted: "MAX_TOOL_ITERATIONS \<le> i \<Longrightarrow> loop_run env tid i ctx w (Inl e) w"
| interrupted: "loop_run env tid i ctx w (Inl e) (lock env w)"
| failed: "i < MAX_TOOL_ITERATIONS \<Longrightarrow> loop_run env tid i ctx w (Inl e) (sent env ctx w)"
| answered: "i < MAX_TOOL_ITERATIONS \<Longrightarrow> loop_run env tid i ctx w (Inr (LoopResponse text)) (sent env ctx w)"
| stopped:
    "i < MAX_TOOL_ITERATIONS \<Longrightarrow>
     run_tools env tid tcs (ctx @ [cm_assistant_with_tool_calls content tcs]) urls
       (record_calls env tid tcs (sent env ctx w)) = (Some x, ctx', urls', w3) \<Longrightarrow>
     loop_run env tid i ctx w (Inr x) w3"
| continued:
    "i < MAX_TOOL_ITERATIONS \<Longrightarrow>
     run_tools env tid tcs (ctx @ [cm_assistant_with_tool_calls content tcs]) urls
       (record_calls env tid tcs (sent env ctx w)) = (None, ctx', urls', w3) \<Longrightarrow>
     loop_run env tid (i + 1) ctx' w3 r w' \<Longrightarrow>
     loop_run env tid i ctx w r w'"

lemma agentic_loop_runs:
  "agentic_loop env tid prompt i ctx urls w = (r, w') \<Longrightarrow> loop_run env tid i ctx w r w'"
proof (induction env tid prompt i ctx urls w rule: agentic_loop.induct)
  case (1 env tid prompt i ctx urls w)
  let ?w1 = "lock env w"
  note eval = agentic_loop.simps [of env tid prompt i ctx urls w] Let_def sent_def [symmetric]
  consider (over) "MAX_TOOL_ITERATIONS < i + 1"
    | (stop) "i < MAX_TOOL_ITERATIONS" "case thread_of tid ?w1 of Some t \<Rightarrow> thr_state t = TInterrupted | None \<Rightarrow> False"
    | (go) "i < MAX_TOOL_ITERATIONS" "\<not> (case thread_of tid ?w1 of Some t \<Rightarrow> thr_state t = TInterrupted | None \<Rightarrow> False)"
    by linarith
  then show ?case
  proof cases
    case over
    with "1.prems" show ?thesis by (auto simp: eval intro: loop_run.exhausted)
  next
    case stop
    with "1.prems" show ?thesis by (auto simp: eval intro: loop_run.interrupted)
  next
    case go
    let ?rr = "ae_respond env (aw_step ?w1) prompt ctx (tool_definitions (ae_tools env (aw_step ?w1)))"
    show ?thesis
    proof (cases "\<exists>tcs content. ?rr = Inr (RToolCalls tcs content)")
      case True
      then obtain tcs content where rr: "?rr = Inr (RToolCalls tcs content)" by blast
      obtain x ctx' urls' w3 where t: "run_tools env tid tcs (ctx @ [cm_assistant_with_tool_calls content tcs]) urls
          (record_calls env tid tcs (sent env ctx w)) = (x, ctx', urls', w3)" by (metis prod_cases4)
      show ?thesis
      proof (cases x)
        case None
        have "loop_run env tid (i + 1) ctx' w3 r w'"
          by (rule "1.IH" [OF refl _ refl _ refl refl rr refl])
             (use go rr t None "1.prems" in \<open>auto simp: eval\<close>)
        with go(1) t None show ?thesis by (blast intro: loop_run.continued)
      next
        case (Some y)
        then have "r = Inr y \<and> w' = w3" using go rr t "1.prems" by (auto simp: eval)
        with go(1) t Some show ?thesis by (auto intro: loop_run.stopped)
      qed
    next
      case False
      with go "1.prems" show ?thesis
        by (auto simp: eval split: sum.splits respond_result.splits intro: loop_run.failed loop_run.answered)
    qed
  qed
qed

lemma quiet_refl: "quiet Q I env w w"
  by (simp add: quiet_def)

lemma quiet_trans: "quiet Q I env w w' \<Longrightarrow> quiet Q I env w' w'' \<Longrightarrow> quiet Q I env w w''"
  by (simp add: quiet_def)

locale approval_gate =
  fixes Q :: "agent_env \<Rightarrow> string \<times> json \<Rightarrow> bool" and I :: "agent_env \<Rightarrow> agent_world \<Rightarrow> bool"
  assumes held: "I env w \<Longrightarrow> Q env (tc_name tc, tc_arguments tc) \<Longrightarrow> fst (check_approval env tc w) \<noteq> None"
    and I_lock: "I env w \<Longrightarrow> I env (lock env w)"
    and I_cong: "ses_auto_approved_tools (aw_session w) = ses_auto_approved_tools (aw_session w') \<Longrightarrow> I env w = I env w'"
begin

lemma quiet_step:
  "ses_auto_approved_tools (aw_session w') = ses_auto_approved_tools (aw_session w) \<Longrightarrow>
   aw_executed w' = aw_executed w \<Longrightarrow> quiet Q I env w w'"
  using I_cong [of w' w env] by (simp add: quiet_def)

lemma quiet_lock: "quiet Q I env w (lock env w)"
  by (simp add: quiet_def I_lock)

lemma quiet_lock_thread: "quiet Q I env w (with_thread tid f (lock env w))"
  by (rule quiet_trans [OF quiet_lock quiet_step]) simp_all

lemmas quiet_after = quiet_trans [OF _ quiet_step] quiet_trans [OF _ quiet_lock] quiet_trans [OF _ quiet_lock_thread]

lemma quiet_record:
  "quiet Q I env w (record_result env tid r w)" "quiet Q I env w (record_calls env tid tcs w)"
  by (simp_all add: record_result_def record_calls_def quiet_lock_thread)

lemma quiet_check: "quiet Q I env w (snd (check_approval env tc w))"
proof -
  have "quiet Q I env w (lock env (tick w))" by (rule quiet_trans [OF quiet_step quiet_lock]) simp_all
  moreover have "quiet Q I env w (tick w)" by (rule quiet_step) simp_all
  ultimately show ?thesis by (auto simp: check_approval_def Let_def split: option.split)
qed

lemma quiet_execute:
  assumes "fst (check_approval env tc w) = None"
  shows "quiet Q I env w (snd (execute_chat_tool env (tc_name tc) (tc_arguments tc) (snd (check_approval env tc w))))"
proof (cases "I env w")
  case True
  then have nq: "\<not> Q env (tc_name tc, tc_arguments tc)" using held [of env w tc] assms by blast
  let ?w1 = "snd (check_approval env tc w)"
  let ?w2 = "snd (execute_chat_tool env (tc_name tc) (tc_arguments tc) ?w1)"
  have "I env ?w2 = I env ?w1" by (rule I_cong) simp
  then have "I env ?w2" using quiet_check [of env w tc] True by (simp add: quiet_def)
  then show ?thesis
    using nq execute_chat_tool_log [of env "tc_name tc" "tc_arguments tc" ?w1] by (auto simp: quiet_def)
qed (simp add: quiet_def)

lemma quiet_run_tools: "run_tools env tid tcs ctx urls w = (r, ctx', urls', w') \<Longrightarrow> quiet Q I env w w'"
proof (induction tcs arbitrary: ctx urls w)
  case (Cons tc tcs)
  obtain gate w1 where c: "check_approval env tc w = (gate, w1)" by fastforce
  have q1: "quiet Q I env w w1" using quiet_check [of env w tc] c by simp
  show ?case
  proof (cases gate)
    case (Some t)
    with Cons.prems c have "w' = tick w1" by simp
    then show ?thesis using quiet_after(1) [OF q1, of "tick w1"] by simp
  next
    case None
    obtain res w2 where e: "execute_chat_tool env (tc_name tc) (tc_arguments tc) w1 = (res, w2)" by fastforce
    have "quiet Q I env w w2" using quiet_execute [of env tc w] c e None by simp
    then have q3: "quiet Q I env w (record_result env tid res w2)" by (rule quiet_trans [OF _ quiet_record(1)])
    show ?thesis
    proof (cases "detect_auth_awaiting (ae_json_parse env) (tc_name tc) res")
      case (Some p)
      with Cons.prems c e None have
        "w' = with_thread tid (enter_auth_mode (ae_now env (aw_step (lock env (record_result env tid res w2)))) (fst p))
                (lock env (record_result env tid res w2))"
        by (cases p) (simp add: Let_def)
      then show ?thesis using quiet_after(3) [OF q3] by simp
    next
      case None': None
      with Cons c e None show ?thesis by (auto simp: Let_def intro: quiet_trans [OF q3])
    qed
  qed
qed (simp add: quiet_refl)

lemma quiet_sent: "quiet Q I env w (sent env ctx w)"
  unfolding sent_def by (rule quiet_after(1) [OF quiet_lock]) (simp_all add: tick_def)

lemma quiet_loop_run: "loop_run env tid i ctx w r w' \<Longrightarrow> quiet Q I env w w'"
proof (induction rule: loop_run.induct)
  case (stopped i tcs ctx content urls w x ctx' urls' w3)
  then show ?case
    by (blast intro: quiet_trans [OF quiet_sent] quiet_trans [OF quiet_record(2)] quiet_run_tools)
next
  case (continued i tcs ctx content urls w ctx' urls' w3 r w')
  then show ?case
    by (blast intro: quiet_trans [OF quiet_sent] quiet_trans [OF quiet_record(2)]
        quiet_trans [OF quiet_run_tools])
qed (simp_all add: quiet_refl quiet_lock quiet_sent)

end

text \<open>An approval either executes nothing and only touches the thread, or runs the pending request that was
  approved.\<close>

lemma process_approval_cases:
  obtains (idle) "aw_executed (snd (process_approval env tid request_id approved always w)) = aw_executed w"
  | (run) t p where "approved" "thread_of tid (lock env w) = Some t" "thr_state t = TAwaitingApproval"
      "thr_pending_approval t = Some p" "request_id = None \<or> request_id = Some (pap_request_id p)"
      "process_approval env tid request_id approved always w =
         run_approved env tid always p (with_thread tid (snd \<circ> take_pending_approval) (lock env w))"
proof (cases "approved \<and> (\<exists>t p. thread_of tid (lock env w) = Some t \<and> thr_state t = TAwaitingApproval \<and>
      thr_pending_approval t = Some p \<and> (request_id = None \<or> request_id = Some (pap_request_id p)))")
  case True
  then obtain t p where *: "approved" "thread_of tid (lock env w) = Some t" "thr_state t = TAwaitingApproval"
      "thr_pending_approval t = Some p" "request_id = None \<or> request_id = Some (pap_request_id p)" by blast
  have "process_approval env tid request_id approved always w =
         run_approved env tid always p (with_thread tid (snd \<circ> take_pending_approval) (lock env w))"
    using * by (auto simp: process_approval_def take_pending_approval_def Let_def)
  with * show ?thesis by (rule run)
next
  case False
  then have "aw_executed (snd (process_approval env tid request_id approved always w)) = aw_executed w"
    by (auto simp: process_approval_def take_pending_approval_def Let_def split: option.splits)
  then show ?thesis by (rule idle)
qed

context approval_gate
begin

lemma quiet_run_agentic_loop: "quiet Q I env w (snd (run_agentic_loop env tid ms w))"
proof -
  have "quiet Q I env w (tick w)" by (rule quiet_step) simp_all
  moreover have "quiet Q I env (tick w) (snd (agentic_loop env tid p 0 ms [] (tick w)))" for p
    using quiet_loop_run [OF agentic_loop_runs [of env tid p 0 ms "[]" "tick w"]] by (simp add: prod_eq_iff)
  ultimately show ?thesis by (auto simp: run_agentic_loop_def Let_def intro: quiet_trans)
qed

lemma quiet_finish_turn:
  assumes "\<And>r v. aw_executed (persist r v) = aw_executed v" and "\<And>r v. aw_session (persist r v) = aw_session v"
  shows "quiet Q I env w (snd (finish_turn env tid persist result w))"
  using assms by (auto simp: finish_turn_def Let_def split: sum.split loop_result.split intro!: quiet_step)

lemma quiet_run_turn: "quiet Q I env w (snd (run_turn env tid content w))"
proof -
  let ?w1 = "lock env w"
  let ?w2 = "lock env (with_thread tid (auto_compact env (aw_step ?w1)) ?w1)"
  have q1: "quiet Q I env w ?w1" by (rule quiet_lock)
  have q2: "quiet Q I env w ?w2" by (rule quiet_after(2) [OF quiet_after(1) [OF q1]]) simp_all
  have q3: "quiet Q I env w (lock env (?w2\<lparr>aw_undo := u\<rparr>))" for u
    by (rule quiet_after(2) [OF quiet_after(1) [OF q2]]) simp_all
  have q4: "quiet Q I env w (lock env (snd (run_agentic_loop env tid ms (with_thread tid f (lock env (?w2\<lparr>aw_undo := u\<rparr>))))))"
    for u f ms
    by (rule quiet_after(2) [OF quiet_trans [OF quiet_after(1) [OF q3 [of u]] quiet_run_agentic_loop]]) simp_all
  have q5: "quiet Q I env w (snd (finish_turn env tid (persist_turn content) r
      (lock env (snd (run_agentic_loop env tid ms (with_thread tid f (lock env (?w2\<lparr>aw_undo := u\<rparr>))))))))"
    for u f ms r
    by (rule quiet_trans [OF q4 quiet_finish_turn]) (simp_all add: persist_turn_def)
  show ?thesis
    using q1 q2 q3 q4 q5
    by (simp add: run_turn_def Let_def split: option.split) (simp add: case_prod_beta split: option.split)
qed

lemma quiet_process_user_input: "quiet Q I env w (snd (process_user_input env tid content w))"
proof -
  have q1: "quiet Q I env w (lock env w)" by (rule quiet_lock)
  have "quiet Q I env w (snd (run_turn env tid c (lock env w)))" for c
    by (rule quiet_trans [OF q1 quiet_run_turn])
  moreover have "quiet Q I env w (tick (lock env w))" by (rule quiet_after(1) [OF q1]) simp_all
  ultimately show ?thesis
    using q1 by (simp add: process_user_input_def Let_def split: option.split)
qed

text \<open>After an approval one call is executed without the check: the approved one.\<close>

lemma run_approved_log:
  assumes "I env w" and "\<And>v. I env v \<Longrightarrow> always \<Longrightarrow> I env (v\<lparr>aw_session := auto_approve_tool (pap_tool_name pending) (aw_session v)\<rparr>)"
  shows "filter (Q env) (aw_executed (snd (run_approved env tid always pending w)))
           \<in> {filter (Q env) (aw_executed w),
              filter (Q env) (aw_executed w @ [(pap_tool_name pending, pap_parameters pending)])}"
proof -
  define w1 where "w1 = (if always
                then (let w' = lock env w
                      in w'\<lparr>aw_session := auto_approve_tool (pap_tool_name pending) (aw_session w')\<rparr>)
                else w)"
  define w2 where "w2 = with_thread tid (\<lambda>t. t\<lparr>thr_state := TProcessing\<rparr>) (lock env w1)"
  obtain r w3 where e: "execute_chat_tool env (pap_tool_name pending) (pap_parameters pending) w2 = (r, w3)" by fastforce
  define w4 where "w4 = record_result env tid r w3"
  have I1: "I env w1" using assms I_lock by (auto simp: w1_def Let_def)
  have x1: "aw_executed w1 = aw_executed w" by (simp add: w1_def Let_def)
  have I2: "I env w2" using quiet_lock_thread [of env w1] I1 by (simp add: quiet_def w2_def)
  have x2: "aw_executed w2 = aw_executed w" by (simp add: w2_def x1)
  have I3: "I env w3" using I_cong [of w3 w2 env] I2 execute_chat_tool_frame(3) [of env _ _ w2] e by (metis snd_conv)
  have I4: "I env w4" using quiet_record(1) [of env w3 tid r] I3 by (simp add: quiet_def w4_def)
  have x4: "aw_executed w4 \<in> {aw_executed w, aw_executed w @ [(pap_tool_name pending, pap_parameters pending)]}"
    using execute_chat_tool_log [of env "pap_tool_name pending" "pap_parameters pending" w2] e x2 by (simp add: w4_def)
  have q5: "quiet Q I env w4 (lock env (snd (run_agentic_loop env tid ctx w4)))" for ctx
    by (rule quiet_after(2) [OF quiet_run_agentic_loop])
  have q6: "quiet Q I env w4 (snd (finish_turn env tid (\<lambda>_ w. w) res (lock env (snd (run_agentic_loop env tid ctx w4)))))"
    for res ctx
    by (rule quiet_trans [OF q5 quiet_finish_turn]) simp_all
  have q7: "quiet Q I env w4 (with_thread tid f (lock env w4))" for f by (rule quiet_lock_thread)
  have "quiet Q I env w4 (snd (run_approved env tid always pending w))"
    using q5 q6 q7 unfolding run_approved_def w1_def [symmetric]
    by (simp add: Let_def w2_def [symmetric] e w4_def [symmetric] case_prod_beta split: option.split)
  with I4 x4 show ?thesis by (auto simp: quiet_def)
qed

lemma process_approval_log:
  assumes "I env w"
    and "\<And>v (p :: pending_approval). I env v \<Longrightarrow> always \<Longrightarrow> I env (v\<lparr>aw_session := auto_approve_tool (pap_tool_name p) (aw_session v)\<rparr>)"
  obtains (idle) "filter (Q env) (aw_executed (snd (process_approval env tid request_id approved always w))) =
                    filter (Q env) (aw_executed w)"
  | (run) t p where "approved" "thread_of tid (lock env w) = Some t" "thr_state t = TAwaitingApproval"
      "thr_pending_approval t = Some p" "request_id = None \<or> request_id = Some (pap_request_id p)"
      "filter (Q env) (aw_executed (snd (process_approval env tid request_id approved always w))) =
         filter (Q env) (aw_executed w @ [(pap_tool_name p, pap_parameters p)])"
proof (cases rule: process_approval_cases [of env tid request_id approved always w])
  case (run t p)
  let ?w2 = "with_thread tid (snd \<circ> take_pending_approval) (lock env w)"
  have "I env ?w2" using quiet_lock_thread [of env w] assms(1) by (simp add: quiet_def)
  then have "filter (Q env) (aw_executed (snd (run_approved env tid always p ?w2)))
           \<in> {filter (Q env) (aw_executed ?w2), filter (Q env) (aw_executed ?w2 @ [(pap_tool_name p, pap_parameters p)])}"
    by (rule run_approved_log) (rule assms(2))
  then show ?thesis using that(1) that(2) [OF run(1-5)] run(6) by (auto simp del: filter_append)
qed (use that(1) in simp)

end

lemma check_approval_held:
  assumes "always_gated env (tc_name tc)"
    and "tc_name tc \<notin> set (ses_auto_approved_tools (aw_session (lock env (tick w)))) \<or>
         destructive_call env (tc_name tc, tc_arguments tc)"
  shows "fst (check_approval env tc w) \<noteq> None"
proof -
  obtain t where "tr_get (ae_tools env (aw_step w)) (tc_name tc) = Some t" "tool_requires_approval t"
    using assms(1) unfolding always_gated_def by (metis option.case_eq_if option.collapse)
  with assms(2) show ?thesis
    by (auto simp: check_approval_def is_tool_auto_approved_def destructive_call_def Let_def)
qed

lemma not_auto_approved_lock:
  "nobody_approves env n \<Longrightarrow> not_auto_approved n w \<Longrightarrow> not_auto_approved n (lock env w)"
  by (auto simp: nobody_approves_def not_auto_approved_def lock_def tick_def Let_def split: prod.split)
     (metis fst_conv)

interpretation unapproved: approval_gate
    "\<lambda>env e. fst e = n" "\<lambda>env w. always_gated env n \<and> nobody_approves env n \<and> not_auto_approved n w"
  for n
proof
  fix env :: agent_env and w :: agent_world and tc :: tool_call
  assume I: "always_gated env n \<and> nobody_approves env n \<and> not_auto_approved n w" and "fst (tc_name tc, tc_arguments tc) = n"
  moreover have "not_auto_approved n (lock env (tick w))"
    by (rule not_auto_approved_lock) (use I in \<open>simp_all add: not_auto_approved_def\<close>)
  ultimately show "fst (check_approval env tc w) \<noteq> None"
    by (intro check_approval_held) (auto simp: not_auto_approved_def)
qed (auto simp: not_auto_approved_lock, simp_all add: not_auto_approved_def)

interpretation destructive: approval_gate
    "\<lambda>env e. destructive_call env e" "\<lambda>env w. always_gated env ''shell''"
proof
  fix env :: agent_env and w :: agent_world and tc :: tool_call
  assume "always_gated env ''shell''" and d: "destructive_call env (tc_name tc, tc_arguments tc)"
  then have "always_gated env (tc_name tc)" by (simp add: destructive_call_def)
  then show "fst (check_approval env tc w) \<noteq> None" using d by (intro check_approval_held) simp_all
qed simp_all

lemma extends_refl [simp]: "extends env ctx ctx"
  by (simp add: extends_def)

lemma extends_trans: "extends env a b \<Longrightarrow> extends env b c \<Longrightarrow> extends env a c"
  by (force simp: extends_def)

lemma extends_result: "extends env ctx (ctx @ [cm_tool_result i n (result_content env n r)])"
  by (cases r) (auto simp: extends_def may_read_def result_content_def cm_tool_result_def Let_def)

lemma extends_assistant: "extends env ctx (ctx @ [cm_assistant_with_tool_calls c tcs])"
  by (simp add: extends_def may_read_def cm_assistant_with_tool_calls_def)

lemma run_tools_log:
  "run_tools env tid tcs ctx urls w = (r, ctx', urls', w') \<Longrightarrow>
     aw_prompts w' = aw_prompts w \<and> aw_persisted w' = aw_persisted w \<and> extends env ctx ctx' \<and>
     (case r of Some (LoopNeedApproval p) \<Rightarrow> extends env ctx (pap_context_messages p) | _ \<Rightarrow> True)"
proof (induction tcs arbitrary: ctx urls w)
  case (Cons tc tcs)
  obtain gate w1 where c: "check_approval env tc w = (gate, w1)" by fastforce
  have w1: "aw_prompts w1 = aw_prompts w" "aw_persisted w1 = aw_persisted w"
    using check_approval_frame(2,3) [of env tc w] c by simp_all
  obtain res w2 where e: "execute_chat_tool env (tc_name tc) (tc_arguments tc) w1 = (res, w2)" by fastforce
  have w2: "aw_prompts w2 = aw_prompts w" "aw_persisted w2 = aw_persisted w"
    using execute_chat_tool_frame(1,2) [of env "tc_name tc" "tc_arguments tc" w1] e w1 by simp_all
  let ?ctx = "ctx @ [cm_tool_result (tc_id tc) (tc_name tc) (result_content env (tc_name tc) res)]"
  show ?case
  proof (cases gate)
    case (Some t)
    with Cons.prems c w1 show ?thesis by auto
  next
    case g: None
    show ?thesis
    proof (cases "detect_auth_awaiting (ae_json_parse env) (tc_name tc) res")
      case (Some p)
      with Cons.prems c e g w2 show ?thesis by (cases p) (auto simp: Let_def)
    next
      case None
      with Cons.prems c e g have
        "run_tools env tid tcs ?ctx (urls @ tool_sources env (tc_name tc) (tc_arguments tc) res)
           (record_result env tid res w2) = (r, ctx', urls', w')" by (simp add: Let_def)
      from Cons.IH [OF this] w2 show ?thesis
        using extends_trans [OF extends_result [of env ctx "tc_id tc" "tc_name tc" res]]
        by (auto split: option.splits loop_result.splits)
    qed
  qed
qed simp

lemma sent_log [simp]:
  "aw_prompts (sent env ctx w) = aw_prompts w @ [ctx]" "aw_persisted (sent env ctx w) = aw_persisted w"
  by (simp_all add: sent_def tick_def lock_def Let_def split: prod.split)

text \<open>The contexts a run of the loop sends to the model.\<close>

lemma loop_run_contexts:
  "loop_run env tid i ctx w r w' \<Longrightarrow>
     \<exists>ps. aw_prompts w' = aw_prompts w @ ps \<and> aw_persisted w' = aw_persisted w \<and>
       length ps \<le> MAX_TOOL_ITERATIONS - i \<and> list_all (extends env ctx) ps \<and>
       (case r of Inr (LoopNeedApproval p) \<Rightarrow> extends env ctx (pap_context_messages p) | _ \<Rightarrow> True)"
proof (induction rule: loop_run.induct)
  case (stopped i tcs ctx content urls w x ctx' urls' w3)
  from run_tools_log [OF this(2)] stopped(1) show ?case
    using extends_trans [OF extends_assistant [of env ctx content tcs]] by (auto split: loop_result.splits)
next
  case (continued i tcs ctx content urls w ctx' urls' w3 r w')
  from continued.IH obtain ps where ps: "aw_prompts w' = aw_prompts w3 @ ps" "aw_persisted w' = aw_persisted w3"
      "length ps \<le> MAX_TOOL_ITERATIONS - (i + 1)" "list_all (extends env ctx') ps"
      "case r of Inr (LoopNeedApproval p) \<Rightarrow> extends env ctx' (pap_context_messages p) | _ \<Rightarrow> True" by blast
  have l: "aw_prompts w3 = aw_prompts w @ [ctx]" "aw_persisted w3 = aw_persisted w" "extends env ctx ctx'"
    using run_tools_log [OF continued.hyps(2)] extends_trans [OF extends_assistant [of env ctx content tcs]] by auto
  have "list_all (extends env ctx) ps"
    using ps(4) extends_trans [OF l(3)] by (auto simp: list_all_iff)
  with ps l continued.hyps(1) show ?case
    using extends_trans [OF l(3)] by (auto split: sum.splits loop_result.splits)
qed auto

lemma run_agentic_loop_contexts:
  assumes "run_agentic_loop env tid ms w = (r, w')"
  shows "\<exists>ps. aw_prompts w' = aw_prompts w @ ps \<and> aw_persisted w' = aw_persisted w \<and>
     length ps \<le> MAX_TOOL_ITERATIONS \<and> list_all (extends env ms) ps \<and>
     (case r of Inr (LoopNeedApproval p) \<Rightarrow> extends env ms (pap_context_messages p) | _ \<Rightarrow> True)"
proof (cases "\<exists>p. agentic_loop env tid p 0 ms [] (tick w) = (r, w')")
  case True
  then obtain p where "agentic_loop env tid p 0 ms [] (tick w) = (r, w')" by blast
  from loop_run_contexts [OF agentic_loop_runs [OF this]] show ?thesis by simp
next
  case False
  with assms show ?thesis by (auto simp: run_agentic_loop_def Let_def split: if_splits)
qed

lemma thread_of_with_thread:
  "thread_of k (with_thread tid f w) = (if k = tid then map_option f (thread_of tid w) else thread_of k w)"
  by (auto simp: thread_of_def with_thread_def split: option.split)

lemma thread_of_persist [simp]: "thread_of k (persist_turn c r w) = thread_of k w"
  by (simp add: thread_of_def persist_turn_def)

lemma finish_turn_settles:
  assumes "\<And>r v. thread_of tid (persist r v) = thread_of tid v"
  shows "case finish_turn env tid persist result w of (res, w') \<Rightarrow> \<exists>s. res = Inr s \<and> settled s (thread_of tid w')"
  using assms
  by (auto simp: finish_turn_def settled_def Let_def thread_of_with_thread result_response_def result_error_def
      complete_turn_def fail_turn_def await_approval_def persist_response_chain_def
      split: sum.split loop_result.split option.split)

lemma thread_messages_may_read: "list_all (may_read env) (thread_messages t)"
  by (auto simp: list_all_iff thread_messages_def turn_messages_def may_read_def cm_user_def
      cm_user_with_attachments_def cm_assistant_def split: if_splits option.splits)

lemma extends_may_read: "extends env ctx p \<Longrightarrow> list_all (may_read env) ctx \<Longrightarrow> list_all (may_read env) p"
  by (auto simp: extends_def)

text \<open>Either a turn stops before the loop, or it is the loop with what is done afterwards.\<close>

lemma run_turn_cases:
  obtains (early) "fst (run_turn env tid content w) = Inl (ErrJob (JobNotFound tid))"
      "aw_prompts (snd (run_turn env tid content w)) = aw_prompts w"
      "aw_persisted (snd (run_turn env tid content w)) = aw_persisted w"
  | (looped) t w3 result w4 where "run_agentic_loop env tid (thread_messages t) w3 = (result, w4)"
      "aw_prompts w3 = aw_prompts w" "aw_persisted w3 = aw_persisted w"
      "run_turn env tid content w =
         (case thread_of tid (lock env w4) of
            None \<Rightarrow> (Inl (ErrJob (JobNotFound tid)), lock env w4)
          | Some t \<Rightarrow> if thr_state t = TInterrupted then (Inr InterruptedResult, lock env w4)
                      else finish_turn env tid (persist_turn content) result (lock env w4))"
proof -
  let ?w1 = "lock env w"
  let ?w2 = "lock env (with_thread tid (auto_compact env (aw_step ?w1)) ?w1)"
  show ?thesis
  proof (cases "thread_of tid ?w1 = None \<or> thread_of tid ?w2 = None")
    case True
    then show ?thesis by (intro early) (auto simp: run_turn_def Let_def split: option.split)
  next
    case False
    then obtain t1 t2 where t: "thread_of tid ?w1 = Some t1" "thread_of tid ?w2 = Some t2" by auto
    let ?w3 = "lock env (?w2\<lparr>aw_undo :=
                 um_checkpoint (ae_uuid env (aw_step ?w2)) (thread_turn_number t2) (thread_messages t2)
                   (''Before turn '' @ show_nat (thread_turn_number t2)) (aw_undo ?w2)\<rparr>)"
    show ?thesis
    proof (cases "thread_of tid ?w3")
      case None
      with t show ?thesis by (intro early) (simp_all add: run_turn_def Let_def)
    next
      case (Some t3)
      let ?t4 = "start_turn (ae_now env (aw_step ?w3)) content t3"
      let ?t5 = "if ae_attachments env = [] then ?t4 else set_current_turn_attachments (ae_attachments env) ?t4"
      obtain result w4 where r: "run_agentic_loop env tid (thread_messages ?t5) (with_thread tid (\<lambda>_. ?t5) ?w3) = (result, w4)"
        by fastforce
      show ?thesis
      proof (rule looped [OF r])
        show "run_turn env tid content w =
         (case thread_of tid (lock env w4) of
            None \<Rightarrow> (Inl (ErrJob (JobNotFound tid)), lock env w4)
          | Some t \<Rightarrow> if thr_state t = TInterrupted then (Inr InterruptedResult, lock env w4)
                      else finish_turn env tid (persist_turn content) result (lock env w4))"
          unfolding run_turn_def Let_def t Some r option.case prod.case by (rule refl)
      qed simp_all
    qed
  qed
qed

lemma finish_turn_prompts [simp]:
  "aw_prompts (snd (finish_turn env tid (persist_turn c) r w)) = aw_prompts w"
  "aw_prompts (snd (finish_turn env tid (\<lambda>_ w. w) r w)) = aw_prompts w"
  "aw_persisted (snd (finish_turn env tid (\<lambda>_ w. w) r w)) = aw_persisted w"
  by (simp_all add: finish_turn_def Let_def split: sum.split loop_result.split)

lemma run_turn_contexts:
  "\<exists>ps. aw_prompts (snd (run_turn env tid content w)) = aw_prompts w @ ps \<and>
     length ps \<le> MAX_TOOL_ITERATIONS \<and> list_all (list_all (may_read env)) ps"
proof (cases rule: run_turn_cases [of env tid content w])
  case (looped t w3 result w4)
  from run_agentic_loop_contexts [OF looped(1)] obtain ps where
    ps: "aw_prompts w4 = aw_prompts w @ ps" "length ps \<le> MAX_TOOL_ITERATIONS" "list_all (extends env (thread_messages t)) ps"
    by (auto simp: looped(2))
  have "list_all (list_all (may_read env)) ps"
    using ps(3) extends_may_read [OF _ thread_messages_may_read] by (auto simp: list_all_iff)
  with ps show ?thesis by (auto simp: looped(4) split: option.split)
qed simp

lemma run_turn_settles:
  "case run_turn env tid content w of (res, w') \<Rightarrow> res = Inl (ErrJob (JobNotFound tid)) \<or> (\<exists>s. res = Inr s \<and> settled s (thread_of tid w'))"
proof (cases rule: run_turn_cases [of env tid content w])
  case (looped t w3 result w4)
  then show ?thesis
    using finish_turn_settles [of tid "persist_turn content" env result "lock env w4"]
    by (auto simp: settled_def split: option.split prod.splits)
qed (auto split: prod.split)

lemma run_approved_cases:
  obtains (auth) v now instructions ext where "aw_persisted v = aw_persisted w"
      "run_approved env tid always p w =
         (Inr (Response instructions), with_thread tid (complete_turn now instructions \<circ> enter_auth_mode now ext) v)"
  | (looped) ctx v result v' where "run_agentic_loop env tid ctx v = (result, v')" "aw_persisted v = aw_persisted w"
      "run_approved env tid always p w =
         (case thread_of tid (lock env v') of
            None \<Rightarrow> (Inl (ErrJob (JobNotFound tid)), lock env v')
          | Some _ \<Rightarrow> finish_turn env tid (\<lambda>_ w. w) result (lock env v'))"
proof -
  define w1 where "w1 = (if always
                then (let w' = lock env w
                      in w'\<lparr>aw_session := auto_approve_tool (pap_tool_name p) (aw_session w')\<rparr>)
                else w)"
  define w2 where "w2 = with_thread tid (\<lambda>t. t\<lparr>thr_state := TProcessing\<rparr>) (lock env w1)"
  obtain r w3 where e: "execute_chat_tool env (pap_tool_name p) (pap_parameters p) w2 = (r, w3)" by fastforce
  define w4 where "w4 = record_result env tid r w3"
  have "aw_persisted w2 = aw_persisted w" by (simp add: w2_def w1_def Let_def)
  then have p4: "aw_persisted w4 = aw_persisted w"
    using execute_chat_tool_frame(2) [of env "pap_tool_name p" "pap_parameters p" w2] e by (simp add: w4_def)
  note eval = run_approved_def [unfolded Let_def, of env tid always p w, folded w1_def [unfolded Let_def], folded w2_def]
  show ?thesis
  proof (cases "detect_auth_awaiting (ae_json_parse env) (pap_tool_name p) r")
    case (Some q)
    then show ?thesis
      by (intro auth [of "lock env w4" "snd q" "ae_now env (aw_step (lock env w4))" "fst q"])
         (simp_all add: p4 eval e w4_def [symmetric] result_response_def case_prod_beta)
  next
    case None
    obtain result v' where l: "run_agentic_loop env tid (pap_context_messages p @
        [cm_tool_result (pap_tool_call_id p) (pap_tool_name p) (result_content env (pap_tool_name p) r)]) w4 = (result, v')"
      by fastforce
    show ?thesis
      by (rule looped [OF l p4]) (simp add: eval e w4_def [symmetric] None l)
  qed
qed

lemma run_approved_settles:
  "case run_approved env tid always p w of (res, w') \<Rightarrow> res = Inl (ErrJob (JobNotFound tid)) \<or> (\<exists>s. res = Inr s \<and> settled s (thread_of tid w'))"
proof (cases rule: run_approved_cases [of w env tid always p])
  case (auth v now instructions ext)
  then show ?thesis by (auto simp: settled_def thread_of_with_thread complete_turn_def split: option.split)
next
  case (looped ctx v result v')
  then show ?thesis
    using finish_turn_settles [of tid "\<lambda>_ w. w" env result "lock env v'"] by (auto split: option.split prod.splits)
qed

lemma run_approved_persisted: "aw_persisted (snd (run_approved env tid always p w)) = aw_persisted w"
proof (cases rule: run_approved_cases [of w env tid always p])
  case (looped ctx v result v')
  then show ?thesis
    using run_agentic_loop_contexts [OF looped(1)] by (auto split: option.split)
qed simp

lemma example_shell_gated: "always_gated example_agent ''shell''"
  by (simp add: always_gated_def example_agent_def example_shell_def shell_as_tool_def tool_defaults_def
      tr_register_sync_def tr_get_def tr_new_def Let_def)

lemma example_unapproved: "nobody_approves example_agent n" "not_auto_approved n example_world"
  by (simp_all add: nobody_approves_def example_agent_def not_auto_approved_def example_world_def
      create_thread_def session_new_def Let_def)

lemma record_calls_tools:
  "turn_tool_calls (foldl (\<lambda>u tc. record_tool_call (tc_name tc) (tc_arguments tc) u) u tcs) =
     turn_tool_calls u @ map (\<lambda>tc. \<lparr>ttc_name = tc_name tc, ttc_parameters = tc_arguments tc, ttc_result = None, ttc_error = None\<rparr>) tcs"
  by (induction tcs arbitrary: u) (simp_all add: record_tool_call_def)

lemma butlast_update_last: "butlast (update_last f xs) = butlast xs"
  by (simp add: update_last_def)

section \<open>Properties\<close>



text \<open>C2: a destructive shell command is never covered by a standing approval: even when the shell is approved for the whole session, a turn executes none of them, and an approval executes one only as the pending request it answers.\<close>

theorem destructive_shell_needs_approval:
  assumes "always_gated env ''shell''"
  shows "filter (destructive_call env) (aw_executed (snd (process_user_input env tid content w))) =
           filter (destructive_call env) (aw_executed w) \<and>
         (filter (destructive_call env) (aw_executed (snd (process_approval env tid request_id approved always w))) =
            filter (destructive_call env) (aw_executed w) \<or>
          (\<exists>t p. approved \<and> thread_of tid (lock env w) = Some t \<and> thr_state t = TAwaitingApproval \<and>
             thr_pending_approval t = Some p \<and> (request_id = None \<or> request_id = Some (pap_request_id p)) \<and>
             filter (destructive_call env) (aw_executed (snd (process_approval env tid request_id approved always w))) =
               filter (destructive_call env) (aw_executed w) @ [(pap_tool_name p, pap_parameters p)]))"
proof
  show "filter (destructive_call env) (aw_executed (snd (process_user_input env tid content w))) =
           filter (destructive_call env) (aw_executed w)"
    using destructive.quiet_process_user_input [of env w tid content] assms by (simp add: quiet_def)
next
  show "filter (destructive_call env) (aw_executed (snd (process_approval env tid request_id approved always w))) =
            filter (destructive_call env) (aw_executed w) \<or>
          (\<exists>t p. approved \<and> thread_of tid (lock env w) = Some t \<and> thr_state t = TAwaitingApproval \<and>
             thr_pending_approval t = Some p \<and> (request_id = None \<or> request_id = Some (pap_request_id p)) \<and>
             filter (destructive_call env) (aw_executed (snd (process_approval env tid request_id approved always w))) =
               filter (destructive_call env) (aw_executed w) @ [(pap_tool_name p, pap_parameters p)])"
    by (rule destructive.process_approval_log [OF assms, of always tid request_id approved])
       (simp add: assms, blast, force split: if_splits)
qed

theorem destructive_shell_needs_approval_witness:
  "filter (destructive_call example_agent)
     (aw_executed (snd (process_user_input example_agent 1 ''list my files'' example_world))) = []"
  using destructive_shell_needs_approval [OF example_shell_gated, of 1 "''list my files''" example_world None True True]
  by (simp add: example_world_def)



text \<open>After ten iterations the loop gives up with an error and without a further call.\<close>

theorem loop_gives_up:
  "agentic_loop env tid prompt MAX_TOOL_ITERATIONS ctx urls w =
     (Err (ErrLlm (InvalidResponse ''agent'' (''Exceeded maximum tool iterations ('' @ show_nat MAX_TOOL_ITERATIONS @ '')''))), w)"
  by (simp add: agentic_loop.simps)

text \<open>Answering with the wrong request identifier executes nothing and leaves the request pending.\<close>

theorem wrong_request_keeps_pending:
  assumes "thread_of tid (lock env w) = Some t" and "thr_state t = TAwaitingApproval"
    and "thr_pending_approval t = Some p" and "req_id \<noteq> pap_request_id p"
    and "\<forall>i x. ae_between env i x = x"
  shows "case process_approval env tid (Some req_id) approved always w of (res, w') \<Rightarrow>
     res = Ok (result_error ''Request ID mismatch. Use the correct request ID.'') \<and>
     aw_executed w' = aw_executed w \<and>
     (\<exists>t'. thread_of tid w' = Some t' \<and> thr_state t' = TAwaitingApproval \<and> thr_pending_approval t' = Some p \<and>
        thr_turns t' = thr_turns t)"
proof -
  have l: "thread_of k (lock env v) = thread_of k v" for k v
    using assms(5) by (simp add: lock_def thread_of_def tick_def)
  show ?thesis
    using assms(1-4)
    by (simp add: process_approval_def take_pending_approval_def Let_def l thread_of_with_thread await_approval_def)
qed

theorem wrong_request_keeps_pending_witness:
  "fst (process_approval example_agent 1 (Some 8) True True example_waiting) =
     Ok (result_error ''Request ID mismatch. Use the correct request ID.'')"
proof -
  have b: "\<forall>i x. ae_between example_agent i x = x" by (simp add: example_agent_def)
  have t: "thread_of 1 (lock example_agent example_waiting) = Some (await_approval 0 example_pending (thread_new 1 0 9))"
    using b by (simp add: lock_def tick_def example_waiting_def with_thread_def thread_of_def example_world_def
        create_thread_def session_new_def thread_new_def hm_get_def hm_insert_def Let_def)
  show ?thesis
    using wrong_request_keeps_pending [OF t _ _ _ b, of example_pending 8 True True]
    by (auto simp: await_approval_def example_pending_def split: prod.splits)
qed

text \<open>A turn that goes through an approval is never stored in the database: neither its input nor its response.\<close>

theorem approved_turn_not_stored:
  "aw_persisted (snd (process_approval env tid request_id approved always w)) = aw_persisted w"
proof -
  have "aw_persisted (snd (run_approved env tid always p (with_thread tid f (lock env w)))) = aw_persisted w" for p f
    by (simp add: run_approved_persisted)
  then show ?thesis by (simp add: process_approval_def Let_def split: option.split)
qed



text \<open>The calls of one response are all recorded before the first result, and a result is written to the last call, so with several calls only the last one ever shows a result.\<close>

theorem only_last_call_keeps_result:
  "butlast (turn_tool_calls (foldl (\<lambda>u r. record_tool_result r u)
      (foldl (\<lambda>u tc. record_tool_call (tc_name tc) (tc_arguments tc) u) (turn_new now n input) (tcs @ [tc])) rs)) =
   map (\<lambda>tc. \<lparr>ttc_name = tc_name tc, ttc_parameters = tc_arguments tc, ttc_result = None, ttc_error = None\<rparr>) tcs"
proof -
  have "butlast (turn_tool_calls (foldl (\<lambda>u r. record_tool_result r u) u rs)) = butlast (turn_tool_calls u)" for u
    by (induction rs arbitrary: u) (simp_all add: record_tool_result_def butlast_update_last)
  then show ?thesis by (simp only: record_calls_tools) (simp add: turn_new_def)
qed

end
