(* ===== verification/Agent_Dispatch.thy ===== *)
theory Agent_Dispatch
  imports Agent_Commands Agent_Turn
begin

text \<open>
  The entry of every message, \<open>handle_message\<close> and \<open>maybe_hydrate_thread\<close> of
  \<open>src/agent/agent_loop.rs\<close>: the submission is parsed, a stored conversation is loaded, the thread is
  resolved, a pending authentication takes the message, and the handler of the submission runs.

  A turn works on the session and on the undo history of its thread (\<open>agent_world\<close>); both are taken
  from the session manager and put back. The handlers that call neither a turn nor a thread command
  (system commands, the heartbeat, the summary and the suggestion, which only read) are \<open>de_other\<close>.
\<close>

section \<open>Data\<close>

record incoming_message =
  im_user_id :: string
  im_channel :: string
  im_thread_id :: "string option"
  im_content :: string
  im_attachments :: "attachment list"

text \<open>A stored message: its role and its content.\<close>

record dispatch_env =
  de_agent :: agent_env
  de_uuid_parse :: "string \<Rightarrow> uuid option"
  de_uuid_str :: "uuid \<Rightarrow> string"
  de_from_json :: "string \<Rightarrow> submission option"
  de_stored :: "(uuid \<Rightarrow> (string \<times> string) list option) option"
  de_metadata :: "uuid \<Rightarrow> json option"
  de_other :: "submission \<Rightarrow> agent_error + submission_result"
  de_new_session :: uuid
  de_new_thread :: uuid
  de_new_checkpoint :: uuid
  de_now :: time

section \<open>Hydration\<close>

definition stored_messages :: "(string \<times> string) list \<Rightarrow> chat_message list" where
  "stored_messages rows =
     List.map_filter (\<lambda>(role, content).
       if role = ''user'' then Some (cm_user content)
       else if role = ''assistant'' then Some (cm_assistant content) else None) rows"

definition hydrated_thread :: "dispatch_env \<Rightarrow> uuid \<Rightarrow> uuid \<Rightarrow> thread" where
  "hydrated_thread env thread_uuid session_id =
     (let chat_messages = (case de_stored env of
                             None \<Rightarrow> []
                           | Some rows \<Rightarrow> (case rows thread_uuid of Some r \<Rightarrow> stored_messages r | None \<Rightarrow> []));
          t = thread_with_id (de_now env) thread_uuid session_id;
          t1 = (if chat_messages \<noteq> [] then restore_from_messages (de_now env) chat_messages t else t)
      in case (case de_stored env of
                 None \<Rightarrow> None
               | Some _ \<Rightarrow> (case de_metadata env thread_uuid of
                              Some md \<Rightarrow> json_get_str md ''last_response_id'' | None \<Rightarrow> None)) of
           Some rid \<Rightarrow> t1\<lparr>thr_last_response_id := Some rid\<rparr>
         | None \<Rightarrow> t1)"

definition maybe_hydrate_thread ::
  "dispatch_env \<Rightarrow> incoming_message \<Rightarrow> string \<Rightarrow> session_manager \<Rightarrow> session_manager" where
  "maybe_hydrate_thread env msg external m =
     (case de_uuid_parse env external of
        None \<Rightarrow> m
      | Some thread_uuid \<Rightarrow>
          (let (s, m1) = get_or_create_session (de_new_session env) (de_now env) (im_user_id msg) m
           in if hm_contains (ses_threads s) thread_uuid then m1
              else
                (let s' = s\<lparr>ses_threads := hm_insert thread_uuid (hydrated_thread env thread_uuid (ses_id s)) (ses_threads s),
                            ses_active_thread := Some thread_uuid, ses_last_active_at := de_now env\<rparr>;
                     m2 = m1\<lparr>sm_sessions := hm_insert (im_user_id msg) s' (sm_sessions m1)\<rparr>
                 in register_thread (de_uuid_str env) (im_user_id msg) (im_channel msg) thread_uuid s' m2)))"

section \<open>Dispatch\<close>

text \<open>A handler of \<open>Agent_Turn\<close>, run on the session of the user and the undo history of the thread.\<close>

definition on_session ::
  "string \<Rightarrow> uuid \<Rightarrow> (agent_world \<Rightarrow> 'r \<times> agent_world) \<Rightarrow> 'r \<Rightarrow> session_manager \<Rightarrow> 'r \<times> session_manager" where
  "on_session u tid f missing m =
     (case hm_get (sm_sessions m) u of
        None \<Rightarrow> (missing, m)
      | Some s \<Rightarrow>
          (let (mgr, m1) = get_undo_manager tid m;
               (r, w) = f \<lparr>aw_session = s, aw_undo = mgr, aw_step = 0, aw_executed = [], aw_prompts = [],
                           aw_persisted = []\<rparr>
           in (r, put_undo_manager tid (aw_undo w)
                    (m1\<lparr>sm_sessions := hm_insert u (aw_session w) (sm_sessions m1)\<rparr>))))"

definition lift_job :: "(job_error + submission_result) \<times> session_manager \<Rightarrow> (agent_error + submission_result) \<times> session_manager" where
  "lift_job r = (case r of (Inl e, m) \<Rightarrow> (Inl (ErrJob e), m) | (Inr v, m) \<Rightarrow> (Inr v, m))"

definition dispatch ::
  "dispatch_env \<Rightarrow> incoming_message \<Rightarrow> uuid \<Rightarrow> submission \<Rightarrow> session_manager \<Rightarrow>
   (agent_error + submission_result) \<times> session_manager" where
  "dispatch env msg tid sub m =
     (let u = im_user_id msg; ae = (de_agent env)\<lparr>ae_attachments := im_attachments msg\<rparr>;
          missing = Inl (ErrJob (JobNotFound tid)); now = de_now env
      in case sub of
           UserInput content \<Rightarrow> on_session u tid (process_user_input ae tid content) missing m
         | SubUndo \<Rightarrow> lift_job (process_undo (de_new_checkpoint env) now u tid m)
         | SubRedo \<Rightarrow> lift_job (process_redo now u tid m)
         | Interrupt \<Rightarrow> lift_job (process_interrupt now u tid m)
         | Compact \<Rightarrow> on_session u tid (process_compact ae tid) missing m
         | Clear \<Rightarrow> lift_job (process_clear u tid m)
         | NewThread \<Rightarrow> lift_job (process_new_thread (de_uuid_str env) (de_new_session env) (de_new_thread env) now u m)
         | SwitchThread target \<Rightarrow> lift_job (process_switch_thread (de_uuid_str env) (de_new_session env) now u target m)
         | Resume cp \<Rightarrow> lift_job (process_resume now u tid cp m)
         | ExecApproval request_id approved always \<Rightarrow>
             on_session u tid (process_approval ae tid (Some request_id) approved always) missing m
         | ApprovalResponse approved always \<Rightarrow>
             on_session u tid (process_approval ae tid None approved always) missing m
         | _ \<Rightarrow> (de_other env sub, m))"

text \<open>The reply of a result; a request for approval is shown by the channel, and the reply is empty.\<close>

definition reply_of :: "submission_result \<Rightarrow> string option" where
  "reply_of r =
     (case r of
        Response content \<Rightarrow> Some content
      | OkResult message \<Rightarrow> message
      | ErrorResult message \<Rightarrow> Some (''Error: '' @ message)
      | InterruptedResult \<Rightarrow> Some ''Interrupted.''
      | NeedApproval _ _ _ _ \<Rightarrow> Some [])"

definition run_submission ::
  "dispatch_env \<Rightarrow> incoming_message \<Rightarrow> uuid \<Rightarrow> submission \<Rightarrow> session_manager \<Rightarrow>
   (agent_error + string option) \<times> session_manager" where
  "run_submission env msg tid sub m =
     (if sub = Quit then (Inr None, m)
      else
        (case dispatch env msg tid sub m of
           (Inl e, m') \<Rightarrow> (Inl e, m')
         | (Inr r, m') \<Rightarrow> (Inr (reply_of r), m')))"

fun user_content :: "submission \<Rightarrow> string option" where
  "user_content (UserInput content) = Some content"
| "user_content _ = None"

definition handle_message ::
  "dispatch_env \<Rightarrow> incoming_message \<Rightarrow> session_manager \<Rightarrow> (agent_error + string option) \<times> session_manager" where
  "handle_message env msg m =
     (let sub = parse (de_uuid_parse env) (de_from_json env) (im_content msg);
          m1 = (case im_thread_id msg of Some external \<Rightarrow> maybe_hydrate_thread env msg external m | None \<Rightarrow> m);
          (tid, m2) = resolve_thread (de_new_session env) (de_new_thread env) (de_now env)
                        (im_user_id msg) (im_channel msg) (im_thread_id msg) m1
      in case get_thread (im_user_id msg) tid m2 of
           None \<Rightarrow> run_submission env msg tid sub m2
         | Some t \<Rightarrow>
             (case thr_pending_auth t of
                None \<Rightarrow> run_submission env msg tid sub m2
              | Some pending \<Rightarrow>
                  (case user_content sub of
                     Some content \<Rightarrow>
                       (let (reply, m3) = on_session (im_user_id msg) tid
                                            (process_auth_token (de_agent env) tid pending content) [] m2
                        in (Inr (Some reply), m3))
                   | None \<Rightarrow>
                       run_submission env msg tid sub
                         (put_thread (im_user_id msg) tid (t\<lparr>thr_pending_auth := None\<rparr>) m2))))"

section \<open>Lemmas\<close>

text \<open>Nothing here touches the session of another user.\<close>

lemma session_frame:
  "hm_get (sm_sessions (snd (get_or_create_session sid now u m))) v = hm_get (sm_sessions m) v" if "v \<noteq> u"
  using that by (simp add: get_or_create_session_def Let_def split: option.split)

lemma undo_managers_frame [simp]:
  "sm_sessions (snd (get_undo_manager t m)) = sm_sessions m"
  "sm_sessions (put_undo_manager t mgr m) = sm_sessions m"
  by (simp_all add: get_undo_manager_def put_undo_manager_def split: option.split)

lemma put_thread_session: "v \<noteq> u \<Longrightarrow> hm_get (sm_sessions (put_thread u t thr m)) v = hm_get (sm_sessions m) v"
  by (simp add: put_thread_def split: option.split)

lemma on_session_other: "v \<noteq> u \<Longrightarrow> hm_get (sm_sessions (snd (on_session u tid f d m))) v = hm_get (sm_sessions m) v"
proof -
  assume v: "v \<noteq> u"
  obtain mgr m1 where g: "get_undo_manager tid m = (mgr, m1)" by fastforce
  have "sm_sessions m1 = sm_sessions m" using undo_managers_frame(1) [of tid m] g by simp
  with v g show ?thesis by (simp add: on_session_def case_prod_beta split: option.split)
qed

lemma handlers_other_session:
  assumes "v \<noteq> u"
  shows "hm_get (sm_sessions (snd (process_undo i now u t m))) v = hm_get (sm_sessions m) v"
    and "hm_get (sm_sessions (snd (process_redo now u t m))) v = hm_get (sm_sessions m) v"
    and "hm_get (sm_sessions (snd (process_interrupt now u t m))) v = hm_get (sm_sessions m) v"
    and "hm_get (sm_sessions (snd (process_clear u t m))) v = hm_get (sm_sessions m) v"
    and "hm_get (sm_sessions (snd (process_new_thread f sid tid now u m))) v = hm_get (sm_sessions m) v"
    and "hm_get (sm_sessions (snd (process_switch_thread f sid now u t m))) v = hm_get (sm_sessions m) v"
    and "hm_get (sm_sessions (snd (process_resume now u t cp m))) v = hm_get (sm_sessions m) v"
proof -
  have um: "sm_sessions m1 = sm_sessions m'" if "get_undo_manager t m' = (mgr, m1)" for mgr m1 m'
    using undo_managers_frame(1) [of t m'] that by simp
  have gs: "hm_get (sm_sessions m1) v = hm_get (sm_sessions m) v" if "get_or_create_session sid now u m = (s, m1)" for s m1
    using session_frame [OF assms, of sid now m] that by simp
  note facts = put_thread_session [OF assms]
  show "hm_get (sm_sessions (snd (process_undo i now u t m))) v = hm_get (sm_sessions m) v"
    by (auto simp: process_undo_def Let_def facts um split: prod.split option.split)
  show "hm_get (sm_sessions (snd (process_redo now u t m))) v = hm_get (sm_sessions m) v"
    by (auto simp: process_redo_def Let_def facts um split: prod.split option.split)
  show "hm_get (sm_sessions (snd (process_interrupt now u t m))) v = hm_get (sm_sessions m) v"
    by (auto simp: process_interrupt_def facts split: option.split)
  show "hm_get (sm_sessions (snd (process_clear u t m))) v = hm_get (sm_sessions m) v"
    by (auto simp: process_clear_def Let_def facts um split: prod.split option.split)
  show "hm_get (sm_sessions (snd (process_new_thread f sid tid now u m))) v = hm_get (sm_sessions m) v"
    using assms by (auto simp: process_new_thread_def Let_def gs split: prod.split)
  show "hm_get (sm_sessions (snd (process_switch_thread f sid now u t m))) v = hm_get (sm_sessions m) v"
    using assms by (auto simp: process_switch_thread_def Let_def gs split: prod.split)
  show "hm_get (sm_sessions (snd (process_resume now u t cp m))) v = hm_get (sm_sessions m) v"
    by (auto simp: process_resume_def Let_def facts um split: prod.split option.split)
qed

lemma lift_job_sessions [simp]: "snd (lift_job r) = snd r"
  by (simp add: lift_job_def split: prod.split sum.split)

lemma dispatch_other:
  "v \<noteq> im_user_id msg \<Longrightarrow> hm_get (sm_sessions (snd (dispatch env msg tid sub m))) v = hm_get (sm_sessions m) v"
  by (cases sub) (simp_all add: dispatch_def Let_def on_session_other handlers_other_session)

lemma run_submission_other:
  "v \<noteq> im_user_id msg \<Longrightarrow> hm_get (sm_sessions (snd (run_submission env msg tid sub m))) v = hm_get (sm_sessions m) v"
  using dispatch_other [of v msg env tid sub m] by (simp add: run_submission_def case_prod_beta split: sum.split)

lemma hydrate_other:
  assumes "v \<noteq> im_user_id msg"
  shows "hm_get (sm_sessions (maybe_hydrate_thread env msg x m)) v = hm_get (sm_sessions m) v"
proof -
  have "hm_get (sm_sessions m1) v = hm_get (sm_sessions m) v"
    if "get_or_create_session (de_new_session env) (de_now env) (im_user_id msg) m = (s, m1)" for s m1
    using session_frame [OF assms, of "de_new_session env" "de_now env" m] that by simp
  then show ?thesis
    using assms by (auto simp: maybe_hydrate_thread_def register_thread_def Let_def split: option.split prod.split)
qed

lemma resolve_other:
  assumes "v \<noteq> u"
  shows "hm_get (sm_sessions (snd (resolve_thread sid tid now u ch x m))) v = hm_get (sm_sessions m) v"
  using session_frame [OF assms, of sid now m] assms
  by (auto simp: resolve_thread_def resolve_create_def Let_def split: option.split)

section \<open>Reference notions\<close>

text \<open>A dispatcher for the examples, whose database holds one conversation.\<close>

definition example_dispatch :: dispatch_env where
  "example_dispatch =
     \<lparr>de_agent = example_agent, de_uuid_parse = \<lambda>s. if s = ''42'' then Some 42 else None, de_uuid_str = \<lambda>_. ''42'',
      de_from_json = \<lambda>_. None, de_stored = Some (\<lambda>i. if i = 42 then Some [(''user'', ''my secret'')] else None),
      de_metadata = \<lambda>_. None, de_other = \<lambda>_. Inr (OkResult None), de_new_session = 2, de_new_thread = 3,
      de_new_checkpoint = 4, de_now = 0\<rparr>"

definition example_message :: "string \<Rightarrow> incoming_message" where
  "example_message u = \<lparr>im_user_id = u, im_channel = ''web'', im_thread_id = Some ''42'', im_content = ''hello'',
                        im_attachments = []\<rparr>"

section \<open>Properties\<close>

text \<open>C5: a message of one user leaves the session of every other user as it was, whatever the message is: a command, an approval, a token, or a turn with its tools and all that other tasks do to the user's own session meanwhile.\<close>

theorem messages_isolated:
  assumes "v \<noteq> im_user_id msg"
  shows "hm_get (sm_sessions (snd (handle_message env msg m))) v = hm_get (sm_sessions m) v"
proof -
  define m1 where "m1 = (case im_thread_id msg of Some x \<Rightarrow> maybe_hydrate_thread env msg x m | None \<Rightarrow> m)"
  have 1: "hm_get (sm_sessions m1) v = hm_get (sm_sessions m) v"
    using hydrate_other [OF assms] by (simp add: m1_def split: option.split)
  obtain tid m2 where r: "resolve_thread (de_new_session env) (de_new_thread env) (de_now env)
      (im_user_id msg) (im_channel msg) (im_thread_id msg) m1 = (tid, m2)" by fastforce
  have 2: "hm_get (sm_sessions m2) v = hm_get (sm_sessions m) v"
    using resolve_other [OF assms, of "de_new_session env" "de_new_thread env" "de_now env" "im_channel msg" "im_thread_id msg" m1] r 1
    by simp
  have 3: "hm_get (sm_sessions (put_thread (im_user_id msg) tid t m2)) v = hm_get (sm_sessions m) v" for t
    using put_thread_session [OF assms] 2 by simp
  have 4: "hm_get (sm_sessions (snd (on_session (im_user_id msg) tid f d m2))) v = hm_get (sm_sessions m) v"
    for f :: "agent_world \<Rightarrow> string \<times> agent_world" and d
    by (simp add: on_session_other [OF assms] 2)
  show ?thesis
    unfolding handle_message_def Let_def m1_def [symmetric] r
    by (simp add: 2 3 4 run_submission_other [OF assms] case_prod_beta split: option.split)
qed

theorem messages_isolated_witness:
  "hm_get (sm_sessions (snd (handle_message example_dispatch (example_message ''alice'') sm_new))) ''bob'' = None"
  using messages_isolated [of "''bob''" "example_message ''alice''" example_dispatch sm_new]
  by (simp add: example_message_def sm_new_def)

text \<open>Loading a stored conversation does not look at whose it is: any user who names its identifier gets the conversation into a thread of their own session.\<close>

theorem hydration_ignores_owner:
  assumes "de_uuid_parse env external = Some t" and "get_thread (im_user_id msg) t m = None"
  shows "\<exists>sid. get_thread (im_user_id msg) t (maybe_hydrate_thread env msg external m) = Some (hydrated_thread env t sid)"
  using assms
  by (auto simp: maybe_hydrate_thread_def get_thread_def get_or_create_session_def register_thread_def hm_contains_def
      hm_or_insert_def session_new_def Let_def split: option.splits)

theorem hydration_ignores_owner_witness:
  "map_option thread_messages (get_thread ''mallory'' 42
       (maybe_hydrate_thread example_dispatch (example_message ''mallory'') ''42'' sm_new)) = Some [cm_user ''my secret'']"
proof -
  have "\<exists>sid. get_thread ''mallory'' 42 (maybe_hydrate_thread example_dispatch (example_message ''mallory'') ''42'' sm_new) =
      Some (hydrated_thread example_dispatch 42 sid)"
    using hydration_ignores_owner [of example_dispatch "''42''" 42 "example_message ''mallory''" sm_new]
    by (simp add: example_dispatch_def example_message_def get_thread_def sm_new_def)
  moreover have "thread_messages (hydrated_thread example_dispatch 42 sid) = [cm_user ''my secret'']" for sid
    by (simp add: hydrated_thread_def example_dispatch_def stored_messages_def List.map_filter_def thread_messages_def
        restore_from_messages_def Let_def thread_with_id_def)
  ultimately show ?thesis by auto
qed

end
