(* ===== verification/Wasm_Capabilities.thy ===== *)
theory Wasm_Capabilities
  imports Containers Host_Pattern
begin

text \<open>
  The capabilities of a WASM tool, \<open>src/tools/wasm/capabilities.rs\<close>, and the credential mappings
  they carry, from \<open>src/secrets/types.rs\<close>.
\<close>

section \<open>Credential mappings\<close>

datatype credential_location =
    AuthorizationBearer
  | AuthorizationBasic string
  | HeaderLoc string "string option"
  | QueryParam string
  | UrlPath string

record credential_mapping =
  crm_secret_name :: string
  crm_location :: credential_location
  crm_host_patterns :: "string list"

definition mapping_bearer :: "string \<Rightarrow> string \<Rightarrow> credential_mapping" where
  "mapping_bearer secret_name host_pattern =
     \<lparr>crm_secret_name = secret_name, crm_location = AuthorizationBearer,
      crm_host_patterns = [host_pattern]\<rparr>"

definition mapping_header :: "string \<Rightarrow> string \<Rightarrow> string \<Rightarrow> credential_mapping" where
  "mapping_header secret_name header_name host_pattern =
     \<lparr>crm_secret_name = secret_name, crm_location = HeaderLoc header_name None,
      crm_host_patterns = [host_pattern]\<rparr>"

section \<open>Rate limits\<close>

record rate_limit_config =
  rl_requests_per_minute :: u32
  rl_requests_per_hour :: u32

definition rl_default :: rate_limit_config where
  "rl_default = \<lparr>rl_requests_per_minute = 60, rl_requests_per_hour = 1000\<rparr>"

definition rl_restrictive :: rate_limit_config where
  "rl_restrictive = \<lparr>rl_requests_per_minute = 10, rl_requests_per_hour = 100\<rparr>"

definition rl_permissive :: rate_limit_config where
  "rl_permissive = \<lparr>rl_requests_per_minute = 120, rl_requests_per_hour = 5000\<rparr>"

section \<open>Endpoint patterns\<close>

record endpoint_pattern =
  ep_host :: string
  ep_path_prefix :: "string option"
  ep_methods :: "string list"

definition ep_of_host :: "string \<Rightarrow> endpoint_pattern" where
  "ep_of_host h = \<lparr>ep_host = h, ep_path_prefix = None, ep_methods = []\<rparr>"

definition ep_with_path_prefix :: "string \<Rightarrow> endpoint_pattern \<Rightarrow> endpoint_pattern" where
  "ep_with_path_prefix p e = e\<lparr>ep_path_prefix := Some p\<rparr>"

definition ep_with_methods :: "string list \<Rightarrow> endpoint_pattern \<Rightarrow> endpoint_pattern" where
  "ep_with_methods ms e = e\<lparr>ep_methods := ms\<rparr>"

definition host_matches :: "endpoint_pattern \<Rightarrow> string \<Rightarrow> bool" where
  "host_matches e url_host =
     (if ep_host e = url_host then True
      else
        case strip_prefix (ep_host e) ''*.'' of
          Some suff \<Rightarrow>
            if ends_with url_host suff \<and> length suff < length url_host
            then (let pre = take (length url_host - length suff) url_host
                  in ends_with pre ''.'' \<or> pre = [])
            else False
        | None \<Rightarrow> False)"

definition ep_matches :: "endpoint_pattern \<Rightarrow> string \<Rightarrow> string \<Rightarrow> string \<Rightarrow> bool" where
  "ep_matches e url_host url_path method =
     (if \<not> host_matches e url_host then False
      else if (case ep_path_prefix e of Some p \<Rightarrow> \<not> starts_with url_path p | None \<Rightarrow> False) then False
      else if ep_methods e \<noteq> [] \<and>
              \<not> list_ex (\<lambda>m. to_uppercase m = to_uppercase method) (ep_methods e) then False
      else True)"

section \<open>Capabilities\<close>

text \<open>The reader of the workspace is the function the runtime injects.\<close>

record workspace_capability =
  wc_allowed_prefixes :: "string list"
  wc_reader :: "(string \<Rightarrow> string option) option"

record http_capability =
  hc_allowlist :: "endpoint_pattern list"
  hc_credentials :: "(string, credential_mapping) hash_map"
  hc_rate_limit :: rate_limit_config
  hc_max_request_bytes :: nat
  hc_max_response_bytes :: nat
  hc_timeout_secs :: nat

definition hc_default :: http_capability where
  "hc_default =
     \<lparr>hc_allowlist = [], hc_credentials = [], hc_rate_limit = rl_default,
      hc_max_request_bytes = 1024 * 1024, hc_max_response_bytes = 10 * 1024 * 1024,
      hc_timeout_secs = 30\<rparr>"

definition hc_new :: "endpoint_pattern list \<Rightarrow> http_capability" where
  "hc_new allow = hc_default\<lparr>hc_allowlist := allow\<rparr>"

definition hc_with_credential :: "string \<Rightarrow> credential_mapping \<Rightarrow> http_capability \<Rightarrow> http_capability" where
  "hc_with_credential name mapping h = h\<lparr>hc_credentials := hm_insert name mapping (hc_credentials h)\<rparr>"

definition hc_with_rate_limit :: "rate_limit_config \<Rightarrow> http_capability \<Rightarrow> http_capability" where
  "hc_with_rate_limit r h = h\<lparr>hc_rate_limit := r\<rparr>"

definition hc_with_timeout :: "nat \<Rightarrow> http_capability \<Rightarrow> http_capability" where
  "hc_with_timeout t h = h\<lparr>hc_timeout_secs := t\<rparr>"

definition hc_with_max_request_bytes :: "nat \<Rightarrow> http_capability \<Rightarrow> http_capability" where
  "hc_with_max_request_bytes b h = h\<lparr>hc_max_request_bytes := b\<rparr>"

definition hc_with_max_response_bytes :: "nat \<Rightarrow> http_capability \<Rightarrow> http_capability" where
  "hc_with_max_response_bytes b h = h\<lparr>hc_max_response_bytes := b\<rparr>"

record tool_invoke_capability =
  tic_aliases :: "(string, string) hash_map"
  tic_rate_limit :: rate_limit_config

definition tic_new :: "(string, string) hash_map \<Rightarrow> tool_invoke_capability" where
  "tic_new aliases = \<lparr>tic_aliases = aliases, tic_rate_limit = rl_default\<rparr>"

definition resolve_alias :: "tool_invoke_capability \<Rightarrow> string \<Rightarrow> string option" where
  "resolve_alias c alias = hm_get (tic_aliases c) alias"

record secrets_capability =
  sc_allowed_names :: "string list"

text \<open>The loop over allowed names, shared by \<open>SecretsCapability::is_allowed\<close> and
  \<open>CredentialInjector::is_secret_allowed\<close>: exact, or a prefix before a final star.\<close>

fun name_allowed :: "string list \<Rightarrow> string \<Rightarrow> bool" where
  "name_allowed [] name = False"
| "name_allowed (pattern # ps) name =
     (if pattern = name then True
      else if (case strip_suffix pattern ''*'' of Some pre \<Rightarrow> starts_with name pre | None \<Rightarrow> False)
      then True
      else name_allowed ps name)"

definition secret_is_allowed :: "secrets_capability \<Rightarrow> string \<Rightarrow> bool" where
  "secret_is_allowed c name = name_allowed (sc_allowed_names c) name"

record capabilities =
  cap_workspace_read :: "workspace_capability option"
  cap_http :: "http_capability option"
  cap_tool_invoke :: "tool_invoke_capability option"
  cap_secrets :: "secrets_capability option"

definition cap_none :: capabilities where
  "cap_none =
     \<lparr>cap_workspace_read = None, cap_http = None, cap_tool_invoke = None, cap_secrets = None\<rparr>"

definition cap_with_workspace_read :: "string list \<Rightarrow> capabilities \<Rightarrow> capabilities" where
  "cap_with_workspace_read prefs c =
     c\<lparr>cap_workspace_read := Some \<lparr>wc_allowed_prefixes = prefs, wc_reader = None\<rparr>\<rparr>"

definition cap_with_http :: "http_capability \<Rightarrow> capabilities \<Rightarrow> capabilities" where
  "cap_with_http h c = c\<lparr>cap_http := Some h\<rparr>"

definition cap_with_tool_invoke :: "(string, string) hash_map \<Rightarrow> capabilities \<Rightarrow> capabilities" where
  "cap_with_tool_invoke aliases c = c\<lparr>cap_tool_invoke := Some (tic_new aliases)\<rparr>"

definition cap_with_secrets :: "string list \<Rightarrow> capabilities \<Rightarrow> capabilities" where
  "cap_with_secrets allowed c = c\<lparr>cap_secrets := Some \<lparr>sc_allowed_names = allowed\<rparr>\<rparr>"

section \<open>Lemmas\<close>

lemma append_dot_iff:
  "(ends_with h base \<and> length base < length h \<and>
     (ends_with (take (length h - length base) h) ''.'' \<or> take (length h - length base) h = []))
   \<longleftrightarrow> (\<exists>sub. h = sub @ ''.'' @ base)"
  by (auto simp: ends_with_iff)

text \<open>\<open>host_matches\<close> against its reference: the host itself, or a name below the base domain.\<close>

lemma host_matches_iff:
  "host_matches e h \<longleftrightarrow>
     ep_host e = h \<or> (\<exists>base sub. ep_host e = ''*.'' @ base \<and> h = sub @ ''.'' @ base)"
proof (cases "strip_prefix (ep_host e) ''*.''")
  case None
  then have "\<nexists>base. ep_host e = ''*.'' @ base" by (metis option.distinct(1) strip_prefix_Some)
  with None show ?thesis by (auto simp: host_matches_def)
next
  case (Some base)
  then have "ep_host e = ''*.'' @ base" by (simp add: strip_prefix_Some)
  with Some append_dot_iff [of h base] show ?thesis
    by (auto simp: host_matches_def Let_def)
qed

interpretation ep_zone: zone_matcher "\<lambda>h. h" "\<lambda>p h. host_matches (ep_of_host p) h"
  by unfold_locales (auto simp: host_matches_iff in_zone_def ep_of_host_def)

lemma name_allowed_iff:
  "name_allowed ps name \<longleftrightarrow>
     (\<exists>p \<in> set ps. p = name \<or> (\<exists>pre rest. p = pre @ ''*'' \<and> name = pre @ rest))"
proof (induction ps)
  case (Cons p ps)
  have "(case strip_suffix p ''*'' of Some pre \<Rightarrow> starts_with name pre | None \<Rightarrow> False) \<longleftrightarrow>
        (\<exists>pre rest. p = pre @ ''*'' \<and> name = pre @ rest)"
  proof (cases "strip_suffix p ''*''")
    case None
    then have "\<nexists>pre. p = pre @ ''*''" by (metis option.distinct(1) strip_suffix_Some)
    with None show ?thesis by auto
  next
    case (Some pre)
    then have "p = pre @ ''*''" by (simp add: strip_suffix_Some)
    with Some show ?thesis by (auto simp: starts_with_iff)
  qed
  then have "name_allowed (p # ps) name \<longleftrightarrow>
      p = name \<or> (\<exists>pre rest. p = pre @ ''*'' \<and> name = pre @ rest) \<or> name_allowed ps name"
    by (simp only: name_allowed.simps) argo
  then show ?case by (simp only: Cons.IH list.set bex_simps) blast
qed simp

lemma ep_matches_iff:
  "ep_matches e h path method \<longleftrightarrow>
     host_matches e h \<and>
     (\<forall>p. ep_path_prefix e = Some p \<longrightarrow> starts_with path p) \<and>
     (ep_methods e = [] \<or> (\<exists>m \<in> set (ep_methods e). to_uppercase m = to_uppercase method))"
  by (auto simp: ep_matches_def list_ex_iff split: option.splits)

end
