(* ===== verification/Wasm_Allowlist.thy ===== *)
theory Wasm_Allowlist
  imports Wasm_Capabilities
begin

text \<open>
  The endpoint allowlist of the WASM sandbox, \<open>src/tools/wasm/allowlist.rs\<close>: the URL parser and the
  decision with its reasons for denial.
\<close>

datatype deny_reason =
    InvalidUrl string
  | HostNotAllowed string
  | PathNotAllowed string string
  | MethodNotAllowed string string
  | EmptyAllowlist
  | InsecureScheme string

datatype allowlist_result = Allowed | Denied deny_reason

definition is_allowed :: "allowlist_result \<Rightarrow> bool" where
  "is_allowed r = (r = Allowed)"

fun show_deny_reason :: "deny_reason \<Rightarrow> string" where
  "show_deny_reason (InvalidUrl url) = ''Invalid URL: '' @ url"
| "show_deny_reason (HostNotAllowed host) = ''Host not in allowlist: '' @ host"
| "show_deny_reason (PathNotAllowed host path) =
     ''Path not allowed for host '' @ host @ '': '' @ path"
| "show_deny_reason (MethodNotAllowed method host) =
     ''Method '' @ method @ '' not allowed for host '' @ host"
| "show_deny_reason EmptyAllowlist = ''No endpoints in allowlist''"
| "show_deny_reason (InsecureScheme scheme) =
     ''Insecure scheme: '' @ scheme @ '' (only HTTPS allowed)''"

section \<open>The URL parser\<close>

record parsed_url =
  pu_scheme :: string
  pu_host :: string
  pu_path :: string

text \<open>The part of the authority that is the host: the port, or the brackets of an IPv6 address,
  removed.\<close>

definition host_of_authority :: "string \<Rightarrow> string + string" where
  "host_of_authority host_and_port =
     (case rfind_str host_and_port '':'' of
        Some idx \<Rightarrow>
          (if starts_with host_and_port ''['' then
             (case find_str host_and_port '']'' of
                Some bracket_idx \<Rightarrow> Ok (drop 1 (take bracket_idx host_and_port))
              | None \<Rightarrow> Err ''Invalid IPv6 address'')
           else Ok (take idx host_and_port))
      | None \<Rightarrow> Ok host_and_port)"

definition parse_url :: "string \<Rightarrow> string + parsed_url" where
  "parse_url url =
     (case split_once url ''://'' of
        None \<Rightarrow> Err ''Missing scheme (expected http:// or https://)''
      | Some (scheme0, rest) \<Rightarrow>
          (let scheme = to_lowercase scheme0
           in if scheme \<noteq> ''http'' \<and> scheme \<noteq> ''https'' then Err (''Unsupported scheme: '' @ scheme)
              else
                (let authority = (case find_str rest ''/'' of Some idx \<Rightarrow> take idx rest | None \<Rightarrow> rest)
                 in if contains authority ''@''
                    then Err ''URL contains userinfo (@) which is not allowed''
                    else
                      (let (host_and_port, path) =
                             (case find_str rest ''/'' of
                                Some idx \<Rightarrow> (take idx rest, drop idx rest)
                              | None \<Rightarrow> (rest, ''/''))
                       in case host_of_authority host_and_port of
                            Inl e \<Rightarrow> Err e
                          | Inr host \<Rightarrow>
                              if contains host ''@'' \<or> contains host_and_port ''@''
                              then Err ''URL contains userinfo (@) which is not allowed''
                              else if host = [] then Err ''Empty host''
                              else Ok \<lparr>pu_scheme = scheme, pu_host = to_lowercase host,
                                       pu_path = path\<rparr>))))"

section \<open>The validator\<close>

record allowlist_validator =
  av_patterns :: "endpoint_pattern list"
  av_require_https :: bool

definition av_new :: "endpoint_pattern list \<Rightarrow> allowlist_validator" where
  "av_new patterns = \<lparr>av_patterns = patterns, av_require_https = True\<rparr>"

definition av_allow_http :: "allowlist_validator \<Rightarrow> allowlist_validator" where
  "av_allow_http v = v\<lparr>av_require_https := False\<rparr>"

definition av_validate :: "allowlist_validator \<Rightarrow> string \<Rightarrow> string \<Rightarrow> allowlist_result" where
  "av_validate v url method =
     (if av_patterns v = [] then Denied EmptyAllowlist
      else
        case parse_url url of
          Inl e \<Rightarrow> Denied (InvalidUrl e)
        | Inr parsed \<Rightarrow>
            (if av_require_https v \<and> pu_scheme parsed \<noteq> ''https''
             then Denied (InsecureScheme (pu_scheme parsed))
             else if list_ex (\<lambda>p. ep_matches p (pu_host parsed) (pu_path parsed) method) (av_patterns v)
             then Allowed
             else
               (let host_ok = filter (\<lambda>p. host_matches p (pu_host parsed)) (av_patterns v)
                in if host_ok = [] then Denied (HostNotAllowed (pu_host parsed))
                   else
                     (let path_ok = filter (\<lambda>p. case ep_path_prefix p of
                                                   None \<Rightarrow> True
                                                 | Some pre \<Rightarrow> starts_with (pu_path parsed) pre) host_ok
                      in if path_ok = []
                         then Denied (PathNotAllowed (pu_host parsed) (pu_path parsed))
                         else Denied (MethodNotAllowed method (pu_host parsed))))))"

definition av_host_allowed :: "allowlist_validator \<Rightarrow> string \<Rightarrow> bool" where
  "av_host_allowed v host = list_ex (\<lambda>p. host_matches p host) (av_patterns v)"

definition av_allowed_hosts :: "allowlist_validator \<Rightarrow> string list" where
  "av_allowed_hosts v = map ep_host (av_patterns v)"

section \<open>Reference: the authority of a URL\<close>

text \<open>
  RFC 3986, section 3.2: the authority follows the double slash and ends at the next slash,
  question mark or number sign, or at the end of the URL. The HTTP client connects to the host of
  this authority.
\<close>

definition url_authority :: "string \<Rightarrow> string" where
  "url_authority rest = takeWhile (\<lambda>c. c \<notin> {CHR ''/'', CHR ''?'', CHR ''#''}) rest"

section \<open>Lemmas\<close>

lemma find_char_dropWhile:
  "(case find_str s [c] of Some i \<Rightarrow> drop i s | None \<Rightarrow> []) = dropWhile (\<lambda>x. x \<noteq> c) s"
  by (induction s) (auto split: option.splits)

text \<open>A URL the parser accepts, read back.\<close>

lemma parse_url_Ok:
  assumes "parse_url url = Ok p"
  obtains scheme rest host where
    "url = scheme @ ''://'' @ rest" and "to_lowercase scheme = pu_scheme p"
    and "pu_scheme p \<in> {''http'', ''https''}"
    and "CHR ''@'' \<notin> set (takeWhile (\<lambda>c. c \<noteq> CHR ''/'') rest)"
    and "host_of_authority (takeWhile (\<lambda>c. c \<noteq> CHR ''/'') rest) = Ok host"
    and "host \<noteq> []" and "pu_host p = to_lowercase host"
    and "pu_path p = (if CHR ''/'' \<in> set rest then dropWhile (\<lambda>c. c \<noteq> CHR ''/'') rest else ''/'')"
    and "split_once url ''://'' = Some (scheme, rest)"
proof -
  from assms obtain scheme rest where s: "split_once url ''://'' = Some (scheme, rest)"
    by (auto simp: parse_url_def split: option.splits)
  let ?auth = "takeWhile (\<lambda>c. c \<noteq> CHR ''/'') rest"
  have auth: "(case find_str rest ''/'' of Some idx \<Rightarrow> take idx rest | None \<Rightarrow> rest) = ?auth"
    by (rule find_char_takeWhile)
  have split: "(case find_str rest ''/'' of Some idx \<Rightarrow> (take idx rest, drop idx rest)
                | None \<Rightarrow> (rest, ''/'')) =
      (?auth, if CHR ''/'' \<in> set rest then dropWhile (\<lambda>c. c \<noteq> CHR ''/'') rest else ''/'')"
    using auth find_char_dropWhile [of rest "CHR ''/''"] contains_char_iff [of rest "CHR ''/''"]
    by (auto simp: contains_def split: option.splits)
  from assms obtain host where
    "to_lowercase scheme = pu_scheme p" "pu_scheme p \<in> {''http'', ''https''}"
    "\<not> contains ?auth ''@''" "host_of_authority ?auth = Ok host" "host \<noteq> []"
    "pu_host p = to_lowercase host"
    "pu_path p = (if CHR ''/'' \<in> set rest then dropWhile (\<lambda>c. c \<noteq> CHR ''/'') rest else ''/'')"
    by (auto simp: parse_url_def s auth split Let_def split: if_splits sum.splits)
  with split_once_Some [OF s] s show ?thesis
    by (intro that) (auto simp: contains_char_iff)
qed

lemma av_validate_allowed:
  "av_validate v url method = Allowed \<longleftrightarrow>
     (\<exists>p e. parse_url url = Ok p \<and> (av_require_https v \<longrightarrow> pu_scheme p = ''https'') \<and>
        e \<in> set (av_patterns v) \<and> ep_matches e (pu_host p) (pu_path p) method)"
proof (cases "parse_url url")
  case (Inl err)
  then show ?thesis by (simp add: av_validate_def)
next
  case (Inr p)
  have "av_validate v url method = Allowed \<longleftrightarrow>
     (av_require_https v \<longrightarrow> pu_scheme p = ''https'') \<and>
     list_ex (\<lambda>e. ep_matches e (pu_host p) (pu_path p) method) (av_patterns v)"
    by (cases "av_patterns v") (simp_all add: av_validate_def Inr Let_def)
  with Inr show ?thesis by (auto simp: list_ex_iff)
qed

section \<open>Properties\<close>

lemma url_authority_no_query:
  assumes "CHR ''?'' \<notin> set (takeWhile (\<lambda>c. c \<noteq> CHR ''/'') rest)"
    and "CHR ''#'' \<notin> set (takeWhile (\<lambda>c. c \<noteq> CHR ''/'') rest)"
  shows "url_authority rest = takeWhile (\<lambda>c. c \<noteq> CHR ''/'') rest"
  using assms unfolding url_authority_def by (induction rest) (auto split: if_splits)

text \<open>C29: a URL the allowlist admits is an https URL without user information in its authority, and
  one of the patterns admits it: the host, with port and case normalised, lies in the zone of the
  pattern's host (never a look-alike such as \<open>evilexample.com\<close> for \<open>*.example.com\<close>), the path begins
  with the pattern's prefix and the method is one of its methods. When no question mark or number
  sign precedes the first slash, that host is the host of the URL's RFC 3986 authority.\<close>

theorem allowlist_sound:
  assumes "av_validate (av_new ps) url method = Allowed"
  shows "\<exists>scheme rest host path e.
     url = scheme @ ''://'' @ rest \<and> to_lowercase scheme = ''https'' \<and>
     CHR ''@'' \<notin> set (takeWhile (\<lambda>c. c \<noteq> CHR ''/'') rest) \<and>
     host_of_authority (takeWhile (\<lambda>c. c \<noteq> CHR ''/'') rest) = Ok host \<and>
     (CHR ''?'' \<notin> set (takeWhile (\<lambda>c. c \<noteq> CHR ''/'') rest) \<and>
      CHR ''#'' \<notin> set (takeWhile (\<lambda>c. c \<noteq> CHR ''/'') rest) \<longrightarrow>
        host_of_authority (url_authority rest) = Ok host) \<and>
     path = (if CHR ''/'' \<in> set rest then dropWhile (\<lambda>c. c \<noteq> CHR ''/'') rest else ''/'') \<and>
     e \<in> set ps \<and> in_zone (\<lambda>h. h) (ep_host e) (to_lowercase host) \<and>
     (\<forall>p. ep_path_prefix e = Some p \<longrightarrow> starts_with path p) \<and>
     (ep_methods e = [] \<or> (\<exists>m \<in> set (ep_methods e). to_uppercase m = to_uppercase method))"
proof -
  from assms obtain p e where p: "parse_url url = Ok p" "pu_scheme p = ''https''"
    and e: "e \<in> set ps" "ep_matches e (pu_host p) (pu_path p) method"
    by (auto simp: av_validate_allowed av_new_def)
  have "host_matches (ep_of_host (ep_host e)) (pu_host p)"
    using e(2) by (simp add: ep_matches_iff host_matches_def ep_of_host_def)
  then have zone: "in_zone (\<lambda>h. h) (ep_host e) (pu_host p)" by (rule ep_zone.sound)
  from p(1) show ?thesis
  proof (rule parse_url_Ok)
    fix scheme rest host
    assume r: "url = scheme @ ''://'' @ rest" "to_lowercase scheme = pu_scheme p"
      "CHR ''@'' \<notin> set (takeWhile (\<lambda>c. c \<noteq> CHR ''/'') rest)"
      "host_of_authority (takeWhile (\<lambda>c. c \<noteq> CHR ''/'') rest) = Ok host"
      "pu_host p = to_lowercase host"
      "pu_path p = (if CHR ''/'' \<in> set rest then dropWhile (\<lambda>c. c \<noteq> CHR ''/'') rest else ''/'')"
    have "host_of_authority (url_authority rest) = Ok host"
      if "CHR ''?'' \<notin> set (takeWhile (\<lambda>c. c \<noteq> CHR ''/'') rest)"
        "CHR ''#'' \<notin> set (takeWhile (\<lambda>c. c \<noteq> CHR ''/'') rest)"
      using r(4) by (simp only: url_authority_no_query [OF that])
    with r p(2) e(1) zone e(2) [unfolded ep_matches_iff] show ?thesis
      by (intro exI [of _ scheme] exI [of _ rest] exI [of _ host] exI [of _ "pu_path p"] exI [of _ e]) simp
  qed
qed

theorem allowlist_sound_witness:
  "\<exists>scheme rest. ''https://api.example.com/v1'' = scheme @ ''://'' @ rest \<and> to_lowercase scheme = ''https''"
proof -
  have "av_validate (av_new [ep_of_host ''*.example.com'']) ''https://api.example.com/v1'' ''GET'' = Allowed"
    by code_simp
  from allowlist_sound [OF this] show ?thesis by blast
qed

text \<open>The parser ends the authority only at a slash, so a query or a fragment that follows the
  host directly is taken for a part of it: a URL whose RFC 3986 authority is \<open>evil.com\<close> passes an
  allowlist that names only \<open>*.example.com\<close>.\<close>

theorem allowlist_query_bypass:
  "av_validate (av_new [ep_of_host ''*.example.com'']) ''https://evil.com?.example.com/'' ''GET'' = Allowed \<and>
   av_validate (av_new [ep_of_host ''*.example.com'']) ''https://evil.com#.example.com/'' ''GET'' = Allowed \<and>
   url_authority ''evil.com?.example.com/'' = ''evil.com'' \<and>
   \<not> in_zone (\<lambda>h. h) ''*.example.com'' ''evil.com''"
proof -
  have "av_validate (av_new [ep_of_host ''*.example.com'']) ''https://evil.com?.example.com/'' ''GET'' = Allowed"
    by code_simp
  moreover have "av_validate (av_new [ep_of_host ''*.example.com'']) ''https://evil.com#.example.com/'' ''GET'' = Allowed"
    by code_simp
  moreover have "url_authority ''evil.com?.example.com/'' = ''evil.com''" by (simp add: url_authority_def)
  moreover have "\<not> in_zone (\<lambda>h. h) ''*.example.com'' ''evil.com''"
  proof
    assume "in_zone (\<lambda>h. h) ''*.example.com'' ''evil.com''"
    then obtain sub where "''evil.com'' = sub @ ''.example.com''" by (auto simp: in_zone_def)
    then have "length ''evil.com'' = length sub + length ''.example.com''" by (simp only: length_append)
    then show False by simp
  qed
  ultimately show ?thesis by blast
qed

text \<open>A denial names its cause: for a URL that parses and has an acceptable scheme, the host is
  blamed exactly when no pattern admits the host, the path when some pattern admits the host but none
  of those the path, and the method when some pattern admits host and path.\<close>

theorem deny_reason_exact:
  assumes "av_patterns v \<noteq> []" and "parse_url url = Ok p"
    and "av_require_https v \<longrightarrow> pu_scheme p = ''https''"
  shows "(case av_validate v url method of
      Allowed \<Rightarrow> \<exists>e \<in> set (av_patterns v). ep_matches e (pu_host p) (pu_path p) method
    | Denied r \<Rightarrow>
        (\<forall>e \<in> set (av_patterns v). \<not> ep_matches e (pu_host p) (pu_path p) method) \<and>
        r = (if \<not> av_host_allowed v (pu_host p) then HostNotAllowed (pu_host p)
             else if \<exists>e \<in> set (av_patterns v). host_matches e (pu_host p) \<and>
                       (\<forall>pre. ep_path_prefix e = Some pre \<longrightarrow> starts_with (pu_path p) pre)
             then MethodNotAllowed method (pu_host p)
             else PathNotAllowed (pu_host p) (pu_path p)))"
proof -
  let ?path_ok = "\<lambda>e. case ep_path_prefix e of None \<Rightarrow> True | Some pre \<Rightarrow> starts_with (pu_path p) pre"
  have path_ok: "?path_ok e \<longleftrightarrow> (\<forall>pre. ep_path_prefix e = Some pre \<longrightarrow> starts_with (pu_path p) pre)" for e
    by (simp split: option.split)
  show ?thesis
    using assms
    by (auto simp: av_validate_def Let_def list_ex_iff filter_empty_conv av_host_allowed_def path_ok)
qed

theorem deny_reason_exact_witness:
  "av_validate (av_new [ep_of_host ''a.com'']) ''https://b.com/'' ''GET'' = Denied (HostNotAllowed ''b.com'')"
proof -
  let ?p = "\<lparr>pu_scheme = ''https'', pu_host = ''b.com'', pu_path = ''/''\<rparr>"
  have p: "parse_url ''https://b.com/'' = Ok ?p" by code_simp
  have h: "\<not> av_host_allowed (av_new [ep_of_host ''a.com'']) ''b.com''" by code_simp
  from deny_reason_exact [OF _ p, of "av_new [ep_of_host ''a.com'']" "''GET''"] h
  show ?thesis by (auto simp: av_new_def av_host_allowed_def ep_matches_iff split: allowlist_result.splits)
qed

end
