(* ===== verification/Wasm_Host.thy ===== *)
theory Wasm_Host
  imports Wasm_Allowlist
begin

text \<open>
  The host side of a WASM execution: the state and the host functions of
  \<open>src/tools/wasm/host.rs\<close> and the resource limits of \<open>src/tools/wasm/limits.rs\<close>. A panic of the
  source is the value None.
\<close>

section \<open>Data\<close>

definition MAX_LOG_ENTRIES :: nat where
  "MAX_LOG_ENTRIES = 1000"

definition MAX_LOG_MESSAGE_BYTES :: nat where
  "MAX_LOG_MESSAGE_BYTES = 4096"

datatype log_level = LTrace | LDebug | LInfo | LWarn | LError

fun show_log_level :: "log_level \<Rightarrow> string" where
  "show_log_level LTrace = ''TRACE''"
| "show_log_level LDebug = ''DEBUG''"
| "show_log_level LInfo = ''INFO''"
| "show_log_level LWarn = ''WARN''"
| "show_log_level LError = ''ERROR''"

record log_entry =
  le_level :: log_level
  le_message :: string
  le_timestamp_millis :: u64

record host_state =
  hs_logs :: "log_entry list"
  hs_logging_enabled :: bool
  hs_capabilities :: capabilities
  hs_logs_dropped :: nat
  hs_user_id :: "string option"
  hs_http_request_count :: u32
  hs_tool_invoke_count :: u32

text \<open>The variant of \<open>WasmError\<close> the host functions return, and the messages of the others. The
  text of a denied request embeds the debug form of the allowlist result; the result is kept.\<close>

datatype wasm_error = PathTraversalBlocked string

datatype host_error =
    HttpNotGranted
  | HttpNotAllowed allowlist_result
  | ToolInvokeNotGranted
  | UnknownToolAlias string
  | TooManyHttpRequests u32
  | TooManyToolInvocations u32

definition hs_new :: "capabilities \<Rightarrow> host_state" where
  "hs_new caps =
     \<lparr>hs_logs = [], hs_logging_enabled = True, hs_capabilities = caps, hs_logs_dropped = 0,
      hs_user_id = None, hs_http_request_count = 0, hs_tool_invoke_count = 0\<rparr>"

definition hs_new_with_user :: "capabilities \<Rightarrow> string \<Rightarrow> host_state" where
  "hs_new_with_user caps user =
     \<lparr>hs_logs = [], hs_logging_enabled = True, hs_capabilities = caps, hs_logs_dropped = 0,
      hs_user_id = Some user, hs_http_request_count = 0, hs_tool_invoke_count = 0\<rparr>"

definition hs_minimal :: host_state where
  "hs_minimal = hs_new cap_none"

section \<open>Logging\<close>

text \<open>\<open>message[..MAX]\<close> panics when the cut falls inside a character.\<close>

definition truncate_message :: "string \<Rightarrow> string option" where
  "truncate_message message =
     (if MAX_LOG_MESSAGE_BYTES < length message
      then if is_char_boundary message MAX_LOG_MESSAGE_BYTES
           then Some (take MAX_LOG_MESSAGE_BYTES message @ ''... (truncated)'')
           else None
      else Some message)"

text \<open>\<open>HostState::log\<close> at time \<open>now\<close>; it returns \<open>Ok(())\<close> whenever it returns.\<close>

definition hs_log :: "u64 \<Rightarrow> log_level \<Rightarrow> string \<Rightarrow> host_state \<Rightarrow> host_state option" where
  "hs_log now level message st =
     (if \<not> hs_logging_enabled st
      then Some (st\<lparr>hs_logs_dropped := hs_logs_dropped st + 1\<rparr>)
      else if MAX_LOG_ENTRIES \<le> length (hs_logs st)
      then Some (st\<lparr>hs_logging_enabled := False, hs_logs_dropped := hs_logs_dropped st + 1\<rparr>)
      else
        case truncate_message message of
          None \<Rightarrow> None
        | Some m \<Rightarrow>
            Some (st\<lparr>hs_logs := hs_logs st @
                      [\<lparr>le_level = level, le_message = m, le_timestamp_millis = now\<rparr>]\<rparr>))"

definition take_logs :: "host_state \<Rightarrow> log_entry list \<times> host_state" where
  "take_logs st = (hs_logs st, st\<lparr>hs_logs := []\<rparr>)"

section \<open>Workspace\<close>

text \<open>\<open>path.chars().nth(1) == Some(':')\<close> on the bytes: the second character starts after the
  continuation bytes of the first.\<close>

definition second_char_is_colon :: "string \<Rightarrow> bool" where
  "second_char_is_colon path =
     (case path of
        [] \<Rightarrow> False
      | c # cs \<Rightarrow> (case dropWhile is_continuation_byte cs of [] \<Rightarrow> False | d # _ \<Rightarrow> d = CHR '':''))"

definition validate_workspace_path :: "string \<Rightarrow> wasm_error + unit" where
  "validate_workspace_path path =
     (if starts_with path ''/'' then Err (PathTraversalBlocked ''absolute paths not allowed'')
      else if contains path ''..''
      then Err (PathTraversalBlocked ''parent directory references not allowed'')
      else if contains path [nul] then Err (PathTraversalBlocked ''null bytes not allowed'')
      else if 2 \<le> length path \<and> second_char_is_colon path
      then Err (PathTraversalBlocked ''Windows-style paths not allowed'')
      else Ok ())"

definition workspace_read :: "host_state \<Rightarrow> string \<Rightarrow> wasm_error + string option" where
  "workspace_read st path =
     (case cap_workspace_read (hs_capabilities st) of
        None \<Rightarrow> Ok None
      | Some cap \<Rightarrow>
          (case validate_workspace_path path of
             Inl e \<Rightarrow> Err e
           | Inr _ \<Rightarrow>
               if wc_allowed_prefixes cap \<noteq> [] \<and>
                  \<not> list_ex (\<lambda>p. starts_with path p) (wc_allowed_prefixes cap)
               then Ok None
               else (case wc_reader cap of Some reader \<Rightarrow> Ok (reader path) | None \<Rightarrow> Ok None)))"

section \<open>Secrets, HTTP and tools\<close>

definition secret_exists :: "host_state \<Rightarrow> string \<Rightarrow> bool" where
  "secret_exists st name =
     (case cap_secrets (hs_capabilities st) of None \<Rightarrow> False | Some cap \<Rightarrow> secret_is_allowed cap name)"

definition check_http_allowed :: "host_state \<Rightarrow> string \<Rightarrow> string \<Rightarrow> host_error + unit" where
  "check_http_allowed st url method =
     (case cap_http (hs_capabilities st) of
        None \<Rightarrow> Err HttpNotGranted
      | Some cap \<Rightarrow>
          (let r = av_validate (av_new (hc_allowlist cap)) url method
           in if is_allowed r then Ok () else Err (HttpNotAllowed r)))"

definition check_tool_invoke_allowed :: "host_state \<Rightarrow> string \<Rightarrow> host_error + string" where
  "check_tool_invoke_allowed st alias =
     (case cap_tool_invoke (hs_capabilities st) of
        None \<Rightarrow> Err ToolInvokeNotGranted
      | Some cap \<Rightarrow>
          (case resolve_alias cap alias of
             Some name \<Rightarrow> Ok name
           | None \<Rightarrow> Err (UnknownToolAlias alias)))"

definition record_http_request :: "host_state \<Rightarrow> (host_error + unit) \<times> host_state" where
  "record_http_request st =
     (case cap_http (hs_capabilities st) of
        None \<Rightarrow> (Err HttpNotGranted, st)
      | Some _ \<Rightarrow>
          (let st' = st\<lparr>hs_http_request_count := hs_http_request_count st + 1\<rparr>
           in if 50 < hs_http_request_count st' then (Err (TooManyHttpRequests 50), st')
              else (Ok (), st')))"

definition record_tool_invoke :: "host_state \<Rightarrow> (host_error + unit) \<times> host_state" where
  "record_tool_invoke st =
     (let st' = st\<lparr>hs_tool_invoke_count := hs_tool_invoke_count st + 1\<rparr>
      in if 20 < hs_tool_invoke_count st' then (Err (TooManyToolInvocations 20), st')
         else (Ok (), st'))"

section \<open>Resource limits\<close>

definition DEFAULT_MEMORY_LIMIT :: u64 where
  "DEFAULT_MEMORY_LIMIT = 10 * 1024 * 1024"

definition DEFAULT_FUEL_LIMIT :: u64 where
  "DEFAULT_FUEL_LIMIT = 10000000"

text \<open>Durations of this file are seconds.\<close>

definition DEFAULT_TIMEOUT :: duration where
  "DEFAULT_TIMEOUT = 60"

record resource_limits =
  lim_memory_bytes :: u64
  lim_fuel :: u64
  lim_timeout :: duration

definition limits_default :: resource_limits where
  "limits_default =
     \<lparr>lim_memory_bytes = DEFAULT_MEMORY_LIMIT, lim_fuel = DEFAULT_FUEL_LIMIT,
      lim_timeout = DEFAULT_TIMEOUT\<rparr>"

definition with_memory :: "u64 \<Rightarrow> resource_limits \<Rightarrow> resource_limits" where
  "with_memory bytes l = l\<lparr>lim_memory_bytes := bytes\<rparr>"

definition with_fuel :: "u64 \<Rightarrow> resource_limits \<Rightarrow> resource_limits" where
  "with_fuel fuel l = l\<lparr>lim_fuel := fuel\<rparr>"

definition with_timeout :: "duration \<Rightarrow> resource_limits \<Rightarrow> resource_limits" where
  "with_timeout t l = l\<lparr>lim_timeout := t\<rparr>"

record wasm_resource_limiter =
  wrl_memory_limit :: u64
  wrl_memory_used :: u64
  wrl_max_tables :: u32
  wrl_tables_created :: u32
  wrl_max_instances :: u32
  wrl_instances_created :: u32

definition wrl_new :: "u64 \<Rightarrow> wasm_resource_limiter" where
  "wrl_new limit =
     \<lparr>wrl_memory_limit = limit, wrl_memory_used = 0, wrl_max_tables = 10, wrl_tables_created = 0,
      wrl_max_instances = 10, wrl_instances_created = 0\<rparr>"

text \<open>\<open>usize\<close> is 64 bits wide on the supported targets, so \<open>desired as u64\<close> is the identity.\<close>

definition memory_growing ::
  "u64 \<Rightarrow> u64 \<Rightarrow> wasm_resource_limiter \<Rightarrow> bool \<times> wasm_resource_limiter" where
  "memory_growing current desired l =
     (if wrl_memory_limit l < desired then (False, l)
      else (True, l\<lparr>wrl_memory_used := desired\<rparr>))"

definition table_growing :: "u64 \<Rightarrow> u64 \<Rightarrow> wasm_resource_limiter \<Rightarrow> bool" where
  "table_growing current desired l = (\<not> 10000 < desired)"

definition limiter_instances :: "wasm_resource_limiter \<Rightarrow> nat" where
  "limiter_instances l = unat (wrl_max_instances l)"

definition limiter_tables :: "wasm_resource_limiter \<Rightarrow> nat" where
  "limiter_tables l = unat (wrl_max_tables l)"

definition limiter_memories :: "wasm_resource_limiter \<Rightarrow> nat" where
  "limiter_memories l = unat (wrl_max_instances l)"

record fuel_config =
  fc_initial_fuel :: u64
  fc_enabled :: bool

definition fuel_default :: fuel_config where
  "fuel_default = \<lparr>fc_initial_fuel = DEFAULT_FUEL_LIMIT, fc_enabled = True\<rparr>"

definition fuel_disabled :: fuel_config where
  "fuel_disabled = \<lparr>fc_initial_fuel = 0, fc_enabled = False\<rparr>"

definition fuel_with_limit :: "u64 \<Rightarrow> fuel_config" where
  "fuel_with_limit fuel = \<lparr>fc_initial_fuel = fuel, fc_enabled = True\<rparr>"

section \<open>One execution as a sequence of host calls\<close>

datatype host_call = CLog u64 log_level string | CHttp | CTool

text \<open>The calls one execution makes, and how many of each kind were granted: a trap in \<open>log\<close> ends
  the execution.\<close>

fun host_run :: "host_call list \<Rightarrow> host_state \<Rightarrow> (nat \<times> nat \<times> host_state) option" where
  "host_run [] st = Some (0, 0, st)"
| "host_run (CLog now level m # cs) st =
     (case hs_log now level m st of None \<Rightarrow> None | Some st' \<Rightarrow> host_run cs st')"
| "host_run (CHttp # cs) st =
     (case record_http_request st of
        (r, st') \<Rightarrow> map_option (\<lambda>(h, t, s). (h + (if is_ok r then 1 else 0), t, s)) (host_run cs st'))"
| "host_run (CTool # cs) st =
     (case record_tool_invoke st of
        (r, st') \<Rightarrow> map_option (\<lambda>(h, t, s). (h, t + (if is_ok r then 1 else 0), s)) (host_run cs st'))"

definition log_calls :: "host_call list \<Rightarrow> nat" where
  "log_calls cs = length (filter (\<lambda>c. case c of CLog _ _ _ \<Rightarrow> True | _ \<Rightarrow> False) cs)"

text \<open>The state of the log: within its bounds, and disabled only when full.\<close>

definition host_inv :: "host_state \<Rightarrow> bool" where
  "host_inv st \<longleftrightarrow>
     length (hs_logs st) \<le> MAX_LOG_ENTRIES \<and>
     list_all (\<lambda>e. length (le_message e) \<le> MAX_LOG_MESSAGE_BYTES + 15) (hs_logs st) \<and>
     (0 < hs_logs_dropped st \<longrightarrow> \<not> hs_logging_enabled st) \<and>
     (\<not> hs_logging_enabled st \<longrightarrow> length (hs_logs st) = MAX_LOG_ENTRIES)"

section \<open>Lemmas\<close>

lemma length_truncate_message:
  "truncate_message m = Some t \<Longrightarrow> length t \<le> MAX_LOG_MESSAGE_BYTES + 15"
  by (auto simp: truncate_message_def split: if_splits)

lemma host_inv_new: "host_inv (hs_new caps)" "host_inv (hs_new_with_user caps u)"
  by (simp_all add: host_inv_def hs_new_def hs_new_with_user_def)

lemma hs_log_inv:
  assumes "host_inv st" and "hs_log now level m st = Some st'"
  shows "host_inv st'"
    and "length (hs_logs st') + hs_logs_dropped st' = length (hs_logs st) + hs_logs_dropped st + 1"
    and "hs_capabilities st' = hs_capabilities st"
    and "hs_http_request_count st' = hs_http_request_count st"
    and "hs_tool_invoke_count st' = hs_tool_invoke_count st"
  using assms length_truncate_message [of m]
  by (auto simp: hs_log_def host_inv_def split: if_splits option.splits)

lemma record_http_request_log [frame]:
  "snd (record_http_request st) =
     (if cap_http (hs_capabilities st) = None then st
      else st\<lparr>hs_http_request_count := hs_http_request_count st + 1\<rparr>)"
  by (auto simp: record_http_request_def Let_def split: option.splits)

lemma record_tool_invoke_log [frame]:
  "snd (record_tool_invoke st) = st\<lparr>hs_tool_invoke_count := hs_tool_invoke_count st + 1\<rparr>"
  by (simp add: record_tool_invoke_def Let_def)

lemma host_inv_counts [simp]:
  "host_inv (st\<lparr>hs_http_request_count := n\<rparr>) = host_inv st"
  "host_inv (st\<lparr>hs_tool_invoke_count := n\<rparr>) = host_inv st"
  by (simp_all add: host_inv_def)

lemma host_run_log:
  "host_run cs st = Some (h, t, st') \<Longrightarrow> host_inv st \<Longrightarrow>
     host_inv st' \<and>
     length (hs_logs st') + hs_logs_dropped st' = length (hs_logs st) + hs_logs_dropped st + log_calls cs"
proof (induction cs st arbitrary: h t rule: host_run.induct)
  case (2 now level m cs st)
  then obtain s where s: "hs_log now level m st = Some s" and r: "host_run cs s = Some (h, t, st')"
    by (auto split: option.splits)
  with 2 hs_log_inv(1,2) [OF _ s] show ?case by (auto simp: log_calls_def)
next
  case (3 cs st)
  obtain r s where s: "record_http_request st = (r, s)" by (cases "record_http_request st")
  with record_http_request_log [of st] have "host_inv s" "hs_logs s = hs_logs st"
    "hs_logs_dropped s = hs_logs_dropped st"
    using "3.prems"(2) by (auto split: if_splits)
  with 3 s show ?case by (auto simp: log_calls_def)
next
  case (4 cs st)
  obtain r s where s: "record_tool_invoke st = (r, s)" by (cases "record_tool_invoke st")
  with record_tool_invoke_log [of st] have "host_inv s" "hs_logs s = hs_logs st"
    "hs_logs_dropped s = hs_logs_dropped st"
    using "4.prems"(2) by auto
  with 4 s show ?case by (auto simp: log_calls_def)
qed (simp add: log_calls_def)

text \<open>Counting the requests granted: below the wrap-around of the counter, a grant uses up one of
  the fifty (twenty) the execution has.\<close>

lemma unat_suc: "unat w + 1 < 2 ^ 32 \<Longrightarrow> unat (w + 1 :: u32) = unat w + 1"
  by (simp add: unat_word_ariths)

lemma record_http_request_count:
  assumes "record_http_request st = (r, st')" and "unat (hs_http_request_count st) + 1 < 2 ^ 32"
  shows "is_ok r \<Longrightarrow> unat (hs_http_request_count st) < 50 \<and>
           unat (hs_http_request_count st') = unat (hs_http_request_count st) + 1"
    and "unat (hs_http_request_count st) \<le> unat (hs_http_request_count st')"
    and "unat (hs_http_request_count st') \<le> unat (hs_http_request_count st) + 1"
    and "hs_tool_invoke_count st' = hs_tool_invoke_count st"
  using assms unat_suc [OF assms(2)]
  by (auto simp: record_http_request_def Let_def word_less_nat_alt split: option.splits if_splits)

lemma record_tool_invoke_count:
  assumes "record_tool_invoke st = (r, st')" and "unat (hs_tool_invoke_count st) + 1 < 2 ^ 32"
  shows "is_ok r \<Longrightarrow> unat (hs_tool_invoke_count st) < 20 \<and>
           unat (hs_tool_invoke_count st') = unat (hs_tool_invoke_count st) + 1"
    and "unat (hs_tool_invoke_count st) \<le> unat (hs_tool_invoke_count st')"
    and "unat (hs_tool_invoke_count st') \<le> unat (hs_tool_invoke_count st) + 1"
    and "hs_http_request_count st' = hs_http_request_count st"
  using assms unat_suc [OF assms(2)]
  by (auto simp: record_tool_invoke_def Let_def word_less_nat_alt split: if_splits)

lemma host_run_counts:
  assumes "host_run cs st = Some (h, t, st')"
    and "unat (hs_http_request_count st) + length cs < 2 ^ 32"
    and "unat (hs_tool_invoke_count st) + length cs < 2 ^ 32"
  shows "h \<le> 50 - unat (hs_http_request_count st) \<and> t \<le> 20 - unat (hs_tool_invoke_count st)"
  using assms
proof (induction cs st arbitrary: h t rule: host_run.induct)
  case (2 now level m cs st)
  then obtain s where s: "hs_log now level m st = Some s" and r: "host_run cs s = Some (h, t, st')"
    by (auto split: option.splits)
  from s have "hs_http_request_count s = hs_http_request_count st"
    "hs_tool_invoke_count s = hs_tool_invoke_count st"
    by (auto simp: hs_log_def split: if_splits option.splits)
  with "2.IH" [OF s r] "2.prems"(2,3) show ?case by simp
next
  case (3 cs st)
  obtain r s where s: "record_http_request st = (r, s)" by (cases "record_http_request st")
  with "3.prems"(1) obtain h' where r: "host_run cs s = Some (h', t, st')"
    and h: "h = h' + (if is_ok r then 1 else 0)" by auto
  from "3.prems"(2) have b: "unat (hs_http_request_count st) + 1 < 2 ^ 32" by simp
  note c = record_http_request_count [OF s b]
  from "3.IH" [OF s [symmetric] r] c(3,4) "3.prems"(2,3)
  have "h' \<le> 50 - unat (hs_http_request_count s) \<and> t \<le> 20 - unat (hs_tool_invoke_count s)"
    by simp
  with h c show ?case by (cases "is_ok r") auto
next
  case (4 cs st)
  obtain r s where s: "record_tool_invoke st = (r, s)" by (cases "record_tool_invoke st")
  with "4.prems"(1) obtain t' where r: "host_run cs s = Some (h, t', st')"
    and t: "t = t' + (if is_ok r then 1 else 0)" by auto
  from "4.prems"(3) have b: "unat (hs_tool_invoke_count st) + 1 < 2 ^ 32" by simp
  note c = record_tool_invoke_count [OF s b]
  from "4.IH" [OF s [symmetric] r] c(3,4) "4.prems"(2,3)
  have "h \<le> 50 - unat (hs_http_request_count s) \<and> t' \<le> 20 - unat (hs_tool_invoke_count s)"
    by simp
  with t c show ?case by (cases "is_ok r") auto
qed simp

text \<open>A workspace read that returns content was granted, on a path that passed every check.\<close>

lemma validate_workspace_path_Ok [ok_iff]:
  "validate_workspace_path p = Ok () \<longleftrightarrow>
     \<not> starts_with p ''/'' \<and> \<not> contains p ''..'' \<and> nul \<notin> set p \<and>
     \<not> (2 \<le> length p \<and> second_char_is_colon p)"
  by (auto simp: validate_workspace_path_def contains_char_iff)

lemma workspace_read_Some [ok_iff]:
  "workspace_read st path = Ok (Some content) \<longleftrightarrow>
     (\<exists>cap reader. cap_workspace_read (hs_capabilities st) = Some cap \<and> wc_reader cap = Some reader \<and>
        reader path = Some content \<and> validate_workspace_path path = Ok () \<and>
        (wc_allowed_prefixes cap = [] \<or> (\<exists>p \<in> set (wc_allowed_prefixes cap). starts_with path p)))"
  by (auto simp: workspace_read_def list_ex_iff split: option.splits sum.splits)

section \<open>Properties\<close>

text \<open>However many messages a tool logs, its execution keeps at most 1000 entries of at most 4111
  bytes each, every further message is counted as dropped, and no message is lost silently: kept and
  dropped messages together are the messages logged.\<close>

theorem log_bounded:
  assumes "host_run cs (hs_new caps) = Some (h, t, st)"
  shows "length (hs_logs st) \<le> 1000 \<and> list_all (\<lambda>e. length (le_message e) \<le> 4111) (hs_logs st) \<and>
     length (hs_logs st) + hs_logs_dropped st = log_calls cs \<and>
     (0 < hs_logs_dropped st \<longrightarrow> length (hs_logs st) = 1000)"
proof -
  from host_run_log [OF assms host_inv_new(1)]
  have "host_inv st" and "length (hs_logs st) + hs_logs_dropped st = log_calls cs"
    by (simp_all add: hs_new_def)
  then show ?thesis
    unfolding host_inv_def MAX_LOG_ENTRIES_def MAX_LOG_MESSAGE_BYTES_def by auto
qed

theorem log_bounded_witness:
  "(case host_run [CLog 0 LInfo ''a'', CHttp, CLog 1 LWarn ''b''] (hs_new cap_none) of
      None \<Rightarrow> False | Some (h, t, st) \<Rightarrow> length (hs_logs st) + hs_logs_dropped st = 2)"
proof -
  have log: "hs_log now l m st = Some (st\<lparr>hs_logs := hs_logs st @ [\<lparr>le_level = l, le_message = m, le_timestamp_millis = now\<rparr>]\<rparr>)"
    if "hs_logging_enabled st" "length (hs_logs st) < 1000" "length m < 4096" for now l m st
    using that by (simp add: hs_log_def truncate_message_def MAX_LOG_ENTRIES_def MAX_LOG_MESSAGE_BYTES_def)
  obtain h t st where "host_run [CLog 0 LInfo ''a'', CHttp, CLog 1 LWarn ''b''] (hs_new cap_none) = Some (h, t, st)"
    by (simp add: log hs_new_def record_http_request_def cap_none_def)
  with log_bounded [OF this] show ?thesis by (simp add: log_calls_def)
qed

text \<open>Truncating a long message cuts it at byte 4096 whatever character is there: a message of
  4096 bytes of text followed by the second byte of a character makes the host panic.\<close>

theorem log_truncation_panics:
  assumes "hs_logging_enabled st" and "length (hs_logs st) < 1000"
    and "4096 < length m" and "is_continuation_byte (m ! 4096)"
  shows "hs_log now level m st = None"
  using assms
  by (simp add: hs_log_def truncate_message_def MAX_LOG_ENTRIES_def MAX_LOG_MESSAGE_BYTES_def
      is_char_boundary_def)

theorem log_truncation_panics_witness:
  "hs_log 0 LInfo (replicate 4095 CHR ''a'' @ [char_of (195 :: nat), char_of (169 :: nat)]) hs_minimal = None"
  by (rule log_truncation_panics)
    (simp_all add: hs_minimal_def hs_new_def nth_append is_continuation_byte_def)

text \<open>One execution gets at most 50 HTTP requests and 20 tool invocations, whatever it calls, as
  long as it makes fewer calls than the 32-bit counters can count.\<close>

theorem execution_quota:
  assumes "host_run cs (hs_new caps) = Some (h, t, st)" and "length cs < 2 ^ 32"
  shows "h \<le> 50 \<and> t \<le> 20"
  using host_run_counts [OF assms(1)] assms(2) by (simp add: hs_new_def)

theorem execution_quota_witness:
  "(case host_run (replicate 3 CTool) (hs_new cap_none) of None \<Rightarrow> False | Some (h, t, st) \<Rightarrow> h \<le> 50 \<and> t \<le> 20)"
proof -
  obtain h t st where r: "host_run (replicate 3 CTool) (hs_new cap_none) = Some (h, t, st)"
    by (simp add: numeral_3_eq_3 record_tool_invoke_def Let_def split_beta)
  from execution_quota [OF r] r show ?thesis by simp
qed

text \<open>A workspace read hands content to the tool only when the capability is granted and the path
  is relative, has no parent reference, no NUL byte and no drive letter, and lies under one of the
  allowed prefixes when there are any; then the content is what the reader has for that very path.\<close>

theorem workspace_read_confined:
  assumes "workspace_read st path = Ok (Some content)"
  shows "\<exists>cap reader. cap_workspace_read (hs_capabilities st) = Some cap \<and> wc_reader cap = Some reader \<and>
     reader path = Some content \<and> \<not> starts_with path ''/'' \<and> (\<nexists>a b. path = a @ ''..'' @ b) \<and>
     nul \<notin> set path \<and> \<not> (2 \<le> length path \<and> second_char_is_colon path) \<and>
     (wc_allowed_prefixes cap = [] \<or> (\<exists>p \<in> set (wc_allowed_prefixes cap). starts_with path p))"
  using assms unfolding workspace_read_Some validate_workspace_path_Ok contains_iff by blast

theorem workspace_read_confined_witness:
  "\<exists>cap reader. cap_workspace_read (hs_capabilities (hs_new (cap_none\<lparr>cap_workspace_read :=
      Some \<lparr>wc_allowed_prefixes = [''docs/''], wc_reader = Some (\<lambda>p. Some p)\<rparr>\<rparr>))) = Some cap \<and>
    wc_reader cap = Some reader \<and> reader ''docs/a'' = Some ''docs/a''"
proof -
  have "workspace_read (hs_new (cap_none\<lparr>cap_workspace_read :=
      Some \<lparr>wc_allowed_prefixes = [''docs/''], wc_reader = Some (\<lambda>p. Some p)\<rparr>\<rparr>)) ''docs/a'' = Ok (Some ''docs/a'')"
    by code_simp
  from workspace_read_confined [OF this] show ?thesis by blast
qed

end
