(* ===== verification/Credential_Injector.thy ===== *)
theory Credential_Injector
  imports Wasm_Capabilities
begin

text \<open>
  Credential injection at the host boundary, \<open>src/tools/wasm/credential_injector.rs\<close>: which
  credentials a request to a host receives, the secrets the tool may use, where the value goes in
  the request, and the base64 encoder of the basic authorization header. The secrets store is the
  trait \<open>SecretsStore\<close>; its \<open>get_decrypted\<close> is the argument \<open>store\<close> of \<open>inject\<close>.
\<close>

unbundle bit_operations_syntax

section \<open>Errors\<close>

datatype secret_error =
    SecNotFound string
  | SecExpired
  | SecDecryptionFailed string
  | SecEncryptionFailed string
  | SecInvalidMasterKey
  | SecInvalidUtf8
  | SecDatabase string
  | SecAccessDenied
  | SecKeychainError string

fun show_secret_error :: "secret_error \<Rightarrow> string" where
  "show_secret_error (SecNotFound n) = ''Secret not found: '' @ n"
| "show_secret_error SecExpired = ''Secret has expired''"
| "show_secret_error (SecDecryptionFailed m) = ''Decryption failed: '' @ m"
| "show_secret_error (SecEncryptionFailed m) = ''Encryption failed: '' @ m"
| "show_secret_error SecInvalidMasterKey = ''Invalid master key''"
| "show_secret_error SecInvalidUtf8 = ''Secret value is not valid UTF-8''"
| "show_secret_error (SecDatabase m) = ''Database error: '' @ m"
| "show_secret_error SecAccessDenied = ''Secret access denied for tool''"
| "show_secret_error (SecKeychainError m) = ''Keychain error: '' @ m"

datatype injection_error =
    InjSecretNotFound string
  | InjAccessDenied string
  | InjSecretExpired string
  | InjDecryptionFailed string
  | InjNoMatchingCredential string

text \<open>\<open>From<SecretError>\<close>, and the closure of \<open>inject\<close> that keeps the name of the secret.\<close>

fun injection_error_from :: "secret_error \<Rightarrow> injection_error" where
  "injection_error_from (SecNotFound name) = InjSecretNotFound name"
| "injection_error_from SecExpired = InjSecretExpired ''unknown''"
| "injection_error_from SecAccessDenied = InjAccessDenied ''unknown''"
| "injection_error_from (SecDecryptionFailed msg) = InjDecryptionFailed msg"
| "injection_error_from e = InjDecryptionFailed (show_secret_error e)"

fun inject_map_err :: "string \<Rightarrow> secret_error \<Rightarrow> injection_error" where
  "inject_map_err secret_name (SecNotFound name) = InjSecretNotFound name"
| "inject_map_err secret_name SecExpired = InjSecretExpired secret_name"
| "inject_map_err secret_name e = InjDecryptionFailed (show_secret_error e)"

section \<open>Base64\<close>

definition ALPHABET :: string where
  "ALPHABET = ''ABCDEFGHIJKLMNOPQRSTUVWXYZabcdefghijklmnopqrstuvwxyz0123456789+/''"

definition alphabet_at :: "u8 \<Rightarrow> char" where
  "alphabet_at w = ALPHABET ! unat w"

text \<open>The loop of \<open>base64_encode\<close> from index \<open>i\<close>.\<close>

function base64_loop :: "u8 list \<Rightarrow> nat \<Rightarrow> string" where
  "base64_loop input i =
     (if i < length input then
        (let b0 = input ! i;
             b1 = (if i + 1 < length input then input ! (i + 1) else 0);
             b2 = (if i + 2 < length input then input ! (i + 2) else 0)
         in [alphabet_at (drop_bit 2 b0),
             alphabet_at (push_bit 4 (b0 AND 3) OR drop_bit 4 b1),
             if i + 1 < length input
             then alphabet_at (push_bit 2 (b1 AND 15) OR drop_bit 6 b2) else CHR ''='',
             if i + 2 < length input then alphabet_at (b2 AND 63) else CHR ''='']
            @ base64_loop input (i + 3))
      else [])"
  by pat_completeness auto
termination
  by (relation "measure (\<lambda>(input, i). length input - i)") auto

declare base64_loop.simps [simp del]

definition base64_encode :: "u8 list \<Rightarrow> string" where
  "base64_encode input = base64_loop input 0"

definition as_bytes :: "string \<Rightarrow> u8 list" where
  "as_bytes s = map of_char s"

section \<open>The injector\<close>

record injected_credentials =
  ic_headers :: "(string, string) hash_map"
  ic_query_params :: "(string, string) hash_map"

definition ic_empty :: injected_credentials where
  "ic_empty = \<lparr>ic_headers = [], ic_query_params = []\<rparr>"

definition ic_is_empty :: "injected_credentials \<Rightarrow> bool" where
  "ic_is_empty r = (ic_headers r = [] \<and> ic_query_params r = [])"

record credential_injector =
  ci_mappings :: "(string, credential_mapping) hash_map"
  ci_allowed_secrets :: "string list"

definition ci_new :: "(string, credential_mapping) hash_map \<Rightarrow> string list \<Rightarrow> credential_injector" where
  "ci_new mappings allowed = \<lparr>ci_mappings = mappings, ci_allowed_secrets = allowed\<rparr>"

definition host_matches_pattern :: "string \<Rightarrow> string \<Rightarrow> bool" where
  "host_matches_pattern host pattern =
     (if pattern = host then True
      else
        case strip_prefix pattern ''*.'' of
          Some suff \<Rightarrow>
            if ends_with host suff \<and> length suff < length host
            then (let pre = take (length host - length suff) host
                  in ends_with pre ''.'' \<or> pre = [])
            else False
        | None \<Rightarrow> False)"

definition find_credentials_for_host :: "credential_injector \<Rightarrow> string \<Rightarrow> credential_mapping list" where
  "find_credentials_for_host ci host =
     filter (\<lambda>m. list_ex (host_matches_pattern host) (crm_host_patterns m)) (map snd (ci_mappings ci))"

definition is_secret_allowed :: "credential_injector \<Rightarrow> string \<Rightarrow> bool" where
  "is_secret_allowed ci name = name_allowed (ci_allowed_secrets ci) name"

fun inject_credential ::
  "injected_credentials \<Rightarrow> credential_location \<Rightarrow> string \<Rightarrow> injected_credentials" where
  "inject_credential r AuthorizationBearer secret =
     r\<lparr>ic_headers := hm_insert ''Authorization'' (''Bearer '' @ secret) (ic_headers r)\<rparr>"
| "inject_credential r (AuthorizationBasic username) secret =
     (let encoded = base64_encode (as_bytes (username @ '':'' @ secret))
      in r\<lparr>ic_headers := hm_insert ''Authorization'' (''Basic '' @ encoded) (ic_headers r)\<rparr>)"
| "inject_credential r (HeaderLoc name pre) secret =
     (let v = (case pre of Some p \<Rightarrow> p @ secret | None \<Rightarrow> secret)
      in r\<lparr>ic_headers := hm_insert name v (ic_headers r)\<rparr>)"
| "inject_credential r (QueryParam name) secret =
     r\<lparr>ic_query_params := hm_insert name secret (ic_query_params r)\<rparr>"
| "inject_credential r (UrlPath placeholder) secret = r"

text \<open>The loop of \<open>inject\<close> over the matching mappings; the secrets the store was asked for are
  the ones the loop reaches.\<close>

fun inject_loop ::
  "(string \<Rightarrow> string \<Rightarrow> secret_error + string) \<Rightarrow> credential_injector \<Rightarrow> string \<Rightarrow>
   credential_mapping list \<Rightarrow> injected_credentials \<Rightarrow> injection_error + injected_credentials" where
  "inject_loop store ci user_id [] r = Ok r"
| "inject_loop store ci user_id (m # ms) r =
     (if \<not> is_secret_allowed ci (crm_secret_name m) then Err (InjAccessDenied (crm_secret_name m))
      else
        case store user_id (crm_secret_name m) of
          Inl e \<Rightarrow> Err (inject_map_err (crm_secret_name m) e)
        | Inr secret \<Rightarrow>
            inject_loop store ci user_id ms (inject_credential r (crm_location m) secret))"

definition inject ::
  "(string \<Rightarrow> string \<Rightarrow> secret_error + string) \<Rightarrow> credential_injector \<Rightarrow> string \<Rightarrow> string \<Rightarrow>
   injection_error + injected_credentials" where
  "inject store ci user_id host =
     (let matching = find_credentials_for_host ci host
      in if matching = [] then Ok ic_empty
         else inject_loop store ci user_id matching ic_empty)"

section \<open>Host patterns\<close>

lemma host_matches_pattern_eq: "host_matches_pattern host p = host_matches (ep_of_host p) host"
  by (simp add: host_matches_pattern_def host_matches_def ep_of_host_def)

interpretation cred_zone: zone_matcher "\<lambda>h. h" "\<lambda>p h. host_matches_pattern h p"
  unfolding host_matches_pattern_eq by (rule ep_zone.zone_matcher_axioms)

lemma find_credentials_zone:
  assumes "m \<in> set (find_credentials_for_host ci host)"
  shows "m \<in> snd ` set (ci_mappings ci)" and "\<exists>p \<in> set (crm_host_patterns m). in_zone (\<lambda>h. h) p host"
  using assms cred_zone.any_sound [of "crm_host_patterns m" host]
  by (auto simp: find_credentials_for_host_def list_ex_iff)

section \<open>Injection\<close>

text \<open>What one location contributes, and that the loop builds the request from the contributions
  of the matching mappings in order.\<close>

lemma inject_loop_Ok_iff:
  "inject_loop store ci user_id ms r = Ok r' \<longleftrightarrow>
     (\<forall>m \<in> set ms. is_secret_allowed ci (crm_secret_name m) \<and>
        is_ok (store user_id (crm_secret_name m))) \<and>
     r' = fold (\<lambda>m r. inject_credential r (crm_location m)
                  (projr (store user_id (crm_secret_name m)))) ms r"
  by (induction ms arbitrary: r) (auto simp: is_ok_def split: sum.splits)

lemma inject_loop_cong:
  assumes "\<And>m. m \<in> set ms \<Longrightarrow> is_secret_allowed ci (crm_secret_name m) \<Longrightarrow>
      store user_id (crm_secret_name m) = store' user_id (crm_secret_name m)"
  shows "inject_loop store ci user_id ms r = inject_loop store' ci user_id ms r"
  using assms by (induction ms arbitrary: r) (auto split: sum.splits)

section \<open>The encoder against a decoder\<close>

text \<open>The decoder of RFC 4648, the reference: four characters to three bytes.\<close>

fun alphabet_index :: "string \<Rightarrow> char \<Rightarrow> nat option" where
  "alphabet_index [] c = None"
| "alphabet_index (a # as) c = (if a = c then Some 0 else map_option Suc (alphabet_index as c))"

definition sextet :: "char \<Rightarrow> u8 option" where
  "sextet c = map_option of_nat (alphabet_index ALPHABET c)"

fun base64_decode :: "string \<Rightarrow> u8 list option" where
  "base64_decode [] = Some []"
| "base64_decode (c0 # c1 # c2 # c3 # cs) =
     (case (sextet c0, sextet c1) of
        (Some s0, Some s1) \<Rightarrow>
          (let d0 = push_bit 2 s0 OR drop_bit 4 s1 in
           if c2 = CHR ''='' \<and> c3 = CHR ''='' \<and> cs = [] then Some [d0]
           else case sextet c2 of
             None \<Rightarrow> None
           | Some s2 \<Rightarrow>
               (let d1 = push_bit 4 s1 OR drop_bit 2 s2 in
                if c3 = CHR ''='' \<and> cs = [] then Some [d0, d1]
                else case sextet c3 of
                  None \<Rightarrow> None
                | Some s3 \<Rightarrow>
                    map_option (\<lambda>ds. d0 # d1 # (push_bit 6 s2 OR s3) # ds) (base64_decode cs)))
      | _ \<Rightarrow> None)"
| "base64_decode _ = None"

lemma and_masks:
  "(b AND 3 :: u8) = take_bit 2 b" "(b AND 15 :: u8) = take_bit 4 b" "(b AND 63 :: u8) = take_bit 6 b"
  by (simp_all add: take_bit_eq_mask mask_eq_exp_minus_1)

lemma u8_eqI:
  assumes "\<And>n. n \<in> {0, 1, 2, 3, 4, 5, 6, 7} \<Longrightarrow> bit (a :: u8) n = bit b n"
  shows "a = b"
proof (rule bit_word_eqI)
  fix n assume "n < LENGTH(8)"
  then have "n \<in> {0, 1, 2, 3, 4, 5, 6, 7}" by auto
  then show "bit a n = bit b n" by (rule assms)
qed

lemma no_bit_above: "8 \<le> n \<Longrightarrow> \<not> bit (b :: u8) n"
  using bit_imp_le_length [of b n] by auto

lemmas u8_bits = bit_simps and_masks no_bit_above

lemma join_bytes:
  "push_bit 2 (drop_bit 2 b0) OR drop_bit 4 (push_bit 4 (b0 AND 3) OR drop_bit 4 b1) = (b0 :: u8)"
  "push_bit 4 (push_bit 4 (b0 AND 3) OR drop_bit 4 b1)
     OR drop_bit 2 (push_bit 2 (b1 AND 15) OR drop_bit 6 b2) = (b1 :: u8)"
  "push_bit 6 (push_bit 2 (b1 AND 15) OR drop_bit 6 b2) OR (b2 AND 63) = (b2 :: u8)"
  by (rule u8_eqI; auto simp: u8_bits simp del: add_2_eq_Suc add_2_eq_Suc')+

lemma sextet_bounds:
  "take_bit 6 (drop_bit 2 b) = drop_bit 2 (b :: u8)"
  "take_bit 6 (push_bit 4 (b AND 3) OR drop_bit 4 c) = push_bit 4 (b AND 3) OR drop_bit 4 (c :: u8)"
  "take_bit 6 (push_bit 2 (b AND 15) OR drop_bit 6 c) = push_bit 2 (b AND 15) OR drop_bit 6 (c :: u8)"
  "take_bit 6 (b AND 63) = b AND 63"
  by (rule u8_eqI; auto simp: u8_bits simp del: add_2_eq_Suc add_2_eq_Suc')+

lemma unat_take_bit_6:
  assumes "take_bit 6 (w :: u8) = w"
  shows "unat w < 64"
proof -
  have "unat (take_bit 6 w) = take_bit 6 (unat w)" by (rule unsigned_take_bit_eq)
  also have "\<dots> < 2 ^ 6" by (rule take_bit_nat_less_exp)
  finally show ?thesis using assms by simp
qed

lemma alphabet_index_nth: "distinct s \<Longrightarrow> n < length s \<Longrightarrow> alphabet_index s (s ! n) = Some n"
proof (induction s arbitrary: n)
  case (Cons a s)
  then show ?case by (cases n) auto
qed simp

lemma alphabet_index_None: "c \<notin> set s \<Longrightarrow> alphabet_index s c = None"
  by (induction s) auto

lemma ALPHABET_ok: "distinct ALPHABET" "length ALPHABET = 64" "CHR ''='' \<notin> set ALPHABET"
  by (simp_all add: ALPHABET_def)

lemma sextet_alphabet_at: "take_bit 6 w = w \<Longrightarrow> sextet (alphabet_at w) = Some w"
  using alphabet_index_nth [OF ALPHABET_ok(1), of "unat w"] unat_take_bit_6 [of w]
  by (simp add: sextet_def alphabet_at_def ALPHABET_ok)

lemma alphabet_at_no_pad: "take_bit 6 w = w \<Longrightarrow> alphabet_at w \<noteq> CHR ''=''"
  using unat_take_bit_6 [of w] ALPHABET_ok by (metis alphabet_at_def nth_mem)

lemmas sextet_simps = sextet_bounds [THEN sextet_alphabet_at] sextet_bounds [THEN alphabet_at_no_pad]

text \<open>The loop reads the input three bytes at a time.\<close>

lemma base64_loop_drop:
  "base64_loop (x # y # z # xs) (i + 3) = base64_loop xs i"
proof (induction xs i rule: base64_loop.induct)
  case (1 xs i)
  have shift: "(x # y # z # xs) ! (i + 3) = xs ! i" "(x # y # z # xs) ! (i + 4) = xs ! (i + 1)"
    "(x # y # z # xs) ! (i + 5) = xs ! (i + 2)"
    by (simp_all add: eval_nat_numeral)
  show ?case
  proof (cases "i < length xs")
    case True
    with 1 have "base64_loop (x # y # z # xs) (i + 6) = base64_loop xs (i + 3)"
      by (simp add: add.commute add.left_commute)
    with True show ?thesis
      by (subst (1 2) base64_loop.simps) (simp add: Let_def shift add.commute)
  qed (simp add: base64_loop.simps)
qed

lemma base64_encode_groups:
  "base64_encode [] = []"
  "base64_encode [b0] =
     [alphabet_at (drop_bit 2 b0), alphabet_at (push_bit 4 (b0 AND 3) OR drop_bit 4 0), CHR ''='', CHR ''='']"
  "base64_encode [b0, b1] =
     [alphabet_at (drop_bit 2 b0), alphabet_at (push_bit 4 (b0 AND 3) OR drop_bit 4 b1),
      alphabet_at (push_bit 2 (b1 AND 15) OR drop_bit 6 0), CHR ''='']"
  "base64_encode (b0 # b1 # b2 # bs) =
     [alphabet_at (drop_bit 2 b0), alphabet_at (push_bit 4 (b0 AND 3) OR drop_bit 4 b1),
      alphabet_at (push_bit 2 (b1 AND 15) OR drop_bit 6 b2), alphabet_at (b2 AND 63)]
     @ base64_encode bs"
  using base64_loop_drop [of b0 b1 b2 bs 0]
  by (simp_all add: base64_encode_def base64_loop.simps [of _ 0] base64_loop.simps [of "[_]"]
      base64_loop.simps [of "[_, _]"] Let_def del: drop_bit_of_0)

lemma decode_group:
  "base64_decode ([alphabet_at (drop_bit 2 b0), alphabet_at (push_bit 4 (b0 AND 3) OR drop_bit 4 b1),
      alphabet_at (push_bit 2 (b1 AND 15) OR drop_bit 6 b2), alphabet_at (b2 AND 63)] @ cs) =
   map_option (\<lambda>ds. b0 # b1 # b2 # ds) (base64_decode cs)"
  "base64_decode [alphabet_at (drop_bit 2 b0), alphabet_at (push_bit 4 (b0 AND 3) OR drop_bit 4 b1),
      alphabet_at (push_bit 2 (b1 AND 15) OR drop_bit 6 b2), CHR ''=''] = Some [b0, b1]"
  "base64_decode [alphabet_at (drop_bit 2 b0), alphabet_at (push_bit 4 (b0 AND 3) OR drop_bit 4 b1),
      CHR ''='', CHR ''=''] = Some [b0]"
  by (simp_all only: append.simps base64_decode.simps sextet_simps prod.case option.case Let_def
      join_bytes simp_thms if_False if_True)

lemma triple_induct [case_names Nil One Two Three]:
  assumes "P []" "\<And>a. P [a]" "\<And>a b. P [a, b]" "\<And>a b c xs. P xs \<Longrightarrow> P (a # b # c # xs)"
  shows "P xs"
proof (induction xs rule: measure_induct_rule [of length])
  case (less xs)
  consider "xs = []" | a where "xs = [a]" | a b where "xs = [a, b]"
    | a b c ys where "xs = a # b # c # ys"
    by (metis list.exhaust)
  then show ?case by cases (use assms less in auto)
qed

lemma decode_encode: "base64_decode (base64_encode bs) = Some bs"
  by (induction bs rule: triple_induct)
    (simp_all only: base64_encode_groups decode_group base64_decode.simps(1) option.map)

lemma length_base64_encode: "length (base64_encode bs) = (length bs + 2) div 3 * 4"
proof (induction bs rule: triple_induct)
  case (Three a b c xs)
  have "(length (a # b # c # xs) + 2) div 3 = Suc ((length xs + 2) div 3)" by simp
  with Three show ?case by (simp only: base64_encode_groups length_append) simp
qed (simp_all add: base64_encode_groups)

section \<open>Properties\<close>

text \<open>C32: the credentials added to a request to a host come only from mappings with a pattern whose
  zone contains the host and from secrets on the tool's allowed list that the store released for this
  user; if any matching mapping names a secret that is not allowed, nothing at all is injected.\<close>

theorem inject_only_allowed:
  assumes "inject store ci user_id host = Ok r"
  shows "\<exists>ms. ms = find_credentials_for_host ci host \<and>
     (\<forall>m \<in> set ms. m \<in> snd ` set (ci_mappings ci) \<and>
        (\<exists>p \<in> set (crm_host_patterns m). in_zone (\<lambda>h. h) p host) \<and>
        (\<exists>p \<in> set (ci_allowed_secrets ci). p = crm_secret_name m \<or>
           (\<exists>pre rest. p = pre @ ''*'' \<and> crm_secret_name m = pre @ rest)) \<and>
        is_ok (store user_id (crm_secret_name m))) \<and>
     r = fold (\<lambda>m r. inject_credential r (crm_location m) (projr (store user_id (crm_secret_name m)))) ms ic_empty"
proof -
  let ?ms = "find_credentials_for_host ci host"
  from assms have "inject_loop store ci user_id ?ms ic_empty = Ok r"
    by (auto simp: inject_def Let_def split: if_splits)
  note loop = this [unfolded inject_loop_Ok_iff is_secret_allowed_def name_allowed_iff]
  from loop find_credentials_zone [of _ ci host] show ?thesis by blast
qed

definition inject_example :: credential_injector where
  "inject_example = ci_new [(''openai'', mapping_bearer ''openai_key'' ''api.openai.com'')] [''openai_*'']"

theorem inject_only_allowed_witness:
  "inject (\<lambda>u n. Ok ''sk-test123'') inject_example ''user1'' ''api.openai.com'' =
     Ok \<lparr>ic_headers = [(''Authorization'', ''Bearer sk-test123'')], ic_query_params = []\<rparr> \<and>
   (\<exists>p \<in> set (ci_allowed_secrets inject_example). p = ''openai_*'')"
proof -
  have i: "inject (\<lambda>u n. Ok ''sk-test123'') inject_example ''user1'' ''api.openai.com'' =
     Ok \<lparr>ic_headers = [(''Authorization'', ''Bearer sk-test123'')], ic_query_params = []\<rparr>" by code_simp
  have f: "find_credentials_for_host inject_example ''api.openai.com'' =
      [mapping_bearer ''openai_key'' ''api.openai.com'']" by code_simp
  from inject_only_allowed [OF i] obtain p where "p \<in> set (ci_allowed_secrets inject_example)"
    unfolding f by auto
  with i show ?thesis by (simp add: inject_example_def ci_new_def)
qed

text \<open>A secret that is not on the allowed list, or that belongs to no mapping for the host, never
  influences the outcome: two stores that agree on the allowed secrets of the matching mappings give
  the same result.\<close>

theorem inject_independent_of_other_secrets:
  assumes "\<And>m. m \<in> set (find_credentials_for_host ci host) \<Longrightarrow> is_secret_allowed ci (crm_secret_name m) \<Longrightarrow>
      store user_id (crm_secret_name m) = store' user_id (crm_secret_name m)"
  shows "inject store ci user_id host = inject store' ci user_id host"
proof -
  have "inject_loop store ci user_id (find_credentials_for_host ci host) ic_empty =
      inject_loop store' ci user_id (find_credentials_for_host ci host) ic_empty"
    using assms by (rule inject_loop_cong)
  then show ?thesis by (simp add: inject_def Let_def)
qed

theorem inject_independent_of_other_secrets_witness:
  "inject (\<lambda>u n. Ok n) inject_example ''user1'' ''evil.com'' =
   inject (\<lambda>u n. Err SecExpired) inject_example ''user1'' ''evil.com''"
proof (rule inject_independent_of_other_secrets)
  fix m
  have "find_credentials_for_host inject_example ''evil.com'' = []" by code_simp
  then show "m \<in> set (find_credentials_for_host inject_example ''evil.com'') \<Longrightarrow>
      is_secret_allowed inject_example (crm_secret_name m) \<Longrightarrow> Ok (crm_secret_name m) = Err SecExpired" by simp
qed

text \<open>The base64 encoder never reads outside its alphabet and is correct: decoding what it
  produces, by RFC 4648, gives back the bytes, and the length is four characters for every started
  group of three bytes.\<close>

theorem base64_roundtrip:
  "base64_decode (base64_encode bs) = Some bs \<and> length (base64_encode bs) = (length bs + 2) div 3 * 4"
  using decode_encode length_base64_encode by blast

end
