(* ===== verification/Net_Address.thy ===== *)
theory Net_Address
  imports Rust_Prelude
begin

text \<open>
  Internet addresses, as \<open>src/tools/wasm/wrapper.rs\<close> uses them to keep tools off the internal
  network: the address parser of the standard library (\<open>IpAddr::from_str\<close>), the private ranges
  (\<open>is_private_ip\<close>), the host of a URL (\<open>extract_host_from_url\<close>) and the check before a request
  is sent (\<open>reject_private_ip\<close>). Name resolution is the argument \<open>dns\<close>.
\<close>

unbundle bit_operations_syntax

section \<open>Addresses and their parser\<close>

text \<open>An IPv6 address is the list of its eight segments.\<close>

datatype ip_addr = IpV4 u8 u8 u8 u8 | IpV6 "u16 list"

definition to_digit :: "nat \<Rightarrow> char \<Rightarrow> nat option" where
  "to_digit radix c =
     (let n = (of_char c :: nat);
          d = (if 48 \<le> n \<and> n \<le> 57 then n - 48
               else if 97 \<le> n \<and> n \<le> 122 then n - 87
               else if 65 \<le> n \<and> n \<le> 90 then n - 55 else radix)
      in if d < radix then Some d else None)"

text \<open>The digits at the front of the input: their value and number, unless there are too many.\<close>

fun read_digits :: "nat \<Rightarrow> nat \<Rightarrow> string \<Rightarrow> nat \<Rightarrow> nat \<Rightarrow> (nat \<times> nat \<times> string) option" where
  "read_digits radix mx [] v n = Some (v, n, [])"
| "read_digits radix mx (c # s) v n =
     (case to_digit radix c of
        None \<Rightarrow> Some (v, n, c # s)
      | Some d \<Rightarrow> if mx < n + 1 then None else read_digits radix mx s (v * radix + d) (n + 1))"

definition read_number :: "nat \<Rightarrow> nat \<Rightarrow> bool \<Rightarrow> nat \<Rightarrow> string \<Rightarrow> (nat \<times> string) option" where
  "read_number radix mx allow_zero_prefix bound s =
     (case read_digits radix mx s 0 0 of
        None \<Rightarrow> None
      | Some (v, n, rest) \<Rightarrow>
          if n = 0 then None
          else if \<not> allow_zero_prefix \<and> starts_with s ''0'' \<and> 1 < n then None
          else if v < bound then Some (v, rest) else None)"

definition read_separator :: "char \<Rightarrow> nat \<Rightarrow> (string \<Rightarrow> 'a option) \<Rightarrow> string \<Rightarrow> 'a option" where
  "read_separator sep index inner s =
     (if index = 0 then inner s
      else case s of [] \<Rightarrow> None | c # cs \<Rightarrow> if c = sep then inner cs else None)"

definition read_octet :: "nat \<Rightarrow> string \<Rightarrow> (u8 \<times> string) option" where
  "read_octet index s =
     (case read_separator (CHR ''.'') index (read_number 10 3 False 256) s of
        None \<Rightarrow> None | Some (v, rest) \<Rightarrow> Some (word_of_nat v, rest))"

definition read_ipv4_addr :: "string \<Rightarrow> ((u8 \<times> u8 \<times> u8 \<times> u8) \<times> string) option" where
  "read_ipv4_addr s =
     (case read_octet 0 s of None \<Rightarrow> None | Some (a, s1) \<Rightarrow>
        (case read_octet 1 s1 of None \<Rightarrow> None | Some (b, s2) \<Rightarrow>
           (case read_octet 2 s2 of None \<Rightarrow> None | Some (c, s3) \<Rightarrow>
              (case read_octet 3 s3 of None \<Rightarrow> None | Some (d, s4) \<Rightarrow> Some ((a, b, c, d), s4)))))"

definition segment_of :: "u8 \<Rightarrow> u8 \<Rightarrow> u16" where
  "segment_of a b = word_of_nat (unat a * 256 + unat b)"

text \<open>The groups of an IPv6 address from index \<open>i\<close>, whether an IPv4 address ends them, and the
  rest of the input.\<close>

function read_groups :: "nat \<Rightarrow> nat \<Rightarrow> string \<Rightarrow> u16 list \<times> bool \<times> string" where
  "read_groups limit i s =
     (if limit \<le> i then ([], False, s)
      else
        case (if i + 1 < limit then read_separator (CHR '':'') i read_ipv4_addr s else None) of
          Some ((a, b, c, d), rest) \<Rightarrow> ([segment_of a b, segment_of c d], True, rest)
        | None \<Rightarrow>
            (case read_separator (CHR '':'') i (read_number 16 4 True 65536) s of
               None \<Rightarrow> ([], False, s)
             | Some (g, rest) \<Rightarrow>
                 (case read_groups limit (i + 1) rest of
                    (gs, v4, r) \<Rightarrow> (word_of_nat g # gs, v4, r))))"
  by pat_completeness auto
termination
  by (relation "measure (\<lambda>(limit, i, s). limit - i)") auto

declare read_groups.simps [simp del]

definition read_ipv6_addr :: "string \<Rightarrow> (u16 list \<times> string) option" where
  "read_ipv6_addr s =
     (case read_groups 8 0 s of
        (head, head_ipv4, rest) \<Rightarrow>
          if length head = 8 then Some (head, rest)
          else if head_ipv4 then None
          else if starts_with rest ''::'' then
            (case read_groups (8 - (length head + 1)) 0 (drop 2 rest) of
               (tail, _, rest') \<Rightarrow>
                 Some (head @ replicate (8 - length head - length tail) 0 @ tail, rest'))
          else None)"

text \<open>\<open>IpAddr::from_str\<close>: the whole input is one address.\<close>

definition parse_ip :: "string \<Rightarrow> ip_addr option" where
  "parse_ip s =
     (case read_ipv4_addr s of
        Some ((a, b, c, d), rest) \<Rightarrow> if rest = [] then Some (IpV4 a b c d) else None
      | None \<Rightarrow>
          (case read_ipv6_addr s of
             Some (segs, rest) \<Rightarrow> if rest = [] then Some (IpV6 segs) else None
           | None \<Rightarrow> None))"

definition show_ipv4 :: "u8 \<Rightarrow> u8 \<Rightarrow> u8 \<Rightarrow> u8 \<Rightarrow> string" where
  "show_ipv4 a b c d =
     show_nat (unat a) @ ''.'' @ show_nat (unat b) @ ''.'' @ show_nat (unat c) @ ''.'' @ show_nat (unat d)"

section \<open>Private ranges\<close>

fun is_private_ip :: "ip_addr \<Rightarrow> bool" where
  "is_private_ip (IpV4 a b c d) =
     (a = 127 \<or>
      (a = 10 \<or> (a = 172 \<and> 16 \<le> b \<and> b \<le> 31) \<or> (a = 192 \<and> b = 168)) \<or>
      (a = 169 \<and> b = 254) \<or>
      (a = 0 \<and> b = 0 \<and> c = 0 \<and> d = 0) \<or>
      (a = 100 \<and> b AND 0xC0 = 64))"
| "is_private_ip (IpV6 segs) =
     (segs = [0, 0, 0, 0, 0, 0, 0, 1] \<or> segs = [0, 0, 0, 0, 0, 0, 0, 0] \<or>
      hd segs AND 0xFE00 = 0xFC00 \<or> hd segs AND 0xFFC0 = 0xFE80)"

section \<open>The host of a URL\<close>

definition extract_host_from_url :: "string \<Rightarrow> string option" where
  "extract_host_from_url url =
     (case (case strip_prefix url ''https://'' of Some r \<Rightarrow> Some r | None \<Rightarrow> strip_prefix url ''http://'') of
        None \<Rightarrow> None
      | Some after_scheme \<Rightarrow>
          (let host_port = takeWhile (\<lambda>c. c \<notin> {CHR ''/'', CHR ''?'', CHR ''#''}) after_scheme;
               after_userinfo = (case rfind_str host_port ''@'' of
                                   Some i \<Rightarrow> drop (i + 1) host_port | None \<Rightarrow> host_port)
           in if starts_with after_userinfo ''['' then
                (case find_str after_userinfo '']'' of
                   None \<Rightarrow> None
                 | Some closing \<Rightarrow> Some (drop 1 (take closing after_userinfo)))
              else Some (case rfind_str after_userinfo '':'' of
                           Some i \<Rightarrow> take i after_userinfo | None \<Rightarrow> after_userinfo)))"

text \<open>\<open>url.split("://").nth(1)\<close>, and the host \<open>reject_private_ip\<close> takes from it.\<close>

definition split_second :: "string \<Rightarrow> string \<Rightarrow> string option" where
  "split_second s p =
     (case split_once s p of
        None \<Rightarrow> None
      | Some (_, rest) \<Rightarrow> Some (case split_once rest p of Some (a, _) \<Rightarrow> a | None \<Rightarrow> rest))"

definition checked_host :: "string \<Rightarrow> string option" where
  "checked_host url =
     (case split_second url ''://'' of
        None \<Rightarrow> None
      | Some rest \<Rightarrow>
          (let host_and_port = (case find_str rest ''/'' of Some i \<Rightarrow> take i rest | None \<Rightarrow> rest)
           in if starts_with host_and_port ''[''
              then map_option (\<lambda>i. drop 1 (take i host_and_port)) (find_str host_and_port '']'')
              else Some (case rfind_str host_and_port '':'' of
                           Some i \<Rightarrow> take i host_and_port | None \<Rightarrow> host_and_port)))"

text \<open>The errors of \<open>reject_private_ip\<close>, with what their messages contain.\<close>

datatype ip_error =
    NoHostInUrl
  | PrivateAddress ip_addr
  | DnsFailed string string
  | DnsNoAddresses string
  | DnsRebinding string ip_addr

definition reject_private_ip :: "(string \<Rightarrow> string + ip_addr list) \<Rightarrow> string \<Rightarrow> ip_error + unit" where
  "reject_private_ip dns url =
     (case checked_host url of
        None \<Rightarrow> Err NoHostInUrl
      | Some host \<Rightarrow>
          (case parse_ip host of
             Some ip \<Rightarrow> if is_private_ip ip then Err (PrivateAddress ip) else Ok ()
           | None \<Rightarrow>
               (case dns host of
                  Inl e \<Rightarrow> Err (DnsFailed host e)
                | Inr addrs \<Rightarrow>
                    if addrs = [] then Err (DnsNoAddresses host)
                    else (case find is_private_ip addrs of
                            Some ip \<Rightarrow> Err (DnsRebinding host ip)
                          | None \<Rightarrow> Ok ()))))"

section \<open>Reference notions\<close>

text \<open>The value of an address, and a block of addresses by its base and the length of its prefix.\<close>

definition ipv4_value :: "u8 \<Rightarrow> u8 \<Rightarrow> u8 \<Rightarrow> u8 \<Rightarrow> nat" where
  "ipv4_value a b c d = ((unat a * 256 + unat b) * 256 + unat c) * 256 + unat d"

definition in_block :: "nat \<Rightarrow> nat \<times> nat \<Rightarrow> bool" where
  "in_block v blk = (v div 2 ^ (32 - snd blk) = fst blk div 2 ^ (32 - snd blk))"

definition private_blocks :: "(nat \<times> nat) list" where
  "private_blocks =
     [(ipv4_value 127 0 0 0, 8), (ipv4_value 10 0 0 0, 8), (ipv4_value 172 16 0 0, 12),
      (ipv4_value 192 168 0 0, 16), (ipv4_value 169 254 0 0, 16), (ipv4_value 0 0 0 0, 32),
      (ipv4_value 100 64 0 0, 10)]"

text \<open>The host of an authority, as \<open>reject_private_ip\<close> reads it.\<close>

definition authority_host :: "string \<Rightarrow> string option" where
  "authority_host a =
     (if starts_with a ''['' then map_option (\<lambda>i. drop 1 (take i a)) (find_str a '']'')
      else Some (case rfind_str a '':'' of Some i \<Rightarrow> take i a | None \<Rightarrow> a))"

abbreviation "up_to_slash \<equiv> takeWhile (\<lambda>c. c \<noteq> CHR ''/'')"

section \<open>Lemmas\<close>

lemma to_digit_decimal: "k < 10 \<Longrightarrow> to_digit 10 (char_of (48 + k)) = Some k"
  by (simp add: to_digit_def)

lemma read_digits_show_nat:
  "read_digits 10 mx (show_nat n @ s) v k =
     (if k + length (show_nat n) \<le> mx
      then read_digits 10 mx s (v * 10 ^ length (show_nat n) + n) (k + length (show_nat n)) else None)"
proof (induction n arbitrary: v k s rule: show_nat.induct)
  case (1 n)
  show ?case
  proof (cases "n < 10")
    case True
    then have "show_nat n = [char_of (48 + n)]" by (simp add: show_nat.simps)
    with True show ?thesis by (simp add: to_digit_decimal)
  next
    case False
    then have e: "show_nat n = show_nat (n div 10) @ [char_of (48 + n mod 10)]"
      by (subst show_nat.simps) simp
    have "n mod 10 < 10" by simp
    then have d: "to_digit 10 (char_of (48 + n mod 10)) = Some (n mod 10)" by (rule to_digit_decimal)
    have v: "(v * 10 ^ l + n div 10) * 10 + n mod 10 = v * (10 * 10 ^ l) + n" for l by (simp add: algebra_simps)
    show ?thesis using 1[OF False, of "[char_of (48 + n mod 10)] @ s" v k] d by (auto simp: e algebra_simps)
  qed
qed

lemma char_of_zero: "(k :: nat) < 10 \<Longrightarrow> char_of (48 + k) = CHR ''0'' \<Longrightarrow> k = 0"
  using to_digit_decimal [of k] by (simp add: to_digit_def)

lemma length_show_nat_octet: "n < 1000 \<Longrightarrow> length (show_nat n) \<le> 3 \<and> show_nat n \<noteq> []"
  by (simp add: show_nat.simps [of n] show_nat.simps [of "n div 10"] show_nat.simps [of "n div 10 div 10"])

lemma show_nat_zero_prefix: "n < 1000 \<Longrightarrow> starts_with (show_nat n @ s) ''0'' \<Longrightarrow> length (show_nat n) = 1"
  by (auto simp: show_nat.simps [of n] show_nat.simps [of "n div 10"] show_nat.simps [of "n div 10 div 10"]
      split: if_splits dest: char_of_zero)

text \<open>A number in decimal form, before anything but a digit, is read back.\<close>

lemma read_number_show_nat:
  assumes "n < 256" and "s = [] \<or> to_digit 10 (hd s) = None"
  shows "read_number 10 3 False 256 (show_nat n @ s) = Some (n, s)"
proof -
  have r: "read_digits 10 3 s v k = Some (v, k, s)" for v k
    using assms(2) by (cases s) auto
  show ?thesis
    using assms(1) length_show_nat_octet [of n] show_nat_zero_prefix [of n s] r
    by (auto simp: read_number_def read_digits_show_nat)
qed
text \<open>The parser reads back every IPv4 address in its usual form.\<close>

lemma dot_no_digit: "to_digit 10 (CHR ''.'') = None"
  by (simp add: to_digit_def)

lemma unat_octet: "unat (a :: u8) < 256"
  using unsigned_less [of a] by simp

lemma parse_show_ipv4: "parse_ip (show_ipv4 a b c d) = Some (IpV4 a b c d)"
  by (simp add: parse_ip_def read_ipv4_addr_def read_octet_def read_separator_def show_ipv4_def
      read_number_show_nat unat_octet dot_no_digit
      read_number_show_nat [where s = "[]", simplified])

lemma length_read_groups: "length (fst (read_groups limit i s)) \<le> limit - i"
proof (induction limit i s rule: read_groups.induct)
  case (1 limit i s)
  then show ?case
    by (subst read_groups.simps) (fastforce split: option.splits prod.splits)
qed

lemma parse_ip_segments:
  assumes "parse_ip s = Some (IpV6 segs)"
  shows "length segs = 8"
proof -
  obtain head v4 rest where h: "read_groups 8 0 s = (head, v4, rest)" by (metis prod.collapse)
  obtain tl' v4' rest' where t: "read_groups (7 - length head) 0 (drop 2 rest) = (tl', v4', rest')"
    by (metis prod.collapse)
  have "length head \<le> 8" "length tl' \<le> 7 - length head"
    using length_read_groups [of 8 0 s] length_read_groups [of "7 - length head" 0 "drop 2 rest"] h t by simp_all
  then show ?thesis using assms h t
    by (auto simp: parse_ip_def read_ipv6_addr_def split: option.splits prod.splits if_splits)
qed

lemma cgnat_mask_table: "list_all (\<lambda>n. ((word_of_nat n :: u8) AND 0xC0 = 64) = (n div 64 = 1)) [0..<256]"
  by code_simp

lemma cgnat_mask: "(b :: u8) AND 0xC0 = 64 \<longleftrightarrow> unat b div 64 = 1"
proof -
  have "unat b \<in> set [0..<256]" using unat_octet [of b] by simp
  with cgnat_mask_table have "((word_of_nat (unat b) :: u8) AND 0xC0 = 64) = (unat b div 64 = 1)"
    unfolding list_all_iff by blast
  then show ?thesis by simp
qed

text \<open>The prefixes of a value, from its octets.\<close>

lemma ipv4_value_div:
  "ipv4_value a b c d div 16777216 = unat a"
  "ipv4_value a b c d div 1048576 = unat a * 16 + unat b div 16"
  "ipv4_value a b c d div 65536 = unat a * 256 + unat b"
  "ipv4_value a b c d div 4194304 = unat a * 4 + unat b div 64"
proof -
  have digits: "unat a < 256" "unat b < 256" "unat c < 256" "unat d < 256" by (rule unat_octet)+
  have v: "ipv4_value a b c d = unat a * 16777216 + unat b * 65536 + unat c * 256 + unat d"
    by (simp add: ipv4_value_def)
  show p: "ipv4_value a b c d div 65536 = unat a * 256 + unat b"
    unfolding v by (rule div_nat_eqI) (use digits in simp_all)
  show "ipv4_value a b c d div 16777216 = unat a"
    unfolding v by (rule div_nat_eqI) (use digits in simp_all)
  show "ipv4_value a b c d div 1048576 = unat a * 16 + unat b div 16"
    "ipv4_value a b c d div 4194304 = unat a * 4 + unat b div 64"
    using div_mult2_eq [of "ipv4_value a b c d" 65536 16] div_mult2_eq [of "ipv4_value a b c d" 65536 64]
    by (simp_all add: p)
qed

text \<open>Equality of mixed-radix numerals is equality of the digits.\<close>

lemma digits_eq: "x < n \<Longrightarrow> y < n \<Longrightarrow> u * n + x = v * n + y \<longleftrightarrow> u = v \<and> x = (y :: nat)"
  by (metis add.commute mod_mult_self1 mod_less add_right_cancel mult_cancel2 gr_implies_not0)

lemma ipv4_value_0: "ipv4_value a b c d = 0 \<longleftrightarrow> a = 0 \<and> b = 0 \<and> c = 0 \<and> d = 0"
  by (auto simp: ipv4_value_def unat_eq_zero)

lemma split_second_authority:
  assumes "split_once url ''://'' = Some (scheme, rest)" and "split_second url ''://'' = Some r"
    and "up_to_slash rest = [] \<or> last (up_to_slash rest) \<noteq> CHR '':''"
  shows "up_to_slash r = up_to_slash rest"
proof (cases "split_once rest ''://''")
  case None
  with assms show ?thesis by (simp add: split_second_def)
next
  case (Some ab)
  then obtain a b where ab: "split_once rest ''://'' = Some (a, b)" by (cases ab) auto
  then have "r = a" using assms by (simp add: split_second_def)
  moreover have rest: "rest = a @ ''://'' @ b" using ab by (rule split_once_Some)
  moreover have "CHR ''/'' \<in> set a"
  proof (rule ccontr)
    assume "CHR ''/'' \<notin> set a"
    then have "up_to_slash rest = a @ '':''" using rest by (simp add: takeWhile_append)
    with assms(3) show False by simp
  qed
  ultimately show ?thesis by (simp add: takeWhile_append1)
qed

lemma checked_host_authority:
  assumes "split_once url ''://'' = Some (scheme, rest)"
    and "up_to_slash rest = [] \<or> last (up_to_slash rest) \<noteq> CHR '':''"
  shows "checked_host url = authority_host (up_to_slash rest)"
proof -
  obtain r where r: "split_second url ''://'' = Some r"
    using assms(1) by (simp add: split_second_def)
  from split_second_authority [OF assms(1) r assms(2)] show ?thesis
    unfolding checked_host_def r by (simp add: find_char_takeWhile authority_host_def Let_def)
qed

lemma split_once_https: "split_once (''https://'' @ rest) ''://'' = Some (''https'', rest)"
  by (simp add: split_once_def)

lemma digit_chars: "c \<in> set (show_nat n) \<Longrightarrow> is_ascii_digit c"
proof (induction n rule: show_nat.induct)
  case (1 n)
  have "of_char (char_of (48 + k) :: char) = 48 + k" if "k < 10" for k :: nat
    using that by simp
  then have "is_ascii_digit (char_of (48 + k))" if "k < 10" for k :: nat
    using that by (simp add: is_ascii_digit_def)
  then show ?case using 1 by (subst (asm) show_nat.simps) (auto split: if_splits)
qed

lemma show_ipv4_chars: "c \<in> set (show_ipv4 a b c' d) \<Longrightarrow> is_ascii_digit c \<or> c = CHR ''.''"
  by (auto simp: show_ipv4_def dest: digit_chars)

lemma show_nat_Nil: "show_nat n \<noteq> []"
  by (subst show_nat.simps) simp

lemma authority_host_plain:
  assumes "h \<noteq> []" and "hd h \<noteq> CHR ''[''" and "CHR '':'' \<notin> set h"
    and "port = [] \<or> (\<exists>p. port = CHR '':'' # p \<and> CHR '':'' \<notin> set p)"
  shows "authority_host (h @ port) = Some h"
proof -
  from assms(1,2) obtain c cs where "h = c # cs" "c \<noteq> CHR ''[''" by (cases h) auto
  then have b: "\<not> starts_with (h @ port) ''[''" by simp
  from assms(4) show ?thesis
  proof
    assume "port = []"
    moreover have "rfind_str h '':'' = None" using assms(3) by (simp add: rfind_char_None)
    ultimately show ?thesis using b by (simp add: authority_host_def)
  next
    assume "\<exists>p. port = CHR '':'' # p \<and> CHR '':'' \<notin> set p"
    then obtain p where "port = CHR '':'' # p" "CHR '':'' \<notin> set p" by blast
    then show ?thesis using b rfind_char_last [of "CHR '':''" p h] by (simp add: authority_host_def)
  qed
qed

lemma not_digits: "\<not> is_ascii_digit (CHR ''/'')" "\<not> is_ascii_digit (CHR '':'')" "\<not> is_ascii_digit (CHR ''['')"
  by (simp_all add: is_ascii_digit_def)

lemma digits_not_in: "\<not> is_ascii_digit x \<Longrightarrow> x \<notin> set (show_nat n)"
  using digit_chars by blast

lemma literal_not_in: "\<not> is_ascii_digit x \<Longrightarrow> x \<noteq> CHR ''.'' \<Longrightarrow> x \<notin> set (show_ipv4 a b c d)"
  using show_ipv4_chars by blast

lemma up_to_slash_append:
  "CHR ''/'' \<notin> set a \<Longrightarrow> path = [] \<or> hd path = CHR ''/'' \<Longrightarrow> up_to_slash (a @ path) = a"
  by (induction a) (auto simp: takeWhile_eq_Nil_iff)

lemma last_show_nat: "last (show_nat n) \<noteq> CHR '':''"
  using digits_not_in [OF not_digits(2)] show_nat_Nil last_in_set by metis

lemma last_literal: "last (show_ipv4 a b c d) \<noteq> CHR '':''"
  by (simp add: show_ipv4_def show_nat_Nil last_show_nat)

lemma mapped_parse: "parse_ip ''::ffff:127.0.0.1'' = Some (IpV6 [0, 0, 0, 0, 0, 0xFFFF, 0x7F00, 1])"
  by (simp add: parse_ip_def read_ipv6_addr_def read_groups.simps read_ipv4_addr_def read_octet_def
      read_separator_def read_number_def to_digit_def segment_of_def)
    (simp add: numeral_eq_Suc)

lemma mapped_host: "checked_host ''https://[::ffff:127.0.0.1]:8080/'' = Some ''::ffff:127.0.0.1''"
  by code_simp

section \<open>Properties\<close>

text \<open>The addresses of version 4 the check refuses are exactly those of the loopback, private,
  link-local and carrier blocks (127/8, 10/8, 172.16/12, 192.168/16, 169.254/16, 100.64/10) and the
  unspecified address.\<close>

theorem private_ranges_exact:
  "is_private_ip (IpV4 a b c d) \<longleftrightarrow> list_ex (in_block (ipv4_value a b c d)) private_blocks"
proof -
  have w: "(x = y) = (unat x = unat y)" for x y :: u8 by (simp add: word_unat_eq_iff)
  have l: "(x \<le> y) = (unat x \<le> unat y)" for x y :: u8 by (rule word_le_nat_alt)
  have "unat b div 16 < 16" "unat b div 64 < 4" "unat b < 256"
    using unat_octet [of b] by (simp_all add: less_mult_imp_div_less)
  then have e: "unat a * 256 + unat b = 192 * 256 + 168 \<longleftrightarrow> unat a = 192 \<and> unat b = 168"
    "unat a * 256 + unat b = 169 * 256 + 254 \<longleftrightarrow> unat a = 169 \<and> unat b = 254"
    "unat a * 16 + unat b div 16 = 172 * 16 + 1 \<longleftrightarrow> unat a = 172 \<and> unat b div 16 = 1"
    "unat a * 4 + unat b div 64 = 100 * 4 + 1 \<longleftrightarrow> unat a = 100 \<and> unat b div 64 = 1"
    by (intro digits_eq; simp)+
  have r: "unat b div 16 = Suc 0 \<longleftrightarrow> 16 \<le> unat b \<and> unat b \<le> 31" by auto
  have z: "ipv4_value 0 0 0 0 = 0" by (simp add: ipv4_value_0)
  show ?thesis
    using e unfolding is_private_ip.simps cgnat_mask
    by (simp add: private_blocks_def in_block_def ipv4_value_div z ipv4_value_0) (simp add: w l r)
qed

text \<open>A request whose host is an address of version 4 in its usual form, with or without a port,
  is refused exactly when the address is private, whatever the name service answers.\<close>

theorem private_literal_rejected:
  assumes "port = [] \<or> port = '':'' @ show_nat n" and "path = [] \<or> hd path = CHR ''/''"
  shows "reject_private_ip dns (''https://'' @ show_ipv4 a b c d @ port @ path) =
     (if is_private_ip (IpV4 a b c d) then Err (PrivateAddress (IpV4 a b c d)) else Ok ())"
proof -
  let ?h = "show_ipv4 a b c d"
  have h: "?h \<noteq> []" by (simp add: show_ipv4_def)
  have "hd ?h \<noteq> CHR ''[''"
    using literal_not_in [of "CHR ''[''" a b c d] not_digits(3) hd_in_set [OF h] by auto
  moreover have "port = [] \<or> (\<exists>p. port = CHR '':'' # p \<and> CHR '':'' \<notin> set p)"
    using assms(1) digits_not_in [OF not_digits(2)] by auto
  ultimately have ah: "authority_host (?h @ port) = Some ?h"
    using h literal_not_in [OF not_digits(2)] by (intro authority_host_plain) simp_all
  have "CHR ''/'' \<notin> set (?h @ port)"
    using assms(1) literal_not_in [OF not_digits(1)] digits_not_in [OF not_digits(1)] by auto
  then have up: "up_to_slash ((?h @ port) @ path) = ?h @ port"
    using assms(2) by (rule up_to_slash_append)
  have "last (?h @ port) \<noteq> CHR '':''"
    using assms(1) last_literal last_show_nat by (auto simp: show_nat_Nil)
  then have "checked_host (''https://'' @ (?h @ port) @ path) = Some ?h"
    using checked_host_authority [OF split_once_https, of "(?h @ port) @ path"] up ah by simp
  then show ?thesis by (simp add: reject_private_ip_def parse_show_ipv4)
qed

theorem private_literal_rejected_witness:
  "reject_private_ip (\<lambda>_. Ok [IpV4 93 184 216 34]) (''https://'' @ show_ipv4 169 254 169 254 @ '':80'' @ ''/latest'')
     = Err (PrivateAddress (IpV4 169 254 169 254))"
proof -
  have "'':80'' = '':'' @ show_nat 80" by code_simp
  then show ?thesis
    using private_literal_rejected [of "'':80''" 80 "''/latest''" "\<lambda>_. Ok [IpV4 93 184 216 34]" 169 254 169 254]
    by simp
qed

text \<open>The ranges of version 6 do not cover the addresses that map those of version 4: the loopback
  address in its mapped form passes the check.\<close>

theorem mapped_address_accepted:
  "parse_ip ''::ffff:127.0.0.1'' = Some (IpV6 [0, 0, 0, 0, 0, 0xFFFF, 0x7F00, 1]) \<and>
   reject_private_ip dns ''https://[::ffff:127.0.0.1]:8080/'' = Ok ()"
  by (simp add: reject_private_ip_def mapped_parse mapped_host)

end
