(* ===== verification/Wasm_Wrapper.thy ===== *)
theory Wasm_Wrapper
  imports Wasm_Host Credential_Injector Leak_Detector Net_Address
begin

text \<open>
  The host functions a WASM tool calls, \<open>src/tools/wasm/wrapper.rs\<close>: the substitution of
  credential placeholders, the credentials added for a host, the order of the checks an HTTP request
  passes before it is sent, the redaction of errors, and the resolution and refresh of credentials
  before an execution.

  What the external packages do is the record \<open>http_env\<close>: the multi-pattern matcher and the
  expression engine of the leak detector, percent encoding (\<open>urlencoding\<close>), the JSON of header maps
  (\<open>serde_json\<close>), name resolution, and the HTTP client (\<open>tokio\<close>, \<open>reqwest\<close>).
\<close>

section \<open>Data\<close>

record oauth_refresh_config =
  orc_token_url :: string
  orc_client_id :: string
  orc_client_secret :: "string option"
  orc_secret_name :: string
  orc_provider :: "string option"

record resolved_host_credential =
  rhc_host_patterns :: "string list"
  rhc_headers :: "(string, string) hash_map"
  rhc_query_params :: "(string, string) hash_map"
  rhc_secret_value :: string

text \<open>The WASI context and the resource table belong to the runtime; \<open>sd_http_runtime\<close> tells whether
  the runtime for requests has been created.\<close>

record store_data =
  sd_limiter :: wasm_resource_limiter
  sd_host_state :: host_state
  sd_credentials :: "(string, string) hash_map"
  sd_host_credentials :: "resolved_host_credential list"
  sd_http_runtime :: bool

definition sd_new ::
  "u64 \<Rightarrow> capabilities \<Rightarrow> (string, string) hash_map \<Rightarrow> resolved_host_credential list \<Rightarrow> store_data" where
  "sd_new memory_limit caps credentials host_credentials =
     \<lparr>sd_limiter = wrl_new memory_limit, sd_host_state = hs_new caps, sd_credentials = credentials,
      sd_host_credentials = host_credentials, sd_http_runtime = False\<rparr>"

record http_response =
  hr_status :: nat
  hr_headers_json :: string
  hr_body :: string

record outgoing_call =
  oc_method :: string
  oc_url :: string
  oc_headers :: "(string, string) hash_map"
  oc_body :: "string option"
  oc_timeout_ms :: nat

text \<open>What the client reports: an error with the messages of its causes, or a response whose header
  values may not be text and whose body may fail to arrive.\<close>

record client_response =
  cr_status :: nat
  cr_headers :: "(string \<times> string option) list"
  cr_content_length :: "nat option"
  cr_body :: "string + string"

datatype send_outcome = SendFailed string "string list" | SendOk client_response

record http_env =
  he_ac :: ac_find
  he_rx :: rx_find
  he_builds :: "string list \<Rightarrow> bool"
  he_encode :: "string \<Rightarrow> string"
  he_parse_headers :: "string \<Rightarrow> (string, string) hash_map option"
  he_headers_json :: "(string, string) hash_map \<Rightarrow> string"
  he_dns :: "string \<Rightarrow> string + ip_addr list"
  he_runtime_build :: "string + unit"
  he_client_build :: "string + unit"
  he_send :: "outgoing_call \<Rightarrow> send_outcome"

text \<open>The error of a request: the messages of the host checks keep the value they are formatted from.\<close>

datatype request_error =
    HttpDenied host_error
  | RateExceeded host_error
  | LeakBlocked leak_error
  | AddressRejected ip_error
  | RequestFailed string

section \<open>Placeholders and redaction\<close>

definition placeholder_of :: "string \<Rightarrow> string" where
  "placeholder_of name = ''{'' @ name @ ''}''"

definition inject_credentials :: "store_data \<Rightarrow> string \<Rightarrow> string" where
  "inject_credentials sd input =
     foldl (\<lambda>r (name, v).
              if contains r (placeholder_of name) then replace_str (placeholder_of name) v r else r)
       input (sd_credentials sd)"

definition redact_credentials :: "store_data \<Rightarrow> string \<Rightarrow> string" where
  "redact_credentials sd text =
     (let r1 = foldl (\<lambda>r (name, v). if v \<noteq> [] then replace_str v (''[REDACTED:'' @ name @ '']'') r else r)
                 text (sd_credentials sd)
      in foldl (\<lambda>r cred. if rhc_secret_value cred \<noteq> []
                          then replace_str (rhc_secret_value cred) ''[REDACTED:host_credential]'' r else r)
           r1 (sd_host_credentials sd))"

section \<open>Credentials of a host\<close>

text \<open>The loop over the query parameters, from the index \<open>i\<close>.\<close>

fun push_params :: "(string \<Rightarrow> string) \<Rightarrow> char \<Rightarrow> nat \<Rightarrow> (string \<times> string) list \<Rightarrow> string \<Rightarrow> string" where
  "push_params enc separator i [] url = url"
| "push_params enc separator i ((name, v) # ps) url =
     push_params enc separator (i + 1) ps
       (url @ [if i = 0 then separator else CHR ''&''] @ enc name @ ''='' @ enc v)"

definition append_query_params ::
  "(string \<Rightarrow> string) \<Rightarrow> (string, string) hash_map \<Rightarrow> string \<Rightarrow> string" where
  "append_query_params enc params url =
     (if params = [] then url
      else
        (let (base, fragment) = (case find_str url ''#'' of
                                   Some i \<Rightarrow> (take i url, Some (drop i url))
                                 | None \<Rightarrow> (url, None));
             separator = (if contains base ''?'' then CHR ''&'' else CHR ''?'');
             url' = push_params enc separator 0 params base
         in case fragment of Some frag \<Rightarrow> url' @ frag | None \<Rightarrow> url'))"

definition inject_host_credential ::
  "(string \<Rightarrow> string) \<Rightarrow> string \<Rightarrow> resolved_host_credential \<Rightarrow>
   (string, string) hash_map \<times> string \<Rightarrow> (string, string) hash_map \<times> string" where
  "inject_host_credential enc url_host cred req =
     (if \<not> list_ex (host_matches_pattern url_host) (rhc_host_patterns cred) then req
      else (foldl (\<lambda>h (k, v). hm_insert k v h) (fst req) (rhc_headers cred),
            append_query_params enc (rhc_query_params cred) (snd req)))"

definition inject_host_credentials ::
  "(string \<Rightarrow> string) \<Rightarrow> store_data \<Rightarrow> string \<Rightarrow>
   (string, string) hash_map \<times> string \<Rightarrow> (string, string) hash_map \<times> string" where
  "inject_host_credentials enc sd url_host req =
     foldl (\<lambda>r cred. inject_host_credential enc url_host cred r) req (sd_host_credentials sd)"

section \<open>The HTTP request\<close>

definition SUPPORTED_METHODS :: "string list" where
  "SUPPORTED_METHODS = [''GET'', ''POST'', ''PUT'', ''DELETE'', ''PATCH'', ''HEAD'']"

definition effective_timeout_ms :: "u32 option \<Rightarrow> nat" where
  "effective_timeout_ms t = unat (min (case t of Some v \<Rightarrow> v | None \<Rightarrow> 30000) 300000)"

definition too_large :: "nat \<Rightarrow> nat \<Rightarrow> string" where
  "too_large n limit =
     ''Response body too large: '' @ show_nat n @ '' bytes exceeds limit of '' @ show_nat limit @ '' bytes''"

text \<open>What becomes of the client's answer.\<close>

definition receive :: "http_env \<Rightarrow> nat \<Rightarrow> client_response \<Rightarrow> string + http_response" where
  "receive env max_response r =
     (let response_headers =
            foldl (\<lambda>h (k, v). case v of Some w \<Rightarrow> hm_insert k w h | None \<Rightarrow> h) [] (cr_headers r);
          headers_json = he_headers_json env response_headers
      in if (case cr_content_length r of Some cl \<Rightarrow> max_response < cl | None \<Rightarrow> False)
         then Err (too_large (the (cr_content_length r)) max_response)
         else
           case cr_body r of
             Inl e \<Rightarrow> Err (''Failed to read response body: '' @ e)
           | Inr body \<Rightarrow>
               if max_response < length body then Err (too_large (length body) max_response)
               else
                 (let reply = \<lparr>hr_status = cr_status r, hr_headers_json = headers_json, hr_body = body\<rparr>
                  in if valid_utf8 body
                     then (case scan_and_clean (he_ac env) (he_rx env) (ld_new (he_builds env)) body of
                             Inl e \<Rightarrow> Err (''Potential secret leak in response: '' @ show_leak_error e)
                           | Inr _ \<Rightarrow> Ok reply)
                     else Ok reply))"

text \<open>The asynchronous block: its result, and the calls it made.\<close>

definition perform ::
  "http_env \<Rightarrow> nat \<Rightarrow> string \<Rightarrow> string \<Rightarrow> (string, string) hash_map \<Rightarrow> string option \<Rightarrow> u32 option \<Rightarrow>
   (string + http_response) \<times> outgoing_call list" where
  "perform env max_response method url headers body timeout_ms =
     (case he_client_build env of
        Inl e \<Rightarrow> (Err (''Failed to build HTTP client: '' @ e), [])
      | Inr _ \<Rightarrow>
          if to_uppercase method \<notin> set SUPPORTED_METHODS
          then (Err (''Unsupported HTTP method: '' @ method), [])
          else
            (let call = \<lparr>oc_method = to_uppercase method, oc_url = url, oc_headers = headers,
                         oc_body = body, oc_timeout_ms = effective_timeout_ms timeout_ms\<rparr>
             in case he_send env call of
                  SendFailed e causes \<Rightarrow>
                    (Err (''HTTP request failed: '' @ e @ concat (map (\<lambda>c. '' -> '' @ c) causes)), [call])
                | SendOk r \<Rightarrow> (receive env max_response r, [call])))"

definition max_response_bytes :: "store_data \<Rightarrow> nat" where
  "max_response_bytes sd =
     (case cap_http (hs_capabilities (sd_host_state sd)) of
        Some h \<Rightarrow> hc_max_response_bytes h | None \<Rightarrow> 10 * 1024 * 1024)"

text \<open>The headers and the URL as they are sent, from the tool's own after the placeholders.\<close>

definition prepare ::
  "http_env \<Rightarrow> store_data \<Rightarrow> string \<Rightarrow> string \<Rightarrow> (string, string) hash_map \<times> string" where
  "prepare env sd injected_url headers_json =
     (let raw_headers = (case he_parse_headers env headers_json of Some h \<Rightarrow> h | None \<Rightarrow> []);
          headers = map (\<lambda>(k, v). (k, inject_credentials sd v)) raw_headers
      in case extract_host_from_url injected_url of
           Some host \<Rightarrow> inject_host_credentials (he_encode env) sd host (headers, injected_url)
         | None \<Rightarrow> (headers, injected_url))"

definition http_request ::
  "http_env \<Rightarrow> string \<Rightarrow> string \<Rightarrow> string \<Rightarrow> string option \<Rightarrow> u32 option \<Rightarrow> store_data \<Rightarrow>
   (request_error + http_response) \<times> store_data \<times> outgoing_call list" where
  "http_request env method url headers_json body timeout_ms sd =
     (let injected_url = inject_credentials sd url
      in case check_http_allowed (sd_host_state sd) injected_url method of
           Inl e \<Rightarrow> (Err (HttpDenied e), sd, [])
         | Inr _ \<Rightarrow>
             (let (r, hs) = record_http_request (sd_host_state sd);
                  sd1 = sd\<lparr>sd_host_state := hs\<rparr>
              in case r of
                   Inl e \<Rightarrow> (Err (RateExceeded e), sd1, [])
                 | Inr _ \<Rightarrow>
                     (let (headers, url') = prepare env sd1 injected_url headers_json
                      in case scan_http_request (he_ac env) (he_rx env) (ld_new (he_builds env)) url' headers body of
                           Inl e \<Rightarrow> (Err (LeakBlocked e), sd1, [])
                         | Inr _ \<Rightarrow>
                             (case reject_private_ip (he_dns env) url' of
                                Inl e \<Rightarrow> (Err (AddressRejected e), sd1, [])
                              | Inr _ \<Rightarrow>
                                  (case (if sd_http_runtime sd1 then Ok () else he_runtime_build env) of
                                     Inl e \<Rightarrow>
                                       (Err (RequestFailed (''Failed to create HTTP runtime: '' @ e)), sd1, [])
                                   | Inr _ \<Rightarrow>
                                       (let sd2 = sd1\<lparr>sd_http_runtime := True\<rparr>;
                                            (result, calls) =
                                              perform env (max_response_bytes sd2) method url' headers body timeout_ms
                                        in ((case result of
                                               Inl e \<Rightarrow> Err (RequestFailed (redact_credentials sd2 e))
                                             | Inr v \<Rightarrow> Ok v), sd2, calls)))))))"

section \<open>The other host functions\<close>

definition sd_log :: "u64 \<Rightarrow> log_level \<Rightarrow> string \<Rightarrow> store_data \<Rightarrow> store_data option" where
  "sd_log now level message sd =
     map_option (\<lambda>hs. sd\<lparr>sd_host_state := hs\<rparr>) (hs_log now level message (sd_host_state sd))"

definition sd_workspace_read :: "store_data \<Rightarrow> string \<Rightarrow> string option" where
  "sd_workspace_read sd path =
     (case workspace_read (sd_host_state sd) path of Inl _ \<Rightarrow> None | Inr r \<Rightarrow> r)"

definition tool_invoke :: "string \<Rightarrow> store_data \<Rightarrow> (host_error option + string) \<times> store_data" where
  "tool_invoke alias sd =
     (case check_tool_invoke_allowed (sd_host_state sd) alias of
        Inl e \<Rightarrow> (Err (Some e), sd)
      | Inr _ \<Rightarrow>
          (let (r, hs) = record_tool_invoke (sd_host_state sd);
               sd' = sd\<lparr>sd_host_state := hs\<rparr>
           in case r of Inl e \<Rightarrow> (Err (Some e), sd') | Inr _ \<Rightarrow> (Err None, sd')))"

definition sd_secret_exists :: "store_data \<Rightarrow> string \<Rightarrow> bool" where
  "sd_secret_exists sd name = secret_exists (sd_host_state sd) name"

section \<open>Credentials before an execution\<close>

text \<open>The part of the secrets store that is used here: the expiry and the value of a secret, and the
  creation of one. \<open>'s\<close> is the state of the store.\<close>

record create_secret_params =
  csp_name :: string
  csp_value :: string
  csp_provider :: "string option"
  csp_expires_at :: "time option"

record 's secrets_store =
  ss_get_expiry :: "'s \<Rightarrow> string \<Rightarrow> string \<Rightarrow> secret_error + time option"
  ss_get_decrypted :: "'s \<Rightarrow> string \<Rightarrow> string \<Rightarrow> secret_error + string"
  ss_create :: "string \<Rightarrow> create_secret_params \<Rightarrow> 's \<Rightarrow> (secret_error + unit) \<times> 's"

text \<open>The answer of the token endpoint, \<open>oe_number\<close> the reading of a JSON number as \<open>u64\<close>, and
  \<open>oe_add_seconds\<close> the time \<open>chrono\<close> computes, None where it panics.\<close>

datatype post_outcome = PostFailed | PostRefused nat | PostNoJson | PostJson json

record oauth_env =
  oe_dns :: "string \<Rightarrow> string + ip_addr list"
  oe_client_build :: bool
  oe_post :: "string \<Rightarrow> (string \<times> string) list \<Rightarrow> post_outcome"
  oe_number :: "string \<Rightarrow> u64 option"
  oe_add_seconds :: "time \<Rightarrow> int \<Rightarrow> time option"

definition refresh_params :: "oauth_refresh_config \<Rightarrow> string \<Rightarrow> (string \<times> string) list" where
  "refresh_params config refresh_token =
     [(''grant_type'', ''refresh_token''), (''refresh_token'', refresh_token),
      (''client_id'', orc_client_id config)] @
     (case orc_client_secret config of Some secret \<Rightarrow> [(''client_secret'', secret)] | None \<Rightarrow> [])"

text \<open>The expiry the response announces: none, or the time so many seconds from now.\<close>

definition token_expiry :: "oauth_env \<Rightarrow> time \<Rightarrow> json \<Rightarrow> time option option" where
  "token_expiry env now token_data =
     (case json_get token_data ''expires_in'' of
        Some (JNumber lit) \<Rightarrow>
          (case oe_number env lit of
             Some n \<Rightarrow> map_option Some (oe_add_seconds env now (sint n))
           | None \<Rightarrow> Some None)
      | _ \<Rightarrow> Some None)"

text \<open>The tokens of a response are stored; the calls to the token endpoint are returned.\<close>

definition store_tokens ::
  "oauth_env \<Rightarrow> 's secrets_store \<Rightarrow> time \<Rightarrow> string \<Rightarrow> oauth_refresh_config \<Rightarrow> json \<Rightarrow> 's \<Rightarrow> (bool \<times> 's) option" where
  "store_tokens env ops now user_id config token_data st =
     (case json_get_str token_data ''access_token'' of
        None \<Rightarrow> Some (False, st)
      | Some new_access_token \<Rightarrow>
          (case token_expiry env now token_data of
             None \<Rightarrow> None
           | Some expires_at \<Rightarrow>
               (case ss_create ops user_id
                       \<lparr>csp_name = orc_secret_name config, csp_value = new_access_token,
                        csp_provider = orc_provider config, csp_expires_at = expires_at\<rparr> st of
                  (Inl _, st1) \<Rightarrow> Some (False, st1)
                | (Inr _, st1) \<Rightarrow>
                    (case json_get_str token_data ''refresh_token'' of
                       None \<Rightarrow> Some (True, st1)
                     | Some new_refresh \<Rightarrow>
                         Some (True, snd (ss_create ops user_id
                                 \<lparr>csp_name = orc_secret_name config @ ''_refresh_token'',
                                  csp_value = new_refresh, csp_provider = orc_provider config,
                                  csp_expires_at = None\<rparr> st1))))))"

definition refresh_oauth_token ::
  "oauth_env \<Rightarrow> 's secrets_store \<Rightarrow> time \<Rightarrow> string \<Rightarrow> oauth_refresh_config \<Rightarrow> 's \<Rightarrow>
   ((bool \<times> 's) \<times> (string \<times> (string \<times> string) list) list) option" where
  "refresh_oauth_token env ops now user_id config st =
     (if \<not> starts_with (orc_token_url config) ''https://'' then Some ((False, st), [])
      else if \<not> is_ok (reject_private_ip (oe_dns env) (orc_token_url config)) then Some ((False, st), [])
      else
        case ss_get_decrypted ops st user_id (orc_secret_name config @ ''_refresh_token'') of
          Inl _ \<Rightarrow> Some ((False, st), [])
        | Inr refresh_secret \<Rightarrow>
            if \<not> oe_client_build env then Some ((False, st), [])
            else
              (let params = refresh_params config refresh_secret;
                   calls = [(orc_token_url config, params)]
               in case oe_post env (orc_token_url config) params of
                    PostJson token_data \<Rightarrow>
                      map_option (\<lambda>r. (r, calls)) (store_tokens env ops now user_id config token_data st)
                  | _ \<Rightarrow> Some ((False, st), calls)))"

text \<open>Times are counted in nanoseconds: the buffer is five minutes.\<close>

definition REFRESH_BUFFER :: time where
  "REFRESH_BUFFER = 5 * 60 * 1000000000"

definition needs_refresh ::
  "'s secrets_store \<Rightarrow> time \<Rightarrow> string \<Rightarrow> oauth_refresh_config \<Rightarrow> 's \<Rightarrow> bool" where
  "needs_refresh ops now user_id config st =
     (case ss_get_expiry ops st user_id (orc_secret_name config) of
        Inr (Some expires_at) \<Rightarrow> expires_at - REFRESH_BUFFER < now
      | Inr None \<Rightarrow> False
      | Inl SecExpired \<Rightarrow> True
      | Inl _ \<Rightarrow> False)"

fun is_url_path :: "credential_location \<Rightarrow> bool" where
  "is_url_path (UrlPath _) = True"
| "is_url_path _ = False"

text \<open>The loop over the mappings, with the store's \<open>get_decrypted\<close>.\<close>

fun resolve_mappings ::
  "(string \<Rightarrow> secret_error + string) \<Rightarrow> credential_mapping list \<Rightarrow> resolved_host_credential list" where
  "resolve_mappings get [] = []"
| "resolve_mappings get (m # ms) =
     (if is_url_path (crm_location m) then resolve_mappings get ms
      else
        case get (crm_secret_name m) of
          Inl _ \<Rightarrow> resolve_mappings get ms
        | Inr secret \<Rightarrow>
            (let injected = inject_credential ic_empty (crm_location m) secret
             in if ic_is_empty injected then resolve_mappings get ms
                else \<lparr>rhc_host_patterns = crm_host_patterns m, rhc_headers = ic_headers injected,
                      rhc_query_params = ic_query_params injected, rhc_secret_value = secret\<rparr>
                     # resolve_mappings get ms))"

text \<open>\<open>resolve_host_credentials\<close>: the credentials, the store afterwards and the calls to the token
  endpoint.\<close>

definition resolve_host_credentials ::
  "oauth_env \<Rightarrow> time \<Rightarrow> time \<Rightarrow> capabilities \<Rightarrow> 's secrets_store option \<Rightarrow> string \<Rightarrow>
   oauth_refresh_config option \<Rightarrow> 's \<Rightarrow>
   (resolved_host_credential list \<times> 's \<times> (string \<times> (string \<times> string) list) list) option" where
  "resolve_host_credentials env now1 now2 caps store user_id oauth_refresh st =
     (case store of
        None \<Rightarrow> Some ([], st, [])
      | Some ops \<Rightarrow>
          (case (case oauth_refresh of
                   Some config \<Rightarrow>
                     if needs_refresh ops now1 user_id config st
                     then map_option (\<lambda>((_, st'), calls). (st', calls))
                            (refresh_oauth_token env ops now2 user_id config st)
                     else Some (st, [])
                 | None \<Rightarrow> Some (st, [])) of
             None \<Rightarrow> None
           | Some (st', calls) \<Rightarrow>
               (case cap_http caps of
                  None \<Rightarrow> Some ([], st', calls)
                | Some http_cap \<Rightarrow>
                    if hc_credentials http_cap = [] then Some ([], st', calls)
                    else Some (resolve_mappings (ss_get_decrypted ops st' user_id)
                                 (map snd (hc_credentials http_cap)), st', calls))))"

section \<open>Reference notions\<close>

definition after_scheme :: "string \<Rightarrow> string option" where
  "after_scheme url =
     (case strip_prefix url ''https://'' of Some r \<Rightarrow> Some r | None \<Rightarrow> strip_prefix url ''http://'')"

definition host_of_port :: "string \<Rightarrow> string option" where
  "host_of_port host_port =
     (let after_userinfo = (case rfind_str host_port ''@'' of
                              Some i \<Rightarrow> drop (i + 1) host_port | None \<Rightarrow> host_port)
      in authority_host after_userinfo)"

abbreviation "in_authority \<equiv> \<lambda>c. c \<notin> {CHR ''/'', CHR ''?'', CHR ''#''}"

abbreviation bracketed :: "string \<Rightarrow> string" where
  "bracketed mid \<equiv> ''['' @ mid @ '']''"

text \<open>The replacements of \<open>redact_credentials\<close>: what is replaced, and the text of its label.\<close>

definition redactions :: "store_data \<Rightarrow> (string \<times> string) list" where
  "redactions sd =
     map (\<lambda>(name, v). (v, ''REDACTED:'' @ name)) (sd_credentials sd) @
     map (\<lambda>cred. (rhc_secret_value cred, ''REDACTED:host_credential'')) (sd_host_credentials sd)"

definition redact_step :: "string \<Rightarrow> string \<times> string \<Rightarrow> string" where
  "redact_step r vl = (if fst vl \<noteq> [] then replace_str (fst vl) (bracketed (snd vl)) r else r)"

definition redactable :: "store_data \<Rightarrow> bool" where
  "redactable sd \<longleftrightarrow>
     (\<forall>(v, l) \<in> set (redactions sd). v \<noteq> [] \<longrightarrow>
        CHR ''['' \<notin> set v \<and> CHR '']'' \<notin> set v \<and> (\<forall>(p, l') \<in> set (redactions sd). \<not> contains l' v))"

text \<open>Host credentials.\<close>

definition applies_to :: "string \<Rightarrow> resolved_host_credential \<Rightarrow> bool" where
  "applies_to host cred = list_ex (host_matches_pattern host) (rhc_host_patterns cred)"

text \<open>A tool that may reach one host, with a credential for it, and an environment in which nothing
  matches the leak patterns.\<close>

definition example_env :: "(outgoing_call \<Rightarrow> send_outcome) \<Rightarrow> http_env" where
  "example_env send =
     \<lparr>he_ac = \<lambda>_ _. [], he_rx = \<lambda>_ _. [], he_builds = \<lambda>_. False, he_encode = \<lambda>s. s,
      he_parse_headers = \<lambda>_. Some [], he_headers_json = \<lambda>_. ''{}'',
      he_dns = \<lambda>_. Ok [IpV4 93 184 216 34], he_runtime_build = Ok (), he_client_build = Ok (),
      he_send = send\<rparr>"

definition example_tool :: store_data where
  "example_tool =
     sd_new 0 (cap_with_http (hc_new [ep_of_host ''api.example.com'']) cap_none) [(''TOKEN'', ''s3cr3t'')]
       [\<lparr>rhc_host_patterns = [''api.example.com''], rhc_headers = [(''Authorization'', ''Bearer abc'')],
         rhc_query_params = [], rhc_secret_value = ''abc''\<rparr>]"

definition example_call :: outgoing_call where
  "example_call =
     \<lparr>oc_method = ''GET'', oc_url = ''https://api.example.com/v1'',
      oc_headers = [(''Authorization'', ''Bearer abc'')], oc_body = None, oc_timeout_ms = 30000\<rparr>"

definition example_ok :: "outgoing_call \<Rightarrow> send_outcome" where
  "example_ok call = SendOk \<lparr>cr_status = 200, cr_headers = [], cr_content_length = Some 2, cr_body = Ok ''ok''\<rparr>"

definition example_fail :: "outgoing_call \<Rightarrow> send_outcome" where
  "example_fail call = SendFailed ''error sending request with s3cr3t'' []"

section \<open>Lemmas\<close>

lemma store_data_frame [frame]:
  "inject_credentials (sd\<lparr>sd_host_state := hs\<rparr>) s = inject_credentials sd s"
  "inject_credentials (sd\<lparr>sd_http_runtime := b\<rparr>) s = inject_credentials sd s"
  "inject_host_credentials enc (sd\<lparr>sd_host_state := hs\<rparr>) h r = inject_host_credentials enc sd h r"
  "redact_credentials (sd\<lparr>sd_host_state := hs\<rparr>) s = redact_credentials sd s"
  "redact_credentials (sd\<lparr>sd_http_runtime := b\<rparr>) s = redact_credentials sd s"
  by (simp_all add: inject_credentials_def inject_host_credentials_def redact_credentials_def)

lemma prepare_frame [frame]: "prepare env (sd\<lparr>sd_host_state := hs\<rparr>) u j = prepare env sd u j"
  by (simp add: prepare_def frame Let_def split: option.split)

lemma perform_calls:
  assumes "call \<in> set (snd (perform env mx method url headers body t))"
  shows "call = \<lparr>oc_method = to_uppercase method, oc_url = url, oc_headers = headers, oc_body = body,
                 oc_timeout_ms = effective_timeout_ms t\<rparr>"
    and "snd (perform env mx method url headers body t) = [call]" and "oc_method call \<in> set SUPPORTED_METHODS"
  using assms by (auto simp: perform_def Let_def split: sum.splits if_splits send_outcome.splits)

text \<open>What an HTTP request amounts to when it is sent.\<close>

lemma http_request_sent:
  assumes "http_request env method url headers_json body t sd = (r, sd', calls)" and "call \<in> set calls"
  shows "check_http_allowed (sd_host_state sd) (inject_credentials sd url) method = Ok () \<and>
    fst (record_http_request (sd_host_state sd)) = Ok () \<and>
    prepare env sd (inject_credentials sd url) headers_json = (oc_headers call, oc_url call) \<and>
    scan_http_request (he_ac env) (he_rx env) (ld_new (he_builds env)) (oc_url call) (oc_headers call)
      (oc_body call) = Ok () \<and>
    reject_private_ip (he_dns env) (oc_url call) = Ok () \<and>
    sd' = sd\<lparr>sd_host_state := snd (record_http_request (sd_host_state sd)), sd_http_runtime := True\<rparr> \<and>
    (r, calls) = apfst (\<lambda>res. case res of Inl e \<Rightarrow> Err (RequestFailed (redact_credentials sd e)) | Inr v \<Rightarrow> Ok v)
      (perform env (max_response_bytes sd') method (oc_url call) (oc_headers call) (oc_body call) t)"
proof -
  obtain rr hs where rec: "record_http_request (sd_host_state sd) = (rr, hs)" by fastforce
  obtain h u where hu: "prepare env sd (inject_credentials sd url) headers_json = (h, u)" by fastforce
  let ?sd2 = "sd\<lparr>sd_host_state := hs, sd_http_runtime := True\<rparr>"
  obtain res cs where p: "perform env (max_response_bytes ?sd2) method u h body t = (res, cs)" by fastforce
  have all: "check_http_allowed (sd_host_state sd) (inject_credentials sd url) method = Ok () \<and> rr = Ok () \<and>
    scan_http_request (he_ac env) (he_rx env) (ld_new (he_builds env)) u h body = Ok () \<and>
    reject_private_ip (he_dns env) u = Ok () \<and> sd' = ?sd2 \<and> calls = cs \<and>
    r = (case res of Inl e \<Rightarrow> Err (RequestFailed (redact_credentials sd e)) | Inr v \<Rightarrow> Ok v)"
    using assms rec hu p
    by (auto simp: http_request_def Let_def frame split: sum.splits if_splits)
  then have "call \<in> set (snd (perform env (max_response_bytes ?sd2) method u h body t))" using assms(2) p by simp
  from perform_calls(1) [OF this] have "oc_url call = u" "oc_headers call = h" "oc_body call = body" by simp_all
  with all rec hu p show ?thesis by simp
qed

text \<open>The query parameters go behind the host.\<close>

lemma push_params_append:
  "\<exists>q. push_params enc sep i ps url = url @ q \<and>
     (ps \<noteq> [] \<longrightarrow> (\<exists>q'. q = (if i = 0 then sep else CHR ''&'') # q'))"
proof (induction enc sep i ps url rule: push_params.induct)
  case (2 enc sep i name v ps url)
  then show ?case by auto
qed simp

text \<open>The parts of a URL around the place of new parameters.\<close>

lemma append_query_params_split:
  obtains base frag where "url = base @ frag" and "CHR ''#'' \<notin> set base" and "frag = [] \<or> hd frag = CHR ''#''"
    and "append_query_params enc params url = url \<or>
         (\<exists>q. append_query_params enc params url = base @ (if CHR ''?'' \<in> set base then CHR ''&'' else CHR ''?'') # q @ frag)"
proof (cases "find_str url ''#''")
  case None
  then have "CHR ''#'' \<notin> set url" using contains_char_iff [of url "CHR ''#''"] by (simp add: contains_def)
  moreover have "append_query_params enc params url = url \<or>
      (\<exists>q. append_query_params enc params url = url @ (if CHR ''?'' \<in> set url then CHR ''&'' else CHR ''?'') # q @ [])"
    using push_params_append [of enc "if contains url ''?'' then CHR ''&'' else CHR ''?''" 0 params url] None
    by (auto simp: append_query_params_def contains_char_iff)
  ultimately show ?thesis by (intro that [of url "[]"]) auto
next
  case (Some i)
  then have b: "CHR ''#'' \<notin> set (take i url)" "hd (drop i url) = CHR ''#''"
    using take_find_char by force+
  moreover have "append_query_params enc params url = url \<or>
      (\<exists>q. append_query_params enc params url =
         take i url @ (if CHR ''?'' \<in> set (take i url) then CHR ''&'' else CHR ''?'') # q @ drop i url)"
    using push_params_append [of enc "if contains (take i url) ''?'' then CHR ''&'' else CHR ''?''" 0 params "take i url"] Some
    by (auto simp: append_query_params_def contains_char_iff)
  ultimately show ?thesis by (intro that [of "take i url" "drop i url"]) auto
qed

lemma extract_host_eq:
  "extract_host_from_url url = Option.bind (after_scheme url) (\<lambda>r. host_of_port (takeWhile in_authority r))"
  unfolding extract_host_from_url_def after_scheme_def host_of_port_def authority_host_def Let_def
  by (simp split: option.split)

lemma after_scheme_before:
  "y = [] \<or> hd y \<in> {CHR ''#'', CHR ''&'', CHR ''?''} \<Longrightarrow>
     after_scheme (x @ y) = map_option (\<lambda>r. r @ y) (after_scheme x)"
  using strip_prefix_before [of y "''https://''" x] strip_prefix_before [of y "''http://''" x]
  by (auto simp: after_scheme_def split: option.splits)

lemma after_scheme_Some: "after_scheme x = Some b \<Longrightarrow> \<exists>p. x = p @ b \<and> CHR ''?'' \<notin> set p"
  by (rule exI [of _ "take (length x - length b) x"])
    (auto simp: after_scheme_def strip_prefix_Some split: option.splits)

lemma extract_host_query: "extract_host_from_url (append_query_params enc params url) = extract_host_from_url url"
proof (rule append_query_params_split [of url enc params])
  fix base frag
  assume u: "url = base @ frag" and f: "frag = [] \<or> hd frag = CHR ''#''"
    and a: "append_query_params enc params url = url \<or>
      (\<exists>q. append_query_params enc params url = base @ (if CHR ''?'' \<in> set base then CHR ''&'' else CHR ''?'') # q @ frag)"
  show ?thesis
  proof (cases "append_query_params enc params url = url")
    case False
    with a obtain q where n: "append_query_params enc params url =
        base @ (if CHR ''?'' \<in> set base then CHR ''&'' else CHR ''?'') # q @ frag" (is "_ = base @ ?new") by blast
    have same: "takeWhile in_authority (b @ ?new) = takeWhile in_authority (b @ frag)"
      if sch: "after_scheme base = Some b" for b
    proof (rule takeWhile_before [symmetric])
      show "frag = [] \<or> \<not> in_authority (hd frag)" using f by force
      obtain p where "base = p @ b" "CHR ''?'' \<notin> set p" using after_scheme_Some [OF sch] by blast
      then have "CHR ''?'' \<in> set b \<or> hd ?new = CHR ''?''" by simp
      then show "?new = [] \<or> \<not> in_authority (hd ?new) \<or> (\<exists>c \<in> set b. \<not> in_authority c)" by blast
    qed
    have "after_scheme (base @ y) = map_option (\<lambda>r. r @ y) (after_scheme base)" if "y = frag \<or> y = ?new" for y
      using f that by (intro after_scheme_before) (auto split: if_splits)
    then show ?thesis unfolding u [symmetric] n extract_host_eq
      using same u by (cases "after_scheme base") simp_all
  qed simp
qed

text \<open>A text without brackets that occurs around a label occurs in the label or behind it.\<close>

lemma contains_label:
  assumes "CHR ''['' \<notin> set v" and "CHR '']'' \<notin> set v" and "v \<noteq> []"
    and "contains (CHR ''['' # mid @ CHR '']'' # rest) v"
  shows "contains mid v \<or> contains rest v"
proof -
  have "contains mid v \<or> contains rest v" if "contains (mid @ CHR '']'' # rest) v"
    using that
  proof (induction mid)
    case Nil
    then show ?case using assms by (cases v) (auto simp: contains_Cons_iff)
  next
    case (Cons c mid)
    have "starts_with (c # mid) v" if "starts_with (c # mid @ CHR '']'' # rest) v"
      using that starts_with_before [of "CHR '']'' # rest" v "c # mid"] assms(2) by simp
    with Cons show ?case by (auto simp: contains_Cons_iff)
  qed
  with assms show ?thesis by (cases v) (auto simp: contains_Cons_iff)
qed

text \<open>Before its first label, the result is the text.\<close>

lemma replace_str_prefix:
  assumes "p \<noteq> []" and "CHR ''['' \<notin> set w" and "starts_with (replace_str p (bracketed mid) s) w"
  shows "starts_with s w"
  using assms(2,3)
proof (induction s arbitrary: w)
  case Nil
  then show ?case using assms(1) by (simp add: replace_str_unfold)
next
  case (Cons c s)
  show ?case
  proof (cases "starts_with (c # s) p")
    case True
    with Cons.prems assms(1) show ?thesis by (cases w) (auto simp: replace_str_unfold)
  next
    case False
    with Cons assms(1) show ?thesis by (cases w) (auto simp: replace_str_unfold)
  qed
qed

text \<open>What occurs in the result occurred in the text or in the label, and the replaced text itself
  only in the label.\<close>

lemma contains_replaced:
  assumes "p \<noteq> []" and "v \<noteq> []" and "CHR ''['' \<notin> set v" and "CHR '']'' \<notin> set v"
    and "contains (replace_str p (bracketed mid) s) v"
  shows "contains mid v \<or> contains s v \<and> v \<noteq> p"
  using assms(5)
proof (induction s rule: length_induct)
  case (1 s)
  show ?case
  proof (cases s)
    case Nil
    with "1.prems" assms(1,2) show ?thesis by (simp add: replace_str_unfold contains_def)
  next
    case (Cons c s')
    show ?thesis
    proof (cases "starts_with s p")
      case True
      let ?d = "drop (length p) s"
      have "contains (CHR ''['' # mid @ CHR '']'' # replace_str p (bracketed mid) ?d) v"
        using "1.prems" True assms(1) unfolding Cons by (simp add: replace_str_unfold)
      then have "contains mid v \<or> contains (replace_str p (bracketed mid) ?d) v"
        using assms by (intro contains_label)
      moreover have "length ?d < length s" using assms(1) Cons by (cases p) auto
      ultimately have "contains mid v \<or> contains ?d v \<and> v \<noteq> p" using "1.IH" by blast
      then show ?thesis using contains_drop by blast
    next
      case False
      have e: "replace_str p (bracketed mid) s = c # replace_str p (bracketed mid) s'"
        using False assms(1) unfolding Cons by (simp add: replace_str_unfold)
      have "starts_with s v" if "starts_with (replace_str p (bracketed mid) s) v"
        using replace_str_prefix [OF assms(1,3) that] .
      with False e "1.prems" "1.IH" Cons show ?thesis by (auto simp: contains_Cons_iff)
    qed
  qed
qed

lemma redact_credentials_eq: "redact_credentials sd t = foldl redact_step t (redactions sd)"
  unfolding redact_credentials_def redactions_def foldl_append foldl_map Let_def
  by (intro foldl_cong) (auto simp: redact_step_def)

lemma redact_steps_keep:
  assumes "\<not> contains r v" and "v \<noteq> []" and "CHR ''['' \<notin> set v" and "CHR '']'' \<notin> set v"
    and "\<forall>(p, l) \<in> set rs. \<not> contains l v"
  shows "\<not> contains (foldl redact_step r rs) v"
  using assms(1,5)
proof (induction rs arbitrary: r)
  case (Cons vl rs)
  have "\<not> contains (redact_step r vl) v"
    using Cons.prems contains_replaced [of "fst vl" v "snd vl" r] assms(2-4)
    by (auto simp: redact_step_def case_prod_beta)
  with Cons show ?case by simp
qed simp

lemma redact_steps_remove:
  assumes "(v, l) \<in> set rs" and "v \<noteq> []" and "CHR ''['' \<notin> set v" and "CHR '']'' \<notin> set v"
    and "\<forall>(p, l) \<in> set rs. \<not> contains l v"
  shows "\<not> contains (foldl redact_step r rs) v"
proof -
  obtain xs ys where rs: "rs = xs @ (v, l) # ys" using assms(1) by (meson split_list)
  let ?r = "foldl redact_step r xs"
  have "\<not> contains (redact_step ?r (v, l)) v"
    using contains_replaced [of v v l ?r] assms by (auto simp: redact_step_def)
  then show ?thesis unfolding rs using redact_steps_keep [of "redact_step ?r (v, l)" v ys] assms rs by simp
qed

lemma redact_credentials_removes:
  assumes "redactable sd" and "v \<in> fst ` set (redactions sd)" and "v \<noteq> []"
  shows "\<not> contains (redact_credentials sd t) v"
  using assms redact_steps_remove [of v _ "redactions sd" t]
  unfolding redactable_def redact_credentials_eq by fastforce

lemma inject_host_credential_host:
  "extract_host_from_url (snd (inject_host_credential enc h cred req)) = extract_host_from_url (snd req)"
  by (simp add: inject_host_credential_def extract_host_query)

lemma inject_host_credentials_host:
  "extract_host_from_url (snd (inject_host_credentials enc sd h req)) = extract_host_from_url (snd req)"
proof -
  have "extract_host_from_url (snd (foldl (\<lambda>r cred. inject_host_credential enc h cred r) req cs)) =
    extract_host_from_url (snd req)" for cs
    by (induction cs arbitrary: req) (simp_all add: inject_host_credential_host)
  then show ?thesis by (simp add: inject_host_credentials_def)
qed

lemma hm_get_insert_all:
  "hm_get (foldl (\<lambda>h (k, v). hm_insert k v h) h kvs) k = Some v \<Longrightarrow> hm_get h k = Some v \<or> (k, v) \<in> set kvs"
proof (induction kvs arbitrary: h)
  case (Cons kv kvs)
  from Cons.IH [of "hm_insert (fst kv) (snd kv) h"] Cons.prems show ?case
    by (cases kv) (auto simp: hm.get_insert split: if_splits)
qed simp

lemma inject_host_credentials_header:
  assumes "hm_get (fst (inject_host_credentials enc sd host req)) k = Some v"
  shows "hm_get (fst req) k = Some v \<or>
    (\<exists>cred \<in> set (sd_host_credentials sd). applies_to host cred \<and> (k, v) \<in> set (rhc_headers cred))"
proof -
  have "hm_get (fst (foldl (\<lambda>r cred. inject_host_credential enc host cred r) req cs)) k = Some v \<Longrightarrow>
    hm_get (fst req) k = Some v \<or> (\<exists>cred \<in> set cs. applies_to host cred \<and> (k, v) \<in> set (rhc_headers cred))" for cs
  proof (induction cs arbitrary: req)
    case (Cons cred cs)
    have "hm_get (fst (inject_host_credential enc host cred req)) k = Some v \<Longrightarrow>
      hm_get (fst req) k = Some v \<or> applies_to host cred \<and> (k, v) \<in> set (rhc_headers cred)"
      by (auto simp: inject_host_credential_def applies_to_def dest: hm_get_insert_all split: if_splits)
    with Cons show ?case by fastforce
  qed simp
  from this [of "sd_host_credentials sd"] assms show ?thesis by (simp add: inject_host_credentials_def)
qed

text \<open>Only the credentials of the host matter.\<close>

lemma inject_host_credentials_filter:
  "inject_host_credentials enc (sd\<lparr>sd_host_credentials := filter (applies_to host) (sd_host_credentials sd)\<rparr>) host req =
   inject_host_credentials enc sd host req"
proof -
  have "foldl (\<lambda>r cred. inject_host_credential enc host cred r) req (filter (applies_to host) cs) =
    foldl (\<lambda>r cred. inject_host_credential enc host cred r) req cs" for cs
    by (induction cs arbitrary: req) (auto simp: inject_host_credential_def applies_to_def)
  then show ?thesis by (simp add: inject_host_credentials_def)
qed

lemma prepare_host:
  assumes "prepare env sd u j = (h, u')"
  shows "extract_host_from_url u' = extract_host_from_url u"
proof (cases "extract_host_from_url u")
  case None
  then show ?thesis using assms by (simp add: prepare_def)
next
  case (Some host)
  then show ?thesis using assms
      inject_host_credentials_host [of "he_encode env" sd host
        "(map (\<lambda>(k, v). (k, inject_credentials sd v)) (case he_parse_headers env j of Some h \<Rightarrow> h | None \<Rightarrow> []), u)"]
    by (simp add: prepare_def)
qed

lemma applies_to_zone: "applies_to host cred \<Longrightarrow> \<exists>p \<in> set (rhc_host_patterns cred). in_zone (\<lambda>h. h) p host"
  using cred_zone.any_sound [of "rhc_host_patterns cred" host] by (auto simp: applies_to_def list_ex_iff)

lemma check_http_allowed_Ok:
  "check_http_allowed hs url method = Ok () \<longleftrightarrow>
     (\<exists>cap. cap_http (hs_capabilities hs) = Some cap \<and>
        is_allowed (av_validate (av_new (hc_allowlist cap)) url method))"
  by (auto simp: check_http_allowed_def Let_def split: option.splits if_splits)

lemma record_http_request_Ok:
  "fst (record_http_request hs) = Ok () \<Longrightarrow> hs_http_request_count hs + 1 \<le> 50"
  by (auto simp: record_http_request_def Let_def split: option.splits if_splits)

lemma effective_timeout_le: "effective_timeout_ms t \<le> 300000"
proof -
  have "unat (min w 300000) \<le> unat (300000 :: u32)" for w :: u32
    unfolding word_le_nat_alt [symmetric] by simp
  then show ?thesis unfolding effective_timeout_ms_def by simp
qed

lemma receive_Ok:
  assumes "receive env mx r = Ok reply"
  shows "cr_body r = Ok (hr_body reply)" and "hr_status reply = cr_status r" and "length (hr_body reply) \<le> mx"
    and "valid_utf8 (hr_body reply) \<Longrightarrow>
      is_ok (scan_and_clean (he_ac env) (he_rx env) (ld_new (he_builds env)) (hr_body reply))"
  using assms
  by (auto simp: receive_def Let_def is_ok_def split: if_splits sum.splits option.splits)

lemma perform_Ok:
  assumes "perform env mx method url headers body t = (Ok reply, calls)"
  shows "\<exists>call answer. calls = [call] \<and> he_send env call = SendOk answer \<and> receive env mx answer = Ok reply"
  using assms by (auto simp: perform_def Let_def split: sum.splits if_splits send_outcome.splits)

lemma http_request_Ok_calls:
  "http_request env method url headers_json body t sd = (Ok reply, sd', calls) \<Longrightarrow> calls \<noteq> []"
  by (auto simp: http_request_def Let_def split: sum.splits if_splits prod.splits dest: perform_Ok)

lemma reveal_steps:
  "foldl (\<lambda>r (name, v). if contains r (placeholder_of name) then replace_str (placeholder_of name) v r else r)
     ''https://api.example.com/x/{TOKEN}'' [(''TOKEN'', ''s3cr3t'')] = ''https://api.example.com/x/s3cr3t''"
  "av_validate (av_new [ep_with_path_prefix ''/v1/'' (ep_of_host ''api.example.com'')])
     ''https://api.example.com/x/s3cr3t'' ''GET'' = Denied (PathNotAllowed ''api.example.com'' ''/x/s3cr3t'')"
  by code_simp+

lemma example_steps:
  "foldl (\<lambda>r (name, v). if contains r (placeholder_of name) then replace_str (placeholder_of name) v r else r)
     ''https://api.example.com/v1'' [(''TOKEN'', ''s3cr3t'')] = ''https://api.example.com/v1''"
  "is_allowed (av_validate (av_new [ep_of_host ''api.example.com'']) ''https://api.example.com/v1'' ''GET'')"
  "extract_host_from_url ''https://api.example.com/v1'' = Some ''api.example.com''"
  "host_matches_pattern ''api.example.com'' ''api.example.com''"
  "scan_http_request (\<lambda>_ _. []) (\<lambda>_ _. []) (ld_new (\<lambda>_. False)) ''https://api.example.com/v1''
     [(''Authorization'', ''Bearer abc'')] None = Ok ()"
  "checked_host ''https://api.example.com/v1'' = Some ''api.example.com''"
  "to_uppercase ''GET'' = ''GET''"
  by code_simp+

lemma example_no_literal: "parse_ip ''api.example.com'' = None"
  by (simp add: parse_ip_def read_ipv6_addr_def read_groups.simps read_ipv4_addr_def read_octet_def
      read_separator_def read_number_def to_digit_def)

lemma example_frame:
  "sd_host_state example_tool = hs_new (cap_with_http (hc_new [ep_of_host ''api.example.com'']) cap_none)"
  "sd_credentials example_tool = [(''TOKEN'', ''s3cr3t'')]"
  "\<not> sd_http_runtime example_tool"
  by (simp_all add: example_tool_def sd_new_def)

lemma example_request:
  "\<exists>sd' mx. mx = hc_max_response_bytes hc_default \<and>
     http_request (example_env send) ''GET'' ''https://api.example.com/v1'' [] None None example_tool =
       (case send example_call of
          SendFailed e causes \<Rightarrow>
            Err (RequestFailed (redact_credentials example_tool
                   (''HTTP request failed: '' @ e @ concat (map (\<lambda>c. '' -> '' @ c) causes))))
        | SendOk a \<Rightarrow> (case receive (example_env send) mx a of
                        Inl e \<Rightarrow> Err (RequestFailed (redact_credentials example_tool e)) | Inr v \<Rightarrow> Ok v),
        sd', [example_call])"
proof -
  let ?env = "example_env send" and ?url = "''https://api.example.com/v1''" and ?h = "[(''Authorization'', ''Bearer abc'')]"
  have inj: "inject_credentials example_tool ?url = ?url"
    using example_steps(1) by (simp only: inject_credentials_def example_frame)
  have cap: "cap_http (hs_capabilities (sd_host_state example_tool)) = Some (hc_new [ep_of_host ''api.example.com''])"
    by (simp add: example_frame hs_new_def cap_with_http_def)
  have allowed: "check_http_allowed (sd_host_state example_tool) ?url ''GET'' = Ok ()"
    using cap example_steps(2) by (simp add: check_http_allowed_Ok hc_new_def)
  obtain hs where rec: "record_http_request (sd_host_state example_tool) = (Ok (), hs)"
    using cap by (simp add: record_http_request_def Let_def example_frame hs_new_def)
  have hs: "cap_http (hs_capabilities hs) = Some (hc_new [ep_of_host ''api.example.com''])"
    using record_http_request_log [of "sd_host_state example_tool"] rec cap by simp
  have prep: "prepare ?env example_tool ?url [] = (?h, ?url)"
    by (simp add: prepare_def example_env_def example_steps(3) inject_host_credentials_def example_tool_def sd_new_def
        inject_host_credential_def example_steps(4) append_query_params_def hm_insert_def)
  have scan: "scan_http_request (he_ac ?env) (he_rx ?env) (ld_new (he_builds ?env)) ?url ?h None = Ok ()"
    by (simp add: example_env_def example_steps(5))
  have ip: "reject_private_ip (he_dns ?env) ?url = Ok ()"
    by (simp add: reject_private_ip_def example_steps(6) example_no_literal example_env_def)
  have call: "\<lparr>oc_method = ''GET'', oc_url = ?url, oc_headers = ?h, oc_body = None,
      oc_timeout_ms = effective_timeout_ms None\<rparr> = example_call"
    by (simp add: example_call_def effective_timeout_ms_def)
  have perf: "perform ?env mx ''GET'' ?url ?h None None =
      (case send example_call of
         SendFailed e causes \<Rightarrow> Err (''HTTP request failed: '' @ e @ concat (map (\<lambda>c. '' -> '' @ c) causes))
       | SendOk a \<Rightarrow> receive ?env mx a, [example_call])" for mx
    unfolding perform_def example_steps(7) call Let_def
    by (simp add: example_env_def SUPPORTED_METHODS_def split: send_outcome.split)
  have mx: "max_response_bytes (example_tool\<lparr>sd_host_state := hs, sd_http_runtime := True\<rparr>) =
      hc_max_response_bytes hc_default"
    using hs by (simp add: max_response_bytes_def hc_new_def)
  show ?thesis
    unfolding http_request_def inj allowed rec Let_def frame prep case_prod_conv scan ip perf
    by (simp add: example_env_def example_frame frame mx split: send_outcome.split)
qed

lemma example_scan: "scan_and_clean (\<lambda>_ _. []) (\<lambda>_ _. []) (ld_new (\<lambda>_. False)) ''ok'' = Ok ''ok''" "valid_utf8 ''ok''"
  by code_simp+

lemma example_receive:
  "receive (example_env example_ok) (hc_max_response_bytes hc_default)
     \<lparr>cr_status = 200, cr_headers = [], cr_content_length = Some 2, cr_body = Ok ''ok''\<rparr> =
   Ok \<lparr>hr_status = 200, hr_headers_json = ''{}'', hr_body = ''ok''\<rparr>"
  by (simp add: receive_def example_env_def example_scan hc_default_def)

lemma example_answered:
  obtains sd' where "http_request (example_env example_ok) ''GET'' ''https://api.example.com/v1'' [] None None example_tool =
    (Ok \<lparr>hr_status = 200, hr_headers_json = ''{}'', hr_body = ''ok''\<rparr>, sd', [example_call])"
  using example_request [of example_ok] example_receive by (auto simp: example_ok_def)

lemma example_redactable: "redactable example_tool" "(''s3cr3t'', ''REDACTED:TOKEN'') \<in> set (redactions example_tool)"
proof -
  have r: "redactions example_tool = [(''s3cr3t'', ''REDACTED:TOKEN''), (''abc'', ''REDACTED:host_credential'')]"
    by (simp add: redactions_def example_tool_def sd_new_def)
  have "\<not> contains ''REDACTED:TOKEN'' ''s3cr3t''" "\<not> contains ''REDACTED:host_credential'' ''s3cr3t''"
    "\<not> contains ''REDACTED:TOKEN'' ''abc''" "\<not> contains ''REDACTED:host_credential'' ''abc''"
    by code_simp+
  then show "redactable example_tool" by (simp add: redactable_def r)
  show "(''s3cr3t'', ''REDACTED:TOKEN'') \<in> set (redactions example_tool)" by (simp add: r)
qed

lemma refresh_calls:
  assumes "refresh_oauth_token env ops now u config st = Some (r, calls)" and "(url, params) \<in> set calls"
  shows "url = orc_token_url config" and "starts_with url ''https://''" and "reject_private_ip (oe_dns env) url = Ok ()"
    and "\<exists>token. ss_get_decrypted ops st u (orc_secret_name config @ ''_refresh_token'') = Ok token \<and>
           params = refresh_params config token"
  using assms
  by (auto simp: refresh_oauth_token_def Let_def is_ok_def split: if_splits sum.splits post_outcome.splits)

lemma resolve_mappings_origin:
  "cred \<in> set (resolve_mappings get ms) \<Longrightarrow>
     \<exists>m \<in> set ms. rhc_host_patterns cred = crm_host_patterns m \<and> get (crm_secret_name m) = Ok (rhc_secret_value cred) \<and>
       rhc_headers cred = ic_headers (inject_credential ic_empty (crm_location m) (rhc_secret_value cred)) \<and>
       rhc_query_params cred = ic_query_params (inject_credential ic_empty (crm_location m) (rhc_secret_value cred))"
  by (induction ms) (auto simp: Let_def split: if_splits sum.splits)

section \<open>Properties\<close>



text \<open>An error of a request that was sent contains no credential value, provided the values contain no
  brackets and do not occur in the labels that replace them.\<close>

theorem http_errors_redacted:
  assumes "http_request env method url headers_json body t sd = (Err (RequestFailed msg), sd', calls)"
    and "calls \<noteq> []" and "redactable sd" and "v \<in> fst ` set (redactions sd)" and "v \<noteq> []"
  shows "\<not> contains msg v"
proof -
  obtain call where "call \<in> set calls" using assms(2) by (cases calls) auto
  from http_request_sent [OF assms(1) this]
  obtain e where "msg = redact_credentials sd e"
    by (auto simp: apfst_def map_prod_def split: prod.splits sum.splits)
  with redact_credentials_removes [OF assms(3-5)] show ?thesis by simp
qed

text \<open>A response handed to the tool is the one the network gave, within the size the capability allows,
  and if it is text no blocking leak pattern matches it.\<close>

theorem http_response_bounded:
  assumes "http_request env method url headers_json body t sd = (Ok reply, sd', calls)"
  shows "\<exists>call answer cap. calls = [call] \<and> he_send env call = SendOk answer \<and>
     cr_body answer = Ok (hr_body reply) \<and> hr_status reply = cr_status answer \<and>
     cap_http (hs_capabilities (sd_host_state sd)) = Some cap \<and> length (hr_body reply) \<le> hc_max_response_bytes cap \<and>
     (valid_utf8 (hr_body reply) \<longrightarrow>
        is_ok (scan_and_clean (he_ac env) (he_rx env) (ld_new (he_builds env)) (hr_body reply)))"
proof -
  obtain call where "call \<in> set calls" using http_request_Ok_calls [OF assms] by (cases calls) auto
  note s = http_request_sent [OF assms this]
  then obtain cap where cap: "cap_http (hs_capabilities (sd_host_state sd)) = Some cap"
    by (auto simp: check_http_allowed_Ok)
  then have "max_response_bytes sd' = hc_max_response_bytes cap"
    using s by (simp add: max_response_bytes_def record_http_request_log)
  with s have "perform env (hc_max_response_bytes cap) method (oc_url call) (oc_headers call) (oc_body call) t = (Ok reply, calls)"
    by (auto simp: apfst_def map_prod_def split: prod.splits sum.splits)
  from perform_Ok [OF this] obtain c answer where
    "calls = [c]" "he_send env c = SendOk answer" "receive env (hc_max_response_bytes cap) answer = Ok reply" by blast
  with receive_Ok [of env "hc_max_response_bytes cap" answer reply] cap show ?thesis by blast
qed

text \<open>The errors of the earlier checks are not redacted: a tool that asks for a path it may not reach,
  with a placeholder in it, gets the value of the credential back in the error.\<close>

theorem denied_request_reveals_credential:
  "let caps = cap_with_http (hc_new [ep_with_path_prefix ''/v1/'' (ep_of_host ''api.example.com'')]) cap_none;
       sd = sd_new 0 caps [(''TOKEN'', ''s3cr3t'')] []
   in http_request env ''GET'' ''https://api.example.com/x/{TOKEN}'' headers_json body t sd =
        (Err (HttpDenied (HttpNotAllowed (Denied (PathNotAllowed ''api.example.com'' ''/x/s3cr3t'')))), sd, [])"
proof -
  let ?c = "cap_with_http (hc_new [ep_with_path_prefix ''/v1/'' (ep_of_host ''api.example.com'')]) cap_none"
  let ?sd = "sd_new 0 ?c [(''TOKEN'', ''s3cr3t'')] []"
  have inj: "inject_credentials ?sd ''https://api.example.com/x/{TOKEN}'' = ''https://api.example.com/x/s3cr3t''"
    using reveal_steps(1) by (simp only: inject_credentials_def sd_new_def store_data.select_convs)
  have "cap_http (hs_capabilities (sd_host_state ?sd)) =
      Some (hc_new [ep_with_path_prefix ''/v1/'' (ep_of_host ''api.example.com'')])"
    by (simp add: sd_new_def hs_new_def cap_with_http_def)
  then have "check_http_allowed (sd_host_state ?sd) ''https://api.example.com/x/s3cr3t'' ''GET'' =
      Err (HttpNotAllowed (Denied (PathNotAllowed ''api.example.com'' ''/x/s3cr3t'')))"
    using reveal_steps(2) by (simp add: check_http_allowed_def hc_new_def is_allowed_def)
  then show ?thesis unfolding Let_def http_request_def inj by simp
qed



theorem http_response_bounded_witness:
  "\<exists>call answer cap. [example_call] = [call] \<and> he_send (example_env example_ok) call = SendOk answer \<and>
     cr_body answer = Ok ''ok'' \<and> cap_http (hs_capabilities (sd_host_state example_tool)) = Some cap \<and>
     length ''ok'' \<le> hc_max_response_bytes cap"
proof (rule example_answered)
  fix sd' assume r: "http_request (example_env example_ok) ''GET'' ''https://api.example.com/v1'' [] None None example_tool =
    (Ok \<lparr>hr_status = 200, hr_headers_json = ''{}'', hr_body = ''ok''\<rparr>, sd', [example_call])"
  from http_response_bounded [OF r] show ?thesis by auto
qed

theorem http_errors_redacted_witness:
  "\<exists>msg sd'. http_request (example_env example_fail) ''GET'' ''https://api.example.com/v1'' [] None None example_tool =
     (Err (RequestFailed msg), sd', [example_call]) \<and> \<not> contains msg ''s3cr3t''"
proof -
  obtain msg sd' where r: "http_request (example_env example_fail) ''GET'' ''https://api.example.com/v1'' [] None None example_tool =
     (Err (RequestFailed msg), sd', [example_call])"
    using example_request [of example_fail] by (auto simp: example_fail_def)
  have "''s3cr3t'' \<in> fst ` set (redactions example_tool)" using example_redactable(2) by force
  then have "\<not> contains msg ''s3cr3t''" using http_errors_redacted [OF r _ example_redactable(1)] by simp
  with r show ?thesis by blast
qed

text \<open>Before an execution only the secrets of the capability's own mappings are decrypted, each for the
  hosts of its mapping; a refresh token is sent only to the configured endpoint, over https, not to
  a private network, and only when the access token is about to expire.\<close>

theorem resolved_credentials_declared:
  assumes "resolve_host_credentials env now1 now2 caps (Some ops) u oauth st = Some (creds, st', calls)"
  shows "(\<forall>cred \<in> set creds. \<exists>cap m. cap_http caps = Some cap \<and> m \<in> snd ` set (hc_credentials cap) \<and>
       rhc_host_patterns cred = crm_host_patterns m \<and>
       ss_get_decrypted ops st' u (crm_secret_name m) = Ok (rhc_secret_value cred)) \<and>
     (\<forall>(url, params) \<in> set calls. starts_with url ''https://'' \<and> reject_private_ip (oe_dns env) url = Ok () \<and>
       (\<exists>config token. oauth = Some config \<and> url = orc_token_url config \<and>
          needs_refresh ops now1 u config st \<and>
          ss_get_decrypted ops st u (orc_secret_name config @ ''_refresh_token'') = Ok token \<and>
          params = refresh_params config token))"
proof -
  have c: "(url, params) \<in> set calls \<Longrightarrow> \<exists>config r. oauth = Some config \<and> needs_refresh ops now1 u config st \<and>
      refresh_oauth_token env ops now2 u config st = Some (r, calls)" for url params
    using assms by (auto simp: resolve_host_credentials_def split: option.splits if_splits)
  have "cred \<in> set creds \<Longrightarrow> \<exists>cap. cap_http caps = Some cap \<and>
      cred \<in> set (resolve_mappings (ss_get_decrypted ops st' u) (map snd (hc_credentials cap)))" for cred
    using assms by (auto simp: resolve_host_credentials_def split: option.splits if_splits)
  then have "\<exists>cap m. cap_http caps = Some cap \<and> m \<in> snd ` set (hc_credentials cap) \<and>
       rhc_host_patterns cred = crm_host_patterns m \<and>
       ss_get_decrypted ops st' u (crm_secret_name m) = Ok (rhc_secret_value cred)" if "cred \<in> set creds" for cred
    using that resolve_mappings_origin by fastforce
  moreover have "starts_with url ''https://'' \<and> reject_private_ip (oe_dns env) url = Ok () \<and>
       (\<exists>config token. oauth = Some config \<and> url = orc_token_url config \<and> needs_refresh ops now1 u config st \<and>
          ss_get_decrypted ops st u (orc_secret_name config @ ''_refresh_token'') = Ok token \<and>
          params = refresh_params config token)" if call: "(url, params) \<in> set calls" for url params
  proof -
    obtain config r where o: "oauth = Some config" "needs_refresh ops now1 u config st"
      and r: "refresh_oauth_token env ops now2 u config st = Some (r, calls)" using c [OF call] by blast
    from refresh_calls [OF r call] o show ?thesis by blast
  qed
  ultimately show ?thesis by blast
qed

theorem resolved_credentials_declared_witness:
  "\<exists>creds. resolve_host_credentials \<lparr>oe_dns = \<lambda>_. Ok [], oe_client_build = True, oe_post = \<lambda>_ _. PostFailed, oe_number = \<lambda>_. None, oe_add_seconds = \<lambda>_ _. None\<rparr> 0 0
       (cap_with_http (hc_with_credential ''api'' (mapping_bearer ''key'' ''api.example.com'') (hc_new [])) cap_none)
       (Some \<lparr>ss_get_expiry = \<lambda>_ _ _. Ok None, ss_get_decrypted = \<lambda>_ _ _. Ok ''abc'',
              ss_create = \<lambda>_ _ s. (Ok (), s)\<rparr>) ''alice'' None () = Some (creds, (), []) \<and>
     creds \<noteq> [] \<and> list_all (\<lambda>cred. rhc_host_patterns cred = [''api.example.com'']) creds"
  (is "\<exists>creds. resolve_host_credentials ?env _ _ ?caps (Some ?ops) _ _ _ = _ \<and> _")
proof -
  have cap: "cap_http ?caps = Some (hc_with_credential ''api'' (mapping_bearer ''key'' ''api.example.com'') (hc_new []))"
    by (simp add: cap_with_http_def)
  have maps: "hc_credentials (hc_with_credential ''api'' (mapping_bearer ''key'' ''api.example.com'') (hc_new [])) =
      [(''api'', mapping_bearer ''key'' ''api.example.com'')]"
    by (simp add: hc_with_credential_def hc_new_def hc_default_def hm_insert_def)
  obtain creds where r: "resolve_host_credentials ?env 0 0 ?caps (Some ?ops) ''alice'' None () = Some (creds, (), [])"
    and ne: "creds \<noteq> []"
    unfolding resolve_host_credentials_def cap
    by (simp add: maps, simp add: mapping_bearer_def ic_empty_def ic_is_empty_def hm_insert_def)
  from resolved_credentials_declared [OF r] cap maps
  have "rhc_host_patterns cred = [''api.example.com'']" if "cred \<in> set creds" for cred
    using that by (auto simp: mapping_bearer_def)
  then have "list_all (\<lambda>cred. rhc_host_patterns cred = [''api.example.com'']) creds" by (simp add: list_all_iff)
  with r ne show ?thesis by blast
qed

text \<open>The three readers of a URL agree: for a URL without a query, fragment or bracket in its authority,
  the host the allowlist checks, the host credentials are chosen for and the host whose addresses
  are examined are the same.\<close>

theorem host_views_agree:
  assumes "parse_url (scheme @ ''://'' @ rest) = Ok p" and "scheme \<in> {''http'', ''https''}"
    and "set (takeWhile (\<lambda>c. c \<noteq> CHR ''/'') rest) \<inter> {CHR ''?'', CHR ''#'', CHR ''[''} = {}"
    and "last (takeWhile (\<lambda>c. c \<noteq> CHR ''/'') rest) \<noteq> CHR '':''"
  shows "\<exists>h. extract_host_from_url (scheme @ ''://'' @ rest) = Some h \<and>
     checked_host (scheme @ ''://'' @ rest) = Some h \<and> pu_host p = to_lowercase h"
proof -
  let ?a = "up_to_slash rest"
  have so: "split_once (scheme @ ''://'' @ rest) ''://'' = Some (scheme, rest)"
    using assms(2) by (auto simp: split_once_def)
  obtain h where at: "CHR ''@'' \<notin> set ?a" and ho: "host_of_authority ?a = Ok h" and p: "pu_host p = to_lowercase h"
    using parse_url_Ok [OF assms(1)] so by (metis option.inject prod.inject)
  have "\<not> starts_with ?a ''[''" using assms(3) by (cases ?a) auto
  with ho have ah: "authority_host ?a = Some h"
    by (auto simp: authority_host_def host_of_authority_def split: option.splits)
  have "after_scheme (scheme @ ''://'' @ rest) = Some rest"
    using assms(2) by (auto simp: after_scheme_def strip_prefix_def starts_with_def)
  moreover have "takeWhile in_authority rest = ?a"
    using url_authority_no_query [of rest] assms(3) by (simp add: url_authority_def)
  moreover have "rfind_str ?a ''@'' = None" using at by (simp add: rfind_char_None)
  ultimately have "extract_host_from_url (scheme @ ''://'' @ rest) = Some h"
    by (simp add: extract_host_eq host_of_port_def ah)
  moreover have "checked_host (scheme @ ''://'' @ rest) = Some h"
    using checked_host_authority [OF so] assms(4) ah by simp
  ultimately show ?thesis using p by blast
qed

theorem host_views_agree_witness:
  "checked_host (''https'' @ ''://'' @ ''API.example.com:8443/v1?next=http://x'') = Some ''API.example.com''"
proof -
  have "parse_url (''https'' @ ''://'' @ ''API.example.com:8443/v1?next=http://x'') =
      Ok \<lparr>pu_scheme = ''https'', pu_host = ''api.example.com'', pu_path = ''/v1?next=http://x''\<rparr>"
    and "extract_host_from_url (''https'' @ ''://'' @ ''API.example.com:8443/v1?next=http://x'') = Some ''API.example.com''"
    by code_simp+
  with host_views_agree [of "''https''" "''API.example.com:8443/v1?next=http://x''"] show ?thesis by simp
qed

end
