(* ===== verification/Rate_Limiter.thy ===== *)
theory Rate_Limiter
  imports Wasm_Capabilities
begin

text \<open>
  The per-tool rate limiter, \<open>src/tools/wasm/rate_limiter.rs\<close>. An \<open>Instant\<close> and a \<open>Duration\<close> are
  nanoseconds; all clock reads of one call are its argument \<open>now\<close>, and the time since an instant
  is never negative, as \<open>Instant::elapsed\<close> is.
\<close>

definition secs :: "nat \<Rightarrow> duration" where
  "secs n = n * 1000000000"

datatype limit_type = PerMinute | PerHour

datatype rate_limit_result =
    RLAllowed (remaining_minute: u32) (remaining_hour: u32)
  | RLLimited (retry_after: duration) (limit_type: limit_type)

fun rl_is_allowed :: "rate_limit_result \<Rightarrow> bool" where
  "rl_is_allowed (RLAllowed _ _) = True"
| "rl_is_allowed (RLLimited _ _) = False"

fun show_limit_type :: "limit_type \<Rightarrow> string" where
  "show_limit_type PerMinute = ''per-minute''"
| "show_limit_type PerHour = ''per-hour''"

record window_state =
  win_start :: nat
  win_count :: u32

definition window_new :: "nat \<Rightarrow> window_state" where
  "window_new now = \<lparr>win_start = now, win_count = 0\<rparr>"

definition maybe_reset :: "nat \<Rightarrow> duration \<Rightarrow> window_state \<Rightarrow> window_state" where
  "maybe_reset now d w = (if d \<le> now - win_start w then \<lparr>win_start = now, win_count = 0\<rparr> else w)"

definition time_until_reset :: "nat \<Rightarrow> duration \<Rightarrow> window_state \<Rightarrow> duration" where
  "time_until_reset now d w =
     (let el = now - win_start w in if d \<le> el then 0 else d - el)"

record tool_rate_limit_state =
  rls_minute :: window_state
  rls_hour :: window_state

definition rls_new :: "nat \<Rightarrow> tool_rate_limit_state" where
  "rls_new now = \<lparr>rls_minute = window_new now, rls_hour = window_new now\<rparr>"

type_synonym rate_limiter = "(string \<times> string, tool_rate_limit_state) hash_map"

definition limiter_new :: rate_limiter where
  "limiter_new = []"

text \<open>The part both checks share: the entry with its windows reset, and the two tests.\<close>

definition reset_windows :: "nat \<Rightarrow> tool_rate_limit_state \<Rightarrow> tool_rate_limit_state" where
  "reset_windows now s =
     s\<lparr>rls_minute := maybe_reset now (secs 60) (rls_minute s),
       rls_hour := maybe_reset now (secs 3600) (rls_hour s)\<rparr>"

definition limit_exceeded ::
  "nat \<Rightarrow> rate_limit_config \<Rightarrow> tool_rate_limit_state \<Rightarrow> rate_limit_result option" where
  "limit_exceeded now config s =
     (if rl_requests_per_minute config \<le> win_count (rls_minute s)
      then Some (RLLimited (time_until_reset now (secs 60) (rls_minute s)) PerMinute)
      else if rl_requests_per_hour config \<le> win_count (rls_hour s)
      then Some (RLLimited (time_until_reset now (secs 3600) (rls_hour s)) PerHour)
      else None)"

definition entry_state :: "nat \<Rightarrow> string \<times> string \<Rightarrow> rate_limiter \<Rightarrow> tool_rate_limit_state" where
  "entry_state now key l =
     reset_windows now (case hm_get l key of Some s \<Rightarrow> s | None \<Rightarrow> rls_new now)"

definition check_and_record ::
  "nat \<Rightarrow> string \<Rightarrow> string \<Rightarrow> rate_limit_config \<Rightarrow> rate_limiter \<Rightarrow> rate_limit_result \<times> rate_limiter" where
  "check_and_record now user_id tool_name config l =
     (let key = (user_id, tool_name);
          s = entry_state now key l
      in case limit_exceeded now config s of
           Some r \<Rightarrow> (r, hm_insert key s l)
         | None \<Rightarrow>
             (let s' = s\<lparr>rls_minute := (rls_minute s)\<lparr>win_count := win_count (rls_minute s) + 1\<rparr>,
                         rls_hour := (rls_hour s)\<lparr>win_count := win_count (rls_hour s) + 1\<rparr>\<rparr>
              in (RLAllowed (rl_requests_per_minute config - win_count (rls_minute s'))
                            (rl_requests_per_hour config - win_count (rls_hour s')),
                  hm_insert key s' l)))"

definition rl_check ::
  "nat \<Rightarrow> string \<Rightarrow> string \<Rightarrow> rate_limit_config \<Rightarrow> rate_limiter \<Rightarrow> rate_limit_result \<times> rate_limiter" where
  "rl_check now user_id tool_name config l =
     (let key = (user_id, tool_name);
          s = entry_state now key l
      in case limit_exceeded now config s of
           Some r \<Rightarrow> (r, hm_insert key s l)
         | None \<Rightarrow>
             (RLAllowed (rl_requests_per_minute config - win_count (rls_minute s))
                        (rl_requests_per_hour config - win_count (rls_hour s)),
              hm_insert key s l))"

definition get_usage :: "string \<Rightarrow> string \<Rightarrow> rate_limiter \<Rightarrow> (u32 \<times> u32) option" where
  "get_usage user_id tool_name l =
     map_option (\<lambda>s. (win_count (rls_minute s), win_count (rls_hour s))) (hm_get l (user_id, tool_name))"

definition rl_clear :: "string \<Rightarrow> string \<Rightarrow> rate_limiter \<Rightarrow> rate_limiter" where
  "rl_clear user_id tool_name l = hm_remove (user_id, tool_name) l"

definition rl_clear_all :: "rate_limiter \<Rightarrow> rate_limiter" where
  "rl_clear_all l = []"

record rate_limit_error =
  rle_retry_after :: duration
  rle_limit_type :: limit_type

fun rl_to_result :: "rate_limit_result \<Rightarrow> rate_limit_error + unit" where
  "rl_to_result (RLAllowed _ _) = Ok ()"
| "rl_to_result (RLLimited r t) = Err \<lparr>rle_retry_after = r, rle_limit_type = t\<rparr>"

section \<open>Runs\<close>

text \<open>The calls of one tool at a list of instants.\<close>

fun run_checks ::
  "string \<Rightarrow> string \<Rightarrow> rate_limit_config \<Rightarrow> nat list \<Rightarrow> rate_limiter \<Rightarrow>
     rate_limit_result list \<times> rate_limiter" where
  "run_checks u tool config [] l = ([], l)"
| "run_checks u tool config (now # ts) l =
     (let (r, l1) = check_and_record now u tool config l;
          (rs, l2) = run_checks u tool config ts l1
      in (r # rs, l2))"

definition allowed_count :: "rate_limit_result list \<Rightarrow> nat" where
  "allowed_count rs = length (filter rl_is_allowed rs)"

section \<open>Lemmas\<close>

lemma unat_inc: "(x :: u32) < y \<Longrightarrow> unat (x + 1) = unat x + 1"
proof -
  assume "x < y"
  moreover have "unat y < 2 ^ 32" using unsigned_less [of y] by simp
  ultimately have "unat x + 1 < 2 ^ 32" by (simp add: word_less_nat_alt)
  then show ?thesis by (simp add: unat_word_ariths)
qed

lemma limit_exceeded_None:
  "limit_exceeded now config s = None \<longleftrightarrow>
     win_count (rls_minute s) < rl_requests_per_minute config \<and>
     win_count (rls_hour s) < rl_requests_per_hour config"
  by (auto simp: limit_exceeded_def not_le)

lemma check_and_record_allowed:
  "rl_is_allowed (fst (check_and_record now u tool config l)) \<longleftrightarrow>
     limit_exceeded now config (entry_state now (u, tool) l) = None"
  by (auto simp: check_and_record_def Let_def limit_exceeded_def split: option.splits)

lemma check_and_record_other:
  "key \<noteq> (u, tool) \<Longrightarrow> hm_get (snd (check_and_record now u tool config l)) key = hm_get l key"
  by (auto simp: check_and_record_def Let_def split: option.splits)

lemma check_and_record_entry:
  "hm_get (snd (check_and_record now u tool config l)) (u, tool) =
     (let s = entry_state now (u, tool) l
      in if limit_exceeded now config s = None
         then Some (s\<lparr>rls_minute := (rls_minute s)\<lparr>win_count := win_count (rls_minute s) + 1\<rparr>,
                      rls_hour := (rls_hour s)\<lparr>win_count := win_count (rls_hour s) + 1\<rparr>\<rparr>)
         else Some s)"
  by (auto simp: check_and_record_def Let_def split: option.splits)

text \<open>Inside the current minute window a call does not reset it.\<close>

lemma entry_minute_same:
  "hm_get l (u, tool) = Some s \<Longrightarrow> now < win_start (rls_minute s) + secs 60 \<Longrightarrow>
   rls_minute (entry_state now (u, tool) l) = rls_minute s"
  by (auto simp: entry_state_def reset_windows_def maybe_reset_def secs_def)

lemma allowed_count_Cons:
  "allowed_count (r # rs) = (if rl_is_allowed r then 1 else 0) + allowed_count rs"
  by (simp add: allowed_count_def)

lemma window_bound:
  assumes "hm_get l (u, tool) = Some s" and "\<forall>t \<in> set ts. t < win_start (rls_minute s) + secs 60"
  shows "allowed_count (fst (run_checks u tool config ts l)) \<le>
           unat (rl_requests_per_minute config) - unat (win_count (rls_minute s))"
  using assms
proof (induction ts arbitrary: l s)
  case Nil
  then show ?case by (simp add: allowed_count_def)
next
  case (Cons now ts)
  let ?e = "entry_state now (u, tool) l"
  let ?l1 = "snd (check_and_record now u tool config l)"
  have min: "rls_minute ?e = rls_minute s" using Cons.prems by (simp add: entry_minute_same)
  show ?case
  proof (cases "limit_exceeded now config ?e = None")
    case True
    let ?s1 = "?e\<lparr>rls_minute := (rls_minute ?e)\<lparr>win_count := win_count (rls_minute ?e) + 1\<rparr>,
                  rls_hour := (rls_hour ?e)\<lparr>win_count := win_count (rls_hour ?e) + 1\<rparr>\<rparr>"
    have l1: "hm_get ?l1 (u, tool) = Some ?s1"
      using True by (simp add: check_and_record_entry Let_def)
    have lt: "win_count (rls_minute s) < rl_requests_per_minute config"
      using True by (simp add: limit_exceeded_None min)
    have "allowed_count (fst (run_checks u tool config ts ?l1)) \<le>
            unat (rl_requests_per_minute config) - unat (win_count (rls_minute ?s1))"
      using Cons.prems by (intro Cons.IH [OF l1]) (simp add: min)
    moreover have "unat (win_count (rls_minute ?s1)) = unat (win_count (rls_minute s)) + 1"
      using unat_inc [OF lt] by (simp add: min)
    moreover have "unat (win_count (rls_minute s)) < unat (rl_requests_per_minute config)"
      using lt by (simp add: word_less_nat_alt)
    ultimately show ?thesis
      using True by (simp add: allowed_count_Cons split_beta check_and_record_allowed)
  next
    case False
    then have "hm_get ?l1 (u, tool) = Some ?e"
      by (simp only: check_and_record_entry Let_def if_False)
    then have "allowed_count (fst (run_checks u tool config ts ?l1)) \<le>
            unat (rl_requests_per_minute config) - unat (win_count (rls_minute ?e))"
      by (rule Cons.IH) (use Cons.prems min in simp)
    with False show ?thesis
      by (auto simp: allowed_count_Cons split_beta check_and_record_allowed min)
  qed
qed

section \<open>Properties\<close>



text \<open>The windows are fixed, not sliding: twice the limit is allowed within one second when the
  calls straddle the reset of the window.\<close>

theorem fixed_window_burst:
  "map rl_is_allowed (fst (run_checks ''u'' ''t'' \<lparr>rl_requests_per_minute = 2, rl_requests_per_hour = 9\<rparr>
      [0, secs 59, secs 59 + 999999999, secs 60, secs 60] limiter_new)) = [True, True, False, True, True]"
  by (simp add: check_and_record_def entry_state_def reset_windows_def rls_new_def window_new_def
      maybe_reset_def limit_exceeded_def limiter_new_def secs_def Let_def word_le_nat_alt)

text \<open>An answer that allows a request reports what is really left: the remaining counts do not
  underflow, one request fewer than before is left in both windows, and a refused request reports a
  waiting time within the window.\<close>

theorem remaining_exact:
  "(case fst (check_and_record now u tool config l) of
      RLAllowed rm rh \<Rightarrow>
        (let s = entry_state now (u, tool) l in
         unat rm + unat (win_count (rls_minute s)) + 1 = unat (rl_requests_per_minute config) \<and>
         unat rh + unat (win_count (rls_hour s)) + 1 = unat (rl_requests_per_hour config))
    | RLLimited d PerMinute \<Rightarrow> d \<le> secs 60
    | RLLimited d PerHour \<Rightarrow> d \<le> secs 3600)"
proof (cases "limit_exceeded now config (entry_state now (u, tool) l)")
  case None
  let ?s = "entry_state now (u, tool) l"
  have left: "unat (b - (a + 1)) + unat a + 1 = unat b" if "a < b" for a b :: u32
  proof -
    have "unat (a + 1) = unat a + 1" using that by (rule unat_inc)
    moreover have "a + 1 \<le> b" using that calculation by (simp add: word_le_nat_alt word_less_nat_alt)
    ultimately show ?thesis by (simp add: unat_sub word_le_nat_alt)
  qed
  from None have "win_count (rls_minute ?s) < rl_requests_per_minute config"
    "win_count (rls_hour ?s) < rl_requests_per_hour config" by (simp_all add: limit_exceeded_None)
  from left [OF this(1)] left [OF this(2)] None show ?thesis
    by (simp add: check_and_record_def Let_def)
next
  case (Some r)
  then show ?thesis
    by (auto simp: check_and_record_def limit_exceeded_def time_until_reset_def Let_def split: if_splits)
qed

text \<open>Calls of one user and tool do not affect what another pair may do: after any run of other
  pairs' calls the answer for a pair is the same.\<close>

theorem pairs_isolated:
  assumes "(v, tool') \<noteq> (u, tool)"
  shows "fst (check_and_record now v tool' config' (snd (run_checks u tool config ts l))) =
     fst (check_and_record now v tool' config' l)"
proof -
  have "hm_get (snd (run_checks u tool config ts l)) (v, tool') = hm_get l (v, tool')"
  proof (induction ts arbitrary: l)
    case (Cons t ts)
    then show ?case using assms by (simp add: split_beta check_and_record_other)
  qed simp
  then have "entry_state now (v, tool') (snd (run_checks u tool config ts l)) = entry_state now (v, tool') l"
    by (simp add: entry_state_def)
  then show ?thesis by (simp add: check_and_record_def Let_def split: option.split)
qed

theorem pairs_isolated_witness:
  "fst (check_and_record 5 ''bob'' ''t'' rl_restrictive (snd (run_checks ''alice'' ''t'' rl_restrictive [1, 2, 3] limiter_new))) =
   fst (check_and_record 5 ''bob'' ''t'' rl_restrictive limiter_new)"
  using pairs_isolated [of "''bob''" "''t''" "''alice''" "''t''" 5 rl_restrictive rl_restrictive "[1, 2, 3]" limiter_new]
  by simp

end
