(* ===== verification/Text_Paths.thy ===== *)
theory Text_Paths
  imports Rust_Prelude
begin

text \<open>
  More of the Rust standard library: \<open>str::split\<close>, \<open>str::parse\<close> for unsigned integers, \<open>Path::join\<close>
  for a relative name, and the formatting of bytes and padded numbers. The lemmas show that splitting
  and joining are inverse, and what the characters of the results are.
\<close>

section \<open>Definitions\<close>

text \<open>\<open>str::split\<close> with a character, and with a string that is not empty.\<close>

fun split_char :: "char \<Rightarrow> string \<Rightarrow> string list" where
  "split_char c [] = [[]]"
| "split_char c (x # s) =
     (if x = c then [] # split_char c s
      else (case split_char c s of [] \<Rightarrow> [[x]] | p # ps \<Rightarrow> (x # p) # ps))"

function split_str :: "string \<Rightarrow> string \<Rightarrow> string list" where
  "split_str p s =
     (if p = [] then [s]
      else (case split_once s p of None \<Rightarrow> [s] | Some (a, b) \<Rightarrow> a # split_str p b))"
  by pat_completeness auto
termination
proof (relation "measure (\<lambda>(p, s). length s)")
  fix p s ab a b
  assume "p \<noteq> []" and "split_once s p = Some ab" and "(a, b) = ab"
  then have "s = a @ p @ b" using split_once_Some by metis
  with \<open>p \<noteq> []\<close> show "((p, b), (p, s)) \<in> measure (\<lambda>(p, s). length s)" by auto
qed simp

declare split_str.simps [simp del]

text \<open>\<open>str::parse\<close> for an unsigned integer of the given width: digits, after an optional plus sign.\<close>

definition digit_value :: "char \<Rightarrow> nat" where
  "digit_value c = (of_char c :: nat) - 48"

definition decimal_value :: "string \<Rightarrow> nat" where
  "decimal_value s = foldl (\<lambda>n c. 10 * n + digit_value c) 0 s"

definition parse_unsigned :: "nat \<Rightarrow> string \<Rightarrow> nat option" where
  "parse_unsigned width s =
     (let ds = (case s of c # t \<Rightarrow> if c = CHR ''+'' then t else s | [] \<Rightarrow> s)
      in if ds \<noteq> [] \<and> list_all is_ascii_digit ds \<and> decimal_value ds < 2 ^ width
         then Some (decimal_value ds) else None)"

text \<open>\<open>Path::join\<close> with a relative name.\<close>

definition path_join :: "string \<Rightarrow> string \<Rightarrow> string" where
  "path_join base name =
     (if base = [] \<or> last base = CHR ''/'' then base @ name else base @ ''/'' @ name)"

text \<open>The formats \<open>{:02x}\<close> of a byte and \<open>{:04}\<close> of a number.\<close>

definition hex_digit :: "nat \<Rightarrow> char" where
  "hex_digit n = (if n < 10 then char_of (48 + n) else char_of (87 + n))"

definition hex_byte :: "nat \<Rightarrow> string" where
  "hex_byte b = [hex_digit (b div 16), hex_digit (b mod 16)]"

definition show_padded :: "nat \<Rightarrow> nat \<Rightarrow> string" where
  "show_padded width n = (let s = show_nat n in replicate (width - length s) CHR ''0'' @ s)"

section \<open>Lemmas\<close>

lemma split_char_not_Nil [simp]: "split_char c s \<noteq> []"
  by (induction s) (auto split: list.splits)

lemma join_prepend: "xs \<noteq> [] \<Longrightarrow> join sep (x # xs) = x @ sep @ join sep xs"
  by (cases xs) simp_all

lemma join_split_char [simp]: "join [c] (split_char c s) = s"
proof (induction s)
  case (Cons x s)
  show ?case
  proof (cases "split_char c s")
    case (Cons p ps)
    with \<open>join [c] (split_char c s) = s\<close> show ?thesis by (cases ps) (auto simp: join_prepend)
  qed simp
qed simp

lemma split_char_pieces: "p \<in> set (split_char c s) \<Longrightarrow> c \<notin> set p"
  by (induction s arbitrary: p) (auto split: list.splits if_splits)

lemma split_char_join:
  "ps \<noteq> [] \<Longrightarrow> list_all (\<lambda>p. c \<notin> set p) ps \<Longrightarrow> split_char c (join [c] ps) = ps"
proof (induction "[c]" ps rule: join.induct)
  case (2 x)
  then have "c \<notin> set x" by simp
  then show ?case by (induction x) auto
next
  case (3 x y xs)
  then have "c \<notin> set x" and rec: "split_char c (join [c] (y # xs)) = y # xs" by simp_all
  then have "split_char c (x @ [c] @ join [c] (y # xs)) = x # y # xs"
    by (induction x) auto
  then show ?case by simp
qed simp

lemma split_str_not_Nil [simp]: "split_str p s \<noteq> []"
  by (subst split_str.simps) (auto split: option.splits)

lemma join_split_str: "join p (split_str p s) = s"
proof (induction p s rule: split_str.induct)
  case (1 p s)
  then show ?case
    by (subst split_str.simps) (auto simp: join_prepend dest: split_once_Some split: option.splits)
qed

lemma hex_byte_inj: "b < 256 \<Longrightarrow> b' < 256 \<Longrightarrow> hex_byte b = hex_byte b' \<Longrightarrow> b = b'"
proof -
  assume b: "b < 256" "b' < 256" and eq: "hex_byte b = hex_byte b'"
  have inj: "hex_digit m = hex_digit n \<Longrightarrow> m = n" if "m < 16" "n < 16" for m n
    using that by (auto simp: hex_digit_def char_of_eq_iff take_bit_eq_mod split: if_splits)
  from eq have "hex_digit (b div 16) = hex_digit (b' div 16)" "hex_digit (b mod 16) = hex_digit (b' mod 16)"
    by (simp_all add: hex_byte_def)
  with inj b have "b div 16 = b' div 16" and "b mod 16 = b' mod 16" by auto
  then show "b = b'" by (metis div_mult_mod_eq)
qed

lemma concat_hex_bytes_inj:
  "list_all (\<lambda>b. b < 256) bs \<Longrightarrow> list_all (\<lambda>b. b < 256) cs \<Longrightarrow>
     concat (map hex_byte bs) = concat (map hex_byte cs) \<Longrightarrow> bs = cs"
proof (induction bs arbitrary: cs)
  case Nil
  then show ?case by (cases cs) (simp_all add: hex_byte_def)
next
  case (Cons b bs)
  then obtain c cs' where cs: "cs = c # cs'" by (cases cs) (simp_all add: hex_byte_def)
  with Cons.prems(3) have "hex_byte b = hex_byte c" and "concat (map hex_byte bs) = concat (map hex_byte cs')"
    unfolding hex_byte_def by simp_all
  with Cons cs hex_byte_inj show ?case by auto
qed

lemma trim_start_idem [simp]: "trim_start (trim_start s) = trim_start s"
  by (simp add: trim_start_def)

lemma trim_idem [simp]: "trim (trim s) = trim s"
proof -
  have s: "trim_start (trim_end u) = trim_end u" if "trim_start u = u" for u
  proof (cases "trim_end u")
    case (Cons c t)
    obtain v where "u = trim_end u @ v"
      by (metis rev_append rev_rev_ident takeWhile_dropWhile_id trim_end_def)
    then have "hd u = c" "u \<noteq> []" using Cons by auto
    then have "\<not> is_whitespace c" using that
      by (metis hd_dropWhile trim_start_def)
    then show ?thesis by (simp add: Cons trim_start_def)
  qed (simp add: trim_start_def)
  have "trim_end (trim_end u) = trim_end u" for u by (simp add: trim_end_def)
  then show ?thesis by (simp add: trim_def s)
qed

text \<open>After replacing a pair of equal characters by another character, no pair is left.\<close>

lemma replace_pair_gone:
  assumes "c \<noteq> d"
  shows "\<not> contains (replace_str [c, c] [d] s) [c, c]"
proof -
  have "\<not> contains (replace_str [c, c] [d] s) [c, c] \<and>
        (starts_with (replace_str [c, c] [d] s) [c] \<longrightarrow> starts_with s [c])" for s
  proof (induction "[c, c]" "[d]" s rule: replace_str.induct)
    case (1 s)
    show ?case
    proof (cases "s = []")
      case True
      then show ?thesis by (subst (1 2) replace_str.simps) (simp add: contains_def)
    next
      case ne: False
      show ?thesis
      proof (cases "starts_with s [c, c]")
        case True
        with 1 ne have "\<not> contains (replace_str [c, c] [d] (drop 2 s)) [c, c]"
          by (simp add: numeral_2_eq_2)
        with True ne assms show ?thesis
          by (subst (1 2) replace_str.simps) (auto simp: contains_Cons_iff starts_with_Cons)
      next
        case False
        with 1 ne have *: "\<not> contains (replace_str [c, c] [d] (tl s)) [c, c]"
          "starts_with (replace_str [c, c] [d] (tl s)) [c] \<Longrightarrow> starts_with (tl s) [c]"
          by auto
        obtain x t where s: "s = x # t" using ne by (cases s) simp_all
        have "replace_str [c, c] [d] s = x # replace_str [c, c] [d] t"
          using False s by (subst replace_str.simps) auto
        with * False s show ?thesis
          by (auto simp: contains_Cons_iff starts_with_Cons)
      qed
    qed
  qed
  then show ?thesis by simp
qed

lemma set_replace_str: "set (replace_str p q s) \<subseteq> set q \<union> set s"
proof (induction p q s rule: replace_str.induct)
  case (1 p q s)
  show ?case
  proof (cases "s = [] \<or> p = []")
    case True
    then show ?thesis by (subst replace_str.simps) auto
  next
    case ne: False
    show ?thesis
    proof (cases "starts_with s p")
      case True
      with 1 ne have "set (replace_str p q (drop (length p) s)) \<subseteq> set q \<union> set (drop (length p) s)" by simp
      with True ne show ?thesis
        by (subst replace_str.simps) (use set_drop_subset [of "length p" s] in auto)
    next
      case False
      with 1 ne have "set (replace_str p q (tl s)) \<subseteq> set q \<union> set (tl s)" by simp
      with False ne show ?thesis
        by (subst replace_str.simps) (cases s, auto)
    qed
  qed
qed

end
