(* ===== verification/Result_State.thy ===== *)
theory Result_State
  imports Rust_Prelude
begin

text \<open>
  Fallible operations on a state: a result together with the state after it. \<open>try_io\<close> is the operator
  \<open>?\<close>: an error ends the operation and keeps the state reached so far.
\<close>

type_synonym ('e, 'w, 'a) fallible = "('e + 'a) \<times> 'w"

definition try_io :: "('e, 'w, 'a) fallible \<Rightarrow> ('a \<Rightarrow> 'w \<Rightarrow> ('e, 'w, 'b) fallible) \<Rightarrow> ('e, 'w, 'b) fallible" where
  "try_io r k = (case r of (Inl e, w) \<Rightarrow> (Err e, w) | (Inr a, w) \<Rightarrow> k a w)"

lemma try_io_cases:
  "try_io r k = (case fst r of Inl e \<Rightarrow> (Inl e, snd r) | Inr a \<Rightarrow> k a (snd r))"
  by (simp add: try_io_def split: prod.split sum.split)

lemma try_io_Ok [simp]: "try_io (Ok a, w) k = k a w" "try_io (Err e, w) k = (Err e, w)"
  by (simp_all add: try_io_def)

lemma try_io_fst_Ok: "fst r = Ok a \<Longrightarrow> try_io r k = k a (snd r)"
  by (simp add: try_io_cases)

text \<open>A property of the states that every step keeps holds of the whole operation; so does a relation
  between the first state and the last that is transitive.\<close>

lemma try_io_invariant:
  assumes "I (snd r)" and "\<And>a. fst r = Ok a \<Longrightarrow> I (snd r) \<Longrightarrow> I (snd (k a (snd r)))"
  shows "I (snd (try_io r k))"
  using assms by (auto simp: try_io_cases split: sum.split)

lemma try_io_relation:
  assumes "R w (snd r)" and "\<And>a. fst r = Ok a \<Longrightarrow> R (snd r) (snd (k a (snd r)))"
    and "\<And>a b c. R a b \<Longrightarrow> R b c \<Longrightarrow> R a c"
  shows "R w (snd (try_io r k))"
  using assms by (auto simp: try_io_cases split: sum.split)

lemma try_io_OkE:
  assumes "try_io r k = (Ok b, w')"
  obtains a w where "r = (Ok a, w)" "k a w = (Ok b, w')"
  using assms by (auto simp: try_io_def split: prod.splits sum.splits)

end
