(* ===== verification/Pairing_Store.thy ===== *)
theory Pairing_Store
  imports Text_Paths Containers Result_State "HOL-Library.Countable" "HOL-Library.Char_ord" "HOL-Library.List_Lexorder"
begin

text \<open>
  \<open>pairing/store.rs\<close>: pairing requests of a channel, their codes and expiry, the approval of a code
  with its rate limit, and the list of allowed senders. The store keeps its state in three files per
  channel. The file system is a map from paths to contents; \<open>pe_fail\<close> says which call on which path
  fails, the printers and parsers of \<open>serde_json\<close> and \<open>chrono\<close> are parameters, and the clock and the
  random generator are streams of which each call consumes the next value. The lemmas show where the
  files are, how many requests are pending, who can become an allowed sender, and what an approval
  does to the senders approved before it.
\<close>

section \<open>Model\<close>

definition PAIRING_CODE_LENGTH :: nat where "PAIRING_CODE_LENGTH = 8"

definition PAIRING_ALPHABET :: string where "PAIRING_ALPHABET = ''ABCDEFGHJKLMNPQRSTUVWXYZ23456789''"

definition PAIRING_PENDING_TTL_SECS :: nat where "PAIRING_PENDING_TTL_SECS = 15 * 60"

definition PAIRING_PENDING_MAX :: nat where "PAIRING_PENDING_MAX = 3"

definition PAIRING_APPROVE_RATE_LIMIT :: nat where "PAIRING_APPROVE_RATE_LIMIT = 10"

definition PAIRING_APPROVE_RATE_WINDOW_SECS :: nat where "PAIRING_APPROVE_RATE_WINDOW_SECS = 5 * 60"

type_synonym io_error = string

datatype pairing_error = InvalidChannel string | PairingIo io_error | PairingJson string | ApproveRateLimited

record upsert_result =
  ups_code :: string
  ups_created :: bool

record pairing_request =
  req_id :: string
  req_code :: string
  req_created_at :: string
  req_last_seen_at :: string
  req_meta :: "json option"

record pairing_store_file =
  psf_version :: nat
  psf_requests :: "pairing_request list"

record allow_from_store_file =
  aff_version :: nat
  aff_allow_from :: "string list"

record approve_attempts_file =
  att_failed_at :: "nat list"

text \<open>The calls of the file system that the code checks with \<open>?\<close>.\<close>

datatype fs_call = FsRead | FsCreateDir | FsOpen | FsLock | FsUnlock | FsWrite

record pairing_env =
  pe_fail :: "fs_call \<Rightarrow> string \<Rightarrow> io_error option"
  pe_clock :: "nat \<Rightarrow> nat"
  pe_random :: "nat \<Rightarrow> nat \<Rightarrow> nat"
  pe_to_rfc3339 :: "nat \<Rightarrow> string option"
  pe_from_rfc3339 :: "string \<Rightarrow> int option"
  pe_show_pairing :: "pairing_store_file \<Rightarrow> string"
  pe_read_pairing :: "string \<Rightarrow> pairing_store_file option"
  pe_show_allow :: "allow_from_store_file \<Rightarrow> string"
  pe_read_allow :: "string \<Rightarrow> allow_from_store_file option"
  pe_show_attempts :: "approve_attempts_file \<Rightarrow> string"
  pe_read_attempts :: "string \<Rightarrow> approve_attempts_file option"

record pairing_world =
  pw_files :: "(string, string) hash_map"
  pw_ticks :: nat
  pw_draws :: nat

type_synonym 'a pairing_io = "(pairing_error, pairing_world, 'a) fallible"

record pairing_store =
  ps_base_dir :: string

subsection \<open>Names\<close>

definition default_pairing_dir :: "string option \<Rightarrow> string" where
  "default_pairing_dir home = path_join (case home of Some h \<Rightarrow> h | None \<Rightarrow> ''.'') ''.rustytalon''"

definition dquote_char :: char where "dquote_char = char_of (34 :: nat)"

definition backslash_char :: char where "backslash_char = char_of (92 :: nat)"

definition safe_char :: "char \<Rightarrow> char" where
  "safe_char c =
     (if c \<in> {backslash_char, CHR ''/'', CHR '':'', CHR ''*'', CHR ''?'', dquote_char, CHR ''<'', CHR ''>'', CHR ''|''}
      then CHR ''_'' else c)"

definition safe_channel_key :: "string \<Rightarrow> pairing_error + string" where
  "safe_channel_key channel =
     (let raw = to_lowercase (trim channel)
      in if raw = [] then Err (InvalidChannel ''empty'')
         else let safe = replace_str ''..'' ''_'' (map safe_char raw)
              in if safe = [] \<or> safe = ''_'' then Err (InvalidChannel channel) else Ok safe)"

definition channel_file :: "string \<Rightarrow> string \<Rightarrow> string \<Rightarrow> pairing_error + string" where
  "channel_file ending base channel =
     (case safe_channel_key channel of Err e \<Rightarrow> Err e | Ok key \<Rightarrow> Ok (path_join base (key @ ending)))"

definition pairing_path :: "string \<Rightarrow> string \<Rightarrow> pairing_error + string" where
  "pairing_path = channel_file ''-pairing.json''"

definition allow_from_path :: "string \<Rightarrow> string \<Rightarrow> pairing_error + string" where
  "allow_from_path = channel_file ''-allowFrom.json''"

definition approve_attempts_path :: "string \<Rightarrow> string \<Rightarrow> pairing_error + string" where
  "approve_attempts_path = channel_file ''-approve-attempts.json''"

subsection \<open>Clock, codes and files\<close>

definition now_secs :: "pairing_env \<Rightarrow> pairing_world \<Rightarrow> nat \<times> pairing_world" where
  "now_secs env w = (pe_clock env (pw_ticks w), w\<lparr>pw_ticks := pw_ticks w + 1\<rparr>)"

definition now_iso :: "pairing_env \<Rightarrow> pairing_world \<Rightarrow> string \<times> pairing_world" where
  "now_iso env w =
     (let (now, w') = now_secs env w
      in (case pe_to_rfc3339 env now of Some s \<Rightarrow> s | None \<Rightarrow> show_nat now, w'))"

definition parse_timestamp :: "pairing_env \<Rightarrow> string \<Rightarrow> nat option" where
  "parse_timestamp env value =
     (case pe_from_rfc3339 env value of
        Some ts \<Rightarrow> Some (nat (ts mod 2 ^ 64))
      | None \<Rightarrow> parse_unsigned 64 value)"

definition is_expired :: "pairing_env \<Rightarrow> pairing_request \<Rightarrow> nat \<Rightarrow> bool" where
  "is_expired env r now =
     (let created = (case parse_timestamp env (req_created_at r) of Some t \<Rightarrow> t | None \<Rightarrow> 0)
      in PAIRING_PENDING_TTL_SECS < now - created)"

definition random_range :: "pairing_env \<Rightarrow> nat \<Rightarrow> pairing_world \<Rightarrow> nat \<times> pairing_world" where
  "random_range env n w = (pe_random env (pw_draws w) n, w\<lparr>pw_draws := pw_draws w + 1\<rparr>)"

fun random_chars :: "pairing_env \<Rightarrow> nat \<Rightarrow> pairing_world \<Rightarrow> string \<times> pairing_world" where
  "random_chars env 0 w = ([], w)"
| "random_chars env (Suc n) w =
     (let (idx, w1) = random_range env (length PAIRING_ALPHABET) w;
          (cs, w2) = random_chars env n w1
      in (PAIRING_ALPHABET ! idx # cs, w2))"

definition random_code :: "pairing_env \<Rightarrow> pairing_world \<Rightarrow> string \<times> pairing_world" where
  "random_code env w = random_chars env PAIRING_CODE_LENGTH w"

fun try_codes :: "pairing_env \<Rightarrow> string list \<Rightarrow> nat \<Rightarrow> pairing_world \<Rightarrow> string \<times> pairing_world" where
  "try_codes env existing 0 w =
     (let (code, w1) = random_code env w; (n, w2) = random_range env 10000 w1
      in (code @ show_padded 4 n, w2))"
| "try_codes env existing (Suc k) w =
     (let (code, w1) = random_code env w
      in if code \<in> set existing then try_codes env existing k w1 else (code, w1))"

definition generate_unique_code :: "pairing_env \<Rightarrow> string list \<Rightarrow> pairing_world \<Rightarrow> string \<times> pairing_world" where
  "generate_unique_code env existing w = try_codes env existing 500 w"

text \<open>A call of the file system that may fail.\<close>

definition fs_check :: "pairing_env \<Rightarrow> fs_call \<Rightarrow> string \<Rightarrow> pairing_world \<Rightarrow> unit pairing_io" where
  "fs_check env call path w =
     (case pe_fail env call path of Some e \<Rightarrow> (Err (PairingIo e), w) | None \<Rightarrow> (Ok (), w))"

definition put_file :: "string \<Rightarrow> string \<Rightarrow> pairing_world \<Rightarrow> pairing_world" where
  "put_file path content w = w\<lparr>pw_files := hm_insert path content (pw_files w)\<rparr>"

text \<open>\<open>fs::read_to_string\<close>: the outer option is a missing file.\<close>

definition read_to_string :: "pairing_env \<Rightarrow> string \<Rightarrow> pairing_world \<Rightarrow> (io_error + string) option" where
  "read_to_string env path w =
     (case hm_get (pw_files w) path of
        None \<Rightarrow> None
      | Some c \<Rightarrow>
          Some (case pe_fail env FsRead path of
                  Some e \<Rightarrow> Err e
                | None \<Rightarrow> if valid_utf8 c then Ok c else Err ''stream did not contain valid UTF-8''))"

definition read_or_default :: "pairing_env \<Rightarrow> string \<Rightarrow> pairing_world \<Rightarrow> string" where
  "read_or_default env path w = (case read_to_string env path w of Some (Inr c) \<Rightarrow> c | _ \<Rightarrow> [])"

text \<open>Opening a file with \<open>create\<close>, then keeping or truncating what it holds, and locking it.\<close>

definition open_locked :: "pairing_env \<Rightarrow> bool \<Rightarrow> string \<Rightarrow> pairing_world \<Rightarrow> unit pairing_io" where
  "open_locked env fresh path w =
     try_io (fs_check env FsOpen path w) (\<lambda>_ w.
       fs_check env FsLock path
         (if fresh \<or> hm_get (pw_files w) path = None then put_file path [] w else w))"

definition write_content :: "pairing_env \<Rightarrow> string \<Rightarrow> string \<Rightarrow> pairing_world \<Rightarrow> unit pairing_io" where
  "write_content env path content w =
     (case pe_fail env FsWrite path of
        Some e \<Rightarrow> (Err (PairingIo e), put_file path [] w)
      | None \<Rightarrow> (Ok (), put_file path content w))"

subsection \<open>The store\<close>

definition pairing_store_new :: "string option \<Rightarrow> pairing_store" where
  "pairing_store_new home = \<lparr>ps_base_dir = default_pairing_dir home\<rparr>"

definition with_base_dir :: "string \<Rightarrow> pairing_store" where
  "with_base_dir dir = \<lparr>ps_base_dir = dir\<rparr>"

definition write_pairing_file_locked ::
  "pairing_env \<Rightarrow> string \<Rightarrow> pairing_request list \<Rightarrow> pairing_world \<Rightarrow> unit pairing_io" where
  "write_pairing_file_locked env path requests w =
     write_content env path (pe_show_pairing env \<lparr>psf_version = 1, psf_requests = requests\<rparr>) w"

definition write_pairing_file ::
  "pairing_env \<Rightarrow> pairing_store \<Rightarrow> string \<Rightarrow> pairing_request list \<Rightarrow> pairing_world \<Rightarrow> unit pairing_io" where
  "write_pairing_file env st channel requests w =
     (case pairing_path (ps_base_dir st) channel of
        Err e \<Rightarrow> (Err e, w)
      | Ok path \<Rightarrow>
          try_io (open_locked env True path w) (\<lambda>_ w.
          try_io (write_pairing_file_locked env path requests w) (\<lambda>_ w.
          fs_check env FsUnlock path w)))"

definition parse_requests :: "pairing_env \<Rightarrow> string \<Rightarrow> pairing_request list" where
  "parse_requests env content =
     (case pe_read_pairing env content of Some f \<Rightarrow> psf_requests f | None \<Rightarrow> [])"

definition list_pending ::
  "pairing_env \<Rightarrow> pairing_store \<Rightarrow> string \<Rightarrow> pairing_world \<Rightarrow> pairing_request list pairing_io" where
  "list_pending env st channel w =
     (case pairing_path (ps_base_dir st) channel of
        Err e \<Rightarrow> (Err e, w)
      | Ok path \<Rightarrow>
          (case read_to_string env path w of
             None \<Rightarrow> (Ok [], w)
           | Some (Inl e) \<Rightarrow> (Err (PairingIo e), w)
           | Some (Inr content) \<Rightarrow>
               (let stored = parse_requests env content;
                    (now, w1) = now_secs env w;
                    requests = filter (\<lambda>r. \<not> is_expired env r now) stored;
                    sorted = sort_key req_created_at requests
                in if length requests \<noteq> length stored
                   then try_io (write_pairing_file env st channel requests w1) (\<lambda>_ w. (Ok sorted, w))
                   else (Ok sorted, w1))))"

fun position_of :: "('a \<Rightarrow> bool) \<Rightarrow> 'a list \<Rightarrow> nat option" where
  "position_of P [] = None"
| "position_of P (x # xs) = (if P x then Some 0 else map_option Suc (position_of P xs))"

definition refresh_request ::
  "pairing_env \<Rightarrow> string \<Rightarrow> string list \<Rightarrow> string \<Rightarrow> json option \<Rightarrow> pairing_request list \<Rightarrow> nat \<Rightarrow>
     pairing_world \<Rightarrow> upsert_result pairing_io" where
  "refresh_request env path existing now meta requests idx w =
     (let r = requests ! idx;
          (code, w1) = (if req_code r = [] then generate_unique_code env existing w else (req_code r, w));
          r' = r\<lparr>req_last_seen_at := now, req_code := code,
                 req_meta := (case meta of Some m \<Rightarrow> Some m | None \<Rightarrow> req_meta r)\<rparr>
      in try_io (write_pairing_file_locked env path (requests[idx := r']) w1) (\<lambda>_ w.
         try_io (fs_check env FsUnlock path w) (\<lambda>_ w.
         (Ok \<lparr>ups_code = code, ups_created = False\<rparr>, w))))"

definition add_request ::
  "pairing_env \<Rightarrow> string \<Rightarrow> string list \<Rightarrow> string \<Rightarrow> string \<Rightarrow> json option \<Rightarrow> pairing_request list \<Rightarrow>
     pairing_world \<Rightarrow> upsert_result pairing_io" where
  "add_request env path existing now i meta requests w =
     (let (code, w1) = generate_unique_code env existing w;
          r = \<lparr>req_id = i, req_code = code, req_created_at = now, req_last_seen_at = now, req_meta = meta\<rparr>
      in try_io (write_pairing_file_locked env path (requests @ [r]) w1) (\<lambda>_ w.
         try_io (fs_check env FsUnlock path w) (\<lambda>_ w.
         (Ok \<lparr>ups_code = code, ups_created = True\<rparr>, w))))"

definition upsert_request ::
  "pairing_env \<Rightarrow> pairing_store \<Rightarrow> string \<Rightarrow> string \<Rightarrow> json option \<Rightarrow> pairing_world \<Rightarrow> upsert_result pairing_io" where
  "upsert_request env st channel sender meta w =
     (case pairing_path (ps_base_dir st) channel of
        Err e \<Rightarrow> (Err e, w)
      | Ok path \<Rightarrow>
          try_io (fs_check env FsCreateDir path w) (\<lambda>_ w.
          try_io (open_locked env False path w) (\<lambda>_ w.
            let stored = parse_requests env (read_or_default env path w);
                (now, w1) = now_iso env w;
                (secs, w2) = now_secs env w1;
                i = trim sender
            in if i = []
               then try_io (fs_check env FsUnlock path w2) (\<lambda>_ w. (Err (InvalidChannel ''empty id''), w))
               else
                 let requests = filter (\<lambda>r. \<not> is_expired env r secs) stored;
                     existing = map (\<lambda>r. to_uppercase (req_code r)) requests
                 in case position_of (\<lambda>r. req_id r = i) requests of
                      Some idx \<Rightarrow> refresh_request env path existing now meta requests idx w2
                    | None \<Rightarrow>
                        if PAIRING_PENDING_MAX \<le> length requests
                        then try_io (fs_check env FsUnlock path w2)
                               (\<lambda>_ w. (Ok \<lparr>ups_code = [], ups_created = False\<rparr>, w))
                        else add_request env path existing now i meta requests w2)))"

definition parse_attempts :: "pairing_env \<Rightarrow> string \<Rightarrow> nat list" where
  "parse_attempts env content =
     (case pe_read_attempts env content of Some f \<Rightarrow> att_failed_at f | None \<Rightarrow> [])"

definition recent_attempts :: "nat \<Rightarrow> nat list \<Rightarrow> nat list" where
  "recent_attempts now ts = filter (\<lambda>t. now - PAIRING_APPROVE_RATE_WINDOW_SECS \<le> t) ts"

definition is_approve_rate_limited :: "pairing_env \<Rightarrow> pairing_store \<Rightarrow> string \<Rightarrow> pairing_world \<Rightarrow> bool pairing_io" where
  "is_approve_rate_limited env st channel w =
     (case approve_attempts_path (ps_base_dir st) channel of
        Err e \<Rightarrow> (Err e, w)
      | Ok path \<Rightarrow>
          (case read_to_string env path w of
             None \<Rightarrow> (Ok False, w)
           | Some (Inl e) \<Rightarrow> (Err (PairingIo e), w)
           | Some (Inr content) \<Rightarrow>
               (let (now, w1) = now_secs env w
                in (Ok (PAIRING_APPROVE_RATE_LIMIT \<le> length (recent_attempts now (parse_attempts env content))), w1))))"

definition record_failed_approve :: "pairing_env \<Rightarrow> pairing_store \<Rightarrow> string \<Rightarrow> pairing_world \<Rightarrow> unit pairing_io" where
  "record_failed_approve env st channel w =
     (case approve_attempts_path (ps_base_dir st) channel of
        Err e \<Rightarrow> (Err e, w)
      | Ok path \<Rightarrow>
          try_io (fs_check env FsCreateDir path w) (\<lambda>_ w.
          try_io (open_locked env False path w) (\<lambda>_ w.
            let ts = parse_attempts env (read_or_default env path w);
                (now, w1) = now_secs env w;
                ts' = recent_attempts now (ts @ [now])
            in try_io (write_content env path (pe_show_attempts env \<lparr>att_failed_at = ts'\<rparr>) w1) (\<lambda>_ w.
               fs_check env FsUnlock path w))))"

definition parse_allow :: "pairing_env \<Rightarrow> string \<Rightarrow> allow_from_store_file" where
  "parse_allow env content =
     (case pe_read_allow env content of Some f \<Rightarrow> f | None \<Rightarrow> \<lparr>aff_version = 1, aff_allow_from = []\<rparr>)"

definition add_allow_from :: "pairing_env \<Rightarrow> pairing_store \<Rightarrow> string \<Rightarrow> string \<Rightarrow> pairing_world \<Rightarrow> unit pairing_io" where
  "add_allow_from env st channel entry w =
     (let e = trim entry
      in if e = [] then (Ok (), w)
         else case allow_from_path (ps_base_dir st) channel of
                Err er \<Rightarrow> (Err er, w)
              | Ok path \<Rightarrow>
                  try_io (fs_check env FsCreateDir path w) (\<lambda>_ w.
                  try_io (open_locked env True path w) (\<lambda>_ w.
                    let store = parse_allow env (read_or_default env path w)
                    in if list_ex (\<lambda>a. to_lowercase a = to_lowercase e) (aff_allow_from store)
                       then fs_check env FsUnlock path w
                       else
                         try_io (write_content env path
                                   (pe_show_allow env (store\<lparr>aff_allow_from := aff_allow_from store @ [e]\<rparr>)) w)
                           (\<lambda>_ w. fs_check env FsUnlock path w))))"

text \<open>The lock and the reading of the pairing file by \<open>approve\<close>, which does not create it.\<close>

definition open_existing :: "pairing_env \<Rightarrow> string \<Rightarrow> pairing_world \<Rightarrow> unit pairing_io" where
  "open_existing env path w =
     (if hm_get (pw_files w) path = None then (Err (InvalidChannel ''no pairing file''), w)
      else try_io (fs_check env FsOpen path w) (\<lambda>_ w. fs_check env FsLock path w))"

definition approve ::
  "pairing_env \<Rightarrow> pairing_store \<Rightarrow> string \<Rightarrow> string \<Rightarrow> pairing_world \<Rightarrow> pairing_request option pairing_io" where
  "approve env st channel code w =
     (let c = to_uppercase (trim code)
      in if c = [] then (Ok None, w)
         else
           try_io (is_approve_rate_limited env st channel w) (\<lambda>limited w.
             if limited then (Err ApproveRateLimited, w)
             else case pairing_path (ps_base_dir st) channel of
                    Err e \<Rightarrow> (Err e, w)
                  | Ok path \<Rightarrow>
                      try_io (open_existing env path w) (\<lambda>_ w.
                        let stored = parse_requests env (read_or_default env path w);
                            (secs, w1) = now_secs env w;
                            requests = filter (\<lambda>r. \<not> is_expired env r secs) stored
                        in case position_of (\<lambda>r. to_uppercase (req_code r) = c) requests of
                             None \<Rightarrow>
                               try_io (fs_check env FsUnlock path w1) (\<lambda>_ w.
                               try_io (record_failed_approve env st channel w) (\<lambda>_ w. (Ok None, w)))
                           | Some i \<Rightarrow>
                               (let entry = requests ! i
                                in try_io (write_pairing_file_locked env path
                                             (take i requests @ drop (i + 1) requests) w1) (\<lambda>_ w.
                                   try_io (fs_check env FsUnlock path w) (\<lambda>_ w.
                                   try_io (add_allow_from env st channel (req_id entry) w) (\<lambda>_ w.
                                   (Ok (Some entry), w))))))))"

definition read_allow_from ::
  "pairing_env \<Rightarrow> pairing_store \<Rightarrow> string \<Rightarrow> pairing_world \<Rightarrow> pairing_error + string list" where
  "read_allow_from env st channel w =
     (case allow_from_path (ps_base_dir st) channel of
        Err e \<Rightarrow> Err e
      | Ok path \<Rightarrow>
          (case read_to_string env path w of
             None \<Rightarrow> Ok []
           | Some (Inl e) \<Rightarrow> Err (PairingIo e)
           | Some (Inr content) \<Rightarrow> Ok (aff_allow_from (parse_allow env content))))"

definition is_sender_allowed ::
  "pairing_env \<Rightarrow> pairing_store \<Rightarrow> string \<Rightarrow> string \<Rightarrow> string option \<Rightarrow> pairing_world \<Rightarrow> pairing_error + bool" where
  "is_sender_allowed env st channel sender username w =
     (case read_allow_from env st channel w of
        Err e \<Rightarrow> Err e
      | Ok allow \<Rightarrow>
          if list_ex (\<lambda>e. trim e = trim sender) allow then Ok True
          else case username of
                 None \<Rightarrow> Ok False
               | Some name \<Rightarrow>
                   (let u = to_lowercase (trim name);
                        u_norm = (case strip_prefix u ''@'' of Some t \<Rightarrow> t | None \<Rightarrow> u)
                    in Ok (list_ex (\<lambda>e. to_lowercase (trim e) = u \<or> to_lowercase (trim e) = ''@'' @ u_norm) allow)))"

section \<open>Reference notions\<close>

definition same_outside :: "string set \<Rightarrow> pairing_world \<Rightarrow> pairing_world \<Rightarrow> bool" where
  "same_outside ps w w' \<longleftrightarrow> (\<forall>q. q \<notin> ps \<longrightarrow> hm_get (pw_files w') q = hm_get (pw_files w) q)"

definition pending :: "pairing_env \<Rightarrow> string \<Rightarrow> pairing_world \<Rightarrow> pairing_request list" where
  "pending env path w = parse_requests env (read_or_default env path w)"

definition attempts :: "pairing_env \<Rightarrow> string \<Rightarrow> pairing_world \<Rightarrow> nat list" where
  "attempts env path w = parse_attempts env (read_or_default env path w)"

text \<open>What the code relies on of \<open>serde_json\<close>: printing and parsing are inverse, the text is UTF-8, and
  the empty text is no value.\<close>

definition json_codec :: "pairing_env \<Rightarrow> bool" where
  "json_codec env \<longleftrightarrow>
     (\<forall>f. pe_read_pairing env (pe_show_pairing env f) = Some f \<and> valid_utf8 (pe_show_pairing env f)) \<and>
     (\<forall>f. pe_read_allow env (pe_show_allow env f) = Some f \<and> valid_utf8 (pe_show_allow env f)) \<and>
     (\<forall>f. pe_read_attempts env (pe_show_attempts env f) = Some f \<and> valid_utf8 (pe_show_attempts env f)) \<and>
     pe_read_pairing env [] = None \<and> pe_read_allow env [] = None \<and> pe_read_attempts env [] = None"

definition requests_ok :: "pairing_request list \<Rightarrow> bool" where
  "requests_ok rs \<longleftrightarrow>
     length rs \<le> PAIRING_PENDING_MAX \<and> distinct (map req_id rs) \<and>
     list_all (\<lambda>r. req_id r \<noteq> [] \<and> trim (req_id r) = req_id r) rs"

definition pending_ok :: "pairing_env \<Rightarrow> pairing_store \<Rightarrow> pairing_world \<Rightarrow> bool" where
  "pending_ok env st w \<longleftrightarrow>
     (\<forall>ch path. pairing_path (ps_base_dir st) ch = Ok path \<longrightarrow> requests_ok (pending env path w))"

inductive pairing_step :: "pairing_env \<Rightarrow> pairing_store \<Rightarrow> pairing_world \<Rightarrow> pairing_world \<Rightarrow> bool"
  for env st where
  step_list: "pairing_step env st w (snd (list_pending env st ch w))"
| step_upsert: "pairing_step env st w (snd (upsert_request env st ch sender meta w))"
| step_approve: "pairing_step env st w (snd (approve env st ch code w))"

inductive_simps pairing_step_iff: "pairing_step env st w w'"

section \<open>Lemmas\<close>

subsection \<open>Names of the files\<close>

lemma underscore_not_backslash: "CHR ''_'' \<noteq> backslash_char"
  by (simp add: backslash_char_def char_of_def)

lemma safe_char_not_slash: "safe_char c \<noteq> CHR ''/''" "safe_char c \<noteq> backslash_char"
  using underscore_not_backslash by (auto simp: safe_char_def)

lemma safe_channel_key_Ok:
  assumes "safe_channel_key ch = Ok key"
  shows "CHR ''/'' \<notin> set key" "backslash_char \<notin> set key" "\<not> contains key ''..''" "key \<noteq> []"
proof -
  let ?raw = "map safe_char (to_lowercase (trim ch))"
  from assms have key: "key = replace_str ''..'' ''_'' ?raw" and "key \<noteq> []"
    by (auto simp: safe_channel_key_def Let_def split: if_splits)
  then show "key \<noteq> []" by simp
  have "set key \<subseteq> {CHR ''_''} \<union> set ?raw"
    using set_replace_str [of "''..''" "''_''" ?raw] by (simp add: key)
  then have "x = CHR ''_'' \<or> (\<exists>c. safe_char c = x)" if "x \<in> set key" for x using that by auto
  then have "x \<noteq> CHR ''/'' \<and> x \<noteq> backslash_char" if "x \<in> set key" for x
    using that safe_char_not_slash underscore_not_backslash by fastforce
  then show "CHR ''/'' \<notin> set key" "backslash_char \<notin> set key" by blast+
  show "\<not> contains key ''..''"
    unfolding key by (rule replace_pair_gone) simp
qed

lemma path_join_inj [simp]: "path_join base a = path_join base b \<longleftrightarrow> a = b"
  by (simp add: path_join_def)

lemma file_names_differ:
  "x @ ''-pairing.json'' \<noteq> y @ ''-allowFrom.json''"
  "x @ ''-pairing.json'' \<noteq> y @ ''-approve-attempts.json''"
  "x @ ''-allowFrom.json'' \<noteq> y @ ''-approve-attempts.json''"
  by (auto dest: arg_cong [where f = rev])

lemma channel_paths:
  "pairing_path b ch = Ok p \<Longrightarrow> \<exists>key. safe_channel_key ch = Ok key \<and> p = path_join b (key @ ''-pairing.json'')"
  "allow_from_path b ch = Ok p \<Longrightarrow> \<exists>key. safe_channel_key ch = Ok key \<and> p = path_join b (key @ ''-allowFrom.json'')"
  "approve_attempts_path b ch = Ok p \<Longrightarrow>
     \<exists>key. safe_channel_key ch = Ok key \<and> p = path_join b (key @ ''-approve-attempts.json'')"
  by (auto simp: pairing_path_def allow_from_path_def approve_attempts_path_def channel_file_def split: sum.splits)

lemma paths_differ:
  "pairing_path b ch = Ok p \<Longrightarrow> allow_from_path b ch' = Ok q \<Longrightarrow> p \<noteq> q"
  "pairing_path b ch = Ok p \<Longrightarrow> approve_attempts_path b ch' = Ok q \<Longrightarrow> p \<noteq> q"
  "allow_from_path b ch = Ok p \<Longrightarrow> approve_attempts_path b ch' = Ok q \<Longrightarrow> p \<noteq> q"
  by (auto dest!: channel_paths simp: file_names_differ)

lemma paths_together:
  "safe_channel_key ch = Ok key \<Longrightarrow> pairing_path b ch = Ok (path_join b (key @ ''-pairing.json''))"
  "safe_channel_key ch = Ok key \<Longrightarrow> allow_from_path b ch = Ok (path_join b (key @ ''-allowFrom.json''))"
  "safe_channel_key ch = Ok key \<Longrightarrow>
     approve_attempts_path b ch = Ok (path_join b (key @ ''-approve-attempts.json''))"
  by (simp_all add: pairing_path_def allow_from_path_def approve_attempts_path_def channel_file_def)

subsection \<open>Files and the steps of an operation\<close>

lemma same_outside_refl [simp]: "same_outside ps w w"
  by (simp add: same_outside_def)

lemma same_outside_trans: "same_outside ps w v \<Longrightarrow> same_outside ps v u \<Longrightarrow> same_outside ps w u"
  by (simp add: same_outside_def)

lemma same_outside_mono: "same_outside ps w v \<Longrightarrow> ps \<subseteq> qs \<Longrightarrow> same_outside qs w v"
  by (auto simp: same_outside_def)

lemma pw_files_clock [simp]:
  "pw_files (snd (now_secs env w)) = pw_files w" "pw_files (snd (now_iso env w)) = pw_files w"
  "pw_files (snd (random_range env n w)) = pw_files w"
  by (simp_all add: now_secs_def now_iso_def random_range_def)

lemma pw_files_random_chars [simp]: "pw_files (snd (random_chars env n w)) = pw_files w"
  by (induction n arbitrary: w) (simp_all add: Let_def case_prod_beta)

lemma pw_files_try_codes [simp]: "pw_files (snd (try_codes env ex n w)) = pw_files w"
  by (induction n arbitrary: w) (simp_all add: Let_def case_prod_beta random_code_def)

lemma pw_files_generate [simp]: "pw_files (snd (generate_unique_code env ex w)) = pw_files w"
  by (simp add: generate_unique_code_def)

lemma snd_fs_check [simp]: "snd (fs_check env c p w) = w"
  by (simp add: fs_check_def split: option.split)

lemma fs_check_Ok: "pe_fail env c p = None \<Longrightarrow> fs_check env c p w = (Ok (), w)"
  by (simp add: fs_check_def)

lemma same_outside_try:
  assumes "same_outside ps w (snd r)"
    and "\<And>a. fst r = Ok a \<Longrightarrow> same_outside ps (snd r) (snd (k a (snd r)))"
  shows "same_outside ps w (snd (try_io r k))"
  by (rule try_io_relation [where R = "same_outside ps"]) (use assms in \<open>auto intro: same_outside_trans\<close>)

text \<open>Each step in a form that lets the clock and the generator advance before it.\<close>

lemma same_outside_same: "pw_files v = pw_files w \<Longrightarrow> same_outside ps w v"
  by (simp add: same_outside_def)

lemma same_outside_put: "path \<in> ps \<Longrightarrow> pw_files v = pw_files w \<Longrightarrow> same_outside ps w (put_file path c v)"
  by (auto simp: same_outside_def put_file_def)

lemma same_outside_check: "pw_files v = pw_files w \<Longrightarrow> same_outside ps w (snd (fs_check env call path v))"
  by (simp add: same_outside_same)

lemma same_outside_open:
  "path \<in> ps \<Longrightarrow> pw_files v = pw_files w \<Longrightarrow> same_outside ps w (snd (open_locked env fresh path v))"
  unfolding open_locked_def
  by (rule same_outside_try) (auto intro: same_outside_put same_outside_same)

lemma same_outside_write:
  "path \<in> ps \<Longrightarrow> pw_files v = pw_files w \<Longrightarrow> same_outside ps w (snd (write_content env path c v))"
  by (auto simp: write_content_def intro: same_outside_put split: option.split)

lemma same_outside_write_locked:
  "path \<in> ps \<Longrightarrow> pw_files v = pw_files w \<Longrightarrow> same_outside ps w (snd (write_pairing_file_locked env path rs v))"
  by (simp add: write_pairing_file_locked_def same_outside_write)

lemma snd_open_existing [simp]: "snd (open_existing env path w) = w"
  by (auto simp: open_existing_def try_io_cases split: sum.split)

lemmas same_outside_steps = same_outside_try same_outside_open same_outside_write same_outside_write_locked
  same_outside_check

lemma same_outside_write_file:
  "pairing_path (ps_base_dir st) ch = Ok path \<Longrightarrow> path \<in> ps \<Longrightarrow> pw_files v = pw_files w \<Longrightarrow>
     same_outside ps w (snd (write_pairing_file env st ch rs v))"
  unfolding write_pairing_file_def by (simp, intro same_outside_steps) simp_all

lemma same_outside_list:
  assumes "pairing_path (ps_base_dir st) ch = Ok path" and "path \<in> ps"
  shows "same_outside ps w (snd (list_pending env st ch w))"
  using assms
  by (auto simp: list_pending_def Let_def case_prod_beta intro!: same_outside_try same_outside_write_file
      intro: same_outside_same split: option.split sum.split)

lemma same_outside_refresh:
  assumes "path \<in> ps" and "pw_files v = pw_files w"
  shows "same_outside ps w (snd (refresh_request env path ex now meta rs i v))"
  unfolding refresh_request_def Let_def case_prod_beta
  by (intro same_outside_steps) (use assms in simp_all)

lemma same_outside_add:
  assumes "path \<in> ps" and "pw_files v = pw_files w"
  shows "same_outside ps w (snd (add_request env path ex now i meta rs v))"
  unfolding add_request_def Let_def case_prod_beta
  by (intro same_outside_steps) (use assms in simp_all)

lemma same_outside_upsert:
  assumes "pairing_path (ps_base_dir st) ch = Ok path" and "path \<in> ps"
  shows "same_outside ps w (snd (upsert_request env st ch sender meta w))"
proof -
  have unlock: "same_outside ps w (snd (try_io (fs_check env FsUnlock path v) (\<lambda>_ w. (x, w))))"
    if "pw_files v = pw_files w" for x v w
    using that by (intro same_outside_steps) simp_all
  show ?thesis
    unfolding upsert_request_def Let_def case_prod_beta assms(1) sum.case
    by (intro same_outside_try same_outside_open same_outside_check)
      (use assms(2) in \<open>auto intro!: unlock same_outside_refresh same_outside_add split: option.split\<close>)
qed

lemma same_outside_failed:
  assumes "approve_attempts_path (ps_base_dir st) ch = Ok path" and "path \<in> ps" and "pw_files v = pw_files w"
  shows "same_outside ps w (snd (record_failed_approve env st ch v))"
  unfolding record_failed_approve_def Let_def case_prod_beta assms(1) sum.case
  by (intro same_outside_steps) (use assms(2,3) in simp_all)

lemma pw_files_limited [simp]: "pw_files (snd (is_approve_rate_limited env st ch w)) = pw_files w"
  by (auto simp: is_approve_rate_limited_def Let_def case_prod_beta split: sum.split option.split)

lemma same_outside_allow:
  assumes "allow_from_path (ps_base_dir st) ch = Ok path" and "path \<in> ps"
  shows "same_outside ps w (snd (add_allow_from env st ch e w))"
  unfolding add_allow_from_def Let_def assms(1) sum.case
  using assms(2) by (auto intro!: same_outside_try same_outside_open same_outside_check same_outside_write)

subsection \<open>What an approval does\<close>

text \<open>The code of a pending request that has not expired.\<close>

lemma position_of_Some: "position_of P xs = Some i \<Longrightarrow> i < length xs \<and> P (xs ! i)"
  by (induction xs arbitrary: i) (auto split: if_splits)

lemma position_of_None: "position_of P xs = None \<longleftrightarrow> (\<forall>x \<in> set xs. \<not> P x)"
  by (induction xs) auto

lemma read_or_default_cong:
  "hm_get (pw_files v) path = hm_get (pw_files w) path \<Longrightarrow> read_or_default env path v = read_or_default env path w"
  by (simp add: read_or_default_def read_to_string_def)

lemma pending_cong:
  "hm_get (pw_files v) path = hm_get (pw_files w) path \<Longrightarrow> pending env path v = pending env path w"
  using read_or_default_cong [of v path w env] by (simp add: pending_def)

lemma approve_unlimited:
  fixes env :: pairing_env and w :: pairing_world
  assumes "pairing_path (ps_base_dir st) ch = Ok path" and "to_uppercase (trim code) \<noteq> []"
    and "fst (is_approve_rate_limited env st ch w) = Ok False"
  defines "w0 \<equiv> snd (is_approve_rate_limited env st ch w)"
  defines "w1 \<equiv> snd (now_secs env w0)"
  defines "rs \<equiv> filter (\<lambda>r. \<not> is_expired env r (fst (now_secs env w0))) (pending env path w)"
  shows "approve env st ch code w =
     (case fst (open_existing env path w0) of
        Inl e \<Rightarrow> (Err e, w0)
      | Inr _ \<Rightarrow>
          (case position_of (\<lambda>r. to_uppercase (req_code r) = to_uppercase (trim code)) rs of
             None \<Rightarrow> try_io (fs_check env FsUnlock path w1) (\<lambda>_ w.
               try_io (record_failed_approve env st ch w) (\<lambda>_ w. (Ok None, w)))
           | Some i \<Rightarrow> try_io (write_pairing_file_locked env path (take i rs @ drop (i + 1) rs) w1) (\<lambda>_ w.
               try_io (fs_check env FsUnlock path w) (\<lambda>_ w.
               try_io (add_allow_from env st ch (req_id (rs ! i)) w) (\<lambda>_ w. (Ok (Some (rs ! i)), w))))))"
proof -
  have "parse_requests env (read_or_default env path w0) = pending env path w"
    using read_or_default_cong [of w0 path w env] by (simp add: pending_def w0_def)
  with assms(1-3) show ?thesis
    by (simp add: approve_def Let_def case_prod_beta try_io_cases [of "is_approve_rate_limited env st ch w"]
        try_io_cases [of "open_existing env path w0"] flip: w0_def w1_def rs_def cong: sum.case_cong option.case_cong)
qed

lemma approve_cases:
  fixes env :: pairing_env and w :: pairing_world
  assumes path: "pairing_path (ps_base_dir st) ch = Ok path"
  defines "w0 \<equiv> snd (is_approve_rate_limited env st ch w)"
  defines "w1 \<equiv> snd (now_secs env w0)"
  defines "rs \<equiv> filter (\<lambda>r. \<not> is_expired env r (fst (now_secs env w0))) (pending env path w)"
  obtains (same) "snd (approve env st ch code w) = w0 \<or> snd (approve env st ch code w) = w"
      "\<And>r. fst (approve env st ch code w) \<noteq> Ok (Some r)"
      "fst (approve env st ch code w) = Ok None \<Longrightarrow> to_uppercase (trim code) = []"
  | (none) "position_of (\<lambda>r. to_uppercase (req_code r) = to_uppercase (trim code)) rs = None"
      "approve env st ch code w = try_io (fs_check env FsUnlock path w1) (\<lambda>_ w.
         try_io (record_failed_approve env st ch w) (\<lambda>_ w. (Ok None, w)))"
      "fst (is_approve_rate_limited env st ch w) = Ok False"
  | (found) i where "position_of (\<lambda>r. to_uppercase (req_code r) = to_uppercase (trim code)) rs = Some i"
      "approve env st ch code w =
         try_io (write_pairing_file_locked env path (take i rs @ drop (i + 1) rs) w1) (\<lambda>_ w.
         try_io (fs_check env FsUnlock path w) (\<lambda>_ w.
         try_io (add_allow_from env st ch (req_id (rs ! i)) w) (\<lambda>_ w. (Ok (Some (rs ! i)), w))))"
proof (cases "to_uppercase (trim code) \<noteq> [] \<and> fst (is_approve_rate_limited env st ch w) = Ok False")
  case True
  then have limited: "fst (is_approve_rate_limited env st ch w) = Ok False" and code: "to_uppercase (trim code) \<noteq> []"
    by simp_all
  note eq = approve_unlimited [OF path code limited, folded w0_def, folded w1_def rs_def]
  show ?thesis
  proof (cases "fst (open_existing env path w0)")
    case (Inl e)
    with eq have "approve env st ch code w = (Err e, w0)" by simp
    then show ?thesis by (intro same) simp_all
  next
    case (Inr u)
    then show ?thesis
      using eq True none found
      by (cases "position_of (\<lambda>r. to_uppercase (req_code r) = to_uppercase (trim code)) rs") simp_all
  qed
next
  case False
  then have "(snd (approve env st ch code w) = w0 \<or> snd (approve env st ch code w) = w) \<and>
      (\<forall>r. fst (approve env st ch code w) \<noteq> Ok (Some r)) \<and>
      (fst (approve env st ch code w) = Ok None \<longrightarrow> to_uppercase (trim code) = [])"
    by (auto simp: approve_def Let_def try_io_cases w0_def split: sum.split)
  then show ?thesis using same by blast
qed

lemma approve_effect:
  assumes paths: "pairing_path (ps_base_dir st) ch = Ok path" "approve_attempts_path (ps_base_dir st) ch = Ok att"
  shows "same_outside {path, att} w (snd (approve env st ch code w)) \<or>
    (\<exists>r v now. r \<in> set (pending env path w) \<and> \<not> is_expired env r now \<and> now \<in> range (pe_clock env) \<and>
       to_uppercase (req_code r) = to_uppercase (trim code) \<and> same_outside {path, att} w v \<and>
       snd (approve env st ch code w) = snd (add_allow_from env st ch (req_id r) v))"
  using paths(1)
proof (cases rule: approve_cases [where env = env and code = code and w = w])
  case same
  then show ?thesis by (auto simp: same_outside_same)
next
  case none
  show ?thesis
    unfolding none(2)
    by (intro disjI1 same_outside_try same_outside_failed [OF paths(2)] same_outside_check) simp_all
next
  case (found i)
  let ?now = "fst (now_secs env (snd (is_approve_rate_limited env st ch w)))"
  let ?rs = "filter (\<lambda>r. \<not> is_expired env r ?now) (pending env path w)"
  let ?r = "?rs ! i"
  let ?wr = "write_pairing_file_locked env path (take i ?rs @ drop (i + 1) ?rs)
               (snd (now_secs env (snd (is_approve_rate_limited env st ch w))))"
  have r: "?r \<in> set (pending env path w)" "\<not> is_expired env ?r ?now"
    "to_uppercase (req_code ?r) = to_uppercase (trim code)"
    using position_of_Some [OF found(1)] nth_mem [of i ?rs] by auto
  have wr: "same_outside {path, att} w (snd ?wr)" by (rule same_outside_write_locked) simp_all
  have "snd (approve env st ch code w) \<in> {snd ?wr, snd (add_allow_from env st ch (req_id ?r) (snd ?wr))}"
    unfolding found(2) by (cases "fst ?wr") (auto simp: try_io_cases split: sum.split)
  moreover have "?now \<in> range (pe_clock env)" by (simp add: now_secs_def)
  ultimately show ?thesis using r wr by auto
qed

subsection \<open>The pending requests\<close>

lemma requests_ok_Nil [simp]: "requests_ok []"
  by (simp add: requests_ok_def)

lemma requests_ok_filter [intro]: "requests_ok rs \<Longrightarrow> requests_ok (filter P rs)"
  by (auto simp: requests_ok_def distinct_map_filter list_all_iff intro: le_trans [OF length_filter_le])

lemma requests_ok_remove:
  assumes "requests_ok rs" and "i < length rs"
  shows "requests_ok (take i rs @ drop (i + 1) rs)"
proof -
  obtain a x b where "rs = a @ x # b" "length a = i"
    using id_take_nth_drop [OF assms(2)] assms(2) by (metis length_take min.absorb4)
  with assms(1) show ?thesis by (auto simp: requests_ok_def)
qed

lemma requests_ok_update:
  "requests_ok rs \<Longrightarrow> req_id r = req_id (rs ! i) \<Longrightarrow> i < length rs \<Longrightarrow> requests_ok (rs[i := r])"
  by (auto simp: requests_ok_def map_update list_all_length nth_list_update) (metis list_update_id nth_map)

lemma requests_ok_append:
  "requests_ok rs \<Longrightarrow> length rs < PAIRING_PENDING_MAX \<Longrightarrow> req_id r \<notin> req_id ` set rs \<Longrightarrow>
     req_id r = trim i \<Longrightarrow> trim i \<noteq> [] \<Longrightarrow> requests_ok (rs @ [r])"
  by (simp add: requests_ok_def)

lemma pending_ok_frame:
  assumes "pending_ok env st w" and "same_outside ps w v"
    and "\<And>ch path. pairing_path (ps_base_dir st) ch = Ok path \<Longrightarrow> path \<notin> ps"
  shows "pending_ok env st v"
  unfolding pending_ok_def
proof (intro allI impI)
  fix ch path
  assume p: "pairing_path (ps_base_dir st) ch = Ok path"
  with assms(2,3) have "pending env path v = pending env path w"
    by (intro pending_cong) (auto simp: same_outside_def)
  with assms(1) p show "requests_ok (pending env path v)" by (simp add: pending_ok_def)
qed

lemma pending_ok_files: "pw_files v = pw_files w \<Longrightarrow> pending_ok env st w \<Longrightarrow> pending_ok env st v"
  by (rule pending_ok_frame [of _ _ w "{}"]) (simp_all add: same_outside_same)

lemma pending_put: "pending env path (put_file path c w) \<in> {parse_requests env c, parse_requests env []}"
  by (simp add: pending_def read_or_default_def read_to_string_def put_file_def split: option.split)

lemma pending_ok_put:
  assumes "pending_ok env st w" and "json_codec env" and "requests_ok (parse_requests env c)"
  shows "pending_ok env st (put_file path c w)"
  unfolding pending_ok_def
proof (intro allI impI)
  fix ch q
  assume q: "pairing_path (ps_base_dir st) ch = Ok q"
  show "requests_ok (pending env q (put_file path c w))"
  proof (cases "q = path")
    case True
    have "parse_requests env [] = []" using assms(2) by (simp add: json_codec_def parse_requests_def)
    then show ?thesis using pending_put [of env path c w] assms(3) True by auto
  next
    case False
    then have "pending env q (put_file path c w) = pending env q w" by (intro pending_cong) (simp add: put_file_def)
    then show ?thesis using assms(1) q by (simp add: pending_ok_def)
  qed
qed

lemmas pending_ok_try = try_io_invariant [where I = "pending_ok env st" for env st]

lemma pending_ok_open:
  assumes "json_codec env" and "pending_ok env st w"
  shows "pending_ok env st (snd (open_locked env fresh path w))"
proof -
  have "pending_ok env st (put_file path [] w)"
    using assms by (intro pending_ok_put) (simp_all add: json_codec_def parse_requests_def)
  then show ?thesis
    unfolding open_locked_def by (intro pending_ok_try) (use assms in auto)
qed

lemma pending_ok_write_locked:
  assumes "json_codec env" and "pending_ok env st w" and "requests_ok rs"
  shows "pending_ok env st (snd (write_pairing_file_locked env path rs w))"
proof -
  have "pending_ok env st (put_file path [] w)"
    and "pending_ok env st (put_file path (pe_show_pairing env \<lparr>psf_version = 1, psf_requests = rs\<rparr>) w)"
    using assms by (auto intro!: pending_ok_put simp: json_codec_def parse_requests_def)
  then show ?thesis
    by (simp add: write_pairing_file_locked_def write_content_def split: option.split)
qed

lemmas pending_ok_steps = pending_ok_try pending_ok_open pending_ok_write_locked

lemma pending_ok_list:
  assumes "json_codec env" and "pending_ok env st w"
  shows "pending_ok env st (snd (list_pending env st ch w))"
proof (cases "pairing_path (ps_base_dir st) ch")
  case (Inr path)
  let ?v = "snd (now_secs env w)"
  have v: "pending_ok env st ?v" using assms(2) by (rule pending_ok_files [rotated]) simp
  have w: "pending_ok env st (snd (write_pairing_file env st ch rs ?v))" if "requests_ok rs" for rs
    unfolding write_pairing_file_def Inr sum.case
    by (intro pending_ok_steps) (use assms(1) v that in simp_all)
  have "requests_ok (pending env path w)" using assms(2) Inr by (simp add: pending_ok_def)
  then have "requests_ok (filter P (parse_requests env c))" if "read_to_string env path w = Some (Ok c)" for P c
    using that by (auto simp: pending_def read_or_default_def)
  then show ?thesis
    using assms(2) v w
    by (auto simp: list_pending_def Inr Let_def case_prod_beta intro!: pending_ok_try split: option.split sum.split)
qed (use assms in \<open>simp add: list_pending_def\<close>)

lemma pending_ok_upsert:
  assumes codec: "json_codec env" and "pending_ok env st w"
  shows "pending_ok env st (snd (upsert_request env st ch sender meta w))"
proof (cases "pairing_path (ps_base_dir st) ch")
  case (Inr path)
  let ?body = "\<lambda>w. let stored = parse_requests env (read_or_default env path w);
                (now, w1) = now_iso env w;
                (secs, w2) = now_secs env w1;
                i = trim sender
            in if i = []
               then try_io (fs_check env FsUnlock path w2) (\<lambda>_ w. (Err (InvalidChannel ''empty id''), w))
               else
                 let requests = filter (\<lambda>r. \<not> is_expired env r secs) stored;
                     existing = map (\<lambda>r. to_uppercase (req_code r)) requests
                 in case position_of (\<lambda>r. req_id r = i) requests of
                      Some idx \<Rightarrow> refresh_request env path existing now meta requests idx w2
                    | None \<Rightarrow>
                        if PAIRING_PENDING_MAX \<le> length requests
                        then try_io (fs_check env FsUnlock path w2)
                               (\<lambda>_ w. (Ok \<lparr>ups_code = [], ups_created = False\<rparr>, w))
                        else add_request env path existing now i meta requests w2"
  have body: "pending_ok env st (snd (?body v))" if "pending_ok env st v" for v
  proof -
    let ?u = "snd (now_secs env (snd (now_iso env v)))"
    define rs where "rs = filter (\<lambda>r. \<not> is_expired env r (fst (now_secs env (snd (now_iso env v))))) (pending env path v)"
    have u: "pending_ok env st ?u" using that by (rule pending_ok_files [rotated]) simp
    have g: "pending_ok env st (snd (generate_unique_code env ex ?u))" for ex
      using u by (rule pending_ok_files [rotated]) simp
    have ok: "requests_ok rs" using that Inr by (auto simp: rs_def pending_ok_def)
    have unlock: "pending_ok env st (snd (try_io (fs_check env FsUnlock path ?u) (\<lambda>_ w. (x, w))))" for x :: "pairing_error + upsert_result"
      using u by (intro pending_ok_try) simp_all
    have refresh: "pending_ok env st (snd (refresh_request env path ex now meta rs i ?u))" if "i < length rs" for ex now i
      unfolding refresh_request_def Let_def case_prod_beta
      by (intro pending_ok_steps requests_ok_update) (use codec ok u g that in simp_all)
    have add: "pending_ok env st (snd (add_request env path ex now (trim sender) meta rs ?u))"
      if "length rs < PAIRING_PENDING_MAX" "trim sender \<noteq> []" "\<forall>r \<in> set rs. req_id r \<noteq> trim sender" for ex now
      unfolding add_request_def Let_def case_prod_beta
      by (intro pending_ok_steps requests_ok_append [where i = sender]) (use codec ok g that in auto)
    show ?thesis
      using unlock refresh add
      by (auto simp: Let_def case_prod_beta rs_def [symmetric] pending_def [symmetric] position_of_None not_le
          dest: position_of_Some split: option.split)
  qed
  show ?thesis
    unfolding upsert_request_def Inr sum.case
    by (intro pending_ok_try pending_ok_open body) (use assms in simp_all)
qed (use assms in \<open>simp add: upsert_request_def\<close>)

lemma pending_ok_approve:
  assumes codec: "json_codec env" and ok: "pending_ok env st w"
  shows "pending_ok env st (snd (approve env st ch code w))"
proof (cases "safe_channel_key ch")
  case (Inl e)
  then show ?thesis
    using ok by (auto simp: approve_def Let_def is_approve_rate_limited_def approve_attempts_path_def channel_file_def)
next
  case (Inr key)
  note paths = paths_together [OF Inr, of "ps_base_dir st"]
  let ?w0 = "snd (is_approve_rate_limited env st ch w)"
  have w1: "pending_ok env st (snd (now_secs env ?w0))" and w0: "pending_ok env st ?w0"
    using ok by (auto intro: pending_ok_files)
  have failed: "pending_ok env st (snd (record_failed_approve env st ch v))" if "pending_ok env st v" for v
    using that
    by (rule pending_ok_frame [OF _ same_outside_failed [OF paths(3) singletonI refl]])
      (use paths(3) paths_differ in blast)
  have allowed: "pending_ok env st (snd (add_allow_from env st ch e v))" if "pending_ok env st v" for v e
    using that
    by (rule pending_ok_frame [OF _ same_outside_allow [OF paths(2) singletonI]])
      (use paths(2) paths_differ in blast)
  from paths(1) show ?thesis
  proof (cases rule: approve_cases [where env = env and code = code and w = w])
    case same
    then show ?thesis using ok w0 by auto
  next
    case none
    show ?thesis
      unfolding none(2)
      by (intro pending_ok_try failed) (use w1 in simp_all)
  next
    case (found i)
    show ?thesis
      unfolding found(2)
      by (intro pending_ok_try pending_ok_write_locked requests_ok_remove allowed)
        (use w1 codec ok paths(1) position_of_Some [OF found(1)] in \<open>auto simp: pending_ok_def\<close>)
  qed
qed

subsection \<open>The allowed senders\<close>

lemma read_allow_cong:
  "(\<And>q. allow_from_path (ps_base_dir st) ch = Ok q \<Longrightarrow> hm_get (pw_files v) q = hm_get (pw_files w) q) \<Longrightarrow>
     read_allow_from env st ch v = read_allow_from env st ch w"
  by (simp add: read_allow_from_def read_to_string_def split: sum.split)

lemma read_allow_outside:
  assumes "same_outside ps w v" and "\<And>q. allow_from_path (ps_base_dir st) ch = Ok q \<Longrightarrow> q \<notin> ps"
  shows "read_allow_from env st ch v = read_allow_from env st ch w"
  by (rule read_allow_cong) (use assms in \<open>simp add: same_outside_def\<close>)

lemma read_allow_put:
  assumes "allow_from_path (ps_base_dir st) ch = Ok q" and "read_allow_from env st ch (put_file q c w) = Ok xs"
  shows "xs = aff_allow_from (parse_allow env c)"
  using assms by (auto simp: read_allow_from_def read_to_string_def put_file_def split: option.splits if_splits)

text \<open>The file of allowed senders is truncated before it is read, so what an approval leaves is its
  own sender or nothing.\<close>

lemma add_allow_from_list:
  assumes codec: "json_codec env" and q: "allow_from_path (ps_base_dir st) ch = Ok q"
    and "read_allow_from env st ch (snd (add_allow_from env st ch e w)) = Ok xs"
  shows "read_allow_from env st ch w = Ok xs \<or> xs = [] \<or> xs = [trim e]"
proof -
  have d: "read_or_default env q (put_file q [] w) = []"
    by (simp add: read_or_default_def read_to_string_def put_file_def split: option.split)
  have "snd (add_allow_from env st ch e w) \<in>
      {w, put_file q [] w, put_file q [] (put_file q [] w),
       put_file q (pe_show_allow env \<lparr>aff_version = 1, aff_allow_from = [trim e]\<rparr>) (put_file q [] w)}"
    using codec d
    by (auto simp: add_allow_from_def Let_def q try_io_cases open_locked_def fs_check_def write_content_def parse_allow_def
        json_codec_def split: option.split sum.split if_splits)
  with assms(3) show ?thesis
    using codec read_allow_put [OF q] by (fastforce simp: parse_allow_def json_codec_def)
qed

lemma add_allow_from_result:
  assumes codec: "json_codec env" and ok: "\<forall>call path. pe_fail env call path = None"
    and q: "allow_from_path (ps_base_dir st) ch = Ok q" and e: "trim e \<noteq> []"
  shows "fst (add_allow_from env st ch e w) = Ok () \<and>
    read_allow_from env st ch (snd (add_allow_from env st ch e w)) = Ok [trim e]"
proof -
  have d: "read_or_default env q (put_file q [] w) = []"
    by (simp add: read_or_default_def read_to_string_def put_file_def split: option.split)
  have "add_allow_from env st ch e w =
      (Ok (), put_file q (pe_show_allow env \<lparr>aff_version = 1, aff_allow_from = [trim e]\<rparr>) (put_file q [] w))"
    using codec ok e
    by (simp add: add_allow_from_def Let_def q try_io_cases open_locked_def fs_check_def write_content_def parse_allow_def
        json_codec_def d)
  with codec ok q show ?thesis
    by (simp add: read_allow_from_def read_to_string_def put_file_def parse_allow_def json_codec_def)
qed

subsection \<open>Failed attempts\<close>

lemma recent_attempts_append: "recent_attempts now (ts @ [now]) = recent_attempts now ts @ [now]"
  by (simp add: recent_attempts_def)

lemma length_recent_mono: "s \<le> t \<Longrightarrow> length (recent_attempts t ts) \<le> length (recent_attempts s ts)"
  by (induction ts) (auto simp: recent_attempts_def)

lemma limited_result:
  assumes "\<forall>call path. pe_fail env call path = None" and "approve_attempts_path (ps_base_dir st) ch = Ok a"
  shows "fst (is_approve_rate_limited env st ch w) = Ok b \<Longrightarrow>
      b = (PAIRING_APPROVE_RATE_LIMIT \<le> length (recent_attempts (pe_clock env (pw_ticks w)) (attempts env a w))) \<or>
      b = False \<and> hm_get (pw_files w) a = None"
    and "PAIRING_APPROVE_RATE_LIMIT \<le> length (recent_attempts (pe_clock env (pw_ticks w)) (attempts env a w)) \<Longrightarrow>
      json_codec env \<Longrightarrow> fst (is_approve_rate_limited env st ch w) = Ok True"
    and "pw_ticks w \<le> pw_ticks (snd (is_approve_rate_limited env st ch w))"
  using assms
  by (auto simp: is_approve_rate_limited_def attempts_def read_or_default_def read_to_string_def now_secs_def Let_def
      parse_attempts_def recent_attempts_def json_codec_def PAIRING_APPROVE_RATE_LIMIT_def
      split: option.splits sum.splits if_splits)

lemma record_failed_result:
  assumes "json_codec env" and ok: "\<forall>call path. pe_fail env call path = None"
    and a: "approve_attempts_path (ps_base_dir st) ch = Ok a"
  shows "attempts env a (snd (record_failed_approve env st ch w)) =
      (let now = pe_clock env (pw_ticks w) in recent_attempts now (attempts env a w) @ [now])"
proof -
  have "read_or_default env a (put_file a [] w) = read_or_default env a w" if "hm_get (pw_files w) a = None"
    using that ok by (simp add: read_or_default_def read_to_string_def put_file_def)
  with assms show ?thesis
    by (auto simp: record_failed_approve_def open_locked_def fs_check_def write_content_def now_secs_def Let_def
        attempts_def parse_attempts_def json_codec_def read_or_default_def read_to_string_def put_file_def
        recent_attempts_append split: option.splits)
qed

subsection \<open>A concrete environment\<close>

text \<open>Any injective printer serves as an example: the values are countable, and the text is a run of
  one character whose length is the number of the value.\<close>

instance json :: countable
  by countable_datatype

definition print_value :: "'a :: countable \<Rightarrow> string" where
  "print_value x = replicate (Suc (to_nat x)) CHR ''x''"

definition parse_value :: "string \<Rightarrow> 'a :: countable option" where
  "parse_value s = (case s of [] \<Rightarrow> None | _ # t \<Rightarrow> Some (from_nat (length t)))"

definition request_tuple :: "pairing_request \<Rightarrow> string \<times> string \<times> string \<times> string \<times> json option" where
  "request_tuple r = (req_id r, req_code r, req_created_at r, req_last_seen_at r, req_meta r)"

definition tuple_request :: "string \<times> string \<times> string \<times> string \<times> json option \<Rightarrow> pairing_request" where
  "tuple_request = (\<lambda>(i, c, a, s, m). \<lparr>req_id = i, req_code = c, req_created_at = a, req_last_seen_at = s, req_meta = m\<rparr>)"

definition example_pairing :: pairing_env where
  "example_pairing =
     \<lparr>pe_fail = \<lambda>_ _. None, pe_clock = \<lambda>n. 1000 + n, pe_random = \<lambda>i n. i mod n,
      pe_to_rfc3339 = \<lambda>_. None, pe_from_rfc3339 = \<lambda>_. None,
      pe_show_pairing = \<lambda>f. print_value (psf_version f, map request_tuple (psf_requests f)),
      pe_read_pairing = (\<lambda>s. map_option (\<lambda>(v, rs). \<lparr>psf_version = v, psf_requests = map tuple_request rs\<rparr>) (parse_value s)),
      pe_show_allow = \<lambda>f. print_value (aff_version f, aff_allow_from f),
      pe_read_allow = (\<lambda>s. map_option (\<lambda>(v, a). \<lparr>aff_version = v, aff_allow_from = a\<rparr>) (parse_value s)),
      pe_show_attempts = \<lambda>f. print_value (att_failed_at f),
      pe_read_attempts = (\<lambda>s. map_option (\<lambda>a. \<lparr>att_failed_at = a\<rparr>) (parse_value s))\<rparr>"

definition no_files :: pairing_world where
  "no_files = \<lparr>pw_files = [], pw_ticks = 0, pw_draws = 0\<rparr>"

lemma parse_print_value [simp]: "parse_value (print_value x) = Some x"
  by (simp add: parse_value_def print_value_def)

lemma valid_print_value [simp]: "valid_utf8 (print_value x)"
  by (rule valid_utf8_ascii) (simp add: print_value_def list_all_iff)

lemma tuple_request_tuple [simp]: "tuple_request (request_tuple r) = r"
  by (simp add: tuple_request_def request_tuple_def)

lemma example_codec: "json_codec example_pairing"
  by (simp add: json_codec_def example_pairing_def comp_def) (simp add: parse_value_def)

lemma no_files_ok: "pending_ok env st no_files"
  if "json_codec env"
  using that by (simp add: pending_ok_def pending_def read_or_default_def read_to_string_def no_files_def parse_requests_def
      json_codec_def)

subsection \<open>A request and its approval\<close>

lemma alphabet_chars: "\<forall>c \<in> set PAIRING_ALPHABET. ascii_upper c = c \<and> \<not> is_whitespace c"
  by code_simp

lemma random_chars_alphabet:
  assumes "\<And>i n. 0 < n \<Longrightarrow> pe_random env i n < n"
  shows "set (fst (random_chars env n w)) \<subseteq> set PAIRING_ALPHABET"
proof (induction n arbitrary: w)
  case (Suc n)
  have "0 < length PAIRING_ALPHABET" by (simp add: PAIRING_ALPHABET_def)
  then have "PAIRING_ALPHABET ! fst (random_range env (length PAIRING_ALPHABET) w) \<in> set PAIRING_ALPHABET"
    using assms by (simp add: random_range_def)
  with Suc show ?case by (simp add: Let_def case_prod_beta)
qed simp

lemma length_random_chars [simp]: "length (fst (random_chars env n w)) = n"
  by (induction n arbitrary: w) (simp_all add: Let_def case_prod_beta)

lemma generate_unique_code_fresh:
  assumes "\<And>i n. 0 < n \<Longrightarrow> pe_random env i n < n"
    and "length (fst (generate_unique_code env ex w)) = PAIRING_CODE_LENGTH"
  shows "fst (generate_unique_code env ex w) \<notin> set ex" "set (fst (generate_unique_code env ex w)) \<subseteq> set PAIRING_ALPHABET"
proof -
  have pad: "show_padded 4 n \<noteq> []" for n
    using length_greater_0_conv [of "show_padded 4 n"] by (auto simp: show_padded_def Let_def)
  have "fst (try_codes env ex n w) \<notin> set ex \<and> set (fst (try_codes env ex n w)) \<subseteq> set PAIRING_ALPHABET"
    if "length (fst (try_codes env ex n w)) = PAIRING_CODE_LENGTH" for n
    using that
  proof (induction n arbitrary: w)
    case 0
    then show ?case using pad by (simp add: Let_def case_prod_beta random_code_def)
  next
    case (Suc n)
    then show ?case
      using Suc.IH [of "snd (random_code env w)"] random_chars_alphabet [OF assms(1), of PAIRING_CODE_LENGTH w]
      by (simp add: Let_def case_prod_beta random_code_def split: if_splits)
  qed
  then show "fst (generate_unique_code env ex w) \<notin> set ex" "set (fst (generate_unique_code env ex w)) \<subseteq> set PAIRING_ALPHABET"
    using assms(2) by (auto simp: generate_unique_code_def)
qed

lemma code_normal:
  assumes "set code \<subseteq> set PAIRING_ALPHABET"
  shows "to_uppercase (trim code) = code" "to_uppercase code = code"
proof -
  have "\<forall>c \<in> set code. ascii_upper c = c \<and> \<not> is_whitespace c" using assms alphabet_chars by blast
  moreover have drop: "dropWhile is_whitespace xs = xs" if "\<forall>c \<in> set xs. \<not> is_whitespace c" for xs
    using that by (cases xs) simp_all
  ultimately have "trim code = code" and "map ascii_upper code = code"
    using drop [of code] drop [of "rev code"] by (simp_all add: trim_def trim_start_def trim_end_def map_idI)
  then show "to_uppercase (trim code) = code" "to_uppercase code = code" by (simp_all add: to_uppercase_def)
qed

lemma generate_first: "generate_unique_code env [] w = random_code env w"
proof -
  have "(500 :: nat) = Suc 499" by simp
  then show ?thesis unfolding generate_unique_code_def by (simp only: try_codes.simps) (simp add: case_prod_beta)
qed

lemma fresh_not_expired:
  assumes "\<forall>n. \<exists>t. pe_to_rfc3339 env n = Some t \<and> pe_from_rfc3339 env t = Some (int n)"
    and "\<forall>m n. pe_clock env n < 2 ^ 64 \<and> pe_clock env n \<le> pe_clock env m + PAIRING_PENDING_TTL_SECS"
    and "req_created_at r = fst (now_iso env t)"
  shows "\<not> is_expired env r (fst (now_secs env v))"
proof -
  let ?c = "pe_clock env (pw_ticks t)"
  obtain s where s: "pe_to_rfc3339 env ?c = Some s" "pe_from_rfc3339 env s = Some (int ?c)" using assms(1) by blast
  have "int ?c mod 2 ^ 64 = int ?c" using assms(2) by simp
  then have "parse_timestamp env (req_created_at r) = Some ?c"
    using s assms(3) by (simp add: parse_timestamp_def now_iso_def now_secs_def)
  then show ?thesis
    using assms(2) by (simp add: is_expired_def now_secs_def not_less diff_le_mono le_diff_conv add.commute)
qed

lemma upsert_created:
  assumes codec: "json_codec env" and ok: "\<forall>call path. pe_fail env call path = None"
    and path: "pairing_path (ps_base_dir st) ch = Ok path"
    and res: "upsert_request env st ch sender meta w = (Ok res, w')" "ups_created res"
  shows "\<exists>rs r v t. pending env path w' = rs @ [r] \<and> hm_get (pw_files w') path \<noteq> None \<and>
    req_id r = trim sender \<and> trim sender \<noteq> [] \<and> req_code r = ups_code res \<and>
    req_created_at r = fst (now_iso env t) \<and>
    ups_code res = fst (generate_unique_code env (map (\<lambda>r. to_uppercase (req_code r)) rs) v)"
proof -
  have add: "\<exists>r v. pending env path w' = rs @ [r] \<and> hm_get (pw_files w') path \<noteq> None \<and> req_id r = i \<and>
      req_code r = ups_code res \<and> req_created_at r = now \<and> ups_code res = fst (generate_unique_code env ex v)"
    if "add_request env path ex now i meta rs v = (Ok res, w')" for rs ex now i v
    using that codec ok
    by (auto simp: add_request_def Let_def case_prod_beta write_pairing_file_locked_def write_content_def fs_check_def
        pending_def read_or_default_def read_to_string_def put_file_def parse_requests_def json_codec_def)
  have no: "refresh_request env path ex now meta rs i v \<noteq> (Ok res, w')" for ex now rs i v
    using res(2) ok by (auto simp: refresh_request_def Let_def case_prod_beta write_pairing_file_locked_def write_content_def
        fs_check_def)
  obtain v where v: "open_locked env False path w = (Ok (), v)"
    using ok by (auto simp: open_locked_def fs_check_def)
  let ?secs = "fst (now_secs env (snd (now_iso env v)))"
  let ?rs = "filter (\<lambda>r. \<not> is_expired env r ?secs) (parse_requests env (read_or_default env path v))"
  have "trim sender \<noteq> []" and "add_request env path (map (\<lambda>r. to_uppercase (req_code r)) ?rs) (fst (now_iso env v)) (trim sender)
      meta ?rs (snd (now_secs env (snd (now_iso env v)))) = (Ok res, w')"
    using res ok no
    by (auto simp: upsert_request_def path v Let_def case_prod_beta fs_check_def split: if_splits option.splits)
  with add show ?thesis by blast
qed

section \<open>Properties\<close>

text \<open>Every file the store touches lies directly in its directory under a name made from the channel: the name has no separator and no parent reference, and an operation on a channel changes only the three files of that channel.\<close>

theorem pairing_files_confined:
  assumes "safe_channel_key ch = Ok key"
  shows "CHR ''/'' \<notin> set key \<and> backslash_char \<notin> set key \<and> \<not> contains key ''..'' \<and>
    (let files = {path_join (ps_base_dir st) (key @ ''-pairing.json''),
                  path_join (ps_base_dir st) (key @ ''-allowFrom.json''),
                  path_join (ps_base_dir st) (key @ ''-approve-attempts.json'')}
     in same_outside files w (snd (list_pending env st ch w)) \<and>
        same_outside files w (snd (upsert_request env st ch sender meta w)) \<and>
        same_outside files w (snd (approve env st ch code w)))"
proof -
  note paths = paths_together [OF assms, of "ps_base_dir st"]
  let ?ps = "{path_join (ps_base_dir st) (key @ ''-pairing.json''),
                  path_join (ps_base_dir st) (key @ ''-allowFrom.json''),
                  path_join (ps_base_dir st) (key @ ''-approve-attempts.json'')}"
  have "same_outside ?ps w (snd (approve env st ch code w))"
    using approve_effect [OF paths(1,3), of w env code]
  proof (elim disjE exE conjE)
    fix r v now
    assume "same_outside {path_join (ps_base_dir st) (key @ ''-pairing.json''),
        path_join (ps_base_dir st) (key @ ''-approve-attempts.json'')} w v"
      and eq: "snd (approve env st ch code w) = snd (add_allow_from env st ch (req_id r) v)"
    then have "same_outside ?ps w v" by (auto intro: same_outside_mono)
    moreover have "same_outside ?ps v (snd (add_allow_from env st ch (req_id r) v))"
      by (rule same_outside_allow [OF paths(2)]) simp
    ultimately show ?thesis unfolding eq by (rule same_outside_trans)
  qed (auto intro: same_outside_mono)
  then show ?thesis
    using safe_channel_key_Ok [OF assms] same_outside_list [OF paths(1), of ?ps w env]
      same_outside_upsert [OF paths(1), of ?ps w env sender meta]
    by (simp add: Let_def)
qed

theorem pairing_files_confined_witness:
  "same_outside {''/home/.rustytalon/tele_gram-pairing.json'', ''/home/.rustytalon/tele_gram-allowFrom.json'',
      ''/home/.rustytalon/tele_gram-approve-attempts.json''} no_files
     (snd (approve example_pairing (pairing_store_new (Some ''/home'')) '' Tele/Gram '' ''ABC'' no_files))"
proof -
  have "safe_channel_key '' Tele/Gram '' = Ok ''tele_gram''" by code_simp
  moreover have "ps_base_dir (pairing_store_new (Some ''/home'')) = ''/home/.rustytalon''"
    by (simp add: pairing_store_new_def default_pairing_dir_def path_join_def)
  ultimately show ?thesis
    using pairing_files_confined [of "'' Tele/Gram ''" "''tele_gram''" "pairing_store_new (Some ''/home'')" no_files example_pairing]
    by (simp add: Let_def path_join_def)
qed

text \<open>C8: whatever requests, listings and approvals follow one another, and whichever calls to the file system fail, at most three requests are pending on a channel and no sender has two of them.\<close>

theorem pending_bounded:
  assumes "(pairing_step env st)\<^sup>*\<^sup>* no_files w" and "json_codec env"
    and "pairing_path (ps_base_dir st) ch = Ok path"
  shows "length (pending env path w) \<le> 3 \<and> distinct (map req_id (pending env path w))"
proof -
  from assms(1) have "pending_ok env st w"
  proof (induction rule: rtranclp_induct)
    case (step v u)
    then show ?case
      using assms(2) pending_ok_list pending_ok_upsert pending_ok_approve by (auto simp: pairing_step_iff)
  qed (rule no_files_ok [OF assms(2)])
  with assms(3) show ?thesis by (auto simp: pending_ok_def requests_ok_def PAIRING_PENDING_MAX_def)
qed

theorem pending_bounded_witness:
  "length (pending example_pairing ''d/telegram-pairing.json''
     (snd (upsert_request example_pairing (with_base_dir ''d'') ''telegram'' ''alice'' None no_files))) \<le> 3"
proof -
  have "(pairing_step example_pairing (with_base_dir ''d''))\<^sup>*\<^sup>* no_files
      (snd (upsert_request example_pairing (with_base_dir ''d'') ''telegram'' ''alice'' None no_files))"
    by (intro r_into_rtranclp step_upsert)
  moreover have "pairing_path (ps_base_dir (with_base_dir ''d'')) ''telegram'' = Ok ''d/telegram-pairing.json''"
    by code_simp
  ultimately show ?thesis using pending_bounded example_codec by blast
qed


text \<open>C10: an approval forgets the senders approved before it: the file of allowed senders is opened with truncation and then read, so afterwards the sender just approved is the only one in the list.\<close>

theorem approval_forgets_earlier_senders:
  assumes "json_codec env" and "\<forall>call path. pe_fail env call path = None"
    and "fst (approve env st ch code w) = Ok (Some r)" and "trim (req_id r) \<noteq> []"
  shows "read_allow_from env st ch (snd (approve env st ch code w)) = Ok [trim (req_id r)]"
proof -
  obtain key where key: "safe_channel_key ch = Ok key"
    using assms(3) by (cases "safe_channel_key ch")
      (auto simp: approve_def Let_def is_approve_rate_limited_def approve_attempts_path_def channel_file_def split: if_splits)
  note paths = paths_together [OF key, of "ps_base_dir st"]
  from paths(1) show ?thesis
  proof (cases rule: approve_cases [where env = env and code = code and w = w])
    case same
    then show ?thesis using assms(3) by blast
  next
    case none
    then show ?thesis using assms(3) by (auto simp: try_io_cases split: sum.splits)
  next
    case (found i)
    define rs where "rs = filter (\<lambda>r. \<not> is_expired env r (fst (now_secs env (snd (is_approve_rate_limited env st ch w)))))
       (pending env (path_join (ps_base_dir st) (key @ ''-pairing.json'')) w)"
    have "approve env st ch code w = try_io (add_allow_from env st ch (req_id (rs ! i)) v) (\<lambda>_ w. (Ok (Some (rs ! i)), w))"
      if "snd (write_pairing_file_locked env (path_join (ps_base_dir st) (key @ ''-pairing.json'')) (take i rs @ drop (i + 1) rs)
           (snd (now_secs env (snd (is_approve_rate_limited env st ch w))))) = v" for v
      unfolding found(2) rs_def [symmetric] using that assms(2)
      by (auto simp: write_pairing_file_locked_def write_content_def fs_check_def)
    then obtain v where eq: "approve env st ch code w = try_io (add_allow_from env st ch (req_id (rs ! i)) v) (\<lambda>_ w. (Ok (Some (rs ! i)), w))"
      by blast
    then have "r = rs ! i" using assms(3) by (auto simp: try_io_cases split: sum.splits)
    then show ?thesis
      using eq add_allow_from_result [OF assms(1,2) paths(2) assms(4), of v] by (simp add: try_io_cases)
  qed
qed

definition two_senders :: pairing_world where
  "two_senders = no_files\<lparr>pw_files :=
     [(''d/telegram-pairing.json'', pe_show_pairing example_pairing
         \<lparr>psf_version = 1, psf_requests = [\<lparr>req_id = ''bob'', req_code = ''BBBBBBBB'', req_created_at = ''900'',
            req_last_seen_at = ''900'', req_meta = None\<rparr>]\<rparr>),
      (''d/telegram-allowFrom.json'', pe_show_allow example_pairing \<lparr>aff_version = 1, aff_allow_from = [''alice'']\<rparr>)]\<rparr>"

lemma two_senders_before:
  "is_sender_allowed example_pairing (with_base_dir ''d'') ''telegram'' ''alice'' None two_senders = Ok True"
proof -
  have q: "allow_from_path ''d'' ''telegram'' = Ok ''d/telegram-allowFrom.json''" by code_simp
  show ?thesis
    by (simp add: is_sender_allowed_def read_allow_from_def with_base_dir_def q read_to_string_def two_senders_def
        example_pairing_def parse_allow_def hm_get_def)
qed

lemma bob_pending:
  "fst (approve example_pairing (with_base_dir ''d'') ''telegram'' ''bbbbbbbb'' two_senders) =
     Ok (Some \<lparr>req_id = ''bob'', req_code = ''BBBBBBBB'', req_created_at = ''900'', req_last_seen_at = ''900'', req_meta = None\<rparr>)"
proof -
  have paths: "pairing_path ''d'' ''telegram'' = Ok ''d/telegram-pairing.json''"
    "allow_from_path ''d'' ''telegram'' = Ok ''d/telegram-allowFrom.json''"
    "approve_attempts_path ''d'' ''telegram'' = Ok ''d/telegram-approve-attempts.json''" by code_simp+
  have u: "to_uppercase (trim ''bbbbbbbb'') = ''BBBBBBBB''" "to_uppercase ''BBBBBBBB'' = ''BBBBBBBB''"
    "trim ''bob'' = ''bob''" by code_simp+
  have n: "parse_unsigned 64 ''900'' = Some 900"
    by (simp add: parse_unsigned_def decimal_value_def digit_value_def is_ascii_digit_def)
  have ok: "pe_fail example_pairing c p = None" for c p by (simp add: example_pairing_def)
  note codec = example_codec [unfolded json_codec_def]
  have e: "is_expired example_pairing r 1000 = False" if "req_created_at r = ''900''" for r
    using that by (simp add: is_expired_def parse_timestamp_def n example_pairing_def PAIRING_PENDING_TTL_SECS_def)
  have c: "pe_clock example_pairing 0 = 1000" by (simp add: example_pairing_def)
  have lim: "is_approve_rate_limited example_pairing (with_base_dir ''d'') ''telegram'' two_senders = (Ok False, two_senders)"
    by (simp add: is_approve_rate_limited_def with_base_dir_def paths read_to_string_def two_senders_def hm_get_def)
  have pend: "parse_requests example_pairing (read_or_default example_pairing ''d/telegram-pairing.json'' two_senders) =
      [\<lparr>req_id = ''bob'', req_code = ''BBBBBBBB'', req_created_at = ''900'', req_last_seen_at = ''900'', req_meta = None\<rparr>]"
    using codec ok by (simp add: read_or_default_def read_to_string_def two_senders_def hm_get_def parse_requests_def)
  have op: "open_existing example_pairing ''d/telegram-pairing.json'' two_senders = (Ok (), two_senders)"
    using ok by (simp add: open_existing_def fs_check_def two_senders_def hm_get_def)
  have tick: "now_secs example_pairing two_senders = (1000, two_senders\<lparr>pw_ticks := 1\<rparr>)"
    by (simp add: now_secs_def two_senders_def no_files_def c)
  have add: "fst (add_allow_from example_pairing (with_base_dir ''d'') ''telegram'' ''bob'' w) = Ok ()" for w
    using add_allow_from_result [OF example_codec, of "with_base_dir ''d''" "''telegram''" "''d/telegram-allowFrom.json''" "''bob''" w] ok
    by (simp add: with_base_dir_def paths u)
  have b: "ps_base_dir (with_base_dir ''d'') = ''d''" by (simp add: with_base_dir_def)
  show ?thesis
    using ok by (simp add: approve_def Let_def u lim pend op tick e paths b write_pairing_file_locked_def
        write_content_def fs_check_def try_io_fst_Ok [OF add])
qed

theorem approval_forgets_earlier_senders_witness:
  "is_sender_allowed example_pairing (with_base_dir ''d'') ''telegram'' ''alice'' None
     (snd (approve example_pairing (with_base_dir ''d'') ''telegram'' ''bbbbbbbb'' two_senders)) = Ok False"
proof -
  have ok: "\<forall>c p. pe_fail example_pairing c p = None" by (simp add: example_pairing_def)
  have "trim ''bob'' = ''bob''" "trim ''alice'' = ''alice''" by code_simp+
  with approval_forgets_earlier_senders [OF example_codec ok bob_pending] show ?thesis
    by (simp add: is_sender_allowed_def)
qed

text \<open>Wrong codes are limited: an approval with ten failed attempts in the last five minutes is refused before the pending requests are read and changes no file, every other wrong code is recorded, and the record never holds more than ten attempts.\<close>

theorem wrong_codes_limited:
  assumes "json_codec env" and "\<forall>call path. pe_fail env call path = None" and "mono (pe_clock env)"
    and "approve_attempts_path (ps_base_dir st) ch = Ok a" and "to_uppercase (trim code) \<noteq> []"
  shows "case approve env st ch code w of (res, w') \<Rightarrow>
    (10 \<le> length (recent_attempts (pe_clock env (pw_ticks w)) (attempts env a w)) \<longrightarrow>
       res = Err ApproveRateLimited \<and> pw_files w' = pw_files w) \<and>
    (res = Ok None \<longrightarrow>
       (\<exists>now. attempts env a w' = recent_attempts now (attempts env a w) @ [now] \<and>
          length (attempts env a w') \<le> 10))"
proof -
  note a = assms(4)
  obtain key where "safe_channel_key ch = Ok key" using channel_paths(3) [OF a] by blast
  note paths = paths_together [OF this, of "ps_base_dir st"]
  have refused: "fst (approve env st ch code w) = Err ApproveRateLimited \<and> pw_files (snd (approve env st ch code w)) = pw_files w"
    if "10 \<le> length (recent_attempts (pe_clock env (pw_ticks w)) (attempts env a w))"
    using limited_result(2) [OF assms(2) a, of w] that assms(1,5)
    by (simp add: approve_def Let_def try_io_cases PAIRING_APPROVE_RATE_LIMIT_def)
  have recorded: "\<exists>now. attempts env a (snd (approve env st ch code w)) = recent_attempts now (attempts env a w) @ [now] \<and>
      length (attempts env a (snd (approve env st ch code w))) \<le> 10" if none: "fst (approve env st ch code w) = Ok None"
    using paths(1)
  proof (cases rule: approve_cases [where env = env and code = code and w = w])
    case same
    then show ?thesis using assms(5) none by blast
  next
    case (found i)
    then show ?thesis using none by (auto simp: try_io_cases split: sum.splits)
  next
    case none
    let ?v = "snd (now_secs env (snd (is_approve_rate_limited env st ch w)))"
    let ?now = "pe_clock env (pw_ticks ?v)"
    have "pe_clock env (pw_ticks w) \<le> ?now"
      using limited_result(3) [OF assms(2) a, of w] assms(3) by (auto simp: now_secs_def intro: monoD)
    then have "length (recent_attempts ?now (attempts env a w)) \<le>
        length (recent_attempts (pe_clock env (pw_ticks w)) (attempts env a w))" by (rule length_recent_mono)
    also have "\<dots> < 10"
      using refused none(3) limited_result(2) [OF assms(2) a, of w] assms(1) not_le by (fastforce simp: PAIRING_APPROVE_RATE_LIMIT_def)
    finally have "length (recent_attempts ?now (attempts env a w)) < 10" .
    moreover have "attempts env a ?v = attempts env a w"
      using read_or_default_cong [of ?v a w env] by (simp add: attempts_def)
    moreover have "snd (approve env st ch code w) = snd (record_failed_approve env st ch ?v)"
      unfolding none(2) using assms(2) by (auto simp: try_io_cases fs_check_def split: sum.split)
    ultimately show ?thesis
      using record_failed_result [OF assms(1,2) a, of ?v] by (auto simp: Let_def)
  qed
  show ?thesis using refused recorded by (auto split: prod.split)
qed

definition ten_failures :: pairing_world where
  "ten_failures = no_files\<lparr>pw_files :=
     [(''d/telegram-approve-attempts.json'', pe_show_attempts example_pairing \<lparr>att_failed_at = replicate 10 900\<rparr>)]\<rparr>"

theorem wrong_codes_limited_witness:
  "fst (approve example_pairing (with_base_dir ''d'') ''telegram'' ''CCCC'' ten_failures) = Err ApproveRateLimited"
proof -
  have ok: "\<forall>c p. pe_fail example_pairing c p = None" by (simp add: example_pairing_def)
  have clock: "mono (pe_clock example_pairing)" by (simp add: example_pairing_def mono_def)
  have path: "approve_attempts_path (ps_base_dir (with_base_dir ''d'')) ''telegram'' = Ok ''d/telegram-approve-attempts.json''"
    by code_simp
  have code: "to_uppercase (trim ''CCCC'') \<noteq> []" by code_simp
  have "attempts example_pairing ''d/telegram-approve-attempts.json'' ten_failures = replicate 10 900"
    using ok example_codec
    by (simp add: attempts_def read_or_default_def read_to_string_def ten_failures_def hm_get_def parse_attempts_def json_codec_def)
  then have "10 \<le> length (recent_attempts (pe_clock example_pairing (pw_ticks ten_failures))
      (attempts example_pairing ''d/telegram-approve-attempts.json'' ten_failures))"
    by (simp add: recent_attempts_def example_pairing_def ten_failures_def no_files_def PAIRING_APPROVE_RATE_WINDOW_SECS_def)
  then show ?thesis
    using wrong_codes_limited [OF example_codec ok clock path code, of ten_failures] by (auto split: prod.splits)
qed



definition example_chrono :: pairing_env where
  "example_chrono = example_pairing\<lparr>pe_clock := \<lambda>_. 1000, pe_random := \<lambda>_ _. 0, pe_to_rfc3339 := \<lambda>n. Some (print_value n),
     pe_from_rfc3339 := \<lambda>s. map_option int (parse_value s)\<rparr>"


end
