(* ===== verification/Routine_Model.thy ===== *)
theory Routine_Model
  imports Containers
begin

text \<open>
  Routines as \<open>agent/routine.rs\<close> defines them, and their rows in the tables of \<open>db/libsql_backend.rs\<close>.
  A duration is in milliseconds, a column of integers has 64 bits with a sign. The number that a JSON
  literal denotes is read by a parameter \<open>as_u64\<close>. The lemmas show that triggers, actions and states
  survive the way through the database, and what a stored routine looks like when it is read again.
\<close>

section \<open>Model\<close>

datatype trigger =
    TrCron string
  | TrEvent "string option" string
  | TrWebhook "string option" "string option"
  | TrManual

fun trigger_type_tag :: "trigger \<Rightarrow> string" where
  "trigger_type_tag (TrCron _) = ''cron''"
| "trigger_type_tag (TrEvent _ _) = ''event''"
| "trigger_type_tag (TrWebhook _ _) = ''webhook''"
| "trigger_type_tag TrManual = ''manual''"

definition trigger_from_db :: "string \<Rightarrow> json \<Rightarrow> string + trigger" where
  "trigger_from_db trigger_type config =
     (if trigger_type = ''cron''
      then (case json_get_str config ''schedule'' of
              Some s \<Rightarrow> Ok (TrCron s) | None \<Rightarrow> Err (''cron trigger missing '' @ [CHR 0x27] @ ''schedule'' @ [CHR 0x27]))
      else if trigger_type = ''event''
      then (case json_get_str config ''pattern'' of
              Some p \<Rightarrow> Ok (TrEvent (json_get_str config ''channel'') p)
            | None \<Rightarrow> Err (''event trigger missing '' @ [CHR 0x27] @ ''pattern'' @ [CHR 0x27]))
      else if trigger_type = ''webhook''
      then Ok (TrWebhook (json_get_str config ''path'') (json_get_str config ''secret''))
      else if trigger_type = ''manual'' then Ok TrManual
      else Err (''unknown trigger type: '' @ trigger_type))"

definition json_opt_str :: "string option \<Rightarrow> json" where
  "json_opt_str s = (case s of Some t \<Rightarrow> JString t | None \<Rightarrow> JNull)"

fun trigger_to_config_json :: "trigger \<Rightarrow> json" where
  "trigger_to_config_json (TrCron schedule) = JObject [(''schedule'', JString schedule)]"
| "trigger_to_config_json (TrEvent channel pat) = JObject [(''pattern'', JString pat), (''channel'', json_opt_str channel)]"
| "trigger_to_config_json (TrWebhook path secret) = JObject [(''path'', json_opt_str path), (''secret'', json_opt_str secret)]"
| "trigger_to_config_json TrManual = JObject []"

datatype routine_action =
    Lightweight string "string list" u32
  | FullJob string string u32

definition default_max_tokens :: u32 where "default_max_tokens = 4096"

definition default_max_iterations :: u32 where "default_max_iterations = 10"

fun action_type_tag :: "routine_action \<Rightarrow> string" where
  "action_type_tag (Lightweight _ _ _) = ''lightweight''"
| "action_type_tag (FullJob _ _ _) = ''full_job''"

text \<open>\<open>.get(key).and_then(as_u64).unwrap_or(default) as u32\<close>: the cast keeps the low 32 bits.\<close>

definition get_u32 :: "(string \<Rightarrow> u64 option) \<Rightarrow> json \<Rightarrow> string \<Rightarrow> u32 \<Rightarrow> u32" where
  "get_u32 as_u64 config key d =
     (case json_get config key of
        Some (JNumber lit) \<Rightarrow> (case as_u64 lit of Some n \<Rightarrow> ucast n | None \<Rightarrow> d)
      | _ \<Rightarrow> d)"

definition json_as_str :: "json \<Rightarrow> string option" where
  "json_as_str v = (case v of JString s \<Rightarrow> Some s | _ \<Rightarrow> None)"

definition get_strings :: "json \<Rightarrow> string \<Rightarrow> string list" where
  "get_strings config key =
     (case json_get config key of Some (JArray vs) \<Rightarrow> List.map_filter json_as_str vs | _ \<Rightarrow> [])"

definition missing_field :: "string \<Rightarrow> string \<Rightarrow> string" where
  "missing_field kind field = kind @ '' action missing '' @ [CHR 0x27] @ field @ [CHR 0x27]"

definition action_from_db :: "(string \<Rightarrow> u64 option) \<Rightarrow> string \<Rightarrow> json \<Rightarrow> string + routine_action" where
  "action_from_db as_u64 action_type config =
     (if action_type = ''lightweight''
      then (case json_get_str config ''prompt'' of
              None \<Rightarrow> Err (missing_field ''lightweight'' ''prompt'')
            | Some prompt \<Rightarrow>
                Ok (Lightweight prompt (get_strings config ''context_paths'')
                      (get_u32 as_u64 config ''max_tokens'' default_max_tokens)))
      else if action_type = ''full_job''
      then (case json_get_str config ''title'' of
              None \<Rightarrow> Err (missing_field ''full_job'' ''title'')
            | Some title \<Rightarrow>
                (case json_get_str config ''description'' of
                   None \<Rightarrow> Err (missing_field ''full_job'' ''description'')
                 | Some description \<Rightarrow>
                     Ok (FullJob title description (get_u32 as_u64 config ''max_iterations'' default_max_iterations))))
      else Err (''unknown action type: '' @ action_type))"

fun action_to_config_json :: "routine_action \<Rightarrow> json" where
  "action_to_config_json (Lightweight prompt paths tokens) =
     JObject [(''prompt'', JString prompt), (''context_paths'', JArray (map JString paths)),
              (''max_tokens'', JNumber (show_nat (unat tokens)))]"
| "action_to_config_json (FullJob title description iterations) =
     JObject [(''title'', JString title), (''description'', JString description),
              (''max_iterations'', JNumber (show_nat (unat iterations)))]"

record routine_guardrails =
  gr_cooldown :: duration
  gr_max_concurrent :: u32
  gr_dedup_window :: "duration option"

definition guardrails_default :: routine_guardrails where
  "guardrails_default = \<lparr>gr_cooldown = 300000, gr_max_concurrent = 1, gr_dedup_window = None\<rparr>"

record notify_config =
  nc_channel :: "string option"
  nc_user :: string
  nc_on_attention :: bool
  nc_on_failure :: bool
  nc_on_success :: bool

definition notify_default :: notify_config where
  "notify_default = \<lparr>nc_channel = None, nc_user = ''default'', nc_on_attention = True, nc_on_failure = True, nc_on_success = False\<rparr>"

datatype run_status = RunRunning | RunOk | RunAttention | RunFailed

fun run_status_display :: "run_status \<Rightarrow> string" where
  "run_status_display RunRunning = ''running''"
| "run_status_display RunOk = ''ok''"
| "run_status_display RunAttention = ''attention''"
| "run_status_display RunFailed = ''failed''"

definition run_status_from_str :: "string \<Rightarrow> string + run_status" where
  "run_status_from_str s =
     (if s = ''running'' then Ok RunRunning else if s = ''ok'' then Ok RunOk
      else if s = ''attention'' then Ok RunAttention else if s = ''failed'' then Ok RunFailed
      else Err (''unknown run status: '' @ s))"

record routine =
  rt_id :: uuid
  rt_name :: string
  rt_description :: string
  rt_user_id :: string
  rt_enabled :: bool
  rt_trigger :: trigger
  rt_action :: routine_action
  rt_guardrails :: routine_guardrails
  rt_notify :: notify_config
  rt_last_run_at :: "time option"
  rt_next_fire_at :: "time option"
  rt_run_count :: u64
  rt_consecutive_failures :: u32
  rt_state :: json
  rt_created_at :: time
  rt_updated_at :: time

record routine_run =
  run_id :: uuid
  run_routine_id :: uuid
  run_trigger_type :: string
  run_trigger_detail :: "string option"
  run_started_at :: time
  run_completed_at :: "time option"
  run_state :: run_status
  run_result_summary :: "string option"
  run_tokens_used :: "int option"
  run_job_id :: "uuid option"
  run_created_at :: time

section \<open>Rows\<close>

text \<open>A row of the table \<open>routines\<close>; the columns of integers hold 64 bits with a sign.\<close>

record routine_row =
  row_id :: uuid
  row_name :: string
  row_description :: string
  row_user_id :: string
  row_enabled :: int
  row_trigger_type :: string
  row_trigger_config :: json
  row_action_type :: string
  row_action_config :: json
  row_cooldown_secs :: int
  row_max_concurrent :: int
  row_dedup_window_secs :: "int option"
  row_notify_channel :: "string option"
  row_notify_user :: string
  row_notify_on_success :: int
  row_notify_on_failure :: int
  row_notify_on_attention :: int
  row_state :: json
  row_last_run_at :: "time option"
  row_next_fire_at :: "time option"
  row_run_count :: int
  row_consecutive_failures :: int
  row_created_at :: time
  row_updated_at :: time

text \<open>\<open>d.as_secs() as i64\<close> and \<open>Duration::from_secs(n as u64)\<close>.\<close>

definition secs_i64 :: "duration \<Rightarrow> int" where
  "secs_i64 d = sint (of_nat (d div 1000) :: u64)"

definition secs_of_i64 :: "int \<Rightarrow> duration" where
  "secs_of_i64 n = unat (of_int n :: u64) * 1000"

definition as_i64_bool :: "bool \<Rightarrow> int" where
  "as_i64_bool b = (if b then 1 else 0)"

definition create_routine_row :: "routine \<Rightarrow> routine_row" where
  "create_routine_row r =
     \<lparr>row_id = rt_id r, row_name = rt_name r, row_description = rt_description r, row_user_id = rt_user_id r,
      row_enabled = as_i64_bool (rt_enabled r),
      row_trigger_type = trigger_type_tag (rt_trigger r), row_trigger_config = trigger_to_config_json (rt_trigger r),
      row_action_type = action_type_tag (rt_action r), row_action_config = action_to_config_json (rt_action r),
      row_cooldown_secs = secs_i64 (gr_cooldown (rt_guardrails r)),
      row_max_concurrent = uint (gr_max_concurrent (rt_guardrails r)),
      row_dedup_window_secs = map_option secs_i64 (gr_dedup_window (rt_guardrails r)),
      row_notify_channel = nc_channel (rt_notify r), row_notify_user = nc_user (rt_notify r),
      row_notify_on_success = as_i64_bool (nc_on_success (rt_notify r)),
      row_notify_on_failure = as_i64_bool (nc_on_failure (rt_notify r)),
      row_notify_on_attention = as_i64_bool (nc_on_attention (rt_notify r)),
      row_state = rt_state r, row_last_run_at = None, row_next_fire_at = rt_next_fire_at r,
      row_run_count = 0, row_consecutive_failures = 0,
      row_created_at = rt_created_at r, row_updated_at = rt_updated_at r\<rparr>"

definition update_routine_row :: "time \<Rightarrow> routine \<Rightarrow> routine_row \<Rightarrow> routine_row" where
  "update_routine_row now r row =
     (create_routine_row r)\<lparr>row_id := row_id row, row_user_id := row_user_id row, row_last_run_at := row_last_run_at row,
        row_run_count := row_run_count row, row_consecutive_failures := row_consecutive_failures row,
        row_created_at := row_created_at row, row_updated_at := now\<rparr>"

definition update_runtime_row ::
  "time \<Rightarrow> time \<Rightarrow> time option \<Rightarrow> u64 \<Rightarrow> u32 \<Rightarrow> json \<Rightarrow> routine_row \<Rightarrow> routine_row" where
  "update_runtime_row now last_run next_fire count failures state row =
     row\<lparr>row_last_run_at := Some last_run, row_next_fire_at := next_fire, row_run_count := sint count,
         row_consecutive_failures := uint failures, row_state := state, row_updated_at := now\<rparr>"

definition row_to_routine :: "(string \<Rightarrow> u64 option) \<Rightarrow> routine_row \<Rightarrow> string + routine" where
  "row_to_routine as_u64 row =
     (case trigger_from_db (row_trigger_type row) (row_trigger_config row) of
        Inl e \<Rightarrow> Err e
      | Inr trigger \<Rightarrow>
          (case action_from_db as_u64 (row_action_type row) (row_action_config row) of
             Inl e \<Rightarrow> Err e
           | Inr action \<Rightarrow>
               Ok \<lparr>rt_id = row_id row, rt_name = row_name row, rt_description = row_description row,
                   rt_user_id = row_user_id row, rt_enabled = (row_enabled row \<noteq> 0),
                   rt_trigger = trigger, rt_action = action,
                   rt_guardrails = \<lparr>gr_cooldown = secs_of_i64 (row_cooldown_secs row),
                     gr_max_concurrent = of_int (row_max_concurrent row),
                     gr_dedup_window = map_option secs_of_i64 (row_dedup_window_secs row)\<rparr>,
                   rt_notify = \<lparr>nc_channel = row_notify_channel row, nc_user = row_notify_user row,
                     nc_on_attention = (row_notify_on_attention row \<noteq> 0), nc_on_failure = (row_notify_on_failure row \<noteq> 0),
                     nc_on_success = (row_notify_on_success row \<noteq> 0)\<rparr>,
                   rt_last_run_at = row_last_run_at row, rt_next_fire_at = row_next_fire_at row,
                   rt_run_count = of_int (row_run_count row),
                   rt_consecutive_failures = of_int (row_consecutive_failures row),
                   rt_state = row_state row, rt_created_at = row_created_at row, rt_updated_at = row_updated_at row\<rparr>))"

section \<open>Lemmas\<close>

lemma json_get_str_opt: "json_get_str (JObject ((k, json_opt_str v) # kvs)) k = v"
  by (cases v) (simp_all add: json_get_str_def json_get_def json_opt_str_def)

lemma json_get_str_skip: "k \<noteq> k' \<Longrightarrow> json_get_str (JObject ((k', v) # kvs)) k = json_get_str (JObject kvs) k"
  by (simp add: json_get_str_def json_get_def)

lemma json_get_str_here [simp]: "json_get_str (JObject ((k, JString s) # kvs)) k = Some s"
  by (simp add: json_get_str_def json_get_def)

lemma trigger_from_to: "trigger_from_db (trigger_type_tag t) (trigger_to_config_json t) = Ok t"
  by (cases t) (simp_all add: trigger_from_db_def json_get_str_opt json_get_str_skip)

lemma run_status_from_display: "run_status_from_str (run_status_display s) = Ok s"
  by (cases s) (simp_all add: run_status_from_str_def)

lemma run_status_display_running [simp]: "run_status_display s = ''running'' \<longleftrightarrow> s = RunRunning"
  by (cases s) simp_all

text \<open>What the JSON package promises: the literal that it prints for a number of 32 bits is read as
  that number.\<close>

definition reads_literals :: "(string \<Rightarrow> u64 option) \<Rightarrow> bool" where
  "reads_literals as_u64 \<longleftrightarrow> (\<forall>n. n < 2 ^ 32 \<longrightarrow> as_u64 (show_nat n) = Some (of_nat n))"

lemma get_u32_literal:
  assumes "reads_literals as_u64" and "json_get config key = Some (JNumber (show_nat (unat n)))"
  shows "get_u32 as_u64 config key d = n"
proof -
  have "unat n < 2 ^ 32" by (rule order_less_le_trans [OF unsigned_less]) simp
  then have "as_u64 (show_nat (unat n)) = Some (of_nat (unat n))"
    using assms(1) unfolding reads_literals_def by blast
  moreover have "ucast (of_nat (unat n) :: u64) = n"
    by (rule bit_word_eqI) (simp add: bit_unsigned_iff)
  ultimately show ?thesis using assms(2) by (simp add: get_u32_def)
qed

lemma map_filter_strings: "List.map_filter json_as_str (map JString xs) = xs"
  by (induction xs) (simp_all add: List.map_filter_simps json_as_str_def)

lemma get_strings_array: "json_get config key = Some (JArray (map JString xs)) \<Longrightarrow> get_strings config key = xs"
  by (simp add: get_strings_def map_filter_strings)

lemma action_from_to:
  assumes "reads_literals as_u64"
  shows "action_from_db as_u64 (action_type_tag a) (action_to_config_json a) = Ok a"
proof (cases a)
  case (Lightweight prompt paths tokens)
  then show ?thesis
    using get_u32_literal [OF assms] get_strings_array
    by (simp add: action_from_db_def json_get_str_skip json_get_def)
next
  case (FullJob title description iterations)
  then show ?thesis
    using get_u32_literal [OF assms]
    by (simp add: action_from_db_def json_get_str_skip json_get_def)
qed

lemma secs_roundtrip: "d div 1000 < 2 ^ 64 \<Longrightarrow> secs_of_i64 (secs_i64 d) = d div 1000 * 1000"
  by (simp add: secs_of_i64_def secs_i64_def unat_of_nat)

lemma as_i64_bool_iff [simp]: "as_i64_bool b \<noteq> 0 \<longleftrightarrow> b"
  by (simp add: as_i64_bool_def)

text \<open>A reader of decimal literals, for the examples.\<close>

definition read_decimal :: "string \<Rightarrow> u64 option" where
  "read_decimal s = (if s \<noteq> [] \<and> list_all is_ascii_digit s then Some (of_nat (foldl (\<lambda>n c. n * 10 + (of_char c - 48)) 0 s)) else None)"

lemma show_nat_value:
  "foldl (\<lambda>n c. n * 10 + (of_char c - 48)) 0 (show_nat n) = n \<and> show_nat n \<noteq> [] \<and> list_all is_ascii_digit (show_nat n)"
proof (induction n rule: show_nat.induct)
  case (1 n)
  have d: "of_char (char_of (48 + m) :: char) = 48 + m" if "m < 10" for m :: nat
    using that by (simp add: of_char_of)
  show ?case
  proof (cases "n < 10")
    case True
    then show ?thesis using d [OF True] by (simp add: show_nat.simps [of n] is_ascii_digit_def)
  next
    case False
    then show ?thesis using 1 d [of "n mod 10"] by (simp add: show_nat.simps [of n] is_ascii_digit_def)
  qed
qed

lemma read_decimal_literals: "reads_literals read_decimal"
  using show_nat_value by (simp add: reads_literals_def read_decimal_def)

lemma row_roundtrip:
  assumes "reads_literals as_u64"
    and "gr_cooldown (rt_guardrails r) div 1000 < 2 ^ 64"
    and "case gr_dedup_window (rt_guardrails r) of Some d \<Rightarrow> d div 1000 < 2 ^ 64 | None \<Rightarrow> True"
  shows "row_to_routine as_u64 (create_routine_row r) =
    Ok (r\<lparr>rt_guardrails := (rt_guardrails r)\<lparr>gr_cooldown := gr_cooldown (rt_guardrails r) div 1000 * 1000,
            gr_dedup_window := map_option (\<lambda>d. d div 1000 * 1000) (gr_dedup_window (rt_guardrails r))\<rparr>,
          rt_last_run_at := None, rt_run_count := 0, rt_consecutive_failures := 0\<rparr>)"
proof -
  have "map_option secs_of_i64 (map_option secs_i64 (gr_dedup_window (rt_guardrails r))) =
      map_option (\<lambda>d. d div 1000 * 1000) (gr_dedup_window (rt_guardrails r))"
    using assms(3) by (simp add: secs_roundtrip split: option.splits)
  then show ?thesis
    using assms(2)
    by (simp add: row_to_routine_def create_routine_row_def trigger_from_to action_from_to [OF assms(1)] secs_roundtrip)
qed

section \<open>Properties\<close>

text \<open>A routine that is stored and read again is the routine, with the durations cut to whole seconds and the runtime columns, which the insertion leaves to their defaults, empty.\<close>

theorem routine_storage_roundtrip:
  assumes "reads_literals as_u64"
    and "gr_cooldown (rt_guardrails r) div 1000 < 2 ^ 64"
    and "case gr_dedup_window (rt_guardrails r) of Some d \<Rightarrow> d div 1000 < 2 ^ 64 | None \<Rightarrow> True"
  shows "row_to_routine as_u64 (create_routine_row r) =
    Ok (r\<lparr>rt_guardrails := (rt_guardrails r)\<lparr>gr_cooldown := gr_cooldown (rt_guardrails r) div 1000 * 1000,
            gr_dedup_window := map_option (\<lambda>d. d div 1000 * 1000) (gr_dedup_window (rt_guardrails r))\<rparr>,
          rt_last_run_at := None, rt_run_count := 0, rt_consecutive_failures := 0\<rparr>)"
  by (rule row_roundtrip [OF assms])

theorem routine_storage_roundtrip_witness:
  "row_to_routine read_decimal (create_routine_row
     \<lparr>rt_id = 7, rt_name = ''watch'', rt_description = [], rt_user_id = ''ann'', rt_enabled = True,
      rt_trigger = TrEvent None ''.*'', rt_action = FullJob ''a'' ''b'' 100, rt_guardrails = guardrails_default,
      rt_notify = notify_default, rt_last_run_at = Some 5, rt_next_fire_at = Some 6, rt_run_count = 3,
      rt_consecutive_failures = 1, rt_state = JNull, rt_created_at = 0, rt_updated_at = 0\<rparr>) =
   Ok \<lparr>rt_id = 7, rt_name = ''watch'', rt_description = [], rt_user_id = ''ann'', rt_enabled = True,
      rt_trigger = TrEvent None ''.*'', rt_action = FullJob ''a'' ''b'' 100, rt_guardrails = guardrails_default,
      rt_notify = notify_default, rt_last_run_at = None, rt_next_fire_at = Some 6, rt_run_count = 0,
      rt_consecutive_failures = 0, rt_state = JNull, rt_created_at = 0, rt_updated_at = 0\<rparr>"
  by (subst routine_storage_roundtrip) (simp_all add: read_decimal_literals guardrails_default_def)

end
