(* ===== verification/Workspace_Search.thy ===== *)
theory Workspace_Search
  imports Complex_Main Text_Paths Containers
begin

text \<open>
  \<open>workspace/chunker.rs\<close> and \<open>workspace/search.rs\<close>: the splitting of a document into overlapping
  chunks of words, and the fusion of two ranked lists of chunks. Fractions are rational numbers; the
  rounding of the one product that decides the overlap is a parameter. The loop of the chunker may run
  forever for some settings, so it is a partial function. The order in which a hash map is traversed is
  a parameter. The lemmas show that the chunks hold exactly the words of the document, when the loop
  ends, and that the fusion returns the chunks with the best scores in order.
\<close>

section \<open>Model\<close>

subsection \<open>Chunks\<close>

record chunk_config =
  cfg_chunk_size :: nat
  cfg_overlap_percent :: rat
  cfg_min_chunk_size :: nat

definition chunk_config_default :: chunk_config where
  "chunk_config_default = \<lparr>cfg_chunk_size = 800, cfg_overlap_percent = 15 / 100, cfg_min_chunk_size = 50\<rparr>"

definition with_chunk_size :: "nat \<Rightarrow> chunk_config \<Rightarrow> chunk_config" where
  "with_chunk_size n c = c\<lparr>cfg_chunk_size := n\<rparr>"

definition with_overlap :: "rat \<Rightarrow> chunk_config \<Rightarrow> chunk_config" where
  "with_overlap p c = c\<lparr>cfg_overlap_percent := max 0 (min p (1 / 2))\<rparr>"

definition overlap_size :: "(rat \<Rightarrow> rat) \<Rightarrow> chunk_config \<Rightarrow> nat" where
  "overlap_size rnd c = nat \<lfloor>rnd (of_nat (cfg_chunk_size c) * cfg_overlap_percent c)\<rfloor>"

definition step_size :: "(rat \<Rightarrow> rat) \<Rightarrow> chunk_config \<Rightarrow> nat" where
  "step_size rnd c = cfg_chunk_size c - overlap_size rnd c"

partial_function (option) chunk_loop ::
  "string list \<Rightarrow> nat \<Rightarrow> nat \<Rightarrow> nat \<Rightarrow> nat \<Rightarrow> string list \<Rightarrow> string list option" where
  "chunk_loop words width least step start chunks =
     (if length words \<le> start then Some chunks
      else
        let end_at = min (start + width) (length words);
            chunk_words = take (end_at - start) (drop start words)
        in if length chunk_words < least \<and> chunks \<noteq> []
           then Some (butlast chunks @ [last chunks @ '' '' @ join '' '' chunk_words])
           else
             let chunks' = chunks @ [join '' '' chunk_words];
                 start' = start + step
             in if length words \<le> start' + least \<and> end_at = length words then Some chunks'
                else chunk_loop words width least step start' chunks')"

definition chunk_document :: "(rat \<Rightarrow> rat) \<Rightarrow> string \<Rightarrow> chunk_config \<Rightarrow> string list option" where
  "chunk_document rnd content c =
     (if content = [] then Some []
      else
        let words = split_whitespace content
        in if words = [] then Some []
           else if length words \<le> cfg_chunk_size c then Some [content]
           else chunk_loop words (cfg_chunk_size c) (cfg_min_chunk_size c) (step_size rnd c) 0 [])"

record paragraph_state =
  par_chunks :: "string list"
  par_current :: string
  par_words :: nat

definition flush_current :: "paragraph_state \<Rightarrow> string list" where
  "flush_current s =
     (if par_current s \<noteq> [] then par_chunks s @ [trim (par_current s)] else par_chunks s)"

definition add_paragraph ::
  "(rat \<Rightarrow> rat) \<Rightarrow> chunk_config \<Rightarrow> string \<Rightarrow> paragraph_state \<Rightarrow> paragraph_state option" where
  "add_paragraph rnd c paragraph s =
     (let n = length (split_whitespace paragraph)
      in if cfg_chunk_size c < n
         then map_option (\<lambda>cs. \<lparr>par_chunks = flush_current s @ cs, par_current = [],
                                par_words = (if par_current s \<noteq> [] then 0 else par_words s)\<rparr>)
                (chunk_document rnd paragraph c)
         else if cfg_chunk_size c < par_words s + n
         then Some \<lparr>par_chunks = flush_current s, par_current = paragraph, par_words = n\<rparr>
         else Some (s\<lparr>par_current := (if par_current s \<noteq> [] then par_current s @ [newline, newline] else []) @ paragraph,
                      par_words := par_words s + n\<rparr>))"

fun add_paragraphs ::
  "(rat \<Rightarrow> rat) \<Rightarrow> chunk_config \<Rightarrow> string list \<Rightarrow> paragraph_state \<Rightarrow> paragraph_state option" where
  "add_paragraphs rnd c [] s = Some s"
| "add_paragraphs rnd c (p # ps) s =
     (case add_paragraph rnd c p s of None \<Rightarrow> None | Some s' \<Rightarrow> add_paragraphs rnd c ps s')"

definition finish_paragraphs :: "chunk_config \<Rightarrow> paragraph_state \<Rightarrow> string list" where
  "finish_paragraphs c s =
     (if par_current s \<noteq> []
      then if par_words s < cfg_min_chunk_size c \<and> par_chunks s \<noteq> []
           then butlast (par_chunks s) @ [last (par_chunks s) @ [newline, newline] @ trim (par_current s)]
           else par_chunks s @ [trim (par_current s)]
      else par_chunks s)"

definition chunk_by_paragraphs :: "(rat \<Rightarrow> rat) \<Rightarrow> string \<Rightarrow> chunk_config \<Rightarrow> string list option" where
  "chunk_by_paragraphs rnd content c =
     (if content = [] then Some []
      else
        let paragraphs = filter (\<lambda>p. p \<noteq> []) (map trim (split_str [newline, newline] content))
        in if paragraphs = [] then chunk_document rnd content c
           else map_option (finish_paragraphs c)
                  (add_paragraphs rnd c paragraphs \<lparr>par_chunks = [], par_current = [], par_words = 0\<rparr>))"

subsection \<open>Search\<close>

record search_config =
  sc_limit :: nat
  sc_rrf_k :: nat
  sc_use_fts :: bool
  sc_use_vector :: bool
  sc_min_score :: rat
  sc_pre_fusion_limit :: nat

definition search_config_default :: search_config where
  "search_config_default = \<lparr>sc_limit = 10, sc_rrf_k = 60, sc_use_fts = True, sc_use_vector = True,
     sc_min_score = 0, sc_pre_fusion_limit = 50\<rparr>"

definition with_limit :: "nat \<Rightarrow> search_config \<Rightarrow> search_config" where
  "with_limit n c = c\<lparr>sc_limit := n\<rparr>"

definition with_rrf_k :: "nat \<Rightarrow> search_config \<Rightarrow> search_config" where
  "with_rrf_k k c = c\<lparr>sc_rrf_k := k\<rparr>"

definition vector_only :: "search_config \<Rightarrow> search_config" where
  "vector_only c = c\<lparr>sc_use_fts := False, sc_use_vector := True\<rparr>"

definition fts_only :: "search_config \<Rightarrow> search_config" where
  "fts_only c = c\<lparr>sc_use_fts := True, sc_use_vector := False\<rparr>"

definition with_min_score :: "rat \<Rightarrow> search_config \<Rightarrow> search_config" where
  "with_min_score s c = c\<lparr>sc_min_score := max 0 (min s 1)\<rparr>"

record search_result =
  sr_document_id :: uuid
  sr_chunk_id :: uuid
  sr_content :: string
  sr_score :: rat
  sr_fts_rank :: "nat option"
  sr_vector_rank :: "nat option"

definition is_hybrid :: "search_result \<Rightarrow> bool" where
  "is_hybrid r = (sr_fts_rank r \<noteq> None \<and> sr_vector_rank r \<noteq> None)"

record ranked_result =
  rr_chunk_id :: uuid
  rr_document_id :: uuid
  rr_content :: string
  rr_rank :: nat

record chunk_info =
  ci_document_id :: uuid
  ci_content :: string
  ci_score :: rat
  ci_fts_rank :: "nat option"
  ci_vector_rank :: "nat option"

definition rrf_score :: "nat \<Rightarrow> nat \<Rightarrow> rat" where
  "rrf_score k rank = 1 / (of_nat k + of_nat rank)"

definition add_fts :: "nat \<Rightarrow> ranked_result \<Rightarrow> (uuid, chunk_info) hash_map \<Rightarrow> (uuid, chunk_info) hash_map" where
  "add_fts k r m =
     hm_insert (rr_chunk_id r)
       (case hm_get m (rr_chunk_id r) of
          Some info \<Rightarrow> info\<lparr>ci_score := ci_score info + rrf_score k (rr_rank r), ci_fts_rank := Some (rr_rank r)\<rparr>
        | None \<Rightarrow> \<lparr>ci_document_id = rr_document_id r, ci_content = rr_content r, ci_score = rrf_score k (rr_rank r),
                   ci_fts_rank = Some (rr_rank r), ci_vector_rank = None\<rparr>) m"

definition add_vector :: "nat \<Rightarrow> ranked_result \<Rightarrow> (uuid, chunk_info) hash_map \<Rightarrow> (uuid, chunk_info) hash_map" where
  "add_vector k r m =
     hm_insert (rr_chunk_id r)
       (case hm_get m (rr_chunk_id r) of
          Some info \<Rightarrow> info\<lparr>ci_score := ci_score info + rrf_score k (rr_rank r), ci_vector_rank := Some (rr_rank r)\<rparr>
        | None \<Rightarrow> \<lparr>ci_document_id = rr_document_id r, ci_content = rr_content r, ci_score = rrf_score k (rr_rank r),
                   ci_fts_rank = None, ci_vector_rank = Some (rr_rank r)\<rparr>) m"

definition result_of :: "uuid \<times> chunk_info \<Rightarrow> search_result" where
  "result_of e =
     \<lparr>sr_document_id = ci_document_id (snd e), sr_chunk_id = fst e, sr_content = ci_content (snd e),
      sr_score = ci_score (snd e), sr_fts_rank = ci_fts_rank (snd e), sr_vector_rank = ci_vector_rank (snd e)\<rparr>"

definition normalize_scores :: "search_result list \<Rightarrow> search_result list" where
  "normalize_scores rs =
     (case map sr_score rs of
        [] \<Rightarrow> rs
      | s # ss \<Rightarrow>
          let m = foldl max s ss
          in if 0 < m then map (\<lambda>r. r\<lparr>sr_score := sr_score r / m\<rparr>) rs else rs)"

definition reciprocal_rank_fusion ::
  "((uuid \<times> chunk_info) list \<Rightarrow> (uuid \<times> chunk_info) list) \<Rightarrow> ranked_result list \<Rightarrow> ranked_result list \<Rightarrow>
     search_config \<Rightarrow> search_result list" where
  "reciprocal_rank_fusion order fts vec c =
     (let scores = fold (add_vector (sc_rrf_k c)) vec (fold (add_fts (sc_rrf_k c)) fts []);
          results = normalize_scores (map result_of (order scores));
          kept = (if 0 < sc_min_score c then filter (\<lambda>r. sc_min_score c \<le> sr_score r) results else results)
      in take (sc_limit c) (sort_key (\<lambda>r. - sr_score r) kept))"

section \<open>Reference notions\<close>

text \<open>The words of a list of chunks, and a word as \<open>split_whitespace\<close> returns it.\<close>

definition words_of :: "string list \<Rightarrow> string set" where
  "words_of cs = (\<Union>c \<in> set cs. set (split_whitespace c))"

definition is_word :: "string \<Rightarrow> bool" where
  "is_word w \<longleftrightarrow> w \<noteq> [] \<and> list_all (\<lambda>c. \<not> is_whitespace c) w"

text \<open>The score of a chunk by the formula: the sum over its occurrences in both lists.\<close>

definition fused_score :: "nat \<Rightarrow> ranked_result list \<Rightarrow> uuid \<Rightarrow> rat" where
  "fused_score k rs c = sum_list (map (\<lambda>r. rrf_score k (rr_rank r)) (filter (\<lambda>r. rr_chunk_id r = c) rs))"

section \<open>Lemmas\<close>

subsection \<open>Words\<close>

lemma split_aux_words: "\<forall>c \<in> set acc. \<not> is_whitespace c \<Longrightarrow> \<forall>w \<in> set (split_whitespace_aux acc s). is_word w"
proof (induction s arbitrary: acc)
  case Nil
  then show ?case by (simp add: is_word_def list_all_iff)
next
  case (Cons c s)
  then have "acc \<noteq> [] \<Longrightarrow> is_word (rev acc)" by (simp add: is_word_def list_all_iff)
  then show ?case using Cons.prems Cons.IH [of "[]"] Cons.IH [of "c # acc"] by auto
qed

lemma split_whitespace_words: "list_all is_word (split_whitespace s)"
  using split_aux_words [of "[]" s] by (simp add: split_whitespace_def list_all_iff)

lemma split_aux_word:
  "list_all (\<lambda>c. \<not> is_whitespace c) w \<Longrightarrow> split_whitespace_aux acc (w @ s) = split_whitespace_aux (rev w @ acc) s"
  by (induction w arbitrary: acc) simp_all

lemma split_join_blank:
  assumes "list_all is_word ws" and "s = [] \<or> (\<exists>t. s = '' '' @ t)"
  shows "split_whitespace (join '' '' ws @ s) = ws @ split_whitespace s"
  using assms(1)
proof (induction "'' ''" ws rule: join.induct)
  case (2 x)
  then have x: "list_all (\<lambda>c. \<not> is_whitespace c) x" "x \<noteq> []" by (simp_all add: is_word_def)
  then show ?case
    using assms(2) by (auto simp: split_whitespace_def split_aux_word is_whitespace_def)
next
  case (3 x y xs)
  then have x: "list_all (\<lambda>c. \<not> is_whitespace c) x" "x \<noteq> []" by (simp_all add: is_word_def)
  then show ?case
    using 3 by (simp add: split_whitespace_def split_aux_word is_whitespace_def)
qed simp

lemma split_join: "list_all is_word ws \<Longrightarrow> split_whitespace (join '' '' ws) = ws"
  using split_join_blank [of ws "[]"] by (simp add: split_whitespace_def)

lemma split_aux_blank:
  "split_whitespace_aux acc (a @ '' '' @ b) = split_whitespace_aux acc a @ split_whitespace_aux [] b"
  by (induction acc a rule: split_whitespace_aux.induct) (simp_all add: is_whitespace_def)

lemma split_append_blank: "split_whitespace (a @ CHR '' '' # b) = split_whitespace a @ split_whitespace b"
  unfolding split_whitespace_def using split_aux_blank [of "[]" a b] by simp

subsection \<open>The loop of the chunker\<close>

lemma words_of_append [simp]: "words_of (cs @ ds) = words_of cs \<union> words_of ds" "words_of [] = {}"
  "words_of [c] = set (split_whitespace c)"
  by (auto simp: words_of_def)

lemma list_all_slice: "list_all P xs \<Longrightarrow> list_all P (take n (drop m xs))"
  by (auto simp: list_all_iff dest: in_set_takeD in_set_dropD)

lemma set_drop_step:
  assumes "step \<le> width"
  shows "set (drop start xs) = set (take width (drop start xs)) \<union> set (drop (start + step) xs)"
proof -
  have "set (drop start xs) = set (take width (drop start xs)) \<union> set (drop width (drop start xs))"
    by (metis append_take_drop_id set_append)
  moreover have "set (drop width (drop start xs)) \<subseteq> set (drop (start + step) xs)"
    using assms set_drop_subset_set_drop [of "start + step" "start + width" xs] by (simp add: add.commute)
  moreover have "set (drop (start + step) xs) \<subseteq> set (drop start xs)"
    by (simp add: set_drop_subset_set_drop)
  ultimately show ?thesis by blast
qed

lemma chunk_loop_words:
  assumes "0 < step" and "step \<le> width" and "least \<le> width" and "list_all is_word ws"
    and "\<forall>c \<in> set chunks. length (split_whitespace c) \<le> width"
  shows "\<exists>res. chunk_loop ws width least step start chunks = Some res \<and>
    words_of res = words_of chunks \<union> set (drop start ws) \<and>
    (\<forall>c \<in> set res. length (split_whitespace c) \<le> width + least)"
  using assms(5)
proof (induction "length ws - start" arbitrary: start chunks rule: less_induct)
  case less
  show ?case
  proof (cases "length ws \<le> start")
    case True
    with less.prems show ?thesis by (subst chunk_loop.simps) (auto intro: trans_le_add1)
  next
    case False
    let ?stop = "min (start + width) (length ws)"
    let ?cw = "take (?stop - start) (drop start ws)"
    have cw: "?cw = take width (drop start ws)"
      using False by (auto simp: min_def)
    have words: "split_whitespace (join '' '' ?cw) = ?cw"
      by (rule split_join [OF list_all_slice [OF assms(4)]])
    have len: "length ?cw \<le> width" by (simp add: cw)
    consider (merge) "length ?cw < least" "chunks \<noteq> []"
      | (stop) "\<not> (length ?cw < least \<and> chunks \<noteq> [])" "length ws \<le> start + step + least \<and> ?stop = length ws"
      | (more) "\<not> (length ?cw < least \<and> chunks \<noteq> [])" "\<not> (length ws \<le> start + step + least \<and> ?stop = length ws)"
      by blast
    then show ?thesis
    proof cases
      case merge
      let ?res = "butlast chunks @ [last chunks @ '' '' @ join '' '' ?cw]"
      have eq: "chunk_loop ws width least step start chunks = Some ?res"
        using False merge by (subst chunk_loop.simps) (simp add: Let_def)
      have "length (drop start ws) < width" using merge(1) assms(3) by (simp add: cw min_def split: if_splits)
      then have "?cw = drop start ws" by (simp add: cw)
      moreover have "words_of chunks = words_of (butlast chunks) \<union> set (split_whitespace (last chunks))"
        using merge(2) words_of_append(1) [of "butlast chunks" "[last chunks]"] by simp
      ultimately have "words_of ?res = words_of chunks \<union> set (drop start ws)"
        using words by (auto simp: split_append_blank)
      moreover have "\<forall>c \<in> set ?res. length (split_whitespace c) \<le> width + least"
        using less.prems merge words
        by (auto simp: split_append_blank dest: in_set_butlastD intro: trans_le_add1 intro!: add_mono)
      ultimately show ?thesis using eq by blast
    next
      case stop
      then have "?cw = drop start ws" by simp
      moreover have "chunk_loop ws width least step start chunks = Some (chunks @ [join '' '' ?cw])"
        using False stop by (subst chunk_loop.simps) (simp add: Let_def)
      ultimately show ?thesis
        using words len less.prems by (auto intro: trans_le_add1)
    next
      case more
      have eq: "chunk_loop ws width least step start chunks =
          chunk_loop ws width least step (start + step) (chunks @ [join '' '' ?cw])"
        using False more by (subst chunk_loop.simps) (auto simp: Let_def)
      have "\<forall>c \<in> set (chunks @ [join '' '' ?cw]). length (split_whitespace c) \<le> width"
        using less.prems words len by auto
      with less.hyps [of "start + step" "chunks @ [join '' '' ?cw]"] False assms(1)
      obtain res where res: "chunk_loop ws width least step (start + step) (chunks @ [join '' '' ?cw]) = Some res"
          "words_of res = words_of (chunks @ [join '' '' ?cw]) \<union> set (drop (start + step) ws)"
          "\<forall>c \<in> set res. length (split_whitespace c) \<le> width + least"
        by (metis diff_less_mono2 less_add_same_cancel1 linorder_not_less)
      moreover have "words_of res = words_of chunks \<union> set (drop start ws)"
        using res(2) words set_drop_step [OF assms(2), of start ws] by (simp add: cw Un_assoc)
      ultimately show ?thesis using eq by auto
    qed
  qed
qed

lemma step_size_le: "step_size rnd c \<le> cfg_chunk_size c"
  by (simp add: step_size_def)

text \<open>With step 0 the loop sees the same window forever.\<close>

lemma chunk_loop_returns:
  "chunk_loop ws width least step start chunks = Some res \<Longrightarrow>
     \<not> (step = 0 \<and> start = 0 \<and> width < length ws \<and> least \<le> width)"
  by (erule chunk_loop.raw_induct [where P = "\<lambda>ws width least step start chunks res.
        \<not> (step = 0 \<and> start = 0 \<and> width < length ws \<and> least \<le> width)", rotated])
    (fastforce simp: Let_def split: if_splits)

lemma chunk_loop_stuck: "width < length ws \<Longrightarrow> least \<le> width \<Longrightarrow> chunk_loop ws width least 0 0 chunks = None"
  using chunk_loop_returns [of ws width least 0 0 chunks] by (cases "chunk_loop ws width least 0 0 chunks") simp_all

subsection \<open>Fusion\<close>

definition score_in :: "(uuid, chunk_info) hash_map \<Rightarrow> uuid \<Rightarrow> rat" where
  "score_in m c = (case hm_get m c of None \<Rightarrow> 0 | Some info \<Rightarrow> ci_score info)"

text \<open>What both loops of the fusion have in common: an element adds its score to its chunk.\<close>

locale rank_adder =
  fixes add :: "nat \<Rightarrow> ranked_result \<Rightarrow> (uuid, chunk_info) hash_map \<Rightarrow> (uuid, chunk_info) hash_map"
  assumes score_add: "score_in (add k r m) c = score_in m c + (if c = rr_chunk_id r then rrf_score k (rr_rank r) else 0)"
    and keys_add: "hm_get (add k r m) c \<noteq> None \<longleftrightarrow> c = rr_chunk_id r \<or> hm_get m c \<noteq> None"
    and ok_add: "hm_ok m \<Longrightarrow> hm_ok (add k r m)"
begin

lemma score_fold: "score_in (fold (add k) rs m) c = score_in m c + fused_score k rs c"
  by (induction rs arbitrary: m) (simp_all add: score_add fused_score_def)

lemma keys_fold: "hm_get (fold (add k) rs m) c \<noteq> None \<longleftrightarrow> c \<in> rr_chunk_id ` set rs \<or> hm_get m c \<noteq> None"
proof (induction rs arbitrary: m)
  case (Cons r rs)
  then show ?case using keys_add [of k r m c] by auto
qed simp

lemma ok_fold: "hm_ok m \<Longrightarrow> hm_ok (fold (add k) rs m)"
  by (induction rs arbitrary: m) (simp_all add: ok_add)

end

interpretation fts: rank_adder add_fts
  by unfold_locales (auto simp: add_fts_def score_in_def split: option.splits)

interpretation vec: rank_adder add_vector
  by unfold_locales (auto simp: add_vector_def score_in_def split: option.splits)

definition fused :: "nat \<Rightarrow> ranked_result list \<Rightarrow> ranked_result list \<Rightarrow> (uuid, chunk_info) hash_map" where
  "fused k fts vec = fold (add_vector k) vec (fold (add_fts k) fts [])"

lemma fused_props:
  "hm_ok (fused k fts vec)"
  "score_in (fused k fts vec) c = fused_score k (fts @ vec) c"
  "hm_get (fused k fts vec) c \<noteq> None \<longleftrightarrow> c \<in> rr_chunk_id ` set (fts @ vec)"
proof -
  show "hm_ok (fused k fts vec)" by (simp add: fused_def fts.ok_fold vec.ok_fold)
  show "score_in (fused k fts vec) c = fused_score k (fts @ vec) c"
    by (simp add: fused_def fts.score_fold vec.score_fold) (simp add: score_in_def fused_score_def)
  show "hm_get (fused k fts vec) c \<noteq> None \<longleftrightarrow> c \<in> rr_chunk_id ` set (fts @ vec)"
    unfolding fused_def vec.keys_fold fts.keys_fold by auto
qed

lemma foldl_max: "foldl max s ss = Max (set (s # ss))" for s :: rat
proof -
  have "foldl max s ss = fold max ss s" for s
    by (induction ss arbitrary: s) (simp_all add: max.commute)
  then show ?thesis by (simp only: Max.set_eq_fold)
qed

lemma normalize_scores_eq:
  assumes "rs \<noteq> []" and "\<forall>r \<in> set rs. 0 < sr_score r"
  shows "normalize_scores rs = map (\<lambda>r. r\<lparr>sr_score := sr_score r / Max (sr_score ` set rs)\<rparr>) rs"
proof -
  obtain r rs' where rs: "rs = r # rs'" using assms(1) by (cases rs) auto
  have "0 < Max (sr_score ` set rs)" using assms rs by (simp add: Max_gr_iff)
  then show ?thesis
    using foldl_max [of "sr_score r" "map sr_score rs'"] by (simp add: normalize_scores_def rs Let_def)
qed

lemma sum_list_pos: "xs \<noteq> [] \<Longrightarrow> \<forall>x \<in> set xs. 0 < x \<Longrightarrow> 0 < sum_list xs" for xs :: "rat list"
proof (induction xs)
  case (Cons x xs)
  then show ?case by (cases "xs = []") (simp_all add: add_pos_pos)
qed simp

lemma fused_score_pos:
  assumes "\<forall>r \<in> set rs. 1 \<le> rr_rank r" and "c \<in> rr_chunk_id ` set rs"
  shows "0 < fused_score k rs c"
  unfolding fused_score_def
proof (rule sum_list_pos)
  show "\<forall>x \<in> set (map (\<lambda>r. rrf_score k (rr_rank r)) (filter (\<lambda>r. rr_chunk_id r = c) rs)). 0 < x"
    using assms(1) by (auto simp: rrf_score_def intro: add_nonneg_pos)
qed (use assms(2) in \<open>auto simp: filter_empty_conv\<close>)

text \<open>The results before they are cut: one for each chunk, with its normalised score.\<close>

lemma normalized_results:
  fixes k :: nat
  assumes order: "\<forall>xs. distinct xs \<longrightarrow> distinct (order xs) \<and> set (order xs) = set xs"
    and ranks: "\<forall>r \<in> set (fts @ vec). 1 \<le> rr_rank r"
  defines "ids \<equiv> rr_chunk_id ` set (fts @ vec)"
  defines "results \<equiv> normalize_scores (map result_of (order (fused k fts vec)))"
  shows "distinct (map sr_chunk_id results)" and "sr_chunk_id ` set results = ids"
    and "\<forall>r \<in> set results. sr_score r = fused_score k (fts @ vec) (sr_chunk_id r) / Max (fused_score k (fts @ vec) ` ids)"
proof -
  let ?m = "fused k fts vec" and ?f = "fused_score k (fts @ vec)"
  have ok: "hm_ok ?m" by (rule fused_props)
  then have dm: "distinct ?m" by (simp add: hm_ok_def distinct_map)
  with order have o: "distinct (order ?m)" "set (order ?m) = set ?m" by simp_all
  let ?rs = "map result_of (order ?m)"
  have entry: "ci_score i = ?f c" if "(c, i) \<in> set ?m" for c i
    using that hm_get_Some_iff [OF ok, of c i] fused_props(2) [of k fts vec c] by (simp add: score_in_def)
  have "c \<in> fst ` set ?m \<longleftrightarrow> c \<in> ids" for c
    using fused_props(3) [of k fts vec c] by (simp add: hm_get_def map_of_eq_None_iff ids_def)
  then have keys: "fst ` set ?m = ids" by blast
  have dk: "distinct (map fst (order ?m))"
    using o ok by (simp add: hm_ok_def distinct_map)
  have score: "\<forall>r \<in> set ?rs. sr_score r = ?f (sr_chunk_id r)"
    using o(2) entry by (auto simp: result_of_def)
  have idr: "map sr_chunk_id ?rs = map fst (order ?m)" by (simp add: result_of_def)
  then have ids: "sr_chunk_id ` set ?rs = ids" using o(2) keys by (metis list.set_map)
  have "distinct (map sr_chunk_id results) \<and> sr_chunk_id ` set results = ids \<and>
     (\<forall>r \<in> set results. sr_score r = ?f (sr_chunk_id r) / Max (?f ` ids))"
  proof (cases "?rs = []")
    case True
    then show ?thesis using ids by (simp add: results_def normalize_scores_def)
  next
    case False
    have "\<forall>r \<in> set ?rs. 0 < sr_score r"
    proof
      fix r
      assume r: "r \<in> set ?rs"
      then have "sr_chunk_id r \<in> ids" using ids by blast
      then have "0 < ?f (sr_chunk_id r)" using fused_score_pos [OF ranks] by (simp add: ids_def)
      with r score show "0 < sr_score r" by (metis (no_types, lifting))
    qed
    from normalize_scores_eq [OF False this]
    have res: "results = map (\<lambda>r. r\<lparr>sr_score := sr_score r / Max (sr_score ` set ?rs)\<rparr>) ?rs"
      by (simp add: results_def)
    have "sr_score ` set ?rs = ?f ` sr_chunk_id ` set ?rs"
      unfolding image_image by (rule image_cong) (use score in \<open>blast+\<close>)
    then have "sr_score ` set ?rs = ?f ` ids" using ids by simp
    with res have res: "results = map (\<lambda>r. r\<lparr>sr_score := sr_score r / Max (?f ` ids)\<rparr>) ?rs" by simp
    have m: "map sr_chunk_id results = map fst (order ?m)" unfolding res idr [symmetric] by simp
    then have "distinct (map sr_chunk_id results)" using dk by simp
    moreover have "sr_chunk_id ` set results = ids" using m idr ids by (metis list.set_map)
    moreover have "\<forall>r \<in> set results. sr_score r = ?f (sr_chunk_id r) / Max (?f ` ids)"
      unfolding res using score by auto
    ultimately show ?thesis by blast
  qed
  then show "distinct (map sr_chunk_id results)" and "sr_chunk_id ` set results = ids"
    and "\<forall>r \<in> set results. sr_score r = ?f (sr_chunk_id r) / Max (?f ` ids)" by blast+
qed

lemma take_sorted_best:
  assumes "sorted (map f xs)" and "y \<in> set (drop n xs)" and "x \<in> set (take n xs)"
  shows "f x \<le> f y"
proof -
  have "sorted (map f (take n xs) @ map f (drop n xs))"
    using assms(1) by (metis append_take_drop_id map_append)
  then show ?thesis using assms(2,3) by (auto simp: sorted_append)
qed

section \<open>Properties\<close>

text \<open>The chunks of a document hold exactly its words, none is lost at a boundary, and no chunk has more words than the chunk size and the minimum together.\<close>

theorem chunks_hold_all_words:
  assumes "0 < step_size rnd c" and "cfg_min_chunk_size c \<le> cfg_chunk_size c"
  shows "\<exists>cs. chunk_document rnd content c = Some cs \<and> words_of cs = set (split_whitespace content) \<and>
    (\<forall>chunk \<in> set cs. length (split_whitespace chunk) \<le> cfg_chunk_size c + cfg_min_chunk_size c)"
proof (cases "split_whitespace content = [] \<or> length (split_whitespace content) \<le> cfg_chunk_size c")
  case True
  then show ?thesis by (auto simp: chunk_document_def Let_def split_whitespace_def)
next
  case False
  then have "chunk_document rnd content c =
      chunk_loop (split_whitespace content) (cfg_chunk_size c) (cfg_min_chunk_size c) (step_size rnd c) 0 []"
    by (auto simp: chunk_document_def Let_def split_whitespace_def)
  then show ?thesis
    using chunk_loop_words [OF assms(1) step_size_le assms(2) split_whitespace_words [of content], of "[]" 0] by simp
qed

theorem chunks_hold_all_words_witness:
  "\<exists>cs. chunk_document (\<lambda>x. x) ''note to self'' chunk_config_default = Some cs \<and> words_of cs = {''note'', ''to'', ''self''}"
proof -
  have "0 < step_size (\<lambda>x. x) chunk_config_default"
    and "cfg_min_chunk_size chunk_config_default \<le> cfg_chunk_size chunk_config_default"
    by (simp_all add: step_size_def overlap_size_def chunk_config_default_def)
  moreover have "split_whitespace ''note to self'' = [''note'', ''to'', ''self'']" by code_simp
  ultimately show ?thesis using chunks_hold_all_words [of "\<lambda>x. x" chunk_config_default "''note to self''"] by auto
qed

text \<open>The chunker ends on exactly those inputs that fit into one chunk or for which the windows advance; with an overlap as large as the chunk it runs forever.\<close>

theorem chunk_document_ends_iff:
  assumes "cfg_min_chunk_size c \<le> cfg_chunk_size c"
  shows "chunk_document rnd content c \<noteq> None \<longleftrightarrow>
    0 < step_size rnd c \<or> length (split_whitespace content) \<le> cfg_chunk_size c"
proof (cases "0 < step_size rnd c")
  case True
  then show ?thesis using chunk_loop_words [OF True step_size_le assms split_whitespace_words [of content], of "[]" 0]
    by (auto simp: chunk_document_def Let_def)
next
  case False
  then show ?thesis using chunk_loop_stuck [OF _ assms, of "split_whitespace content" "[]"]
    by (auto simp: chunk_document_def Let_def split_whitespace_def not_le)
qed

theorem chunk_document_ends_iff_witness:
  "chunk_document (\<lambda>x. x) ''a b c'' \<lparr>cfg_chunk_size = 2, cfg_overlap_percent = 1, cfg_min_chunk_size = 1\<rparr> = None"
proof -
  have "split_whitespace ''a b c'' = [''a'', ''b'', ''c'']" by code_simp
  then show ?thesis
    using chunk_document_ends_iff [of "\<lparr>cfg_chunk_size = 2, cfg_overlap_percent = 1, cfg_min_chunk_size = 1\<rparr>" "\<lambda>x. x" "''a b c''"]
    by (simp add: step_size_def overlap_size_def)
qed

text \<open>The test against duplicate chunks at the end does not prevent one: when the last window ends with the document but the next one still has more words than the minimum, the next window is added as well, although all its words are in the last chunk.\<close>

theorem tail_chunk_repeats:
  "chunk_document (\<lambda>x. x) ''a b c d e f g h i j k l m n'' \<lparr>cfg_chunk_size = 8, cfg_overlap_percent = 1 / 4, cfg_min_chunk_size = 1\<rparr> =
     Some [''a b c d e f g h'', ''g h i j k l m n'', ''m n'']"
proof -
  have w: "split_whitespace ''a b c d e f g h i j k l m n'' =
      [''a'', ''b'', ''c'', ''d'', ''e'', ''f'', ''g'', ''h'', ''i'', ''j'', ''k'', ''l'', ''m'', ''n'']" by code_simp
  have "step_size (\<lambda>x. x) \<lparr>cfg_chunk_size = 8, cfg_overlap_percent = 1 / 4, cfg_min_chunk_size = 1\<rparr> = 6"
    by (simp add: step_size_def overlap_size_def)
  then show ?thesis
    by (simp add: chunk_document_def w Let_def chunk_loop.simps [of _ _ _ _ 0] chunk_loop.simps [of _ _ _ _ 6]
        chunk_loop.simps [of _ _ _ _ 12])
qed

text \<open>C14: the fusion returns at most the requested number of chunks, each once, with the sum of its reciprocal ranks divided by the largest such sum, best first; and a chunk that is left out is below the threshold or no better than every chunk returned.\<close>

theorem fusion_returns_best:
  assumes "\<forall>xs. distinct xs \<longrightarrow> distinct (order xs) \<and> set (order xs) = set xs"
    and "\<forall>r \<in> set (fts @ vec). 1 \<le> rr_rank r" and "0 \<le> sc_min_score cfg"
  shows "let rs = reciprocal_rank_fusion order fts vec cfg;
             ids = rr_chunk_id ` set (fts @ vec);
             f = fused_score (sc_rrf_k cfg) (fts @ vec);
             best = Max (f ` ids)
         in length rs \<le> sc_limit cfg \<and> distinct (map sr_chunk_id rs) \<and> sorted_wrt (\<ge>) (map sr_score rs) \<and>
            (\<forall>r \<in> set rs. sr_chunk_id r \<in> ids \<and> sr_score r = f (sr_chunk_id r) / best \<and> sc_min_score cfg \<le> sr_score r) \<and>
            (\<forall>c \<in> ids. c \<in> sr_chunk_id ` set rs \<or> f c / best < sc_min_score cfg \<or>
               length rs = sc_limit cfg \<and> (\<forall>r \<in> set rs. f c / best \<le> sr_score r))"
proof -
  define results where "results = normalize_scores (map result_of (order (fused (sc_rrf_k cfg) fts vec)))"
  define kept where "kept = (if 0 < sc_min_score cfg then filter (\<lambda>r. sc_min_score cfg \<le> sr_score r) results else results)"
  define srt where "srt = sort_key (\<lambda>r. - sr_score r) kept"
  let ?rs = "reciprocal_rank_fusion order fts vec cfg"
  let ?ids = "rr_chunk_id ` set (fts @ vec)" and ?f = "fused_score (sc_rrf_k cfg) (fts @ vec)"
  let ?best = "Max (?f ` ?ids)"
  note norm = normalized_results [OF assms(1,2), of "sc_rrf_k cfg", folded results_def]
  have rs: "?rs = take (sc_limit cfg) srt"
    by (simp add: reciprocal_rank_fusion_def Let_def srt_def kept_def results_def fused_def)
  have sorted: "sorted (map (\<lambda>r. - sr_score r) srt)" by (simp add: srt_def)
  have "distinct (map sr_chunk_id kept)" using norm(1) by (simp add: kept_def distinct_map_filter)
  then have dist: "distinct (map sr_chunk_id srt)"
    by (simp add: srt_def distinct_map set_sort inj_on_def)
  have low: "sc_min_score cfg \<le> sr_score r" if "r \<in> set kept" for r
  proof (cases "0 < sc_min_score cfg")
    case False
    have "sr_chunk_id r \<in> ?ids" "sr_score r = ?f (sr_chunk_id r) / ?best"
      using that norm(2,3) False by (auto simp: kept_def)
    moreover have "0 < ?f (sr_chunk_id r)" using fused_score_pos [OF assms(2)] calculation(1) by blast
    moreover have "0 < ?best" using calculation by (intro less_le_trans [OF _ Max_ge]) auto
    ultimately show ?thesis using False assms(3) by simp
  qed (use that in \<open>simp add: kept_def\<close>)
  have desc: "sorted_wrt (\<ge>) (map sr_score ?rs)"
    using sorted_wrt_take [OF sorted, of "sc_limit cfg"] unfolding rs by (simp add: take_map sorted_wrt_map)
  have left: "length ?rs = sc_limit cfg \<and> (\<forall>r \<in> set ?rs. ?f c / ?best \<le> sr_score r)"
    if c: "c \<in> ?ids" "c \<notin> sr_chunk_id ` set ?rs" "\<not> ?f c / ?best < sc_min_score cfg" for c
  proof -
    obtain q where q: "q \<in> set results" "sr_chunk_id q = c" "sr_score q = ?f c / ?best"
      using c(1) norm(2,3) by (metis (no_types, lifting) imageE)
    then have "q \<in> set kept" using c(3) by (simp add: kept_def)
    then have "q \<in> set srt" by (simp add: srt_def)
    then have "q \<in> set (drop (sc_limit cfg) srt)"
      using c(2) q(2) unfolding rs by (metis Un_iff append_take_drop_id image_eqI set_append)
    then show ?thesis
      using take_sorted_best [OF sorted, of q "sc_limit cfg"] q(3) unfolding rs by (cases "length srt \<le> sc_limit cfg") force+
  qed
  have mem: "r \<in> set kept" if "r \<in> set ?rs" for r
    using that in_set_takeD unfolding rs srt_def by fastforce
  have "\<forall>r \<in> set ?rs. sr_chunk_id r \<in> ?ids \<and> sr_score r = ?f (sr_chunk_id r) / ?best \<and> sc_min_score cfg \<le> sr_score r"
    using mem low norm(2,3) by (fastforce simp: kept_def split: if_splits)
  moreover have "length ?rs \<le> sc_limit cfg \<and> distinct (map sr_chunk_id ?rs)"
    using dist by (simp add: rs take_map [symmetric])
  ultimately show ?thesis using desc left unfolding Let_def by blast
qed

theorem fusion_returns_best_witness:
  "sr_chunk_id ` set (reciprocal_rank_fusion (\<lambda>m. m)
      [\<lparr>rr_chunk_id = 1, rr_document_id = 7, rr_content = ''a'', rr_rank = 1\<rparr>]
      [\<lparr>rr_chunk_id = 2, rr_document_id = 7, rr_content = ''b'', rr_rank = 1\<rparr>] search_config_default) \<subseteq> {1, 2}"
proof -
  let ?a = "\<lparr>rr_chunk_id = 1, rr_document_id = 7, rr_content = ''a'', rr_rank = 1\<rparr>"
    and ?b = "\<lparr>rr_chunk_id = 2, rr_document_id = 7, rr_content = ''b'', rr_rank = 1\<rparr>"
  have "\<forall>r \<in> set ([?a] @ [?b]). 1 \<le> rr_rank r" and "0 \<le> sc_min_score search_config_default"
    by (simp_all add: search_config_default_def)
  from fusion_returns_best [of "\<lambda>m. m" "[?a]" "[?b]", OF _ this] show ?thesis by (auto simp: Let_def)
qed

end
