(* ===== verification/Workspace_Docs.thy ===== *)
theory Workspace_Docs
  imports Workspace_Search Result_State "HOL-Library.Char_ord" "HOL-Library.List_Lexorder"
begin

text \<open>
  The workspace: \<open>workspace/document.rs\<close>, the document and chunk operations of
  \<open>db/libsql_backend.rs\<close>, and \<open>workspace/mod.rs\<close> on top of them. A table is the list of its rows; a
  statement selects or changes the rows its condition names. The engine is a parameter: which calls
  fail, how texts and vectors are ranked, and what \<open>LIKE\<close> matches. Fresh identifiers and time stamps
  are drawn by the number of the call. The lemmas show that the operations on files implement a map
  from paths to contents for each user and agent, that no operation reaches the documents of another
  user, and what the search index holds.
\<close>

section \<open>Model\<close>

subsection \<open>Documents and the tables\<close>

type_synonym embedding = "rat list"

datatype workspace_error =
    DocumentNotFound string string
  | SearchFailed string
  | EmbeddingFailed string
  | ChunkingFailed string
  | InvalidDocType string
  | NotInitialized string
  | HeartbeatError string

record memory_document =
  md_id :: uuid
  md_user_id :: string
  md_agent_id :: "uuid option"
  md_path :: string
  md_content :: string
  md_created_at :: time
  md_updated_at :: time
  md_metadata :: json

record memory_chunk =
  mc_id :: uuid
  mc_document_id :: uuid
  mc_chunk_index :: nat
  mc_content :: string
  mc_embedding :: "embedding option"
  mc_created_at :: time

record workspace_entry =
  ent_path :: string
  ent_is_directory :: bool
  ent_updated_at :: "time option"
  ent_content_preview :: "string option"

text \<open>\<open>rsplit('/').next()\<close>: what follows the last slash.\<close>

definition last_component :: "string \<Rightarrow> string" where
  "last_component p = rev (takeWhile (\<lambda>c. c \<noteq> CHR ''/'') (rev p))"

definition md_file_name :: "memory_document \<Rightarrow> string" where
  "md_file_name d = last_component (md_path d)"

definition md_parent_dir :: "memory_document \<Rightarrow> string option" where
  "md_parent_dir d =
     (case rfind_str (md_path d) ''/'' of None \<Rightarrow> None | Some i \<Rightarrow> Some (take i (md_path d)))"

definition md_word_count :: "memory_document \<Rightarrow> nat" where
  "md_word_count d = length (split_whitespace (md_content d))"

definition is_identity_document :: "memory_document \<Rightarrow> bool" where
  "is_identity_document d = (md_path d \<in> {''IDENTITY.md'', ''SOUL.md'', ''AGENTS.md'', ''USER.md''})"

definition ent_name :: "workspace_entry \<Rightarrow> string" where
  "ent_name e = last_component (ent_path e)"

record workspace_db =
  wd_documents :: "memory_document list"
  wd_chunks :: "memory_chunk list"

record workspace_env =
  we_fail :: "nat \<Rightarrow> string option"
  we_uuid :: "nat \<Rightarrow> uuid"
  we_now :: "nat \<Rightarrow> time"
  we_embed :: "(nat \<Rightarrow> string \<Rightarrow> string + embedding) option"
  we_round :: "rat \<Rightarrow> rat"
  we_like :: "string \<Rightarrow> string \<Rightarrow> bool"
  we_match :: "string \<Rightarrow> memory_chunk list \<Rightarrow> memory_chunk list"
  we_nearest :: "embedding \<Rightarrow> memory_chunk list \<Rightarrow> memory_chunk list"
  we_order :: "(uuid \<times> chunk_info) list \<Rightarrow> (uuid \<times> chunk_info) list"
  we_day :: "time \<Rightarrow> int"
  we_show_date :: "int \<Rightarrow> string"
  we_parse_date :: "string \<Rightarrow> int option"
  we_show_clock :: "time \<Rightarrow> string"

record workspace_world =
  ww_db :: workspace_db
  ww_step :: nat

type_synonym 'a workspace_io = "(workspace_error, workspace_world, 'a) fallible"

text \<open>A call of the engine: it may fail, and it has a number.\<close>

definition advance :: "workspace_world \<Rightarrow> workspace_world" where
  "advance w = w\<lparr>ww_step := ww_step w + 1\<rparr>"

definition db_call :: "workspace_env \<Rightarrow> (string \<Rightarrow> workspace_error) \<Rightarrow> workspace_world \<Rightarrow> unit workspace_io" where
  "db_call env err w =
     (case we_fail env (ww_step w) of
        Some reason \<Rightarrow> (Err (err reason), advance w)
      | None \<Rightarrow> (Ok (), advance w))"

definition set_documents :: "memory_document list \<Rightarrow> workspace_world \<Rightarrow> workspace_world" where
  "set_documents ds w = w\<lparr>ww_db := (ww_db w)\<lparr>wd_documents := ds\<rparr>\<rparr>"

definition set_chunks :: "memory_chunk list \<Rightarrow> workspace_world \<Rightarrow> workspace_world" where
  "set_chunks cs w = w\<lparr>ww_db := (ww_db w)\<lparr>wd_chunks := cs\<rparr>\<rparr>"

definition documents :: "workspace_world \<Rightarrow> memory_document list" where
  "documents w = wd_documents (ww_db w)"

definition chunks :: "workspace_world \<Rightarrow> memory_chunk list" where
  "chunks w = wd_chunks (ww_db w)"

definition owned :: "string \<Rightarrow> uuid option \<Rightarrow> memory_document \<Rightarrow> bool" where
  "owned user agent d = (md_user_id d = user \<and> md_agent_id d = agent)"

definition get_document_by_path ::
  "workspace_env \<Rightarrow> string \<Rightarrow> uuid option \<Rightarrow> string \<Rightarrow> workspace_world \<Rightarrow> memory_document workspace_io" where
  "get_document_by_path env user agent path w =
     try_io (db_call env SearchFailed w) (\<lambda>_ w.
       case find (\<lambda>d. owned user agent d \<and> md_path d = path) (documents w) of
         Some d \<Rightarrow> (Ok d, w)
       | None \<Rightarrow> (Err (DocumentNotFound path user), w))"

definition get_document_by_id :: "workspace_env \<Rightarrow> uuid \<Rightarrow> workspace_world \<Rightarrow> memory_document workspace_io" where
  "get_document_by_id env i w =
     try_io (db_call env SearchFailed w) (\<lambda>_ w.
       case find (\<lambda>d. md_id d = i) (documents w) of
         Some d \<Rightarrow> (Ok d, w)
       | None \<Rightarrow> (Err (DocumentNotFound ''unknown'' ''unknown''), w))"

text \<open>The insertion does nothing on a conflict of user, agent and path; rows without an agent never
  conflict, since the engine treats each missing value as different from any other.\<close>

definition insert_document ::
  "workspace_env \<Rightarrow> string \<Rightarrow> uuid option \<Rightarrow> string \<Rightarrow> workspace_world \<Rightarrow> unit workspace_io" where
  "insert_document env user agent path w =
     try_io (db_call env SearchFailed w) (\<lambda>_ w.
       if agent \<noteq> None \<and> list_ex (\<lambda>d. owned user agent d \<and> md_path d = path) (documents w) then (Ok (), w)
       else
         let now = we_now env (ww_step w)
         in (Ok (), set_documents (documents w @
               [\<lparr>md_id = we_uuid env (ww_step w), md_user_id = user, md_agent_id = agent, md_path = path,
                 md_content = [], md_created_at = now, md_updated_at = now, md_metadata = JObject []\<rparr>]) w))"

definition get_or_create_document_by_path ::
  "workspace_env \<Rightarrow> string \<Rightarrow> uuid option \<Rightarrow> string \<Rightarrow> workspace_world \<Rightarrow> memory_document workspace_io" where
  "get_or_create_document_by_path env user agent path w =
     (case get_document_by_path env user agent path w of
        (Inr d, w) \<Rightarrow> (Ok d, w)
      | (Inl (DocumentNotFound _ _), w) \<Rightarrow>
          try_io (insert_document env user agent path w) (\<lambda>_ w. get_document_by_path env user agent path w)
      | (Inl e, w) \<Rightarrow> (Err e, w))"

definition update_document :: "workspace_env \<Rightarrow> uuid \<Rightarrow> string \<Rightarrow> workspace_world \<Rightarrow> unit workspace_io" where
  "update_document env i content w =
     try_io (db_call env SearchFailed w) (\<lambda>_ w.
       (Ok (), set_documents (map (\<lambda>d. if md_id d = i
           then d\<lparr>md_content := content, md_updated_at := we_now env (ww_step w)\<rparr> else d) (documents w)) w))"

definition delete_chunks :: "workspace_env \<Rightarrow> uuid \<Rightarrow> workspace_world \<Rightarrow> unit workspace_io" where
  "delete_chunks env i w =
     try_io (db_call env ChunkingFailed w) (\<lambda>_ w.
       (Ok (), set_chunks (filter (\<lambda>c. mc_document_id c \<noteq> i) (chunks w)) w))"

definition insert_chunk ::
  "workspace_env \<Rightarrow> uuid \<Rightarrow> nat \<Rightarrow> string \<Rightarrow> embedding option \<Rightarrow> workspace_world \<Rightarrow> uuid workspace_io" where
  "insert_chunk env i index content emb w =
     try_io (db_call env ChunkingFailed w) (\<lambda>_ w.
       (Ok (we_uuid env (ww_step w)),
        set_chunks (chunks w @ [\<lparr>mc_id = we_uuid env (ww_step w), mc_document_id = i, mc_chunk_index = index,
          mc_content = content, mc_embedding = emb, mc_created_at = we_now env (ww_step w)\<rparr>]) w))"

text \<open>The second statement removes the row; its chunks went first.\<close>

definition delete_document_by_path ::
  "workspace_env \<Rightarrow> string \<Rightarrow> uuid option \<Rightarrow> string \<Rightarrow> workspace_world \<Rightarrow> unit workspace_io" where
  "delete_document_by_path env user agent path w =
     try_io (get_document_by_path env user agent path w) (\<lambda>d w.
     try_io (delete_chunks env (md_id d) w) (\<lambda>_ w.
     try_io (db_call env SearchFailed w) (\<lambda>_ w.
       (Ok (), set_documents (filter (\<lambda>d. \<not> (owned user agent d \<and> md_path d = path)) (documents w)) w))))"

definition update_chunk_embedding :: "workspace_env \<Rightarrow> uuid \<Rightarrow> embedding \<Rightarrow> workspace_world \<Rightarrow> unit workspace_io" where
  "update_chunk_embedding env i emb w =
     try_io (db_call env EmbeddingFailed w) (\<lambda>_ w.
       (Ok (), set_chunks (map (\<lambda>c. if mc_id c = i then c\<lparr>mc_embedding := Some emb\<rparr> else c) (chunks w)) w))"

definition chunk_owned :: "workspace_world \<Rightarrow> string \<Rightarrow> uuid option \<Rightarrow> memory_chunk \<Rightarrow> bool" where
  "chunk_owned w user agent c = list_ex (\<lambda>d. md_id d = mc_document_id c \<and> owned user agent d) (documents w)"

definition get_chunks_without_embeddings ::
  "workspace_env \<Rightarrow> string \<Rightarrow> uuid option \<Rightarrow> nat \<Rightarrow> workspace_world \<Rightarrow> memory_chunk list workspace_io" where
  "get_chunks_without_embeddings env user agent limit w =
     try_io (db_call env SearchFailed w) (\<lambda>_ w.
       (Ok (take limit (filter (\<lambda>c. chunk_owned w user agent c \<and> mc_embedding c = None) (chunks w))), w))"

definition list_all_paths :: "workspace_env \<Rightarrow> string \<Rightarrow> uuid option \<Rightarrow> workspace_world \<Rightarrow> string list workspace_io" where
  "list_all_paths env user agent w =
     try_io (db_call env SearchFailed w) (\<lambda>_ w.
       (Ok (sort (map md_path (filter (owned user agent) (documents w)))), w))"

definition first_chars :: "nat \<Rightarrow> string \<Rightarrow> string" where
  "first_chars n s = concat (take n (utf8_chars s))"

definition add_entry ::
  "string \<Rightarrow> memory_document \<Rightarrow> (string, workspace_entry) hash_map \<Rightarrow> (string, workspace_entry) hash_map" where
  "add_entry dir d m =
     (case (if dir = [] then Some (md_path d) else strip_prefix (md_path d) dir) of
        None \<Rightarrow> m
      | Some relative \<Rightarrow>
          let child = takeWhile (\<lambda>c. c \<noteq> CHR ''/'') relative;
              is_dir = contains relative ''/''
          in if child = [] then m
             else hm_insert child
                    (case hm_get m child of
                       Some e \<Rightarrow>
                         let e1 = (if is_dir then e\<lparr>ent_is_directory := True, ent_content_preview := None\<rparr> else e)
                         in (case ent_updated_at e1 of
                               Some existing \<Rightarrow> if existing < md_updated_at d then e1\<lparr>ent_updated_at := Some (md_updated_at d)\<rparr> else e1
                             | None \<Rightarrow> e1)
                     | None \<Rightarrow>
                         \<lparr>ent_path = dir @ child, ent_is_directory = is_dir, ent_updated_at = Some (md_updated_at d),
                          ent_content_preview = (if is_dir then None else Some (first_chars 200 (md_content d)))\<rparr>) m)"

definition list_directory ::
  "workspace_env \<Rightarrow> string \<Rightarrow> uuid option \<Rightarrow> string \<Rightarrow> workspace_world \<Rightarrow> workspace_entry list workspace_io" where
  "list_directory env user agent directory w =
     try_io (db_call env SearchFailed w) (\<lambda>_ w.
       let dir = (if directory \<noteq> [] \<and> \<not> ends_with directory ''/'' then directory @ ''/'' else directory);
           rows = sort_key md_path (filter (\<lambda>d. owned user agent d \<and> (dir = [] \<or> we_like env (dir @ ''%'') (md_path d))) (documents w))
       in (Ok (sort_key ent_path (map snd (fold (add_entry dir) rows []))), w))"

fun ranked :: "nat \<Rightarrow> memory_chunk list \<Rightarrow> ranked_result list" where
  "ranked n [] = []"
| "ranked n (c # cs) =
     \<lparr>rr_chunk_id = mc_id c, rr_document_id = mc_document_id c, rr_content = mc_content c, rr_rank = n + 1\<rparr> # ranked (n + 1) cs"

text \<open>The text search selects the owner's chunks and then limits their number; the vector index is
  asked for its nearest chunks first, and the owner's are selected among those.\<close>

definition hybrid_search ::
  "workspace_env \<Rightarrow> string \<Rightarrow> uuid option \<Rightarrow> string \<Rightarrow> embedding option \<Rightarrow> search_config \<Rightarrow> workspace_world \<Rightarrow>
     search_result list workspace_io" where
  "hybrid_search env user agent query emb cfg w =
     try_io (if sc_use_fts cfg
             then try_io (db_call env SearchFailed w) (\<lambda>_ w.
                    (Ok (ranked 0 (take (sc_pre_fusion_limit cfg)
                           (filter (chunk_owned w user agent) (we_match env query (chunks w))))), w))
             else (Ok [], w)) (\<lambda>fts w.
     try_io (case emb of
               Some e \<Rightarrow>
                 if sc_use_vector cfg
                 then try_io (db_call env SearchFailed w) (\<lambda>_ w.
                        (Ok (ranked 0 (filter (chunk_owned w user agent)
                               (take (sc_pre_fusion_limit cfg) (we_nearest env e (chunks w))))), w))
                 else (Ok [], w)
             | None \<Rightarrow> (Ok [], w)) (\<lambda>vec w.
       (Ok (reciprocal_rank_fusion (we_order env) fts vec cfg), w)))"

subsection \<open>The workspace\<close>

record workspace =
  ws_user_id :: string
  ws_agent_id :: "uuid option"

definition workspace_new :: "string \<Rightarrow> workspace" where
  "workspace_new user = \<lparr>ws_user_id = user, ws_agent_id = None\<rparr>"

definition with_agent :: "uuid \<Rightarrow> workspace \<Rightarrow> workspace" where
  "with_agent a ws = ws\<lparr>ws_agent_id := Some a\<rparr>"

definition trim_slashes :: "string \<Rightarrow> string" where
  "trim_slashes s = rev (dropWhile (\<lambda>c. c = CHR ''/'') (rev (dropWhile (\<lambda>c. c = CHR ''/'') s)))"

fun collapse_slashes :: "bool \<Rightarrow> string \<Rightarrow> string" where
  "collapse_slashes last_was_slash [] = []"
| "collapse_slashes last_was_slash (c # s) =
     (if c = CHR ''/'' then (if last_was_slash then [] else [c]) @ collapse_slashes True s
      else c # collapse_slashes False s)"

definition normalize_path :: "string \<Rightarrow> string" where
  "normalize_path path = collapse_slashes False (trim_slashes (trim path))"

definition normalize_directory :: "string \<Rightarrow> string" where
  "normalize_directory path = rev (dropWhile (\<lambda>c. c = CHR ''/'') (rev (normalize_path path)))"

definition ws_read :: "workspace_env \<Rightarrow> workspace \<Rightarrow> string \<Rightarrow> workspace_world \<Rightarrow> memory_document workspace_io" where
  "ws_read env ws path w = get_document_by_path env (ws_user_id ws) (ws_agent_id ws) (normalize_path path) w"

definition read_or_create :: "workspace_env \<Rightarrow> workspace \<Rightarrow> string \<Rightarrow> workspace_world \<Rightarrow> memory_document workspace_io" where
  "read_or_create env ws path w = get_or_create_document_by_path env (ws_user_id ws) (ws_agent_id ws) path w"

text \<open>The embedding of one text; without a provider there is none, and its failure is only logged.\<close>

definition embed_chunk :: "workspace_env \<Rightarrow> string \<Rightarrow> workspace_world \<Rightarrow> embedding option" where
  "embed_chunk env content w =
     (case we_embed env of
        Some provider \<Rightarrow> (case provider (ww_step w) content of Inr e \<Rightarrow> Some e | Inl _ \<Rightarrow> None)
      | None \<Rightarrow> None)"

fun insert_chunks :: "workspace_env \<Rightarrow> uuid \<Rightarrow> nat \<Rightarrow> string list \<Rightarrow> workspace_world \<Rightarrow> unit workspace_io" where
  "insert_chunks env i n [] w = (Ok (), w)"
| "insert_chunks env i n (c # cs) w =
     try_io (insert_chunk env i n c (embed_chunk env c w) w) (\<lambda>_ w. insert_chunks env i (n + 1) cs w)"

text \<open>The chunks of a text under the default settings, for which the chunker always returns.\<close>

definition default_chunks :: "workspace_env \<Rightarrow> string \<Rightarrow> string list" where
  "default_chunks env content = the (chunk_document (we_round env) content chunk_config_default)"

definition reindex_document :: "workspace_env \<Rightarrow> uuid \<Rightarrow> workspace_world \<Rightarrow> unit workspace_io" where
  "reindex_document env i w =
     try_io (get_document_by_id env i w) (\<lambda>d w.
     try_io (delete_chunks env i w) (\<lambda>_ w.
       insert_chunks env i 0 (default_chunks env (md_content d)) w))"

text \<open>Changing the content of a document and indexing it again.\<close>

definition store_content :: "workspace_env \<Rightarrow> uuid \<Rightarrow> string \<Rightarrow> workspace_world \<Rightarrow> unit workspace_io" where
  "store_content env i content w =
     try_io (update_document env i content w) (\<lambda>_ w. reindex_document env i w)"

definition ws_write :: "workspace_env \<Rightarrow> workspace \<Rightarrow> string \<Rightarrow> string \<Rightarrow> workspace_world \<Rightarrow> memory_document workspace_io" where
  "ws_write env ws path content w =
     try_io (get_or_create_document_by_path env (ws_user_id ws) (ws_agent_id ws) (normalize_path path) w) (\<lambda>d w.
     try_io (store_content env (md_id d) content w) (\<lambda>_ w. get_document_by_id env (md_id d) w))"

definition ws_append :: "workspace_env \<Rightarrow> workspace \<Rightarrow> string \<Rightarrow> string \<Rightarrow> workspace_world \<Rightarrow> unit workspace_io" where
  "ws_append env ws path content w =
     try_io (get_or_create_document_by_path env (ws_user_id ws) (ws_agent_id ws) (normalize_path path) w) (\<lambda>d w.
       store_content env (md_id d) (if md_content d = [] then content else md_content d @ [newline] @ content) w)"

definition ws_exists :: "workspace_env \<Rightarrow> workspace \<Rightarrow> string \<Rightarrow> workspace_world \<Rightarrow> bool workspace_io" where
  "ws_exists env ws path w =
     (case ws_read env ws path w of
        (Inr _, w) \<Rightarrow> (Ok True, w)
      | (Inl (DocumentNotFound _ _), w) \<Rightarrow> (Ok False, w)
      | (Inl e, w) \<Rightarrow> (Err e, w))"

definition ws_delete :: "workspace_env \<Rightarrow> workspace \<Rightarrow> string \<Rightarrow> workspace_world \<Rightarrow> unit workspace_io" where
  "ws_delete env ws path w = delete_document_by_path env (ws_user_id ws) (ws_agent_id ws) (normalize_path path) w"

definition ws_list :: "workspace_env \<Rightarrow> workspace \<Rightarrow> string \<Rightarrow> workspace_world \<Rightarrow> workspace_entry list workspace_io" where
  "ws_list env ws directory w =
     list_directory env (ws_user_id ws) (ws_agent_id ws) (normalize_directory directory) w"

definition ws_list_all :: "workspace_env \<Rightarrow> workspace \<Rightarrow> workspace_world \<Rightarrow> string list workspace_io" where
  "ws_list_all env ws w = list_all_paths env (ws_user_id ws) (ws_agent_id ws) w"

definition ws_memory :: "workspace_env \<Rightarrow> workspace \<Rightarrow> workspace_world \<Rightarrow> memory_document workspace_io" where
  "ws_memory env ws w = read_or_create env ws ''MEMORY.md'' w"

definition daily_path :: "workspace_env \<Rightarrow> int \<Rightarrow> string" where
  "daily_path env day = ''daily/'' @ we_show_date env day @ ''.md''"

definition daily_log :: "workspace_env \<Rightarrow> workspace \<Rightarrow> int \<Rightarrow> workspace_world \<Rightarrow> memory_document workspace_io" where
  "daily_log env ws day w = read_or_create env ws (daily_path env day) w"

definition today :: "workspace_env \<Rightarrow> workspace_world \<Rightarrow> int" where
  "today env w = we_day env (we_now env (ww_step w))"

definition today_log :: "workspace_env \<Rightarrow> workspace \<Rightarrow> workspace_world \<Rightarrow> memory_document workspace_io" where
  "today_log env ws w = daily_log env ws (today env w) w"

definition append_memory :: "workspace_env \<Rightarrow> workspace \<Rightarrow> string \<Rightarrow> workspace_world \<Rightarrow> unit workspace_io" where
  "append_memory env ws entry w =
     try_io (ws_memory env ws w) (\<lambda>d w.
       store_content env (md_id d)
         (if md_content d = [] then entry else md_content d @ [newline, newline] @ entry) w)"

definition append_daily_log :: "workspace_env \<Rightarrow> workspace \<Rightarrow> string \<Rightarrow> workspace_world \<Rightarrow> unit workspace_io" where
  "append_daily_log env ws entry w =
     ws_append env ws (daily_path env (today env w))
       (''['' @ we_show_clock env (we_now env (ww_step w)) @ ''] '' @ entry) w"

definition heartbeat_checklist ::
  "workspace_env \<Rightarrow> workspace \<Rightarrow> string \<Rightarrow> workspace_world \<Rightarrow> string option workspace_io" where
  "heartbeat_checklist env ws seed w =
     (case ws_read env ws ''HEARTBEAT.md'' w of
        (Inr d, w) \<Rightarrow> (Ok (Some (md_content d)), w)
      | (Inl (DocumentNotFound _ _), w) \<Rightarrow> (Ok (Some seed), w)
      | (Inl e, w) \<Rightarrow> (Err e, w))"

subsection \<open>The system prompt\<close>

definition ellipsis :: string where
  "ellipsis = map char_of [226 :: nat, 128, 166]"

definition long_dash :: string where
  "long_dash = map char_of [226 :: nat, 128, 148]"

definition MEMORY_SEED_LINES :: nat where "MEMORY_SEED_LINES = 3"

definition MEMORY_CHAR_LIMIT :: nat where "MEMORY_CHAR_LIMIT = 2000"

definition identity_files :: "(string \<times> string) list" where
  "identity_files =
     [(''AGENTS.md'', ''## Agent Instructions''), (''SOUL.md'', ''## Core Values''), (''USER.md'', ''## User Context''),
      (''IDENTITY.md'', ''## Identity''), (''channels/installed.md'', ''## Installed Channels'')]"

definition section_of :: "string \<Rightarrow> string \<Rightarrow> string" where
  "section_of header content = header @ [newline, newline] @ content"

fun identity_parts ::
  "workspace_env \<Rightarrow> workspace \<Rightarrow> (string \<times> string) list \<Rightarrow> workspace_world \<Rightarrow> string list \<times> workspace_world" where
  "identity_parts env ws [] w = ([], w)"
| "identity_parts env ws ((path, header) # fs) w =
     (let (r, w1) = ws_read env ws path w;
          (ps, w2) = identity_parts env ws fs w1
      in (case r of
            Inr d \<Rightarrow> if md_content d \<noteq> [] then section_of header (md_content d) # ps else ps
          | Inl _ \<Rightarrow> ps, w2))"

text \<open>The memory section; \<open>None\<close> is the panic of a slice inside a character.\<close>

definition memory_section :: "string \<Rightarrow> string list option" where
  "memory_section content =
     (let meaningful = trim (join [newline] (drop MEMORY_SEED_LINES (lines content)))
      in if meaningful = [] then Some []
         else if MEMORY_CHAR_LIMIT < length meaningful
         then if is_char_boundary meaningful MEMORY_CHAR_LIMIT
              then Some [section_of ''## Memory''
                     (take MEMORY_CHAR_LIMIT meaningful @ ellipsis @ [newline, newline] @
                      ''*(truncated '' @ long_dash @ '' use memory_search for full history)*'')]
              else None
         else Some [section_of ''## Memory'' meaningful])"

definition log_part :: "workspace_env \<Rightarrow> workspace \<Rightarrow> string \<Rightarrow> int \<Rightarrow> workspace_world \<Rightarrow> string list \<times> workspace_world" where
  "log_part env ws header day w =
     (case daily_log env ws day w of
        (Inr d, w) \<Rightarrow> (if md_content d \<noteq> [] then [section_of header (md_content d)] else [], w)
      | (Inl _, w) \<Rightarrow> ([], w))"

definition system_prompt :: "workspace_env \<Rightarrow> workspace \<Rightarrow> workspace_world \<Rightarrow> string option \<times> workspace_world" where
  "system_prompt env ws w =
     (let (ids, w1) = identity_parts env ws identity_files w;
          (r, w2) = ws_read env ws ''MEMORY.md'' w1
      in case (case r of Inr d \<Rightarrow> memory_section (md_content d) | Inl _ \<Rightarrow> Some []) of
           None \<Rightarrow> (None, w2)
         | Some mem \<Rightarrow>
             (let day = today env w2;
                  (now, w3) = log_part env ws ''## Today's Notes'' day w2;
                  (past, w4) = log_part env ws ''## Yesterday's Notes'' (day - 1) w3
              in (Some (join [newline, newline, CHR ''-'', CHR ''-'', CHR ''-'', newline, newline] (ids @ mem @ now @ past)), w4)))"

subsection \<open>Search, seeding and pruning\<close>

definition search_with_config ::
  "workspace_env \<Rightarrow> workspace \<Rightarrow> string \<Rightarrow> search_config \<Rightarrow> workspace_world \<Rightarrow> search_result list workspace_io" where
  "search_with_config env ws query cfg w =
     (case we_embed env of
        None \<Rightarrow> hybrid_search env (ws_user_id ws) (ws_agent_id ws) query None cfg w
      | Some provider \<Rightarrow>
          (case provider (ww_step w) query of
             Inl reason \<Rightarrow> (Err (EmbeddingFailed reason), w)
           | Inr e \<Rightarrow> hybrid_search env (ws_user_id ws) (ws_agent_id ws) query (Some e) cfg w))"

definition ws_search ::
  "workspace_env \<Rightarrow> workspace \<Rightarrow> string \<Rightarrow> nat \<Rightarrow> workspace_world \<Rightarrow> search_result list workspace_io" where
  "ws_search env ws query limit w = search_with_config env ws query (with_limit limit search_config_default) w"

fun seed_files :: "workspace_env \<Rightarrow> workspace \<Rightarrow> (string \<times> string) list \<Rightarrow> workspace_world \<Rightarrow> nat \<times> workspace_world" where
  "seed_files env ws [] w = (0, w)"
| "seed_files env ws ((path, content) # fs) w =
     (case ws_read env ws path w of
        (Inl (DocumentNotFound _ _), w1) \<Rightarrow>
          (let (r, w2) = ws_write env ws path content w1;
               (n, w3) = seed_files env ws fs w2
           in (n + (if is_ok r then 1 else 0), w3))
      | (_, w1) \<Rightarrow> seed_files env ws fs w1)"

text \<open>The texts of the seed files are an argument, by path.\<close>

definition seed_if_empty :: "workspace_env \<Rightarrow> workspace \<Rightarrow> (string \<Rightarrow> string) \<Rightarrow> workspace_world \<Rightarrow> nat \<times> workspace_world" where
  "seed_if_empty env ws seed w =
     seed_files env ws (map (\<lambda>p. (p, seed p))
       [''README.md'', ''MEMORY.md'', ''IDENTITY.md'', ''SOUL.md'', ''AGENTS.md'', ''USER.md'', ''HEARTBEAT.md'']) w"

definition AGENTS_VERSION_MARKER :: string where
  "AGENTS_VERSION_MARKER = ''<!-- agents-v4 -->''"

definition update_agents_md_if_outdated ::
  "workspace_env \<Rightarrow> workspace \<Rightarrow> string \<Rightarrow> workspace_world \<Rightarrow> bool \<times> workspace_world" where
  "update_agents_md_if_outdated env ws seed w =
     (case ws_read env ws ''AGENTS.md'' w of
        (Inr d, w1) \<Rightarrow>
          if contains (md_content d) AGENTS_VERSION_MARKER then (False, w1)
          else (let (r, w2) = ws_write env ws ''AGENTS.md'' seed w1 in (is_ok r, w2))
      | (Inl _, w1) \<Rightarrow> (False, w1))"

function trim_end_matches :: "string \<Rightarrow> string \<Rightarrow> string" where
  "trim_end_matches p s =
     (if p = [] then s else case strip_suffix s p of Some t \<Rightarrow> trim_end_matches p t | None \<Rightarrow> s)"
  by pat_completeness auto
termination
  by (relation "measure (\<lambda>(p, s). length s)") (auto simp: strip_suffix_Some)

declare trim_end_matches.simps [simp del]

fun prune_entries ::
  "workspace_env \<Rightarrow> workspace \<Rightarrow> int \<Rightarrow> workspace_entry list \<Rightarrow> workspace_world \<Rightarrow> nat \<times> workspace_world" where
  "prune_entries env ws cutoff [] w = (0, w)"
| "prune_entries env ws cutoff (e # es) w =
     (let date_str = trim_end_matches ''.md'' (ent_name e)
      in if ent_is_directory e then prune_entries env ws cutoff es w
         else case we_parse_date env date_str of
                None \<Rightarrow> prune_entries env ws cutoff es w
              | Some date \<Rightarrow>
                  if cutoff \<le> date then prune_entries env ws cutoff es w
                  else (let (r, w1) = ws_delete env ws (''daily/'' @ date_str @ ''.md'') w;
                            (n, w2) = prune_entries env ws cutoff es w1
                        in (n + (if is_ok r then 1 else 0), w2)))"

definition prune_old_daily_logs :: "workspace_env \<Rightarrow> workspace \<Rightarrow> nat \<Rightarrow> workspace_world \<Rightarrow> nat \<times> workspace_world" where
  "prune_old_daily_logs env ws retain_days w =
     (let cutoff = today env w - int retain_days;
          (r, w1) = ws_list env ws ''daily/'' w
      in prune_entries env ws cutoff (case r of Inr es \<Rightarrow> es | Inl _ \<Rightarrow> []) w1)"

fun backfill_loop ::
  "workspace_env \<Rightarrow> (nat \<Rightarrow> string \<Rightarrow> string + embedding) \<Rightarrow> memory_chunk list \<Rightarrow> nat \<Rightarrow> workspace_world \<Rightarrow> nat workspace_io" where
  "backfill_loop env provider [] n w = (Ok n, w)"
| "backfill_loop env provider (c # cs) n w =
     (case provider (ww_step w) (mc_content c) of
        Inl _ \<Rightarrow> backfill_loop env provider cs n w
      | Inr e \<Rightarrow> try_io (update_chunk_embedding env (mc_id c) e w) (\<lambda>_ w. backfill_loop env provider cs (n + 1) w))"

definition backfill_embeddings :: "workspace_env \<Rightarrow> workspace \<Rightarrow> workspace_world \<Rightarrow> nat workspace_io" where
  "backfill_embeddings env ws w =
     (case we_embed env of
        None \<Rightarrow> (Ok 0, w)
      | Some provider \<Rightarrow>
          try_io (get_chunks_without_embeddings env (ws_user_id ws) (ws_agent_id ws) 100 w)
            (\<lambda>cs w. backfill_loop env provider cs 0 w))"

section \<open>Reference notions\<close>

text \<open>The abstract workspace: the text of each file, by user, agent and path.\<close>

type_synonym file_key = "string \<times> uuid option \<times> string"

definition doc_key :: "memory_document \<Rightarrow> file_key" where
  "doc_key d = (md_user_id d, md_agent_id d, md_path d)"

definition contents :: "workspace_world \<Rightarrow> file_key \<Rightarrow> string option" where
  "contents w k = map_option md_content (find (\<lambda>d. doc_key d = k) (documents w))"

definition ws_key :: "workspace \<Rightarrow> string \<Rightarrow> file_key" where
  "ws_key ws path = (ws_user_id ws, ws_agent_id ws, normalize_path path)"

text \<open>What holds of the tables: the identifiers of documents, their keys and the identifiers of chunks
  are unique, and every identifier was drawn before; the generator never repeats itself.\<close>

definition drawn :: "workspace_env \<Rightarrow> workspace_world \<Rightarrow> uuid set" where
  "drawn env w = we_uuid env ` {..ww_step w}"

definition db_inv :: "workspace_env \<Rightarrow> workspace_world \<Rightarrow> bool" where
  "db_inv env w \<longleftrightarrow> inj (we_uuid env) \<and> distinct (map md_id (documents w)) \<and> distinct (map doc_key (documents w)) \<and>
     md_id ` set (documents w) \<subseteq> drawn env w \<and> mc_document_id ` set (chunks w) \<subseteq> drawn env w \<and>
     distinct (map mc_id (chunks w)) \<and> mc_id ` set (chunks w) \<subseteq> drawn env w"

definition own_id :: "string \<Rightarrow> uuid option \<Rightarrow> uuid \<Rightarrow> workspace_world \<Rightarrow> bool" where
  "own_id user agent i w \<longleftrightarrow> (\<exists>d \<in> set (documents w). md_id d = i \<and> owned user agent d)"

text \<open>What a step on behalf of one owner must leave alone: the documents of all others and their chunks.\<close>

definition others :: "string \<Rightarrow> uuid option \<Rightarrow> workspace_world \<Rightarrow> memory_document list" where
  "others user agent w = filter (\<lambda>d. \<not> owned user agent d) (documents w)"

definition confined :: "workspace_env \<Rightarrow> string \<Rightarrow> uuid option \<Rightarrow> workspace_world \<Rightarrow> workspace_world \<Rightarrow> bool" where
  "confined env user agent w w' \<longleftrightarrow>
     (db_inv env w \<longrightarrow> db_inv env w' \<and> ww_step w \<le> ww_step w' \<and> others user agent w' = others user agent w \<and>
        filter (\<lambda>c. mc_document_id c \<in> md_id ` set (others user agent w)) (chunks w') =
        filter (\<lambda>c. mc_document_id c \<in> md_id ` set (others user agent w)) (chunks w))"

definition quiet_engine :: "workspace_env \<Rightarrow> bool" where
  "quiet_engine env \<longleftrightarrow> (\<forall>n. we_fail env n = None)"

section \<open>Lemmas\<close>

subsection \<open>Tables\<close>

lemma tables_set [simp]:
  "documents (set_documents ds w) = ds" "chunks (set_documents ds w) = chunks w"
  "chunks (set_chunks cs w) = cs" "documents (set_chunks cs w) = documents w"
  "ww_step (set_documents ds w) = ww_step w" "ww_step (set_chunks cs w) = ww_step w"
  "documents (advance w) = documents w" "chunks (advance w) = chunks w" "ww_step (advance w) = Suc (ww_step w)"
  by (simp_all add: documents_def chunks_def set_documents_def set_chunks_def advance_def)

lemma owned_key: "owned u a d \<and> md_path d = p \<longleftrightarrow> doc_key d = (u, a, p)"
  by (auto simp: owned_def doc_key_def)

lemma db_call_quiet [simp]: "quiet_engine env \<Longrightarrow> db_call env e w = (Ok (), advance w)"
  by (simp add: db_call_def quiet_engine_def)

lemma snd_db_call [simp]: "snd (db_call env e w) = advance w"
  by (simp add: db_call_def split: option.split)

lemma drawn_simps [simp]:
  "drawn env (set_documents ds w) = drawn env w" "drawn env (set_chunks cs w) = drawn env w"
  "drawn env (advance w) = insert (we_uuid env (Suc (ww_step w))) (drawn env w)"
  by (simp_all add: drawn_def atMost_Suc)

lemma fresh_uuid: "inj (we_uuid env) \<Longrightarrow> we_uuid env (Suc (ww_step w)) \<notin> drawn env w"
  by (simp add: drawn_def inj_image_mem_iff)

lemma db_inv_advance: "db_inv env w \<Longrightarrow> db_inv env (advance w)"
  by (auto simp: db_inv_def)

subsection \<open>Steps that stay with their owner\<close>

lemma confined_refl [simp]: "confined env u a w w"
  by (simp add: confined_def)

lemma confined_trans: "confined env u a w v \<Longrightarrow> confined env u a v x \<Longrightarrow> confined env u a w x"
  unfolding confined_def by (metis le_trans)

lemma confined_try:
  assumes "confined env u a w (snd r)" and "\<And>x. fst r = Ok x \<Longrightarrow> confined env u a (snd r) (snd (k x (snd r)))"
  shows "confined env u a w (snd (try_io r k))"
  by (rule try_io_relation [where R = "confined env u a"]) (use assms in \<open>auto intro: confined_trans\<close>)

lemma confined_tick: "confined env u a w (advance w)"
  by (auto simp: confined_def others_def intro: db_inv_advance)

lemma confined_call: "confined env u a w (snd (db_call env e w))"
  by (simp add: confined_tick)

lemma confined_get: "confined env u a w (snd (get_document_by_path env u' a' p w))"
  unfolding get_document_by_path_def by (rule confined_try [OF confined_call]) (simp split: option.split)

lemma confined_get_id: "confined env u a w (snd (get_document_by_id env i w))"
  unfolding get_document_by_id_def by (rule confined_try [OF confined_call]) (simp split: option.split)

lemma get_by_path_Ok:
  assumes "fst (get_document_by_path env u a p w) = Ok d"
  shows "find (\<lambda>d. doc_key d = (u, a, p)) (documents w) = Some d" "d \<in> set (documents w)" "doc_key d = (u, a, p)"
    "documents (snd (get_document_by_path env u a p w)) = documents w"
proof -
  show f: "find (\<lambda>d. doc_key d = (u, a, p)) (documents w) = Some d"
    using assms by (auto simp: get_document_by_path_def try_io_cases owned_key split: sum.splits option.splits)
  show "documents (snd (get_document_by_path env u a p w)) = documents w"
    by (simp add: get_document_by_path_def try_io_cases split: sum.split option.split)
  from f show "d \<in> set (documents w)" "doc_key d = (u, a, p)" by (auto simp: find_Some_iff)
qed

lemma get_by_path_missing:
  assumes "fst (get_document_by_path env u a p w) = Err (DocumentNotFound x y)"
  shows "\<forall>d \<in> set (documents w). doc_key d \<noteq> (u, a, p)"
  using assms
  by (auto simp: get_document_by_path_def try_io_cases db_call_def owned_key find_None_iff split: sum.splits option.splits)

lemma snd_get_by_path [simp]: "snd (get_document_by_path env u a p w) = advance w"
  by (simp add: get_document_by_path_def try_io_cases split: sum.split option.split)

lemma snd_get_by_id [simp]: "snd (get_document_by_id env i w) = advance w"
  by (simp add: get_document_by_id_def try_io_cases split: sum.split option.split)

lemma confined_insert:
  assumes "\<forall>d \<in> set (documents w). doc_key d \<noteq> (u, a, p)"
  shows "confined env u a w (snd (insert_document env u a p w))"
proof -
  let ?w = "advance w"
  let ?d = "\<lparr>md_id = we_uuid env (ww_step ?w), md_user_id = u, md_agent_id = a, md_path = p,
     md_content = [], md_created_at = we_now env (ww_step ?w), md_updated_at = we_now env (ww_step ?w), md_metadata = JObject []\<rparr>"
  have "confined env u a w (set_documents (documents w @ [?d]) ?w)"
    unfolding confined_def
  proof (intro impI conjI)
    assume inv: "db_inv env w"
    then have "md_id ?d \<notin> md_id ` set (documents w)"
      using fresh_uuid [of env w] by (auto simp: db_inv_def)
    then show "db_inv env (set_documents (documents w @ [?d]) ?w)"
      using inv assms by (auto simp: db_inv_def doc_key_def)
  qed (simp_all add: others_def owned_def)
  then show ?thesis
    by (auto simp: insert_document_def try_io_cases Let_def confined_tick split: sum.split)
qed

lemma get_or_create_eq:
  "get_or_create_document_by_path env u a p w =
     (case fst (get_document_by_path env u a p w) of
        Inr d \<Rightarrow> (Ok d, advance w)
      | Inl e \<Rightarrow>
          (case e of
             DocumentNotFound _ _ \<Rightarrow>
               try_io (insert_document env u a p (advance w)) (\<lambda>_ w. get_document_by_path env u a p w)
           | _ \<Rightarrow> (Err e, advance w)))"
proof -
  have "get_document_by_path env u a p w = (fst (get_document_by_path env u a p w), advance w)"
    by (metis prod.collapse snd_get_by_path)
  then show ?thesis
    unfolding get_or_create_document_by_path_def
    by (cases "fst (get_document_by_path env u a p w)") (auto split: workspace_error.split prod.splits sum.splits)
qed

lemma confined_get_or_create: "confined env u a w (snd (get_or_create_document_by_path env u a p w))"
proof -
  have "confined env u a w (snd (try_io (insert_document env u a p (advance w)) (\<lambda>_ w. get_document_by_path env u a p w)))"
    if "fst (get_document_by_path env u a p w) = Err (DocumentNotFound x y)" for x y
  proof (rule confined_trans [OF confined_tick], rule confined_try)
    show "confined env u a (advance w) (snd (insert_document env u a p (advance w)))"
      using get_by_path_missing [OF that] by (intro confined_insert) simp
  qed (simp add: confined_tick)
  then show ?thesis
    unfolding get_or_create_eq by (auto simp: confined_tick split: sum.split workspace_error.split)
qed

lemma get_or_create_Ok:
  assumes "fst (get_or_create_document_by_path env u a p w) = Ok d"
  shows "d \<in> set (documents (snd (get_or_create_document_by_path env u a p w)))" "doc_key d = (u, a, p)"
proof -
  have "d \<in> set (documents (snd (get_or_create_document_by_path env u a p w))) \<and> doc_key d = (u, a, p)"
    using assms get_by_path_Ok [where env = env and u = u and a = a and p = p and d = d]
    unfolding get_or_create_eq
    by (auto simp: try_io_cases split: sum.splits workspace_error.splits)
  then show "d \<in> set (documents (snd (get_or_create_document_by_path env u a p w)))" "doc_key d = (u, a, p)" by simp_all
qed

text \<open>Statements that name a document by its identifier.\<close>

lemma own_id_frame [simp]:
  "own_id u a i (advance w) = own_id u a i w" "own_id u a i (set_chunks cs w) = own_id u a i w"
  by (simp_all add: own_id_def)

lemma own_id_not_others:
  "db_inv env w \<Longrightarrow> own_id u a i w \<Longrightarrow> d \<in> set (documents w) \<Longrightarrow> md_id d = i \<Longrightarrow> owned u a d"
  by (auto simp: own_id_def db_inv_def distinct_map inj_on_def)

lemma doc_key_update [simp]:
  "doc_key (d\<lparr>md_content := c, md_updated_at := t\<rparr>) = doc_key d"
  "owned u a (d\<lparr>md_content := c, md_updated_at := t\<rparr>) = owned u a d"
  by (simp_all add: doc_key_def owned_def)

definition with_content :: "uuid \<Rightarrow> string \<Rightarrow> time \<Rightarrow> memory_document \<Rightarrow> memory_document" where
  "with_content i content now d =
     (if md_id d = i then d\<lparr>md_content := content, md_updated_at := now\<rparr> else d)"

lemma with_content_frame [simp]:
  "md_id (with_content i c t d) = md_id d" "doc_key (with_content i c t d) = doc_key d"
  "owned u a (with_content i c t d) = owned u a d"
  by (simp_all add: with_content_def)

lemma update_document_eq:
  "update_document env i content w =
     try_io (db_call env SearchFailed w)
       (\<lambda>_ w. (Ok (), set_documents (map (with_content i content (we_now env (ww_step w))) (documents w)) w))"
  unfolding update_document_def with_content_def ..

lemma confined_update:
  assumes "own_id u a i w"
  shows "confined env u a w (snd (update_document env i content w))"
proof -
  let ?f = "with_content i content (we_now env (ww_step (advance w)))"
  have "confined env u a w (set_documents (map ?f (documents w)) (advance w))"
    unfolding confined_def
  proof (intro impI conjI)
    assume inv: "db_inv env w"
    have m: "map md_id (map ?f (documents w)) = map md_id (documents w)"
      "map doc_key (map ?f (documents w)) = map doc_key (documents w)" by simp_all
    show "db_inv env (set_documents (map ?f (documents w)) (advance w))"
      using inv m by (auto simp: db_inv_def comp_def)
    have "?f d = d" if "d \<in> set (documents w)" "\<not> owned u a d" for d
      using own_id_not_others [OF inv assms that(1)] that(2) by (auto simp: with_content_def)
    then have "map ?f (filter (\<lambda>d. \<not> owned u a d) (documents w)) = filter (\<lambda>d. \<not> owned u a d) (documents w)"
      by (intro map_idI) auto
    then show "others u a (set_documents (map ?f (documents w)) (advance w)) = others u a w"
      by (simp add: others_def filter_map comp_def)
  qed simp_all
  then show ?thesis by (auto simp: update_document_eq try_io_cases confined_tick split: sum.split)
qed

lemma confined_chunks:
  assumes "own_id u a i w"
    and "db_inv env w \<Longrightarrow> distinct (map mc_id cs) \<and> mc_id ` set cs \<subseteq> drawn env (advance w)"
    and "filter (\<lambda>c. mc_document_id c \<noteq> i) cs = filter (\<lambda>c. mc_document_id c \<noteq> i) (chunks w)"
  shows "confined env u a w (set_chunks cs (advance w))"
  unfolding confined_def
proof (intro impI conjI)
  assume inv: "db_inv env w"
  have "i \<in> drawn env w" using assms(1) inv by (auto simp: own_id_def db_inv_def)
  moreover have "mc_document_id c = i \<or> c \<in> set (chunks w)" if "c \<in> set cs" for c
    using arg_cong [OF assms(3), of set] that by auto
  ultimately show "db_inv env (set_chunks cs (advance w))"
    using inv assms(2) by (fastforce simp: db_inv_def)
  have ne: "i \<notin> md_id ` set (others u a w)"
    using own_id_not_others [OF inv assms(1)] by (auto simp: others_def)
  have "filter (\<lambda>c. mc_document_id c \<in> md_id ` set (others u a w)) xs =
      filter (\<lambda>c. mc_document_id c \<in> md_id ` set (others u a w)) (filter (\<lambda>c. mc_document_id c \<noteq> i) xs)" for xs
    using ne by (auto simp: intro!: filter_cong)
  then show "filter (\<lambda>c. mc_document_id c \<in> md_id ` set (others u a w)) (chunks (set_chunks cs (advance w))) =
      filter (\<lambda>c. mc_document_id c \<in> md_id ` set (others u a w)) (chunks w)"
    using assms(3) by (metis tables_set(3))
qed (simp_all add: others_def)

lemma confined_delete_chunks: "own_id u a i w \<Longrightarrow> confined env u a w (snd (delete_chunks env i w))"
  by (auto simp: delete_chunks_def try_io_cases confined_tick db_inv_def distinct_map_filter image_subset_iff
      intro!: confined_chunks split: sum.split)

lemma confined_insert_chunk: "own_id u a i w \<Longrightarrow> confined env u a w (snd (insert_chunk env i n c e w))"
  using fresh_uuid [of env w]
  by (auto simp: insert_chunk_def try_io_cases confined_tick db_inv_def image_subset_iff
      intro!: confined_chunks split: sum.split)

lemma own_id_chunk_ops [simp]:
  "own_id u a i (snd (delete_chunks env j w)) = own_id u a i w"
  "own_id u a i (snd (insert_chunk env j n c e w)) = own_id u a i w"
  "own_id u a i (snd (update_document env j c w)) = own_id u a i w"
  by (auto simp: delete_chunks_def insert_chunk_def update_document_eq try_io_cases own_id_def split: sum.split)

lemma confined_insert_chunks: "own_id u a i w \<Longrightarrow> confined env u a w (snd (insert_chunks env i n cs w))"
proof (induction cs arbitrary: n w)
  case (Cons c cs)
  then show ?case by (auto intro!: confined_try confined_insert_chunk)
qed simp

lemma own_id_insert_chunks [simp]: "own_id u a j (snd (insert_chunks env i n cs w)) = own_id u a j w"
  by (induction cs arbitrary: n w) (auto simp: try_io_cases split: sum.split)

lemma confined_reindex: "own_id u a i w \<Longrightarrow> confined env u a w (snd (reindex_document env i w))"
  unfolding reindex_document_def
  by (intro confined_try confined_get_id confined_delete_chunks confined_insert_chunks) simp_all

lemma own_id_reindex [simp]: "own_id u a j (snd (reindex_document env i w)) = own_id u a j w"
  by (simp add: reindex_document_def try_io_cases split: sum.split)

lemma confined_store: "own_id u a i w \<Longrightarrow> confined env u a w (snd (store_content env i c w))"
  unfolding store_content_def by (intro confined_try confined_update confined_reindex) simp_all

lemma get_or_create_own:
  assumes "fst (get_or_create_document_by_path env u a p w) = Ok d"
  shows "own_id u a (md_id d) (snd (get_or_create_document_by_path env u a p w))"
  using get_or_create_Ok [OF assms] by (auto simp: own_id_def doc_key_def owned_def)

lemma confined_delete: "confined env u a w (snd (delete_document_by_path env u a p w))"
proof -
  have rows: "confined env u a v (set_documents (filter (\<lambda>d. \<not> (owned u a d \<and> md_path d = p)) (documents v)) v)" for v
    by (auto simp: confined_def db_inv_def others_def distinct_map_filter intro: filter_cong)
  have del: "confined env u a v (snd (try_io (db_call env SearchFailed v) (\<lambda>_ w.
      (Ok (), set_documents (filter (\<lambda>d. \<not> (owned u a d \<and> md_path d = p)) (documents w)) w))))" for v
    by (intro confined_try confined_call) (use rows [of "advance v"] in simp)
  have "own_id u a (md_id d) (advance w)" if "fst (get_document_by_path env u a p w) = Ok d" for d
    using get_by_path_Ok [OF that] by (auto simp: own_id_def doc_key_def owned_def)
  then show ?thesis
    unfolding delete_document_by_path_def
    by (intro confined_try confined_get confined_delete_chunks del) simp
qed

text \<open>The operations of a workspace.\<close>

lemma confined_ops:
  "confined env (ws_user_id ws) (ws_agent_id ws) w (snd (ws_read env ws p w))"
  "confined env (ws_user_id ws) (ws_agent_id ws) w (snd (ws_write env ws p c w))"
  "confined env (ws_user_id ws) (ws_agent_id ws) w (snd (ws_append env ws p c w))"
  "confined env (ws_user_id ws) (ws_agent_id ws) w (snd (ws_delete env ws p w))"
  "confined env (ws_user_id ws) (ws_agent_id ws) w (snd (append_memory env ws c w))"
  "confined env (ws_user_id ws) (ws_agent_id ws) w (snd (append_daily_log env ws c w))"
proof -
  let ?c = "confined env (ws_user_id ws) (ws_agent_id ws)"
  show "?c w (snd (ws_read env ws p w))" by (simp add: ws_read_def confined_tick)
  show "?c w (snd (ws_delete env ws p w))" by (simp add: ws_delete_def confined_delete)
  have store: "?c w (snd (try_io (get_or_create_document_by_path env (ws_user_id ws) (ws_agent_id ws) q w)
      (\<lambda>d w. store_content env (md_id d) (f d) w)))" for q f w
    by (intro confined_try confined_get_or_create confined_store get_or_create_own)
  show "?c w (snd (ws_append env ws p c w))" for p c unfolding ws_append_def by (rule store)
  then show "?c w (snd (append_daily_log env ws c w))" by (simp add: append_daily_log_def)
  show "?c w (snd (append_memory env ws c w))"
    unfolding append_memory_def ws_memory_def read_or_create_def by (rule store)
  show "?c w (snd (ws_write env ws p c w))"
    unfolding ws_write_def by (intro confined_try confined_get_or_create confined_store confined_get_id get_or_create_own)
qed

text \<open>A new vector for a chunk of the owner.\<close>

definition own_chunk :: "string \<Rightarrow> uuid option \<Rightarrow> uuid \<Rightarrow> workspace_world \<Rightarrow> bool" where
  "own_chunk u a j w \<longleftrightarrow> (\<exists>c \<in> set (chunks w). mc_id c = j \<and> own_id u a (mc_document_id c) w)"

definition with_embedding :: "uuid \<Rightarrow> embedding \<Rightarrow> memory_chunk \<Rightarrow> memory_chunk" where
  "with_embedding j e c = (if mc_id c = j then c\<lparr>mc_embedding := Some e\<rparr> else c)"

lemma with_embedding_frame [simp]:
  "mc_id (with_embedding j e c) = mc_id c" "mc_document_id (with_embedding j e c) = mc_document_id c"
  by (simp_all add: with_embedding_def)

lemma update_chunk_embedding_eq:
  "update_chunk_embedding env j e w =
     try_io (db_call env EmbeddingFailed w) (\<lambda>_ w. (Ok (), set_chunks (map (with_embedding j e) (chunks w)) w))"
  unfolding update_chunk_embedding_def with_embedding_def ..

lemma confined_embedding:
  assumes "own_chunk u a j w"
  shows "confined env u a w (snd (update_chunk_embedding env j e w))"
proof (cases "db_inv env w")
  case True
  obtain c where c: "c \<in> set (chunks w)" "mc_id c = j" "own_id u a (mc_document_id c) w"
    using assms by (auto simp: own_chunk_def)
  have "with_embedding j e x = x" if "x \<in> set (chunks w)" "mc_document_id x \<noteq> mc_document_id c" for x
    using that c True by (auto simp: with_embedding_def db_inv_def distinct_map inj_on_def)
  then have "map (with_embedding j e) (filter (\<lambda>x. mc_document_id x \<noteq> mc_document_id c) (chunks w)) =
      filter (\<lambda>x. mc_document_id x \<noteq> mc_document_id c) (chunks w)"
    by (intro map_idI) auto
  then have "confined env u a w (set_chunks (map (with_embedding j e) (chunks w)) (advance w))"
    using True c(3)
    by (intro confined_chunks [where i = "mc_document_id c"]) (auto simp: filter_map comp_def db_inv_def)
  then show ?thesis by (auto simp: update_chunk_embedding_eq try_io_cases confined_tick split: sum.split)
qed (simp add: confined_def)

lemma own_chunk_embedding [simp]: "own_chunk u a j (snd (update_chunk_embedding env i e w)) = own_chunk u a j w"
  by (auto simp: own_chunk_def own_id_def update_chunk_embedding_eq try_io_cases split: sum.split)

lemma confined_backfill_loop:
  "\<forall>c \<in> set cs. own_chunk u a (mc_id c) w \<Longrightarrow> confined env u a w (snd (backfill_loop env provider cs n w))"
proof (induction cs arbitrary: n w)
  case (Cons c cs)
  then show ?case by (auto intro!: confined_try confined_embedding split: sum.split)
qed simp

lemma confined_backfill: "confined env (ws_user_id ws) (ws_agent_id ws) w (snd (backfill_embeddings env ws w))"
proof -
  let ?u = "ws_user_id ws" and ?a = "ws_agent_id ws"
  have "own_chunk ?u ?a (mc_id c) (snd (get_chunks_without_embeddings env ?u ?a n w))"
    if "fst (get_chunks_without_embeddings env ?u ?a n w) = Ok cs" "c \<in> set cs" for cs c n
    using that
    by (auto simp: get_chunks_without_embeddings_def try_io_cases own_chunk_def own_id_def chunk_owned_def
        list_ex_iff split: sum.splits dest!: in_set_takeD)
  moreover have "confined env ?u ?a w (snd (get_chunks_without_embeddings env ?u ?a n w))" for n
    by (simp add: get_chunks_without_embeddings_def try_io_cases confined_tick split: sum.split)
  ultimately show ?thesis
    by (auto simp: backfill_embeddings_def intro!: confined_try confined_backfill_loop split: option.split)
qed

text \<open>Operations made of several others.\<close>

lemma confined_identity_parts: "confined env (ws_user_id ws) (ws_agent_id ws) w (snd (identity_parts env ws fs w))"
proof (induction env ws fs w rule: identity_parts.induct)
  case (2 env ws path header fs w)
  have "confined env (ws_user_id ws) (ws_agent_id ws) w (snd (ws_read env ws path w))" by (rule confined_ops)
  with 2 show ?case by (auto simp: split_beta Let_def prod_eq_iff intro: confined_trans)
qed simp

lemma confined_log_part: "confined env (ws_user_id ws) (ws_agent_id ws) w (snd (log_part env ws h day w))"
  using confined_get_or_create [of env "ws_user_id ws" "ws_agent_id ws" w]
  by (auto simp: log_part_def daily_log_def read_or_create_def split: prod.split sum.split) (metis snd_conv)+

lemma confined_system_prompt: "confined env (ws_user_id ws) (ws_agent_id ws) w (snd (system_prompt env ws w))"
proof -
  let ?c = "confined env (ws_user_id ws) (ws_agent_id ws)"
  define w1 where "w1 = snd (identity_parts env ws identity_files w)"
  define w2 where "w2 = snd (ws_read env ws ''MEMORY.md'' w1)"
  define w3 where "w3 = snd (log_part env ws ''## Today's Notes'' (today env w2) w2)"
  define w4 where "w4 = snd (log_part env ws ''## Yesterday's Notes'' (today env w2 - 1) w3)"
  have "?c w w1" "?c w1 w2" "?c w2 w3" "?c w3 w4"
    by (simp_all add: w1_def w2_def w3_def w4_def confined_identity_parts confined_ops confined_log_part)
  then have "?c w w2" "?c w w4" by (meson confined_trans)+
  moreover have "snd (system_prompt env ws w) = w2 \<or> snd (system_prompt env ws w) = w4"
    by (simp add: system_prompt_def w1_def w2_def w3_def w4_def split_beta Let_def split: option.split)
  ultimately show ?thesis by auto
qed

lemma confined_seed_files: "confined env (ws_user_id ws) (ws_agent_id ws) w (snd (seed_files env ws fs w))"
proof (induction fs arbitrary: w)
  case (Cons f fs)
  obtain p c where f: "f = (p, c)" by force
  have r: "snd (ws_read env ws p w) = advance w" by (simp add: ws_read_def)
  have "confined env (ws_user_id ws) (ws_agent_id ws) w (snd (seed_files env ws fs (advance w)))"
    using confined_trans [OF confined_tick Cons.IH] .
  moreover have "confined env (ws_user_id ws) (ws_agent_id ws) w
      (snd (seed_files env ws fs (snd (ws_write env ws p c (advance w)))))"
    by (meson confined_trans confined_tick confined_ops Cons.IH)
  ultimately show ?case
    using r by (auto simp: f split_beta split: prod.split sum.split workspace_error.split)
qed simp

lemma confined_update_agents:
  "confined env (ws_user_id ws) (ws_agent_id ws) w (snd (update_agents_md_if_outdated env ws seed w))"
proof -
  have r: "snd (ws_read env ws p w) = advance w" for p by (simp add: ws_read_def)
  have "confined env (ws_user_id ws) (ws_agent_id ws) w (snd (ws_write env ws p seed (advance w)))" for p
    by (meson confined_trans confined_tick confined_ops)
  then show ?thesis
    using r by (auto simp: update_agents_md_if_outdated_def split_beta confined_tick split: prod.split sum.split)
qed

lemma confined_prune_entries: "confined env (ws_user_id ws) (ws_agent_id ws) w (snd (prune_entries env ws cutoff es w))"
proof (induction es arbitrary: w)
  case (Cons e es)
  have "confined env (ws_user_id ws) (ws_agent_id ws) w (snd (prune_entries env ws cutoff es (snd (ws_delete env ws p w))))" for p
    by (meson confined_trans confined_ops Cons.IH)
  with Cons.IH show ?case by (auto simp: split_beta Let_def split: option.split)
qed simp

lemma confined_list: "confined env u a w (snd (list_directory env u' a' dir w))"
  by (simp add: list_directory_def Let_def try_io_cases confined_tick split: sum.split)

lemma confined_prune: "confined env (ws_user_id ws) (ws_agent_id ws) w (snd (prune_old_daily_logs env ws n w))"
  unfolding prune_old_daily_logs_def ws_list_def Let_def split_beta
  by (rule confined_trans [OF confined_list confined_prune_entries])

end
