(* ===== verification/Workspace_Store.thy ===== *)
theory Workspace_Store
  imports Workspace_Docs
begin

text \<open>
  What the workspace of \<open>workspace/mod.rs\<close> promises, over the model of \<open>Workspace_Docs\<close>: its file
  operations implement a map from paths to texts, the search index holds exactly the chunks of the
  stored texts, no operation reaches the documents of another owner whatever calls fail, seeding never
  replaces a file, and pruning removes nothing but old daily logs.
\<close>

section \<open>The abstract file store\<close>

datatype file_op = Write_File string string | Append_File string string | Delete_File string

text \<open>The store as a map from keys to texts, and what each operation makes of it.\<close>

definition appended :: "string option \<Rightarrow> string \<Rightarrow> string" where
  "appended old new = (case old of None \<Rightarrow> new | Some t \<Rightarrow> if t = [] then new else t @ [newline] @ new)"

primrec file_spec :: "(string \<Rightarrow> 'k) \<Rightarrow> file_op \<Rightarrow> ('k \<Rightarrow> string option) \<Rightarrow> 'k \<Rightarrow> string option" where
  "file_spec key (Write_File p c) m = m(key p \<mapsto> c)"
| "file_spec key (Append_File p c) m = m(key p \<mapsto> appended (m (key p)) c)"
| "file_spec key (Delete_File p) m = m(key p := None)"

text \<open>A store that several clients share: each operation of each client acts as its specification
  says on what the store holds, and a client reads what the store holds under its key.\<close>

locale file_store =
  fixes inv :: "'e \<Rightarrow> 's \<Rightarrow> bool"
    and abs :: "'s \<Rightarrow> 'k \<Rightarrow> string option"
    and key :: "'h \<Rightarrow> string \<Rightarrow> 'k"
    and exec :: "'e \<Rightarrow> 'h \<Rightarrow> file_op \<Rightarrow> 's \<Rightarrow> 's"
    and get :: "'e \<Rightarrow> 'h \<Rightarrow> string \<Rightarrow> 's \<Rightarrow> string option"
  assumes exec_inv: "inv e s \<Longrightarrow> inv e (exec e h f s)"
    and exec_abs: "inv e s \<Longrightarrow> abs (exec e h f s) = file_spec (key h) f (abs s)"
    and get_abs: "inv e s \<Longrightarrow> get e h p s = abs s (key h p)"
begin

lemma run_inv: "inv e s \<Longrightarrow> inv e (fold (\<lambda>(h, f). exec e h f) fs s)"
  by (induction fs arbitrary: s) (auto intro: exec_inv)

lemma run_abs: "inv e s \<Longrightarrow> abs (fold (\<lambda>(h, f). exec e h f) fs s) = fold (\<lambda>(h, f). file_spec (key h) f) fs (abs s)"
  by (induction fs arbitrary: s) (auto simp: exec_abs exec_inv)

lemma run_get:
  "inv e s \<Longrightarrow> get e h p (fold (\<lambda>(h, f). exec e h f) fs s) = fold (\<lambda>(h, f). file_spec (key h) f) fs (abs s) (key h p)"
  by (simp add: get_abs run_inv run_abs)

lemma get_other:
  "inv e s \<Longrightarrow> key h p \<noteq> key h' q \<Longrightarrow> get e h p (exec e h' (Write_File q c) s) = get e h p s"
  by (simp add: get_abs exec_abs exec_inv)

end

section \<open>The texts that the tables hold\<close>

lemma find_snoc: "find P (xs @ [x]) = (case find P xs of Some y \<Rightarrow> Some y | None \<Rightarrow> if P x then Some x else None)"
  by (induction xs) auto

lemma find_map_same: "(\<And>x. P (f x) = P x) \<Longrightarrow> find P (map f xs) = map_option f (find P xs)"
  by (induction xs) auto

lemma find_filter_ne: "find (\<lambda>x. f x = k) (filter (\<lambda>x. f x \<noteq> j) xs) = (if k = j then None else find (\<lambda>x. f x = k) xs)"
  by (induction xs) auto

lemma find_distinct:
  "distinct (map f xs) \<Longrightarrow> x \<in> set xs \<Longrightarrow> find (\<lambda>y. f y = f x) xs = Some x"
  by (induction xs) auto

lemma contents_frame [simp]:
  "contents (advance w) = contents w" "contents (set_chunks cs w) = contents w"
  by (simp_all add: contents_def fun_eq_iff)

lemma contents_cong: "documents w = documents v \<Longrightarrow> contents w = contents v"
  by (simp add: contents_def fun_eq_iff)

lemma contents_of:
  "db_inv env w \<Longrightarrow> d \<in> set (documents w) \<Longrightarrow> contents w (doc_key d) = Some (md_content d)"
  by (simp add: contents_def db_inv_def find_distinct)

lemma contents_None: "contents w k = None \<longleftrightarrow> (\<forall>d \<in> set (documents w). doc_key d \<noteq> k)"
  by (auto simp: contents_def find_None_iff)

lemma contents_add:
  "contents w (doc_key d) = None \<Longrightarrow> contents (set_documents (documents w @ [d]) w) = (contents w)(doc_key d \<mapsto> md_content d)"
  by (auto simp: contents_def fun_eq_iff find_snoc split: option.splits)

lemma contents_remove:
  "contents (set_documents (filter (\<lambda>d. doc_key d \<noteq> k) (documents w)) w) = (contents w)(k := None)"
  by (auto simp: contents_def fun_eq_iff find_filter_ne)

lemma contents_update:
  assumes "db_inv env w" and "d \<in> set (documents w)"
  shows "contents (set_documents (map (with_content (md_id d) c t) (documents w)) w) = (contents w)(doc_key d \<mapsto> c)"
proof
  fix k
  let ?f = "with_content (md_id d) c t"
  have same: "md_id x = md_id d \<longleftrightarrow> x = d" if "x \<in> set (documents w)" for x
    using assms that by (auto simp: db_inv_def distinct_map inj_on_def)
  have new: "contents (set_documents (map ?f (documents w)) w) k =
      map_option (\<lambda>x. md_content (?f x)) (find (\<lambda>x. doc_key x = k) (documents w))"
    by (simp add: contents_def find_map_same option.map_comp comp_def)
  show "contents (set_documents (map ?f (documents w)) w) k = ((contents w)(doc_key d \<mapsto> c)) k"
  proof (cases "k = doc_key d")
    case True
    then show ?thesis using new assms by (simp add: db_inv_def find_distinct with_content_def)
  next
    case False
    then have "md_id x \<noteq> md_id d" if "find (\<lambda>x. doc_key x = k) (documents w) = Some x" for x
      using that same [of x] by (auto simp: find_Some_iff)
    then show ?thesis
      using new False by (cases "find (\<lambda>x. doc_key x = k) (documents w)") (simp_all add: contents_def with_content_def)
  qed
qed

section \<open>Operations when every call succeeds\<close>

lemma get_by_path_quiet:
  "quiet_engine env \<Longrightarrow> get_document_by_path env u a p w =
     (case find (\<lambda>d. doc_key d = (u, a, p)) (documents w) of
        Some d \<Rightarrow> (Ok d, advance w) | None \<Rightarrow> (Err (DocumentNotFound p u), advance w))"
  by (simp add: get_document_by_path_def owned_key split: option.split)

lemma get_by_id_quiet:
  "quiet_engine env \<Longrightarrow> db_inv env w \<Longrightarrow> d \<in> set (documents w) \<Longrightarrow> get_document_by_id env (md_id d) w = (Ok d, advance w)"
  by (simp add: get_document_by_id_def db_inv_def find_distinct)

text \<open>The document of a path, found or made: a made one is empty and has no chunks.\<close>

lemma get_or_create_quiet:
  assumes q: "quiet_engine env" and inv: "db_inv env w"
  obtains d v where
    "get_or_create_document_by_path env u a p w = (Ok d, v)" "d \<in> set (documents v)" "doc_key d = (u, a, p)"
    "db_inv env v" "chunks v = chunks w" "contents v = (contents w)((u, a, p) \<mapsto> md_content d)"
    "md_content d = (case contents w (u, a, p) of None \<Rightarrow> [] | Some t \<Rightarrow> t)"
    "documents v = documents w \<or>
       documents v = documents w @ [d] \<and> md_content d = [] \<and> md_id d \<notin> mc_document_id ` set (chunks w)"
proof (cases "find (\<lambda>d. doc_key d = (u, a, p)) (documents w)")
  case (Some d)
  then have d: "d \<in> set (documents w)" "doc_key d = (u, a, p)" by (auto simp: find_Some_iff)
  have c: "contents w (u, a, p) = Some (md_content d)" using Some by (simp add: contents_def)
  show ?thesis
  proof (rule that)
    show "get_or_create_document_by_path env u a p w = (Ok d, advance w)"
      using q Some by (simp add: get_or_create_document_by_path_def get_by_path_quiet)
    show "contents (advance w) = (contents w)((u, a, p) \<mapsto> md_content d)" using c by (simp add: fun_upd_idem)
  qed (use d c inv in \<open>simp_all add: db_inv_advance\<close>)
next
  case None
  let ?v = "advance (advance w)"
  define d where "d = \<lparr>md_id = we_uuid env (ww_step ?v), md_user_id = u, md_agent_id = a, md_path = p,
    md_content = [], md_created_at = we_now env (ww_step ?v), md_updated_at = we_now env (ww_step ?v), md_metadata = JObject []\<rparr>"
  let ?w = "set_documents (documents w @ [d]) ?v"
  have k: "doc_key d = (u, a, p)" "md_content d = []" by (simp_all add: d_def doc_key_def)
  have free: "contents w (u, a, p) = None" using None by (simp add: contents_def)
  have find: "find (\<lambda>d. doc_key d = (u, a, p)) (documents w @ [d]) = Some d"
    using None k by (simp add: find_snoc)
  have ins: "insert_document env u a p (advance w) = (Ok (), ?w)"
    using q None by (auto simp: insert_document_def owned_key d_def Let_def find_None_iff list_ex_iff)
  have r: "get_or_create_document_by_path env u a p w = (Ok d, advance ?w)"
    using q None find by (simp add: get_or_create_document_by_path_def get_by_path_quiet ins)
  have inv': "db_inv env (advance ?w)"
    using confined_get_or_create [of env u a w p] inv r by (simp add: confined_def)
  have fresh: "md_id d \<notin> mc_document_id ` set (chunks w)"
    using inv fresh_uuid [of env "advance w"] by (auto simp: db_inv_def d_def)
  show ?thesis
  proof (rule that [OF r])
    show "contents (advance ?w) = (contents w)((u, a, p) \<mapsto> md_content d)"
      using contents_add [of ?v d] free k by simp
  qed (use k free inv' fresh in simp_all)
qed

lemma insert_chunks_quiet:
  assumes "quiet_engine env"
  shows "\<exists>rows v. insert_chunks env i n cs w = (Ok (), v) \<and> documents v = documents w \<and> chunks v = chunks w @ rows \<and>
     map mc_content rows = cs \<and> map mc_chunk_index rows = [n..<n + length rows] \<and> (\<forall>r \<in> set rows. mc_document_id r = i)"
proof (induction cs arbitrary: n w)
  case (Cons c cs)
  let ?r = "\<lparr>mc_id = we_uuid env (ww_step (advance w)), mc_document_id = i, mc_chunk_index = n, mc_content = c,
    mc_embedding = embed_chunk env c w, mc_created_at = we_now env (ww_step (advance w))\<rparr>"
  let ?w = "set_chunks (chunks w @ [?r]) (advance w)"
  obtain rows v where "insert_chunks env i (Suc n) cs ?w = (Ok (), v)" "documents v = documents w"
    "chunks v = chunks w @ ?r # rows" "map mc_content rows = cs" "map mc_chunk_index rows = [Suc n..<Suc n + length rows]"
    "\<forall>r \<in> set rows. mc_document_id r = i"
    using Cons.IH [of "Suc n" ?w] by auto
  then show ?case using assms by (intro exI [of _ "?r # rows"] exI [of _ v]) (simp add: insert_chunk_def upt_rec)
qed simp

text \<open>The index of one document: its chunks in order.\<close>

definition indexed :: "workspace_env \<Rightarrow> workspace_world \<Rightarrow> memory_document \<Rightarrow> bool" where
  "indexed env w d \<longleftrightarrow>
     (let rows = filter (\<lambda>c. mc_document_id c = md_id d) (chunks w)
      in map mc_content rows = default_chunks env (md_content d) \<and> map mc_chunk_index rows = [0..<length rows])"

definition index_inv :: "workspace_env \<Rightarrow> workspace_world \<Rightarrow> bool" where
  "index_inv env w \<longleftrightarrow> (\<forall>d \<in> set (documents w). indexed env w d) \<and> mc_document_id ` set (chunks w) \<subseteq> md_id ` set (documents w)"

lemma reindex_quiet:
  assumes q: "quiet_engine env" and inv: "db_inv env w" and d: "d \<in> set (documents w)"
  obtains v where "reindex_document env (md_id d) w = (Ok (), v)" "documents v = documents w" "indexed env v d"
    "filter (\<lambda>c. mc_document_id c \<noteq> md_id d) (chunks v) = filter (\<lambda>c. mc_document_id c \<noteq> md_id d) (chunks w)"
proof -
  let ?rest = "filter (\<lambda>c. mc_document_id c \<noteq> md_id d) (chunks w)"
  let ?w = "set_chunks ?rest (advance (advance w))"
  obtain rows v where v: "insert_chunks env (md_id d) 0 (default_chunks env (md_content d)) ?w = (Ok (), v)"
    "documents v = documents w" "chunks v = ?rest @ rows" "map mc_content rows = default_chunks env (md_content d)"
    "map mc_chunk_index rows = [0..<length rows]" "\<forall>r \<in> set rows. mc_document_id r = md_id d"
    using insert_chunks_quiet [OF q, of "md_id d" 0 "default_chunks env (md_content d)" ?w]
    by auto
  have rows: "filter (\<lambda>c. mc_document_id c = md_id d) rows = rows" "filter (\<lambda>c. mc_document_id c \<noteq> md_id d) rows = []"
    using v(6) by (simp_all add: filter_id_conv filter_empty_conv)
  show ?thesis
  proof (rule that)
    show "reindex_document env (md_id d) w = (Ok (), v)"
      using v(1) q get_by_id_quiet [OF q inv d] by (simp add: reindex_document_def delete_chunks_def)
    show "indexed env v d" using v rows by (simp add: indexed_def Let_def)
  qed (use v rows in simp_all)
qed

text \<open>Storing a text: the tables hold it, and the index is that of the new text.\<close>

lemma store_quiet:
  assumes q: "quiet_engine env" and inv: "db_inv env w" and d: "d \<in> set (documents w)"
  obtains v t where "store_content env (md_id d) c w = (Ok (), v)" "db_inv env v"
    "documents v = map (with_content (md_id d) c t) (documents w)" "contents v = (contents w)(doc_key d \<mapsto> c)"
    "indexed env v (with_content (md_id d) c t d)"
    "filter (\<lambda>x. mc_document_id x \<noteq> md_id d) (chunks v) = filter (\<lambda>x. mc_document_id x \<noteq> md_id d) (chunks w)"
proof -
  define t where "t = we_now env (ww_step (advance w))"
  let ?f = "with_content (md_id d) c t"
  let ?w = "set_documents (map ?f (documents w)) (advance w)"
  have own: "own_id (md_user_id d) (md_agent_id d) (md_id d) w"
    using d by (auto simp: own_id_def owned_def)
  have up: "update_document env (md_id d) c w = (Ok (), ?w)"
    using q by (simp add: update_document_eq t_def)
  have inv1: "db_inv env ?w"
    using confined_update [OF own, of env c] inv up by (simp add: confined_def)
  have d1: "?f d \<in> set (documents ?w)" "md_id (?f d) = md_id d" using d by simp_all
  from reindex_quiet [OF q inv1 d1(1)]
  obtain v where v: "reindex_document env (md_id d) ?w = (Ok (), v)" "documents v = documents ?w" "indexed env v (?f d)"
    "filter (\<lambda>x. mc_document_id x \<noteq> md_id d) (chunks v) = filter (\<lambda>x. mc_document_id x \<noteq> md_id d) (chunks w)"
    by auto
  have st: "store_content env (md_id d) c w = (Ok (), v)" by (simp add: store_content_def up v(1))
  show ?thesis
  proof (rule that [OF st])
    show "db_inv env v" using confined_store [OF own, of env c] inv st by (simp add: confined_def)
    show "contents v = (contents w)(doc_key d \<mapsto> c)"
      using contents_cong [OF v(2)] contents_update [OF db_inv_advance [OF inv], of d c t] d by simp
  qed (use v in simp_all)
qed

lemma with_content_same: "md_content (with_content (md_id d) c t d) = c" "md_id (with_content i c t d) = md_id d"
  by (simp_all add: with_content_def)

lemma indexed_cong:
  assumes "md_id d = md_id d'" "md_content d = md_content d'"
    and "filter (\<lambda>c. mc_document_id c = md_id d) (chunks v) = filter (\<lambda>c. mc_document_id c = md_id d) (chunks w)"
  shows "indexed env v d = indexed env w d'"
  using assms by (simp add: indexed_def)

lemma filter_split_cong:
  assumes "filter (\<lambda>c. f c \<noteq> i) xs = filter (\<lambda>c. f c \<noteq> i) ys" and "j \<noteq> i"
  shows "filter (\<lambda>c. f c = j) xs = filter (\<lambda>c. f c = j) ys"
proof -
  have "filter (\<lambda>c. f c = j) zs = filter (\<lambda>c. f c = j) (filter (\<lambda>c. f c \<noteq> i) zs)" for zs
    using assms(2) by (auto intro: filter_cong)
  then show ?thesis using assms(1) by metis
qed

lemma store_index:
  assumes q: "quiet_engine env" and inv: "db_inv env w" and d: "d \<in> set (documents w)"
    and others: "\<And>x. x \<in> set (documents w) \<Longrightarrow> x \<noteq> d \<Longrightarrow> indexed env w x"
    and owner: "mc_document_id ` set (chunks w) \<subseteq> md_id ` set (documents w)"
  shows "index_inv env (snd (store_content env (md_id d) c w))"
proof -
  from store_quiet [OF q inv d, of c] obtain v t where v: "store_content env (md_id d) c w = (Ok (), v)"
    "documents v = map (with_content (md_id d) c t) (documents w)" "indexed env v (with_content (md_id d) c t d)"
    "filter (\<lambda>x. mc_document_id x \<noteq> md_id d) (chunks v) = filter (\<lambda>x. mc_document_id x \<noteq> md_id d) (chunks w)"
    by metis
  have id: "md_id x = md_id d \<longleftrightarrow> x = d" if "x \<in> set (documents w)" for x
    using inv d that by (auto simp: db_inv_def distinct_map inj_on_def)
  have "indexed env v (with_content (md_id d) c t x)" if x: "x \<in> set (documents w)" for x
  proof (cases "x = d")
    case False
    then have ne: "md_id x \<noteq> md_id d" using id x by simp
    then have "with_content (md_id d) c t x = x" by (simp add: with_content_def)
    then show ?thesis
      using others [OF x False] filter_split_cong [OF v(4) ne] indexed_cong [of x x v w] by simp
  qed (use v(3) in simp)
  moreover have "mc_document_id y \<in> md_id ` set (documents w)" if "y \<in> set (chunks v)" for y
    using arg_cong [OF v(4), of set] owner d that by (cases "mc_document_id y = md_id d") auto
  ultimately show ?thesis by (auto simp: v(1,2) index_inv_def image_image)
qed

section \<open>The file operations implement the store\<close>

primrec exec_file :: "workspace_env \<Rightarrow> workspace \<Rightarrow> file_op \<Rightarrow> workspace_world \<Rightarrow> workspace_world" where
  "exec_file env ws (Write_File p c) w = snd (ws_write env ws p c w)"
| "exec_file env ws (Append_File p c) w = snd (ws_append env ws p c w)"
| "exec_file env ws (Delete_File p) w = snd (ws_delete env ws p w)"

definition read_file :: "workspace_env \<Rightarrow> workspace \<Rightarrow> string \<Rightarrow> workspace_world \<Rightarrow> string option" where
  "read_file env ws p w = (case fst (ws_read env ws p w) of Inr d \<Rightarrow> Some (md_content d) | Inl _ \<Rightarrow> None)"

definition store_inv :: "workspace_env \<Rightarrow> workspace_world \<Rightarrow> bool" where
  "store_inv env w \<longleftrightarrow> quiet_engine env \<and> db_inv env w"

lemma exec_file_confined: "confined env (ws_user_id ws) (ws_agent_id ws) w (exec_file env ws f w)"
  by (cases f) (simp_all add: confined_ops)

lemma exec_file_db_inv: "db_inv env w \<Longrightarrow> db_inv env (exec_file env ws f w)"
  using exec_file_confined [of env ws w f] by (simp add: confined_def)

text \<open>Writing and appending: find or make the document, then store the text.\<close>

lemma stored_by:
  assumes "quiet_engine env" and "db_inv env w"
  obtains d v where "get_or_create_document_by_path env (ws_user_id ws) (ws_agent_id ws) (normalize_path p) w = (Ok d, v)"
    "d \<in> set (documents v)" "doc_key d = ws_key ws p" "db_inv env v" "chunks v = chunks w"
    "contents v = (contents w)(ws_key ws p \<mapsto> md_content d)"
    "md_content d = (case contents w (ws_key ws p) of None \<Rightarrow> [] | Some t \<Rightarrow> t)"
    "documents v = documents w \<or>
       documents v = documents w @ [d] \<and> md_content d = [] \<and> md_id d \<notin> mc_document_id ` set (chunks w)"
  using get_or_create_quiet [OF assms, of "ws_user_id ws" "ws_agent_id ws" "normalize_path p"] unfolding ws_key_def by metis

lemma write_quiet:
  assumes "quiet_engine env" and "db_inv env w"
  obtains d v where "ws_write env ws p c w = (Ok d, v)" "md_content d = c" "doc_key d = ws_key ws p"
    "contents v = (contents w)(ws_key ws p \<mapsto> c)"
proof -
  obtain d v where v: "get_or_create_document_by_path env (ws_user_id ws) (ws_agent_id ws) (normalize_path p) w = (Ok d, v)"
    "d \<in> set (documents v)" "doc_key d = ws_key ws p" "db_inv env v" "contents v = (contents w)(ws_key ws p \<mapsto> md_content d)"
    using stored_by [OF assms, of ws p] by metis
  from store_quiet [OF assms(1) v(4,2), of c] obtain x t where x: "store_content env (md_id d) c v = (Ok (), x)" "db_inv env x"
    "documents x = map (with_content (md_id d) c t) (documents v)" "contents x = (contents v)(doc_key d \<mapsto> c)"
    by metis
  let ?d = "with_content (md_id d) c t d"
  have "?d \<in> set (documents x)" using x(3) v(2) by simp
  from get_by_id_quiet [OF assms(1) x(2) this] have "ws_write env ws p c w = (Ok ?d, advance x)"
    using v(1) x(1) by (simp add: ws_write_def)
  with that [of ?d "advance x"] show ?thesis using x(4) v(3,5) by (simp add: with_content_same)
qed

lemma append_quiet:
  assumes "quiet_engine env" and "db_inv env w"
  obtains v where "ws_append env ws p c w = (Ok (), v)"
    "contents v = (contents w)(ws_key ws p \<mapsto> appended (contents w (ws_key ws p)) c)"
proof -
  obtain d v where v: "get_or_create_document_by_path env (ws_user_id ws) (ws_agent_id ws) (normalize_path p) w = (Ok d, v)"
    "d \<in> set (documents v)" "doc_key d = ws_key ws p" "db_inv env v" "contents v = (contents w)(ws_key ws p \<mapsto> md_content d)"
    "md_content d = (case contents w (ws_key ws p) of None \<Rightarrow> [] | Some t \<Rightarrow> t)"
    using stored_by [OF assms, of ws p] by metis
  have new: "(if md_content d = [] then c else md_content d @ [newline] @ c) = appended (contents w (ws_key ws p)) c"
    using v(6) by (simp add: appended_def split: option.split)
  from store_quiet [OF assms(1) v(4,2)] obtain x where
    x: "store_content env (md_id d) (appended (contents w (ws_key ws p)) c) v = (Ok (), x)"
    "contents x = (contents v)(doc_key d \<mapsto> appended (contents w (ws_key ws p)) c)"
    by metis
  have "ws_append env ws p c w = (Ok (), x)" using v(1) x(1) new by (simp add: ws_append_def)
  then show ?thesis using that x(2) v(3,5) by simp
qed

lemma advance_set_chunks: "advance (set_chunks cs w) = set_chunks cs (advance w)"
  by (simp add: advance_def set_chunks_def)

lemma delete_quiet:
  assumes "quiet_engine env"
  shows "ws_delete env ws p w =
     (case find (\<lambda>d. doc_key d = ws_key ws p) (documents w) of
        None \<Rightarrow> (Err (DocumentNotFound (normalize_path p) (ws_user_id ws)), advance w)
      | Some d \<Rightarrow> (Ok (), set_documents (filter (\<lambda>x. doc_key x \<noteq> ws_key ws p) (documents w))
                      (set_chunks (filter (\<lambda>c. mc_document_id c \<noteq> md_id d) (chunks w)) (advance (advance (advance w))))))"
  using assms
  by (auto simp: ws_delete_def delete_document_by_path_def get_by_path_quiet ws_key_def delete_chunks_def owned_key
      advance_set_chunks split: option.split)

lemma exec_file_abs:
  assumes "store_inv env w"
  shows "contents (exec_file env ws f w) = file_spec (ws_key ws) f (contents w)"
proof (cases f)
  case (Write_File p c)
  then show ?thesis using assms write_quiet [of env w ws p c] by (metis exec_file.simps(1) file_spec.simps(1) snd_conv store_inv_def)
next
  case (Append_File p c)
  then show ?thesis using assms append_quiet [of env w ws p c] by (metis exec_file.simps(2) file_spec.simps(2) snd_conv store_inv_def)
next
  case (Delete_File p)
  have "(contents w)(ws_key ws p := None) = contents w" if "find (\<lambda>d. doc_key d = ws_key ws p) (documents w) = None"
    using that by (simp add: contents_def fun_eq_iff)
  moreover have "contents (set_documents (filter (\<lambda>x. doc_key x \<noteq> ws_key ws p) (documents w)) v) = (contents w)(ws_key ws p := None)" for v
    by (auto simp: contents_def fun_eq_iff find_filter_ne)
  ultimately show ?thesis
    using assms Delete_File by (auto simp: delete_quiet store_inv_def split: option.split)
qed

interpretation files: file_store store_inv contents ws_key exec_file read_file
proof
  show "store_inv env (exec_file env ws f w)" if "store_inv env w" for env w ws f
    using that by (simp add: store_inv_def exec_file_db_inv)
  show "read_file env ws p w = contents w (ws_key ws p)" if "store_inv env w" for env w ws p
    using that by (simp add: read_file_def ws_read_def get_by_path_quiet store_inv_def contents_def ws_key_def split: option.split)
qed (rule exec_file_abs)

section \<open>Steps that change one file, whatever calls fail\<close>

definition only_key :: "workspace_env \<Rightarrow> file_key \<Rightarrow> workspace_world \<Rightarrow> workspace_world \<Rightarrow> bool" where
  "only_key env k w v \<longleftrightarrow> (db_inv env w \<longrightarrow> db_inv env v \<and> (\<forall>j. j \<noteq> k \<longrightarrow> contents v j = contents w j))"

lemma only_key_trans: "only_key env k w v \<Longrightarrow> only_key env k v x \<Longrightarrow> only_key env k w x"
  by (auto simp: only_key_def)

lemma only_key_try:
  assumes "only_key env k w (snd r)" and "\<And>x. fst r = Ok x \<Longrightarrow> only_key env k (snd r) (snd (f x (snd r)))"
  shows "only_key env k w (snd (try_io r f))"
  by (rule try_io_relation [where R = "only_key env k"]) (use assms in \<open>auto intro: only_key_trans\<close>)

lemma only_key_same: "confined env u a w v \<Longrightarrow> documents v = documents w \<Longrightarrow> only_key env k w v"
  using contents_cong [of v w] by (auto simp: only_key_def confined_def)

lemma documents_insert_chunks: "documents (snd (insert_chunks env i n cs w)) = documents w"
  by (induction cs arbitrary: n w) (auto simp: try_io_cases insert_chunk_def split: sum.split)

lemma documents_reindex: "documents (snd (reindex_document env i w)) = documents w"
  by (auto simp: reindex_document_def delete_chunks_def try_io_cases documents_insert_chunks split: sum.split)

lemma only_key_get_or_create: "only_key env (u, a, p) w (snd (get_or_create_document_by_path env u a p w))"
proof (cases "db_inv env w")
  case True
  have "db_inv env (snd (get_or_create_document_by_path env u a p w))"
    using confined_get_or_create [of env u a w p] True by (simp add: confined_def)
  moreover have "contents (snd (get_or_create_document_by_path env u a p w)) j = contents w j" if "j \<noteq> (u, a, p)" for j
    using that unfolding get_or_create_eq
    by (auto simp: insert_document_def try_io_cases Let_def contents_def find_snoc doc_key_def
        split: sum.split workspace_error.split option.split)
  ultimately show ?thesis by (simp add: only_key_def)
qed (simp add: only_key_def)

lemma only_key_store:
  assumes "d \<in> set (documents w)"
  shows "only_key env (doc_key d) w (snd (store_content env (md_id d) c w))"
proof -
  have own: "own_id (md_user_id d) (md_agent_id d) (md_id d) w"
    using assms by (auto simp: own_id_def owned_def)
  have up: "only_key env (doc_key d) w (snd (update_document env (md_id d) c w))"
    unfolding only_key_def
  proof
    assume inv: "db_inv env w"
    have "contents (snd (update_document env (md_id d) c w)) j = contents w j" if "j \<noteq> doc_key d" for j
      using that contents_update [OF db_inv_advance [OF inv], of d c] assms
      by (auto simp: update_document_eq try_io_cases split: sum.split)
    then show "db_inv env (snd (update_document env (md_id d) c w)) \<and>
        (\<forall>j. j \<noteq> doc_key d \<longrightarrow> contents (snd (update_document env (md_id d) c w)) j = contents w j)"
      using confined_update [OF own, of env c] inv by (simp add: confined_def)
  qed
  show ?thesis
    unfolding store_content_def
    by (intro only_key_try up only_key_same [OF confined_reindex] documents_reindex) (use own in simp)
qed

lemma only_key_write: "only_key env (ws_key ws p) w (snd (ws_write env ws p c w))"
proof -
  have "only_key env (ws_key ws p) v (snd (store_content env (md_id d) c v))"
    if "get_or_create_document_by_path env (ws_user_id ws) (ws_agent_id ws) (normalize_path p) w = (Ok d, v)" for d v
    using get_or_create_Ok [of env _ _ _ w d] that only_key_store [of d v env c] unfolding ws_key_def by (metis fst_conv snd_conv)
  moreover have "only_key env k v (snd (get_document_by_id env i v))" for k i v
    by (rule only_key_same [OF confined_get_id]) simp
  ultimately show ?thesis
    unfolding ws_write_def
    by (intro only_key_try) (auto simp: only_key_get_or_create ws_key_def prod_eq_iff)
qed

lemma only_key_read: "only_key env k w (snd (ws_read env ws p w))"
  unfolding ws_read_def by (rule only_key_same [OF confined_get]) simp

lemma delete_frame:
  assumes "db_inv env w"
  shows "contents (snd (ws_delete env ws p w)) = contents w \<or>
     contents (snd (ws_delete env ws p w)) = (contents w)(ws_key ws p := None)"
proof -
  have "contents (set_documents (filter (\<lambda>x. doc_key x \<noteq> ws_key ws p) (documents w)) v) = (contents w)(ws_key ws p := None)" for v
    by (auto simp: contents_def fun_eq_iff find_filter_ne)
  then show ?thesis
    by (auto simp: ws_delete_def delete_document_by_path_def delete_chunks_def owned_key ws_key_def try_io_cases
        split: sum.split)
qed

lemma delete_frame_at:
  "db_inv env w \<Longrightarrow> contents (snd (ws_delete env ws p w)) k = contents w k \<or>
     contents (snd (ws_delete env ws p w)) k = None \<and> k = ws_key ws p"
  using delete_frame [of env w ws p] by (metis fun_upd_apply)

subsection \<open>Seeding and pruning\<close>

lemma read_missing:
  "fst (ws_read env ws p w) = Err (DocumentNotFound x y) \<Longrightarrow> contents w (ws_key ws p) = None"
  using get_by_path_missing by (simp add: ws_read_def ws_key_def contents_None)

lemma read_snd [simp]: "snd (ws_read env ws p w) = advance w"
  by (simp add: ws_read_def)

lemma seed_files_Cons:
  "seed_files env ws ((p, c) # fs) w =
     (if \<exists>x y. fst (ws_read env ws p w) = Err (DocumentNotFound x y)
      then (let (r, w2) = ws_write env ws p c (advance w); (n, w3) = seed_files env ws fs w2
            in (n + (if is_ok r then 1 else 0), w3))
      else seed_files env ws fs (advance w))"
  by (cases "ws_read env ws p w", cases "fst (ws_read env ws p w)")
    (use read_snd [of env ws p w] in \<open>auto split: workspace_error.split\<close>)

lemma seed_files_keep:
  "db_inv env w \<Longrightarrow> contents w k = Some c \<Longrightarrow> contents (snd (seed_files env ws fs w)) k = Some c"
proof (induction fs arbitrary: w)
  case (Cons f fs)
  obtain p t where f: "f = (p, t)" by force
  let ?v = "snd (ws_write env ws p t (advance w))"
  have adv: "db_inv env (advance w)" using Cons.prems by (simp add: db_inv_advance)
  have "only_key env (ws_key ws p) (advance w) ?v" by (rule only_key_write)
  then have v: "db_inv env ?v" "k \<noteq> ws_key ws p \<Longrightarrow> contents ?v k = Some c"
    using adv Cons.prems(2) unfolding only_key_def by (blast, metis contents_frame(1))
  have "k \<noteq> ws_key ws p" if "fst (ws_read env ws p w) = Err (DocumentNotFound x y)" for x y
    using read_missing [OF that] Cons.prems(2) by auto
  then show ?case
    using Cons.IH [OF adv] Cons.IH [OF v(1)] v(2) Cons.prems(2) by (auto simp: f seed_files_Cons split_beta simp del: seed_files.simps)
qed simp

lemma prune_entries_frame:
  assumes "db_inv env w"
  shows "contents (snd (prune_entries env ws cutoff es w)) k = contents w k \<or>
     contents (snd (prune_entries env ws cutoff es w)) k = None \<and>
     (\<exists>s date. k = ws_key ws (''daily/'' @ s @ ''.md'') \<and> we_parse_date env s = Some date \<and> date < cutoff)"
  using assms
proof (induction es arbitrary: w)
  case (Cons e es)
  let ?s = "trim_end_matches ''.md'' (ent_name e)"
  let ?v = "snd (ws_delete env ws (''daily/'' @ ?s @ ''.md'') w)"
  have inv: "db_inv env ?v" using confined_ops(4) [of env ws w] Cons.prems by (simp add: confined_def)
  have "contents ?v k = contents w k \<or> contents ?v k = None \<and> k = ws_key ws (''daily/'' @ ?s @ ''.md'')"
    by (rule delete_frame_at [OF Cons.prems])
  then show ?case
    using Cons.IH [OF inv] Cons.IH [OF Cons.prems] by (auto simp: split_beta Let_def split: option.split)
qed simp

subsection \<open>Search\<close>

text \<open>Every result of the fusion is one of the ranked chunks.\<close>

definition from_ranked :: "ranked_result list \<Rightarrow> (uuid, chunk_info) hash_map \<Rightarrow> bool" where
  "from_ranked rs m \<longleftrightarrow> (\<forall>(i, info) \<in> set m. ci_document_id info \<in> rr_document_id ` set rs)"

lemma from_ranked_insert:
  assumes "from_ranked rs m" and "ci_document_id info \<in> rr_document_id ` set rs"
  shows "from_ranked rs (hm_insert i info m)"
  using assms set_hm_insert [of i info m] unfolding from_ranked_def by fastforce

lemma from_ranked_get: "from_ranked rs m \<Longrightarrow> hm_get m i = Some info \<Longrightarrow> ci_document_id info \<in> rr_document_id ` set rs"
  by (auto simp: from_ranked_def hm_get_def dest!: map_of_SomeD)

lemma from_ranked_add:
  assumes "from_ranked rs m" and "r \<in> set rs"
  shows "from_ranked rs (add_fts k r m)" "from_ranked rs (add_vector k r m)"
  using assms unfolding add_fts_def add_vector_def
  by (auto intro!: from_ranked_insert split: option.split dest: from_ranked_get)

lemma from_ranked_fold:
  assumes "set xs \<subseteq> set rs" and "from_ranked rs m"
  shows "from_ranked rs (fold (add_fts k) xs m)" "from_ranked rs (fold (add_vector k) xs m)"
  using assms by (induction xs arbitrary: m) (auto simp: from_ranked_add)

lemma normalize_documents: "sr_document_id ` set (normalize_scores rs) = sr_document_id ` set rs"
  by (auto simp: normalize_scores_def Let_def image_image split: list.split)

lemma fusion_documents:
  assumes "\<And>xs. set (order xs) \<subseteq> set xs"
  shows "sr_document_id ` set (reciprocal_rank_fusion order fts vec cfg) \<subseteq> rr_document_id ` set (fts @ vec)"
proof -
  let ?m = "fold (add_vector (sc_rrf_k cfg)) vec (fold (add_fts (sc_rrf_k cfg)) fts [])"
  have "from_ranked (fts @ vec) ?m"
    by (intro from_ranked_fold) (simp_all add: from_ranked_def)
  then have "sr_document_id ` set (map result_of (order ?m)) \<subseteq> rr_document_id ` set (fts @ vec)"
    using assms [of ?m] by (fastforce simp: from_ranked_def result_of_def)
  then have n: "sr_document_id ` set (normalize_scores (map result_of (order ?m))) \<subseteq> rr_document_id ` set (fts @ vec)"
    by (simp only: normalize_documents)
  have "set (reciprocal_rank_fusion order fts vec cfg) \<subseteq> set (normalize_scores (map result_of (order ?m)))"
    by (auto simp: reciprocal_rank_fusion_def Let_def dest!: in_set_takeD)
  with n show ?thesis by blast
qed

lemma ranked_documents: "rr_document_id ` set (ranked n cs) = mc_document_id ` set cs"
  by (induction cs arbitrary: n) auto

definition own_documents :: "string \<Rightarrow> uuid option \<Rightarrow> workspace_world \<Rightarrow> uuid set" where
  "own_documents u a w = md_id ` {d \<in> set (documents w). owned u a d}"

lemma chunk_owned_iff: "chunk_owned w u a c \<longleftrightarrow> mc_document_id c \<in> own_documents u a w"
  by (force simp: chunk_owned_def own_documents_def list_ex_iff)

lemma own_documents_advance [simp]: "own_documents u a (advance w) = own_documents u a w"
  by (simp add: own_documents_def)

lemma ranked_owned:
  "rr_document_id ` set (ranked 0 (take n (filter (chunk_owned w u a) cs))) \<subseteq> own_documents u a w"
  "rr_document_id ` set (ranked 0 (filter (chunk_owned w u a) cs)) \<subseteq> own_documents u a w"
  by (auto simp: ranked_documents chunk_owned_iff dest!: in_set_takeD)

lemma search_documents:
  assumes order: "\<And>xs. set (we_order env xs) \<subseteq> set xs" and r: "fst (hybrid_search env u a query emb cfg w) = Ok rs"
  shows "sr_document_id ` set rs \<subseteq> own_documents u a w"
proof -
  let ?own = "own_documents u a w"
  obtain fts vec where rs: "rs = reciprocal_rank_fusion (we_order env) fts vec cfg"
    and own: "rr_document_id ` set fts \<subseteq> ?own" "rr_document_id ` set vec \<subseteq> ?own"
    using r ranked_owned [where w = "advance w" and u = u and a = a]
      ranked_owned [where w = "advance (advance w)" and u = u and a = a]
    unfolding hybrid_search_def
    by (auto simp: try_io_cases split: sum.splits if_splits option.splits)
  have "sr_document_id ` set rs \<subseteq> rr_document_id ` set (fts @ vec)"
    unfolding rs by (rule fusion_documents [OF order])
  also have "\<dots> \<subseteq> ?own" using own by (simp add: image_Un)
  finally show ?thesis .
qed

subsection \<open>The index under the file operations\<close>

lemma index_inv_advance [simp]: "index_inv env (advance w) = index_inv env w"
  by (simp add: index_inv_def indexed_def)

lemma stored_index:
  fixes ws :: workspace
  assumes "store_inv env w" and "index_inv env w"
    and "get_or_create_document_by_path env (ws_user_id ws) (ws_agent_id ws) (normalize_path p) w = (Ok d, v)"
  shows "index_inv env (snd (store_content env (md_id d) c v))"
proof -
  have q: "quiet_engine env" "db_inv env w" using assms(1) by (simp_all add: store_inv_def)
  have v: "d \<in> set (documents v)" "db_inv env v" "chunks v = chunks w"
    "documents v = documents w \<or> documents v = documents w @ [d]"
    using stored_by [OF q, of ws p] assms(3) by (metis Pair_inject sum.inject(2))+
  have "indexed env v x" if "x \<in> set (documents v)" "x \<noteq> d" for x
    using that v(3,4) assms(2) by (auto simp: index_inv_def indexed_def)
  moreover have "mc_document_id ` set (chunks v) \<subseteq> md_id ` set (documents v)"
    using v(3,4) assms(2) by (auto simp: index_inv_def)
  ultimately show ?thesis using store_index [OF q(1) v(2,1)] by blast
qed

lemma delete_index:
  assumes "store_inv env w" and "index_inv env w"
  shows "index_inv env (snd (ws_delete env ws p w))"
proof (cases "find (\<lambda>d. doc_key d = ws_key ws p) (documents w)")
  case None
  then show ?thesis using assms by (simp add: delete_quiet store_inv_def)
next
  case (Some d)
  then have d: "d \<in> set (documents w)" "doc_key d = ws_key ws p" by (auto simp: find_Some_iff)
  have inj: "(md_id x = md_id d \<longleftrightarrow> x = d) \<and> (doc_key x = doc_key d \<longleftrightarrow> x = d)" if "x \<in> set (documents w)" for x
    using assms(1) d that by (auto simp: store_inv_def db_inv_def distinct_map inj_on_def)
  let ?cs = "filter (\<lambda>c. mc_document_id c \<noteq> md_id d) (chunks w)"
  let ?v = "snd (ws_delete env ws p w)"
  have v: "documents ?v = filter (\<lambda>x. doc_key x \<noteq> doc_key d) (documents w)" "chunks ?v = ?cs"
    using assms(1) Some d(2) by (simp_all add: delete_quiet store_inv_def)
  have "indexed env ?v x" if "x \<in> set (documents ?v)" for x
  proof -
    have x: "x \<in> set (documents w)" "md_id x \<noteq> md_id d" using that v(1) inj [of x] by auto
    have "filter (\<lambda>c. mc_document_id c = md_id x) ?cs = filter (\<lambda>c. mc_document_id c = md_id x) (chunks w)"
      using x(2) by (auto intro: filter_cong)
    then show ?thesis
      using indexed_cong [of x x ?v w] assms(2) x(1) by (simp add: v(2) index_inv_def)
  qed
  moreover have "mc_document_id ` set (chunks ?v) \<subseteq> md_id ` set (documents ?v)"
  proof
    fix i
    assume "i \<in> mc_document_id ` set (chunks ?v)"
    then have "i \<noteq> md_id d" "i \<in> md_id ` set (documents w)" using assms(2) v(2) by (auto simp: index_inv_def)
    then show "i \<in> md_id ` set (documents ?v)" using inj v(1) by auto
  qed
  ultimately show ?thesis by (simp add: index_inv_def)
qed

lemma exec_file_index:
  assumes "store_inv env w" and "index_inv env w"
  shows "index_inv env (exec_file env ws f w)"
proof -
  have q: "quiet_engine env" "db_inv env w" using assms(1) by (simp_all add: store_inv_def)
  have "index_inv env (snd (ws_write env ws p c w)) \<and> index_inv env (snd (ws_append env ws p c w))" for p c
  proof -
    obtain d v where v: "get_or_create_document_by_path env (ws_user_id ws) (ws_agent_id ws) (normalize_path p) w = (Ok d, v)"
      using stored_by [OF q, of ws p] by metis
    have i: "index_inv env (snd (store_content env (md_id d) t v))" for t by (rule stored_index [OF assms v])
    have "index_inv env (snd (try_io (store_content env (md_id d) c v) (\<lambda>_ w. get_document_by_id env (md_id d) w)))"
      by (rule try_io_invariant) (simp_all add: i)
    with i show ?thesis by (simp add: ws_write_def ws_append_def v)
  qed
  then show ?thesis using delete_index [OF assms] by (cases f) simp_all
qed

lemma run_index: "store_inv env w \<Longrightarrow> index_inv env w \<Longrightarrow> index_inv env (fold (\<lambda>(h, f). exec_file env h f) fs w)"
  by (induction fs arbitrary: w) (auto simp: exec_file_index files.exec_inv)

lemma default_chunks_Some:
  assumes "0 < step_size (we_round env) chunk_config_default"
  shows "chunk_document (we_round env) content chunk_config_default = Some (default_chunks env content)"
proof -
  have "cfg_min_chunk_size chunk_config_default \<le> cfg_chunk_size chunk_config_default"
    by (simp add: chunk_config_default_def)
  then have "chunk_document (we_round env) content chunk_config_default \<noteq> None"
    using chunk_loop_words [OF assms step_size_le _ split_whitespace_words [of content],
      where chunks = "[]" and start = 0 and least = "cfg_min_chunk_size chunk_config_default"]
    by (auto simp: chunk_document_def Let_def)
  then show ?thesis by (auto simp: default_chunks_def)
qed

subsection \<open>All operations of one workspace\<close>

text \<open>Any operation, as a command; the seed texts come with it.\<close>

datatype workspace_call =
    File_Call file_op
  | Read_Call string
  | List_Call string
  | Memory_Call string
  | Daily_Call string
  | Prompt_Call
  | Search_Call string nat
  | Seed_Call "string \<Rightarrow> string"
  | Agents_Call string
  | Prune_Call nat
  | Backfill_Call

primrec exec_call :: "workspace_env \<Rightarrow> workspace \<Rightarrow> workspace_call \<Rightarrow> workspace_world \<Rightarrow> workspace_world" where
  "exec_call env ws (File_Call f) w = exec_file env ws f w"
| "exec_call env ws (Read_Call p) w = snd (ws_read env ws p w)"
| "exec_call env ws (List_Call p) w = snd (ws_list env ws p w)"
| "exec_call env ws (Memory_Call c) w = snd (append_memory env ws c w)"
| "exec_call env ws (Daily_Call c) w = snd (append_daily_log env ws c w)"
| "exec_call env ws Prompt_Call w = snd (system_prompt env ws w)"
| "exec_call env ws (Search_Call q n) w = snd (ws_search env ws q n w)"
| "exec_call env ws (Seed_Call s) w = snd (seed_if_empty env ws s w)"
| "exec_call env ws (Agents_Call s) w = snd (update_agents_md_if_outdated env ws s w)"
| "exec_call env ws (Prune_Call n) w = snd (prune_old_daily_logs env ws n w)"
| "exec_call env ws Backfill_Call w = snd (backfill_embeddings env ws w)"

lemma confined_search: "confined env u a w (snd (hybrid_search env u' a' q emb cfg w))"
  unfolding hybrid_search_def
  by (intro confined_try) (auto simp: confined_tick try_io_cases split: option.split sum.split)

lemma confined_seed: "confined env (ws_user_id ws) (ws_agent_id ws) w (snd (seed_if_empty env ws s w))"
  unfolding seed_if_empty_def by (rule confined_seed_files)

lemma exec_call_confined: "confined env (ws_user_id ws) (ws_agent_id ws) w (exec_call env ws c w)"
  by (cases c)
    (auto simp: exec_file_confined confined_ops confined_list ws_list_def confined_system_prompt confined_search
      ws_search_def search_with_config_def confined_tick confined_seed confined_update_agents confined_prune
      confined_backfill split: option.split sum.split)

lemma run_calls_confined: "confined env (ws_user_id ws) (ws_agent_id ws) w (fold (exec_call env ws) cs w)"
  by (induction cs arbitrary: w) (auto intro: confined_trans exec_call_confined)

subsection \<open>The text of the memory section\<close>

lemma memory_section_None:
  "memory_section text = None \<longleftrightarrow>
     (let s = trim (join [newline] (drop 3 (lines text))) in 2000 < length s \<and> is_continuation_byte (s ! 2000))"
  by (auto simp: memory_section_def Let_def MEMORY_CHAR_LIMIT_def MEMORY_SEED_LINES_def is_char_boundary_def)

lemma documents_identity_parts: "documents (snd (identity_parts env ws fs w)) = documents w"
  by (induction env ws fs w rule: identity_parts.induct) (auto simp: split_beta Let_def prod_eq_iff)

lemma system_prompt_None:
  assumes "quiet_engine env"
  shows "fst (system_prompt env ws w) = None \<longleftrightarrow>
    (case contents w (ws_key ws ''MEMORY.md'') of None \<Rightarrow> False | Some text \<Rightarrow> memory_section text = None)"
proof -
  define v where "v = snd (identity_parts env ws identity_files w)"
  have v: "documents v = documents w" unfolding v_def by (rule documents_identity_parts)
  have "fst (system_prompt env ws w) = None \<longleftrightarrow>
      (case fst (ws_read env ws ''MEMORY.md'' v) of Inr d \<Rightarrow> memory_section (md_content d) = None | Inl _ \<Rightarrow> False)"
    by (simp add: system_prompt_def v_def split_beta Let_def split: sum.split option.split)
  also have "\<dots> \<longleftrightarrow> (case contents w (ws_key ws ''MEMORY.md'') of None \<Rightarrow> False | Some text \<Rightarrow> memory_section text = None)"
    using assms v by (simp add: ws_read_def get_by_path_quiet contents_def ws_key_def split: option.split)
  finally show ?thesis .
qed

lemma split_lines_one:
  "newline \<notin> set s \<Longrightarrow> split_lines_aux acc s = (if acc = [] \<and> s = [] then [] else [rev acc @ s])"
  by (induction s arbitrary: acc) auto

lemma trim_same:
  assumes "s \<noteq> []" "\<not> is_whitespace (hd s)" "\<not> is_whitespace (last s)"
  shows "trim s = s"
proof -
  have "dropWhile is_whitespace s = s" "dropWhile is_whitespace (rev s) = rev s"
    using assms by (simp_all add: dropWhile_eq_self_iff hd_rev)
  then show ?thesis by (simp add: trim_def trim_start_def trim_end_def)
qed

lemma long_memory:
  defines "s \<equiv> replicate 1999 (CHR ''x'') @ ellipsis"
  shows "trim (join [newline] (drop 3 (lines (newline # newline # newline # s)))) = s \<and>
    length s = 2002 \<and> is_continuation_byte (s ! 2000)"
proof -
  have x: "newline \<noteq> CHR ''x''" by code_simp
  have n: "newline \<notin> set s" "s \<noteq> []" "\<not> is_whitespace (hd s)" "\<not> is_whitespace (last s)"
    using x by (simp_all add: s_def ellipsis_def newline_def is_whitespace_def)
  then have "drop 3 (lines (newline # newline # newline # s)) = [s]"
    by (simp add: lines_def split_lines_one numeral_3_eq_3)
  with n show ?thesis
    by (simp add: trim_same) (simp add: s_def ellipsis_def nth_append is_continuation_byte_def)
qed

section \<open>Properties\<close>

text \<open>An engine whose calls all succeed, for the examples.\<close>

definition sample_env :: workspace_env where
  "sample_env =
     \<lparr>we_fail = \<lambda>_. None, we_uuid = \<lambda>n. n, we_now = \<lambda>n. int n, we_embed = None, we_round = \<lambda>x. x, we_like = \<lambda>_ _. True,
      we_match = \<lambda>_ cs. cs, we_nearest = \<lambda>_ cs. cs, we_order = \<lambda>xs. xs, we_day = \<lambda>t. 100,
      we_show_date = \<lambda>d. ''2026-01-01'', we_parse_date = \<lambda>s. if s = ''2025-01-01'' then Some 0 else None,
      we_show_clock = \<lambda>t. ''10:00:00''\<rparr>"

definition empty_world :: workspace_world where
  "empty_world = \<lparr>ww_db = \<lparr>wd_documents = [], wd_chunks = []\<rparr>, ww_step = 0\<rparr>"

lemma sample_ok: "quiet_engine sample_env" "db_inv sample_env empty_world" "store_inv sample_env empty_world"
  "index_inv sample_env empty_world" "0 < step_size (we_round sample_env) chunk_config_default"
  by (simp_all add: quiet_engine_def sample_env_def db_inv_def documents_def chunks_def empty_world_def store_inv_def
      index_inv_def step_size_def overlap_size_def chunk_config_default_def)

definition old_log_world :: workspace_world where
  "old_log_world =
     \<lparr>ww_db = \<lparr>wd_documents =
         [\<lparr>md_id = 1, md_user_id = ''ann'', md_agent_id = None, md_path = ''daily/2025-01-01.md'', md_content = ''old'',
           md_created_at = 0, md_updated_at = 0, md_metadata = JObject []\<rparr>,
          \<lparr>md_id = 2, md_user_id = ''bob'', md_agent_id = None, md_path = ''MEMORY.md'', md_content = [],
           md_created_at = 0, md_updated_at = 0, md_metadata = JObject []\<rparr>],
       wd_chunks = []\<rparr>, ww_step = 2\<rparr>"

lemma old_log_inv: "db_inv sample_env old_log_world"
  by (simp add: db_inv_def sample_env_def old_log_world_def documents_def chunks_def drawn_def doc_key_def)

text \<open>C11: after any sequence of writes, appends and deletions by any workspaces, with an engine whose calls succeed, a read returns what the same sequence on a map from user, agent and normalised path to text holds.\<close>

theorem workspace_refines_map:
  assumes "quiet_engine env" and "db_inv env w"
  shows "read_file env ws p (fold (\<lambda>(h, f). exec_file env h f) fs w) =
    fold (\<lambda>(h, f). file_spec (ws_key h) f) fs (contents w) (ws_key ws p)"
  using files.run_get [of env w ws p fs] assms by (simp add: store_inv_def)

theorem workspace_refines_map_witness:
  "read_file sample_env (workspace_new ''ann'') ''notes/a.md''
     (fold (\<lambda>(h, f). exec_file sample_env h f)
       [(workspace_new ''ann'', Write_File ''/notes//a.md'' ''one''), (workspace_new ''bob'', Delete_File ''notes/a.md''),
        (workspace_new ''ann'', Append_File ''notes/a.md/'' ''two'')] empty_world) = Some (''one'' @ [newline] @ ''two'')"
proof -
  have n: "normalize_path ''/notes//a.md'' = ''notes/a.md''" "normalize_path ''notes/a.md'' = ''notes/a.md''"
    "normalize_path ''notes/a.md/'' = ''notes/a.md''" by code_simp+
  then show ?thesis
    using workspace_refines_map [OF sample_ok(1,2), of "workspace_new ''ann''" "''notes/a.md''"
      "[(workspace_new ''ann'', Write_File ''/notes//a.md'' ''one''), (workspace_new ''bob'', Delete_File ''notes/a.md''),
        (workspace_new ''ann'', Append_File ''notes/a.md/'' ''two'')]"]
    by (simp add: ws_key_def n workspace_new_def appended_def)
qed

text \<open>C28: the tables stay well formed: under any sequence of operations of any workspaces and whatever calls fail, no two documents have the same identifier or the same owner and path, no two chunks the same identifier, and every identifier was drawn before.\<close>

theorem workspace_well_formed:
  assumes "db_inv env w"
  shows "db_inv env (fold (\<lambda>(ws, c). exec_call env ws c) cs w)"
  using assms
proof (induction cs arbitrary: w)
  case (Cons c cs)
  obtain ws x where c: "c = (ws, x)" by force
  have "db_inv env (exec_call env ws x w)" using exec_call_confined [of env ws w x] Cons.prems by (simp add: confined_def)
  with Cons.IH show ?case by (simp add: c)
qed simp

theorem workspace_well_formed_witness:
  "db_inv sample_env (fold (\<lambda>(ws, c). exec_call sample_env ws c)
     [(workspace_new ''ann'', Prompt_Call), (workspace_new ''bob'', Memory_Call ''x''), (workspace_new ''ann'', Prune_Call 3)] old_log_world)"
  by (rule workspace_well_formed [OF old_log_inv])



text \<open>C12: whatever calls fail, the operations of a workspace leave the documents of every other user and agent, and the chunks of those documents, as they are, and a search returns nothing but chunks of its own documents.\<close>

theorem workspace_isolated:
  assumes "db_inv env w" and "\<And>xs. set (we_order env xs) \<subseteq> set xs" and "v = fold (exec_call env ws) cs w"
    and "other = (\<lambda>d. \<not> owned (ws_user_id ws) (ws_agent_id ws) d)"
  shows "filter other (documents v) = filter other (documents w) \<and>
    (\<forall>d \<in> set (documents w). other d \<longrightarrow>
       filter (\<lambda>c. mc_document_id c = md_id d) (chunks v) = filter (\<lambda>c. mc_document_id c = md_id d) (chunks w)) \<and>
    (case fst (search_with_config env ws query cfg v) of
       Inr rs \<Rightarrow> (\<forall>r \<in> set rs. \<exists>d \<in> set (documents v). md_id d = sr_document_id r \<and> \<not> other d)
     | Inl _ \<Rightarrow> True)"
proof (intro conjI ballI impI)
  let ?u = "ws_user_id ws" and ?a = "ws_agent_id ws"
  let ?P = "\<lambda>c. mc_document_id c \<in> md_id ` set (others ?u ?a w)"
  have c: "others ?u ?a v = others ?u ?a w" "filter ?P (chunks v) = filter ?P (chunks w)"
    using run_calls_confined [of env ws w cs] assms(1,3) by (simp_all add: confined_def)
  then show "filter other (documents v) = filter other (documents w)"
    by (simp add: others_def assms(4))
  show "filter (\<lambda>c. mc_document_id c = md_id d) (chunks v) = filter (\<lambda>c. mc_document_id c = md_id d) (chunks w)"
    if "d \<in> set (documents w)" "other d" for d
  proof -
    have "md_id d \<in> md_id ` set (others ?u ?a w)" using that by (simp add: others_def assms(4))
    then have "filter (\<lambda>c. mc_document_id c = md_id d) xs = filter (\<lambda>c. mc_document_id c = md_id d) (filter ?P xs)" for xs
      by (auto intro: filter_cong)
    then show ?thesis using c(2) by metis
  qed
  have "sr_document_id ` set rs \<subseteq> own_documents ?u ?a v"
    if "fst (search_with_config env ws query cfg v) = Ok rs" for rs
    using that search_documents [OF assms(2)]
    by (auto simp: search_with_config_def split: option.splits sum.splits)
  then show "case fst (search_with_config env ws query cfg v) of
       Inr rs \<Rightarrow> (\<forall>r \<in> set rs. \<exists>d \<in> set (documents v). md_id d = sr_document_id r \<and> \<not> other d) | Inl _ \<Rightarrow> True"
    by (fastforce simp: own_documents_def assms(4) split: sum.split)
qed

theorem workspace_isolated_witness:
  "filter (\<lambda>d. \<not> owned ''ann'' None d)
     (documents (fold (exec_call sample_env (workspace_new ''ann'')) [Prompt_Call, Prune_Call 0, Daily_Call ''x'', Backfill_Call] old_log_world)) =
   filter (\<lambda>d. \<not> owned ''ann'' None d) (documents old_log_world)"
  using workspace_isolated [OF old_log_inv, of _ "workspace_new ''ann''" "[Prompt_Call, Prune_Call 0, Daily_Call ''x'', Backfill_Call]"]
  by (simp add: sample_env_def workspace_new_def)

text \<open>Seeding never replaces a file: whatever calls fail, a text that a workspace holds before is still there afterwards, an empty one included.\<close>

theorem seeding_never_overwrites:
  assumes "db_inv env w" and "contents w k = Some text"
  shows "contents (snd (seed_if_empty env ws seed w)) k = Some text"
  unfolding seed_if_empty_def by (rule seed_files_keep [OF assms])

theorem seeding_never_overwrites_witness:
  "contents (snd (seed_if_empty sample_env (workspace_new ''bob'') (\<lambda>p. ''seed'') old_log_world)) (''bob'', None, ''MEMORY.md'') = Some []"
proof (rule seeding_never_overwrites [OF old_log_inv])
  show "contents old_log_world (''bob'', None, ''MEMORY.md'') = Some []" by code_simp
qed

text \<open>Whatever calls fail, pruning changes nothing but daily logs of its own workspace whose name is a date before the cutoff, and what it changes is gone.\<close>

theorem prune_only_old_logs:
  assumes "db_inv env w" and "contents (snd (prune_old_daily_logs env ws days w)) k \<noteq> contents w k"
  shows "contents (snd (prune_old_daily_logs env ws days w)) k = None \<and>
    (\<exists>s date. k = ws_key ws (''daily/'' @ s @ ''.md'') \<and> we_parse_date env s = Some date \<and> date < today env w - int days)"
proof -
  have l: "snd (ws_list env ws ''daily/'' w) = advance w"
    by (simp add: ws_list_def list_directory_def Let_def try_io_cases split: sum.split)
  show ?thesis
    using prune_entries_frame [OF db_inv_advance [OF assms(1)], of ws "today env w - int days" _ k] assms(2) l
    by (auto simp: prune_old_daily_logs_def split_beta Let_def)
qed

theorem prune_only_old_logs_witness:
  "\<exists>s. (''ann'', None, ''daily/2025-01-01.md'') = ws_key (workspace_new ''ann'') (''daily/'' @ s @ ''.md'') \<and>
     we_parse_date sample_env s = Some 0"
proof -
  let ?k = "(''ann'', None, ''daily/2025-01-01.md'')"
  have "contents (snd (prune_old_daily_logs sample_env (workspace_new ''ann'') 30 old_log_world)) ?k \<noteq> contents old_log_world ?k"
    by code_simp
  from prune_only_old_logs [OF old_log_inv this]
  show ?thesis by (auto simp: sample_env_def split: if_splits)
qed

text \<open>With an engine whose calls succeed, building the system prompt panics exactly when the text of MEMORY.md after its first three lines, trimmed, has more than 2000 bytes and byte 2000 is inside a character.\<close>

theorem system_prompt_panics_iff:
  assumes "quiet_engine env"
  shows "fst (system_prompt env ws w) = None \<longleftrightarrow>
    (case contents w (ws_key ws ''MEMORY.md'') of
       None \<Rightarrow> False
     | Some text \<Rightarrow> let s = trim (join [newline] (drop 3 (lines text))) in 2000 < length s \<and> is_continuation_byte (s ! 2000))"
  unfolding system_prompt_None [OF assms] memory_section_None ..

theorem system_prompt_panics_iff_witness:
  "fst (system_prompt sample_env (workspace_new ''ann'')
     (exec_file sample_env (workspace_new ''ann'')
       (Write_File ''MEMORY.md'' ([newline, newline, newline] @ replicate 1999 (CHR ''x'') @ ellipsis)) empty_world)) = None"
proof -
  let ?text = "[newline, newline, newline] @ replicate 1999 (CHR ''x'') @ ellipsis"
  let ?w = "exec_file sample_env (workspace_new ''ann'') (Write_File ''MEMORY.md'' ?text) empty_world"
  have "contents ?w (ws_key (workspace_new ''ann'') ''MEMORY.md'') = Some ?text"
    using exec_file_abs [OF sample_ok(3), of "workspace_new ''ann''" "Write_File ''MEMORY.md'' ?text"] by simp
  then show ?thesis
    using system_prompt_panics_iff [OF sample_ok(1), of "workspace_new ''ann''" ?w] long_memory by (simp add: Let_def)
qed

end
