(* ===== verification/Routine_Engine.thy ===== *)
theory Routine_Engine
  imports Routine_Model Agent_Turn Workspace_Store
begin

text \<open>
  The engine that fires routines, \<open>agent/routine_engine.rs\<close>. Each of its asynchronous tasks is a value
  that says what the task does next: the scan of the event cache or of the due routines, and the run of
  a routine from its record in the database to the notification of its owner. A step takes one task of
  the engine, whichever the runtime picks, to the next point where it waits, so the tasks interleave
  freely. A panic ends a task where it is. The database, the clock, the model and the tools answer by
  the number of the call. The lemmas show what the counter of running routines counts, that a finished
  run stays finished, that no tool that needs approval runs unattended, and that a run ends; and where
  the limits on concurrent runs and the cooldown do not hold.
\<close>

section \<open>Model\<close>

type_synonym run_outcome = "run_status \<times> string option \<times> int option"

datatype engine_task =
    Scan_Events string string "routine list"
  | Decide_Event string string routine bool "routine list"
  | Scan_Cron "routine list"
  | Decide_Cron routine bool "routine list"
  | Record_Run routine routine_run
  | Begin_Run routine routine_run
  | Execute_Run routine routine_run
  | Release_Run routine routine_run run_outcome
  | Complete_Run routine routine_run run_outcome
  | Update_Run routine routine_run run_outcome
  | Notify_Run routine run_outcome

record routine_notice =
  rn_content :: string
  rn_routine :: string
  rn_status :: string
  rn_user :: string
  rn_channel :: "string option"

record routine_env =
  re_now :: "nat \<Rightarrow> time"
  re_uuid :: "nat \<Rightarrow> uuid"
  re_show_uuid :: "uuid \<Rightarrow> string"
  re_db_fails :: "nat \<Rightarrow> string option"
  re_regex_ok :: "string \<Rightarrow> bool"
  re_is_match :: "string \<Rightarrow> string \<Rightarrow> bool"
  re_cron :: "nat \<Rightarrow> string \<Rightarrow> string + time option"
  re_as_u64 :: "string \<Rightarrow> u64 option"
  re_complete :: "nat \<Rightarrow> chat_message list \<Rightarrow> u32 \<Rightarrow> llm_error + completion_response"
  re_metadata :: "nat \<Rightarrow> llm_error + u32 option"
  re_respond :: "nat \<Rightarrow> string \<Rightarrow> chat_message list \<Rightarrow> tool_definition list \<Rightarrow> llm_error + (respond_result \<times> u32 \<times> u32)"
  re_display_llm :: "llm_error \<Rightarrow> string"
  re_display_tool_error :: "tool_error \<Rightarrow> string"
  re_show_duration :: "duration \<Rightarrow> string"
  re_tools :: "nat \<Rightarrow> tool_registry"
  re_execute :: "nat \<Rightarrow> tool \<Rightarrow> json \<Rightarrow> tool_outcome"
  re_json_pretty :: "json \<Rightarrow> string + string"
  re_safety :: safety_layer
  re_policy_match :: "string \<Rightarrow> string \<Rightarrow> bool"
  re_ac :: ac_find
  re_rx :: rx_find
  re_workspace :: workspace
  re_workspace_env :: workspace_env
  re_max_routines :: nat

record engine_world =
  ew_rows :: "routine_row list"
  ew_runs :: "routine_run list"
  ew_running :: nat
  ew_cache :: "routine list"
  ew_tasks :: "engine_task list"
  ew_sent :: "routine_notice list"
  ew_workspace :: workspace_world
  ew_executed :: "(tool \<times> json) list"
  ew_prompts :: "chat_message list list"
  ew_step :: nat

definition engine_tick :: "engine_world \<Rightarrow> engine_world" where
  "engine_tick w = w\<lparr>ew_step := ew_step w + 1\<rparr>"

subsection \<open>Guardrails\<close>

definition check_cooldown :: "time \<Rightarrow> routine \<Rightarrow> bool" where
  "check_cooldown now r =
     (case rt_last_run_at r of
        None \<Rightarrow> True
      | Some last_run \<Rightarrow>
          let cooldown = (if gr_cooldown (rt_guardrails r) < 2 ^ 63 then int (gr_cooldown (rt_guardrails r)) else 300000)
          in \<not> (now - last_run < cooldown))"

definition running_runs :: "uuid \<Rightarrow> engine_world \<Rightarrow> nat" where
  "running_runs i w = length (filter (\<lambda>x. run_routine_id x = i \<and> run_status_display (run_state x) = ''running'') (ew_runs w))"

definition check_concurrent :: "routine_env \<Rightarrow> routine \<Rightarrow> engine_world \<Rightarrow> bool" where
  "check_concurrent env r w =
     (case re_db_fails env (ew_step w) of
        Some _ \<Rightarrow> False
      | None \<Rightarrow> int (running_runs (rt_id r) w) < uint (gr_max_concurrent (rt_guardrails r)))"

text \<open>The channel filter and the expression of an event trigger; only event triggers are cached.\<close>

definition event_matches :: "routine_env \<Rightarrow> string \<Rightarrow> string \<Rightarrow> routine \<Rightarrow> bool" where
  "event_matches env channel content r =
     (case rt_trigger r of
        TrEvent ch pat \<Rightarrow> (case ch of Some c \<Rightarrow> c = channel | None \<Rightarrow> True) \<and> re_is_match env pat content
      | _ \<Rightarrow> False)"

definition truncate_detail :: "string \<Rightarrow> nat \<Rightarrow> string" where
  "truncate_detail s n = (if length s \<le> n then s else take (floor_char_boundary s n) s @ ''...'')"

definition new_run :: "routine_env \<Rightarrow> routine \<Rightarrow> string \<Rightarrow> string option \<Rightarrow> engine_world \<Rightarrow> routine_run" where
  "new_run env r kind detail w =
     \<lparr>run_id = re_uuid env (ew_step w), run_routine_id = rt_id r, run_trigger_type = kind, run_trigger_detail = detail,
      run_started_at = re_now env (ew_step w), run_completed_at = None, run_state = RunRunning,
      run_result_summary = None, run_tokens_used = None, run_job_id = None, run_created_at = re_now env (ew_step w)\<rparr>"

subsection \<open>Tools in a routine\<close>

definition quote_name :: "string \<Rightarrow> string" where
  "quote_name s = [CHR 0x27] @ s @ [CHR 0x27]"

definition execute_tool_for_routine ::
  "routine_env \<Rightarrow> string \<Rightarrow> json \<Rightarrow> engine_world \<Rightarrow> (string + string) \<times> engine_world" where
  "execute_tool_for_routine env name params w =
     (case tr_get (re_tools env (ew_step w)) name of
        None \<Rightarrow> (Err (''Tool '' @ quote_name name @ '' not found''), engine_tick w)
      | Some t \<Rightarrow>
          if tool_requires_approval t
          then (Err (''Tool '' @ quote_name name @ '' requires approval and cannot be used in an unattended routine''), engine_tick w)
          else
            (let validation = validate_tool_params (sl_validator (re_safety env)) params
             in if \<not> vr_is_valid validation
                then (Err (''Invalid parameters for tool '' @ quote_name name @ '': '' @ show_errors (vr_errors validation)), engine_tick w)
                else
                  (case re_execute env (ew_step w) t params of
                     OutOk v \<Rightarrow>
                       (let result_str = (case re_json_pretty env v of Inr s \<Rightarrow> s | Inl _ \<Rightarrow> ''<serialize error>'');
                            sanitized = sanitize_tool_output (re_policy_match env) (re_ac env) (re_rx env) (re_safety env) name result_str
                        in Ok (wrap_for_llm name (so_content sanitized) (so_was_modified sanitized)))
                   | OutError e \<Rightarrow> Err (''Tool '' @ quote_name name @ '' failed: '' @ re_display_tool_error env e)
                   | OutTimeout \<Rightarrow> Err (''Tool '' @ quote_name name @ '' timed out after '' @
                                        re_show_duration env (tool_execution_timeout t)),
                   engine_tick (w\<lparr>ew_executed := ew_executed w @ [(t, params)]\<rparr>))))"

fun run_routine_tools ::
  "routine_env \<Rightarrow> tool_call list \<Rightarrow> chat_message list \<Rightarrow> engine_world \<Rightarrow> chat_message list \<times> engine_world" where
  "run_routine_tools env [] ctx w = (ctx, w)"
| "run_routine_tools env (tc # tcs) ctx w =
     (let (r, w1) = execute_tool_for_routine env (tc_name tc) (tc_arguments tc) w;
          message = (case r of Inr s \<Rightarrow> s | Inl e \<Rightarrow> ''Error: '' @ e)
      in run_routine_tools env tcs (ctx @ [cm_tool_result (tc_id tc) (tc_name tc) message]) w1)"

subsection \<open>Running an action\<close>

definition as_i32 :: "int \<Rightarrow> int" where
  "as_i32 n = sint (of_int n :: 32 word)"

definition answer_status :: "string \<Rightarrow> int option \<Rightarrow> string + run_outcome" where
  "answer_status content tokens =
     (if contains content ''ROUTINE_OK'' then Ok (RunOk, None, tokens) else Ok (RunAttention, Some content, tokens))"

text \<open>The loop of a full job, with the number of iterations begun before.\<close>

function full_job_loop ::
  "routine_env \<Rightarrow> string \<Rightarrow> nat \<Rightarrow> nat \<Rightarrow> chat_message list \<Rightarrow> int \<Rightarrow> engine_world \<Rightarrow> (string + run_outcome) \<times> engine_world" where
  "full_job_loop env prompt max_iterations iteration ctx used w =
     (let iteration' = iteration + 1
      in if max_iterations < iteration'
         then (Ok (RunFailed, Some (''Exceeded max_iterations ('' @ show_nat max_iterations @ '') without finishing''),
                   Some (as_i32 used)), w)
         else
           (let w1 = engine_tick (w\<lparr>ew_prompts := ew_prompts w @ [ctx]\<rparr>)
            in case re_respond env (ew_step w) prompt ctx (tool_definitions (re_tools env (ew_step w))) of
                 Inl e \<Rightarrow> (Err (''LLM call failed: '' @ re_display_llm env e), w1)
               | Inr (result, input_tokens, output_tokens) \<Rightarrow>
                   (let used' = used + uint (input_tokens + output_tokens)
                    in case result of
                         RText response \<Rightarrow>
                           (let content = trim response
                            in (if content = [] then Err ''LLM returned empty content.''
                                else answer_status content (Some (as_i32 used')), w1))
                       | RToolCalls tool_calls content \<Rightarrow>
                           (let (ctx', w2) = run_routine_tools env tool_calls
                                               (ctx @ [cm_assistant_with_tool_calls content tool_calls]) w1
                            in full_job_loop env prompt max_iterations iteration' ctx' used' w2))))"
  by pat_completeness auto
termination
  by (relation "measure (\<lambda>(_, _, m, i, _, _, _). Suc m - i)") auto

declare full_job_loop.simps [simp del]

text \<open>The workspace gives the system prompt; building it may panic, then there is no result.\<close>

definition routine_prompt :: "routine_env \<Rightarrow> engine_world \<Rightarrow> string option \<times> engine_world" where
  "routine_prompt env w =
     (let (p, ww) = system_prompt (re_workspace_env env) (re_workspace env) (ew_workspace w)
      in (p, w\<lparr>ew_workspace := ww\<rparr>))"

definition initial_prompt :: "string \<Rightarrow> string" where
  "initial_prompt description =
     description @ [newline, newline] @ ''---'' @ [newline, newline] @
     ''Use the available tools as needed to complete this task. '' @
     ''Once finished, if nothing needs the user'' @ [CHR 0x27] @ ''s attention, reply EXACTLY with: ROUTINE_OK'' @ [newline] @
     ''If something needs attention, reply with a concise summary instead of calling more tools.''"

definition execute_full_job ::
  "routine_env \<Rightarrow> string \<Rightarrow> u32 \<Rightarrow> engine_world \<Rightarrow> (string + run_outcome) option \<times> engine_world" where
  "execute_full_job env description max_iterations w =
     (case routine_prompt env w of
        (None, w1) \<Rightarrow> (None, w1)
      | (Some p, w1) \<Rightarrow>
          (let (r, w2) = full_job_loop env p (unat max_iterations) 0 [cm_user (initial_prompt description)] 0 w1
           in (Some r, w2)))"

fun load_context :: "routine_env \<Rightarrow> string list \<Rightarrow> workspace_world \<Rightarrow> string list \<times> workspace_world" where
  "load_context env [] ww = ([], ww)"
| "load_context env (p # ps) ww =
     (let (r, ww1) = ws_read (re_workspace_env env) (re_workspace env) p ww;
          (parts, ww2) = load_context env ps ww1
      in (case r of Inr d \<Rightarrow> (''## '' @ p @ [newline, newline] @ md_content d) # parts | Inl _ \<Rightarrow> parts, ww2))"

definition prompt_section :: "string \<Rightarrow> string \<Rightarrow> string" where
  "prompt_section title body =
     [newline, newline] @ ''---'' @ [newline, newline] @ ''# '' @ title @ [newline, newline] @ body"

definition lightweight_prompt :: "string \<Rightarrow> string list \<Rightarrow> string option \<Rightarrow> string" where
  "lightweight_prompt prompt parts state =
     prompt @ (if parts = [] then [] else prompt_section ''Context'' (join [newline, newline] parts)) @
     (case state of Some s \<Rightarrow> prompt_section ''Previous State'' s | None \<Rightarrow> []) @
     [newline, newline] @ ''---'' @ [newline, newline] @
     ''If nothing needs attention, reply EXACTLY with: ROUTINE_OK'' @ [newline] @
     ''If something needs attention, provide a concise summary.''"

definition effective_max_tokens :: "llm_error + u32 option \<Rightarrow> u32 \<Rightarrow> u32" where
  "effective_max_tokens meta max_tokens =
     (case meta of
        Inr context_length \<Rightarrow> max (case context_length of Some c \<Rightarrow> c div 2 | None \<Rightarrow> max_tokens) max_tokens
      | Inl _ \<Rightarrow> max_tokens)"

definition lightweight_answer :: "completion_response \<Rightarrow> string + run_outcome" where
  "lightweight_answer response =
     (let content = trim (rsp_content response);
          tokens = Some (sint (rsp_input_tokens response + rsp_output_tokens response))
      in if content = []
         then Err (if rsp_finish_reason response = Length
                   then ''LLM response truncated (finish_reason=length) with no content. '' @
                        ''Model may have exhausted token budget on reasoning.''
                   else ''LLM returned empty content.'')
         else answer_status content tokens)"

definition execute_lightweight ::
  "routine_env \<Rightarrow> routine \<Rightarrow> string \<Rightarrow> string list \<Rightarrow> u32 \<Rightarrow> engine_world \<Rightarrow> (string + run_outcome) option \<times> engine_world" where
  "execute_lightweight env r prompt paths max_tokens w =
     (let (parts, ww1) = load_context env paths (ew_workspace w);
          (st, ww2) = ws_read (re_workspace_env env) (re_workspace env) (''routines/'' @ rt_name r @ ''/state.md'') ww1;
          full_prompt = lightweight_prompt prompt parts (case st of Inr d \<Rightarrow> Some (md_content d) | Inl _ \<Rightarrow> None)
      in case routine_prompt env (w\<lparr>ew_workspace := ww2\<rparr>) of
           (None, w1) \<Rightarrow> (None, w1)
         | (Some sp, w1) \<Rightarrow>
             (let messages = (if sp = [] then [cm_user full_prompt] else [cm_system sp, cm_user full_prompt]);
                  tokens = effective_max_tokens (re_metadata env (ew_step w1)) max_tokens;
                  w2 = engine_tick w1;
                  w3 = engine_tick (w2\<lparr>ew_prompts := ew_prompts w2 @ [messages]\<rparr>)
              in (Some (case re_complete env (ew_step w2) messages tokens of
                          Inl e \<Rightarrow> Err (''LLM call failed: '' @ re_display_llm env e)
                        | Inr response \<Rightarrow> lightweight_answer response), w3)))"

definition execute_action :: "routine_env \<Rightarrow> routine \<Rightarrow> engine_world \<Rightarrow> (string + run_outcome) option \<times> engine_world" where
  "execute_action env r w =
     (case rt_action r of
        Lightweight prompt paths max_tokens \<Rightarrow> execute_lightweight env r prompt paths max_tokens w
      | FullJob title description max_iterations \<Rightarrow> execute_full_job env description max_iterations w)"

subsection \<open>Notifications\<close>

definition should_notify :: "notify_config \<Rightarrow> run_status \<Rightarrow> bool" where
  "should_notify n s =
     (case s of RunOk \<Rightarrow> nc_on_success n | RunAttention \<Rightarrow> nc_on_attention n | RunFailed \<Rightarrow> nc_on_failure n | RunRunning \<Rightarrow> False)"

fun status_icon :: "run_status \<Rightarrow> string" where
  "status_icon RunOk = map char_of [226 :: nat, 156, 133]"
| "status_icon RunAttention = map char_of [240 :: nat, 159, 148, 148]"
| "status_icon RunFailed = map char_of [226 :: nat, 157, 140]"
| "status_icon RunRunning = map char_of [226 :: nat, 143, 179]"

definition send_notification :: "notify_config \<Rightarrow> string \<Rightarrow> run_status \<Rightarrow> string option \<Rightarrow> engine_world \<Rightarrow> engine_world" where
  "send_notification n name status text w =
     (if \<not> should_notify n status then w
      else w\<lparr>ew_sent := ew_sent w @
        [\<lparr>rn_content = status_icon status @ '' *Routine '' @ quote_name name @ ''*: '' @ run_status_display status @
            (case text of Some s \<Rightarrow> [newline, newline] @ s | None \<Rightarrow> []),
          rn_routine = name, rn_status = run_status_display status, rn_user = nc_user n, rn_channel = nc_channel n\<rparr>]\<rparr>)"

subsection \<open>The steps of a task\<close>

definition create_run :: "routine_env \<Rightarrow> routine_run \<Rightarrow> engine_world \<Rightarrow> (string + unit) \<times> engine_world" where
  "create_run env run w =
     (case re_db_fails env (ew_step w) of
        Some e \<Rightarrow> (Err e, engine_tick w)
      | None \<Rightarrow> (Ok (), engine_tick (w\<lparr>ew_runs := ew_runs w @ [run]\<rparr>)))"

definition complete_run :: "routine_env \<Rightarrow> uuid \<Rightarrow> run_outcome \<Rightarrow> engine_world \<Rightarrow> engine_world" where
  "complete_run env i out w =
     (case re_db_fails env (ew_step w) of
        Some _ \<Rightarrow> engine_tick w
      | None \<Rightarrow>
          engine_tick (w\<lparr>ew_runs := map (\<lambda>x. if run_id x = i
            then x\<lparr>run_completed_at := Some (re_now env (ew_step w)), run_state := fst out,
                   run_result_summary := fst (snd out), run_tokens_used := snd (snd out)\<rparr> else x) (ew_runs w)\<rparr>))"

definition next_fire_of :: "routine_env \<Rightarrow> routine \<Rightarrow> nat \<Rightarrow> time option" where
  "next_fire_of env r n =
     (case rt_trigger r of TrCron s \<Rightarrow> (case re_cron env n s of Inr t \<Rightarrow> t | Inl _ \<Rightarrow> None) | _ \<Rightarrow> None)"

definition update_runtime :: "routine_env \<Rightarrow> routine \<Rightarrow> run_outcome \<Rightarrow> engine_world \<Rightarrow> engine_world" where
  "update_runtime env r out w =
     (case re_db_fails env (ew_step w) of
        Some _ \<Rightarrow> engine_tick w
      | None \<Rightarrow>
          (let now = re_now env (ew_step w);
               failures = (if fst out = RunFailed then rt_consecutive_failures r + 1 else 0)
           in engine_tick (w\<lparr>ew_rows := map (\<lambda>row. if row_id row = rt_id r
                then update_runtime_row now now (next_fire_of env r (ew_step w)) (rt_run_count r + 1) failures (rt_state r) row
                else row) (ew_rows w)\<rparr>)))"

fun task_step :: "routine_env \<Rightarrow> engine_task \<Rightarrow> engine_world \<Rightarrow> engine_task list \<times> engine_world" where
  "task_step env (Scan_Events channel content []) w = ([], w)"
| "task_step env (Scan_Events channel content (r # rs)) w =
     (if event_matches env channel content r \<and> check_cooldown (re_now env (ew_step w)) r
      then ([Decide_Event channel content r (check_concurrent env r w) rs], engine_tick w)
      else ([Scan_Events channel content rs], w))"
| "task_step env (Decide_Event channel content r free rs) w =
     (if free \<and> ew_running w < re_max_routines env
      then ([Scan_Events channel content rs, Record_Run r (new_run env r ''event'' (Some (truncate_detail content 200)) w)], engine_tick w)
      else ([Scan_Events channel content rs], w))"
| "task_step env (Scan_Cron []) w = ([], w)"
| "task_step env (Scan_Cron (r # rs)) w =
     (if \<not> ew_running w < re_max_routines env then ([], w)
      else if check_cooldown (re_now env (ew_step w)) r
      then ([Decide_Cron r (check_concurrent env r w) rs], engine_tick w)
      else ([Scan_Cron rs], w))"
| "task_step env (Decide_Cron r free rs) w =
     (if free
      then ([Scan_Cron rs, Record_Run r (new_run env r ''cron''
               (case rt_trigger r of TrCron s \<Rightarrow> Some s | _ \<Rightarrow> None) w)], engine_tick w)
      else ([Scan_Cron rs], w))"
| "task_step env (Record_Run r run) w =
     (case create_run env run w of (Inr _, w1) \<Rightarrow> ([Begin_Run r run], w1) | (Inl _, w1) \<Rightarrow> ([], w1))"
| "task_step env (Begin_Run r run) w = ([Execute_Run r run], w\<lparr>ew_running := ew_running w + 1\<rparr>)"
| "task_step env (Execute_Run r run) w =
     (case execute_action env r w of
        (None, w1) \<Rightarrow> ([], w1)
      | (Some res, w1) \<Rightarrow>
          ([Release_Run r run (case res of Inr out \<Rightarrow> out | Inl e \<Rightarrow> (RunFailed, Some e, None))], w1))"
| "task_step env (Release_Run r run out) w = ([Complete_Run r run out], w\<lparr>ew_running := ew_running w - 1\<rparr>)"
| "task_step env (Complete_Run r run out) w = ([Update_Run r run out], complete_run env (run_id run) out w)"
| "task_step env (Update_Run r run out) w = ([Notify_Run r out], update_runtime env r out w)"
| "task_step env (Notify_Run r out) w =
     ([], send_notification (rt_notify r) (rt_name r) (fst out) (fst (snd out)) w)"

subsection \<open>What reaches the engine\<close>

fun read_rows :: "(string \<Rightarrow> u64 option) \<Rightarrow> routine_row list \<Rightarrow> string + routine list" where
  "read_rows as_u64 [] = Ok []"
| "read_rows as_u64 (row # rows) =
     (case row_to_routine as_u64 row of
        Inl e \<Rightarrow> Err e
      | Inr r \<Rightarrow> (case read_rows as_u64 rows of Inl e \<Rightarrow> Err e | Inr rs \<Rightarrow> Ok (r # rs)))"

definition query_rows :: "routine_env \<Rightarrow> (routine_row \<Rightarrow> bool) \<Rightarrow> engine_world \<Rightarrow> string + routine list" where
  "query_rows env P w =
     (case re_db_fails env (ew_step w) of
        Some e \<Rightarrow> Err e
      | None \<Rightarrow> read_rows (re_as_u64 env) (filter P (ew_rows w)))"

definition list_event_routines :: "routine_env \<Rightarrow> engine_world \<Rightarrow> string + routine list" where
  "list_event_routines env w = query_rows env (\<lambda>row. row_enabled row = 1 \<and> row_trigger_type row = ''event'') w"

definition list_due_cron_routines :: "routine_env \<Rightarrow> engine_world \<Rightarrow> string + routine list" where
  "list_due_cron_routines env w =
     query_rows env (\<lambda>row. row_enabled row = 1 \<and> row_trigger_type row = ''cron'' \<and>
       (case row_next_fire_at row of Some t \<Rightarrow> t \<le> re_now env (ew_step w) | None \<Rightarrow> False)) w"

definition get_routine :: "routine_env \<Rightarrow> uuid \<Rightarrow> engine_world \<Rightarrow> string + routine option" where
  "get_routine env i w =
     (case query_rows env (\<lambda>row. row_id row = i) w of
        Inl e \<Rightarrow> Err e
      | Inr [] \<Rightarrow> Ok None
      | Inr (r # _) \<Rightarrow> Ok (Some r))"

definition refresh_event_cache :: "routine_env \<Rightarrow> engine_world \<Rightarrow> engine_world" where
  "refresh_event_cache env w =
     (case list_event_routines env w of
        Inl _ \<Rightarrow> engine_tick w
      | Inr rs \<Rightarrow>
          engine_tick (w\<lparr>ew_cache := filter (\<lambda>r. case rt_trigger r of TrEvent _ pat \<Rightarrow> re_regex_ok env pat | _ \<Rightarrow> False) rs\<rparr>))"

definition check_event_triggers :: "string \<Rightarrow> string \<Rightarrow> engine_world \<Rightarrow> engine_world" where
  "check_event_triggers channel content w = w\<lparr>ew_tasks := ew_tasks w @ [Scan_Events channel content (ew_cache w)]\<rparr>"

definition check_cron_triggers :: "routine_env \<Rightarrow> engine_world \<Rightarrow> engine_world" where
  "check_cron_triggers env w =
     (case list_due_cron_routines env w of
        Inl _ \<Rightarrow> engine_tick w
      | Inr rs \<Rightarrow> engine_tick (w\<lparr>ew_tasks := ew_tasks w @ [Scan_Cron rs]\<rparr>))"

definition fire_manual :: "routine_env \<Rightarrow> uuid \<Rightarrow> engine_world \<Rightarrow> (string + uuid) \<times> engine_world" where
  "fire_manual env i w =
     (case get_routine env i w of
        Inl e \<Rightarrow> (Err (''DB error: '' @ e), engine_tick w)
      | Inr None \<Rightarrow> (Err (''routine '' @ re_show_uuid env i @ '' not found''), engine_tick w)
      | Inr (Some r) \<Rightarrow>
          if \<not> rt_enabled r then (Err (''routine '' @ quote_name (rt_name r) @ '' is disabled''), engine_tick w)
          else
            (let w1 = engine_tick w
             in if \<not> check_concurrent env r w1
                then (Err (''routine '' @ quote_name (rt_name r) @ '' already at max concurrent runs''), engine_tick w1)
                else
                  (let w2 = engine_tick w1;
                       run = new_run env r ''manual'' None w2
                   in case create_run env run (engine_tick w2) of
                        (Inl e, w3) \<Rightarrow> (Err (''failed to create run record: '' @ e), w3)
                      | (Inr _, w3) \<Rightarrow> (Ok (run_id run), w3\<lparr>ew_tasks := ew_tasks w3 @ [Begin_Run r run]\<rparr>))))"

datatype engine_event =
    Message_Arrives string string
  | Cron_Tick
  | Manual_Fire uuid
  | Cache_Refresh
  | Routine_Created routine
  | Routine_Updated routine

fun handle_event :: "routine_env \<Rightarrow> engine_event \<Rightarrow> engine_world \<Rightarrow> engine_world" where
  "handle_event env (Message_Arrives channel content) w = check_event_triggers channel content w"
| "handle_event env Cron_Tick w = check_cron_triggers env w"
| "handle_event env (Manual_Fire i) w = snd (fire_manual env i w)"
| "handle_event env Cache_Refresh w = refresh_event_cache env w"
| "handle_event env (Routine_Created r) w = engine_tick (w\<lparr>ew_rows := ew_rows w @ [create_routine_row r]\<rparr>)"
| "handle_event env (Routine_Updated r) w =
     engine_tick (w\<lparr>ew_rows := map (\<lambda>row. if row_id row = rt_id r then update_routine_row (re_now env (ew_step w)) r row else row) (ew_rows w)\<rparr>)"

datatype engine_action = Run_Task nat | Handle engine_event

text \<open>One step: the runtime picks a task, or something reaches the engine.\<close>

definition run_task :: "routine_env \<Rightarrow> nat \<Rightarrow> engine_world \<Rightarrow> engine_world" where
  "run_task env i w =
     (if i < length (ew_tasks w)
      then (let (cont, w1) = task_step env (ew_tasks w ! i) w
            in w1\<lparr>ew_tasks := take i (ew_tasks w) @ cont @ drop (Suc i) (ew_tasks w)\<rparr>)
      else w)"

fun engine_act :: "routine_env \<Rightarrow> engine_action \<Rightarrow> engine_world \<Rightarrow> engine_world" where
  "engine_act env (Run_Task i) w = run_task env i w"
| "engine_act env (Handle e) w = handle_event env e w"

inductive engine_reaches :: "routine_env \<Rightarrow> engine_world \<Rightarrow> engine_world \<Rightarrow> bool" for env w where
  reaches_start: "engine_reaches env w w"
| reaches_step: "engine_reaches env w v \<Longrightarrow> engine_reaches env w (engine_act env a v)"

text \<open>A new engine over the tables as an earlier one left them.\<close>

definition engine_new :: "routine_row list \<Rightarrow> routine_run list \<Rightarrow> workspace_world \<Rightarrow> nat \<Rightarrow> engine_world" where
  "engine_new rows runs ww n =
     \<lparr>ew_rows = rows, ew_runs = runs, ew_running = 0, ew_cache = [], ew_tasks = [], ew_sent = [], ew_workspace = ww,
      ew_executed = [], ew_prompts = [], ew_step = n\<rparr>"

section \<open>Reference notions\<close>

text \<open>A task that holds a slot of the counter, and a step in which such a task panics.\<close>

fun holds_slot :: "engine_task \<Rightarrow> bool" where
  "holds_slot (Execute_Run r run) = True"
| "holds_slot (Release_Run r run out) = True"
| "holds_slot _ = False"

definition slots_held :: "engine_world \<Rightarrow> nat" where
  "slots_held w = length (filter holds_slot (ew_tasks w))"

fun panics_at :: "routine_env \<Rightarrow> engine_action \<Rightarrow> engine_world \<Rightarrow> bool" where
  "panics_at env (Run_Task i) w =
     (i < length (ew_tasks w) \<and>
      (case ew_tasks w ! i of Execute_Run r run \<Rightarrow> fst (execute_action env r w) = None | _ \<Rightarrow> False))"
| "panics_at env (Handle e) w = False"

fun count_panics :: "routine_env \<Rightarrow> engine_action list \<Rightarrow> engine_world \<Rightarrow> nat" where
  "count_panics env [] w = 0"
| "count_panics env (a # as) w = (if panics_at env a w then 1 else 0) + count_panics env as (engine_act env a w)"

text \<open>How many steps a task can still cause, itself and what it spawns.\<close>

fun task_weight :: "engine_task \<Rightarrow> nat" where
  "task_weight (Scan_Events ch c rs) = 1 + 9 * length rs"
| "task_weight (Decide_Event ch c r free rs) = 9 + 9 * length rs"
| "task_weight (Scan_Cron rs) = 1 + 9 * length rs"
| "task_weight (Decide_Cron r free rs) = 9 + 9 * length rs"
| "task_weight (Record_Run r run) = 7"
| "task_weight (Begin_Run r run) = 6"
| "task_weight (Execute_Run r run) = 5"
| "task_weight (Release_Run r run out) = 4"
| "task_weight (Complete_Run r run out) = 3"
| "task_weight (Update_Run r run out) = 2"
| "task_weight (Notify_Run r out) = 1"

definition engine_weight :: "engine_world \<Rightarrow> nat" where
  "engine_weight w = sum_list (map task_weight (ew_tasks w))"

fun valid_schedule :: "routine_env \<Rightarrow> nat list \<Rightarrow> engine_world \<Rightarrow> bool" where
  "valid_schedule env [] w = True"
| "valid_schedule env (i # is) w = (i < length (ew_tasks w) \<and> valid_schedule env is (run_task env i w))"

text \<open>What a model may read of a tool, and a log of tools none of which needs approval.\<close>

definition routine_may_read :: "routine_env \<Rightarrow> chat_message \<Rightarrow> bool" where
  "routine_may_read env m \<longleftrightarrow>
     (cm_role m = ToolRole \<longrightarrow>
        (\<exists>e. cm_content m = ''Error: '' @ e) \<or>
        (\<exists>name output. let s = sanitize_tool_output (re_policy_match env) (re_ac env) (re_rx env) (re_safety env) name output
            in cm_content m = wrap_for_llm name (so_content s) (so_was_modified s)))"

definition unattended_ok :: "routine_env \<Rightarrow> engine_world \<Rightarrow> bool" where
  "unattended_ok env w \<longleftrightarrow>
     (\<forall>(t, params) \<in> set (ew_executed w). \<not> tool_requires_approval t \<and>
        vr_is_valid (validate_tool_params (sl_validator (re_safety env)) params)) \<and>
     (\<forall>ctx \<in> set (ew_prompts w). \<forall>m \<in> set ctx. routine_may_read env m)"

text \<open>The runs that wait for their record, and those recorded that a task will complete.\<close>

fun pending_run :: "engine_task \<Rightarrow> uuid list" where
  "pending_run (Record_Run r run) = [run_id run]"
| "pending_run _ = []"

fun live_run :: "engine_task \<Rightarrow> uuid list" where
  "live_run (Begin_Run r run) = [run_id run]"
| "live_run (Execute_Run r run) = [run_id run]"
| "live_run (Release_Run r run out) = [run_id run]"
| "live_run (Complete_Run r run out) = [run_id run]"
| "live_run _ = []"

fun task_ok :: "engine_task \<Rightarrow> bool" where
  "task_ok (Record_Run r run) = (run_state run = RunRunning)"
| "task_ok (Release_Run r run out) = (fst out \<noteq> RunRunning)"
| "task_ok (Complete_Run r run out) = (fst out \<noteq> RunRunning)"
| "task_ok _ = True"

definition run_core :: "routine_env \<Rightarrow> uuid list \<Rightarrow> uuid list \<Rightarrow> routine_run list \<Rightarrow> nat \<Rightarrow> bool" where
  "run_core env pending live runs n \<longleftrightarrow>
     inj (re_uuid env) \<and> distinct (map run_id runs) \<and> distinct pending \<and> distinct live \<and>
     run_id ` set runs \<inter> set pending = {} \<and> run_id ` set runs \<union> set pending \<subseteq> re_uuid env ` {..<n} \<and>
     set live \<subseteq> run_id ` {x \<in> set runs. run_state x = RunRunning}"

definition run_ok :: "routine_env \<Rightarrow> engine_task list \<Rightarrow> routine_run list \<Rightarrow> nat \<Rightarrow> bool" where
  "run_ok env ts runs n \<longleftrightarrow>
     run_core env (concat (map pending_run ts)) (concat (map live_run ts)) runs n \<and> list_all task_ok ts"

text \<open>The identifiers of the runs of a table are different and were drawn before.\<close>

definition table_ok :: "routine_env \<Rightarrow> routine_run list \<Rightarrow> nat \<Rightarrow> bool" where
  "table_ok env runs n \<longleftrightarrow> inj (re_uuid env) \<and> distinct (map run_id runs) \<and> run_id ` set runs \<subseteq> re_uuid env ` {..<n}"

definition runs_ok :: "routine_env \<Rightarrow> engine_world \<Rightarrow> bool" where
  "runs_ok env w \<longleftrightarrow> run_ok env (ew_tasks w) (ew_runs w) (ew_step w)"

text \<open>Every run that the table shows as running has a task that will complete it.\<close>

definition runs_tracked :: "engine_world \<Rightarrow> bool" where
  "runs_tracked w \<longleftrightarrow>
     (\<forall>x \<in> set (ew_runs w). run_state x = RunRunning \<longrightarrow> run_id x \<in> set (concat (map live_run (ew_tasks w))))"

section \<open>Lemmas\<close>

subsection \<open>What an execution leaves alone\<close>

text \<open>The part of the engine that an execution does not touch: everything but the workspace, the log of
  tools, the prompts and the number of calls.\<close>

definition engine_frame :: "engine_world \<Rightarrow> routine_row list \<times> routine_run list \<times> nat \<times> routine list \<times> engine_task list \<times> routine_notice list" where
  "engine_frame w = (ew_rows w, ew_runs w, ew_running w, ew_cache w, ew_tasks w, ew_sent w)"

lemma engine_frame_simps [simp]:
  "engine_frame (engine_tick w) = engine_frame w" "engine_frame (w\<lparr>ew_executed := x\<rparr>) = engine_frame w"
  "engine_frame (w\<lparr>ew_prompts := y\<rparr>) = engine_frame w" "engine_frame (w\<lparr>ew_workspace := z\<rparr>) = engine_frame w"
  by (simp_all add: engine_frame_def engine_tick_def)

lemma tick_fields [simp]:
  "ew_rows (engine_tick w) = ew_rows w" "ew_runs (engine_tick w) = ew_runs w" "ew_running (engine_tick w) = ew_running w"
  "ew_cache (engine_tick w) = ew_cache w" "ew_tasks (engine_tick w) = ew_tasks w" "ew_sent (engine_tick w) = ew_sent w"
  "ew_workspace (engine_tick w) = ew_workspace w" "ew_executed (engine_tick w) = ew_executed w"
  "ew_prompts (engine_tick w) = ew_prompts w" "ew_step (engine_tick w) = Suc (ew_step w)"
  by (simp_all add: engine_tick_def)

lemma tool_frame [simp]: "engine_frame (snd (execute_tool_for_routine env name params w)) = engine_frame w"
  by (simp add: execute_tool_for_routine_def Let_def split: option.split)

lemma tools_frame [simp]: "engine_frame (snd (run_routine_tools env tcs ctx w)) = engine_frame w"
  by (induction tcs arbitrary: ctx w) (simp_all add: split_beta Let_def)

lemma full_job_frame: "engine_frame (snd (full_job_loop env p m i ctx used w)) = engine_frame w"
proof (induction env p m i ctx used w rule: full_job_loop.induct)
  case (1 env p m i ctx used w)
  show ?case
    by (subst full_job_loop.simps)
      (auto simp: Let_def split_beta 1 split: sum.split respond_result.split prod.split)
qed

lemma prompt_frame [simp]: "engine_frame (snd (routine_prompt env w)) = engine_frame w"
  by (simp add: routine_prompt_def split_beta Let_def)

lemma execute_action_frame [simp]: "engine_frame (snd (execute_action env r w)) = engine_frame w"
  using prompt_frame [of env w] prompt_frame [of env "w\<lparr>ew_workspace := z\<rparr>" for z]
  by (auto simp: execute_action_def execute_lightweight_def execute_full_job_def split_beta Let_def full_job_frame
      split: routine_action.split prod.split option.split simp del: prompt_frame)

lemma execute_action_fields:
  assumes "execute_action env r w = (res, v)"
  shows "ew_rows v = ew_rows w" "ew_runs v = ew_runs w" "ew_running v = ew_running w" "ew_cache v = ew_cache w"
    "ew_tasks v = ew_tasks w" "ew_sent v = ew_sent w"
  using execute_action_frame [of env r w] assms by (simp_all add: engine_frame_def)

lemma task_step_tasks: "ew_tasks (snd (task_step env t w)) = ew_tasks w"
proof (cases t)
  case (Execute_Run r run)
  then show ?thesis
    using execute_action_fields(5) [of env r w] by (simp split: prod.split option.split)
next
  case (Scan_Events ch c rs)
  then show ?thesis by (cases rs) simp_all
next
  case (Scan_Cron rs)
  then show ?thesis by (cases rs) simp_all
qed (simp_all add: create_run_def complete_run_def update_runtime_def send_notification_def Let_def split: option.split)

subsection \<open>The counter\<close>

lemma handle_event_slots:
  "ew_running (handle_event env e w) = ew_running w" "slots_held (handle_event env e w) = slots_held w"
  by (cases e;
      auto simp: slots_held_def check_event_triggers_def check_cron_triggers_def refresh_event_cache_def fire_manual_def
        create_run_def Let_def split: sum.split option.split)+

text \<open>One step of a task: its slots before and after, and the counter.\<close>

lemma task_step_slots:
  assumes "task_step env t w = (cont, v)" and "holds_slot t \<Longrightarrow> 0 < ew_running w"
  shows "ew_running v + (if holds_slot t then 1 else 0) =
    ew_running w + length (filter holds_slot cont) +
    (case t of Execute_Run r run \<Rightarrow> if fst (execute_action env r w) = None then 1 else 0 | _ \<Rightarrow> 0)"
proof (cases t)
  case (Execute_Run r run)
  then show ?thesis
    using assms execute_action_fields(3) [of env r w] by (auto split: prod.splits option.splits)
next
  case (Scan_Events ch c rs)
  then show ?thesis using assms by (cases rs) (auto split: if_splits)
next
  case (Scan_Cron rs)
  then show ?thesis using assms by (cases rs) (auto split: if_splits)
qed (use assms in \<open>auto simp: create_run_def complete_run_def update_runtime_def send_notification_def Let_def
       split: option.splits if_splits sum.splits prod.splits\<close>)

lemma filter_replace:
  assumes "i < length ts"
  shows "length (filter P (take i ts @ cont @ drop (Suc i) ts)) + (if P (ts ! i) then 1 else 0) =
    length (filter P ts) + length (filter P cont)"
proof -
  have "filter P ts = filter P (take i ts @ ts ! i # drop (Suc i) ts)" using assms by (simp add: id_take_nth_drop [symmetric])
  then have "length (filter P ts) =
      length (filter P (take i ts)) + (if P (ts ! i) then 1 else 0) + length (filter P (drop (Suc i) ts))"
    by simp
  then show ?thesis by simp
qed

lemma engine_act_slots:
  assumes "ew_running w = slots_held w + n"
  shows "ew_running (engine_act env a w) = slots_held (engine_act env a w) + n + (if panics_at env a w then 1 else 0)"
proof (cases a)
  case (Handle e)
  then show ?thesis using assms handle_event_slots [of env e w] by simp
next
  case (Run_Task i)
  show ?thesis
  proof (cases "i < length (ew_tasks w)")
    case False
    then show ?thesis using assms Run_Task by (simp add: run_task_def)
  next
    case True
    let ?t = "ew_tasks w ! i"
    obtain cont v where v: "task_step env ?t w = (cont, v)" by fastforce
    have pos: "0 < ew_running w" if "holds_slot ?t"
    proof -
      have "?t \<in> set (filter holds_slot (ew_tasks w))" using that True by simp
      then show ?thesis using assms by (cases "filter holds_slot (ew_tasks w)") (auto simp: slots_held_def)
    qed
    have "panics_at env a w \<longleftrightarrow> (case ?t of Execute_Run r run \<Rightarrow> fst (execute_action env r w) = None | _ \<Rightarrow> False)"
      using Run_Task True by simp
    then show ?thesis
      using task_step_slots [OF v pos] filter_replace [OF True, of holds_slot cont] assms Run_Task True v
      by (simp add: run_task_def slots_held_def split: engine_task.splits if_splits)
  qed
qed

lemma engine_run_slots:
  "ew_running w = slots_held w + n \<Longrightarrow>
     ew_running (fold (engine_act env) as w) = slots_held (fold (engine_act env) as w) + n + count_panics env as w"
proof (induction as arbitrary: w n)
  case (Cons a as)
  then show ?case using engine_act_slots [OF Cons.prems, of env a] Cons.IH [of "engine_act env a w"] by fastforce
qed simp

subsection \<open>Tasks end\<close>

lemma task_step_weight: "sum_list (map task_weight (fst (task_step env t w))) < task_weight t"
proof (cases t)
  case (Scan_Events ch c rs)
  then show ?thesis by (cases rs) simp_all
next
  case (Scan_Cron rs)
  then show ?thesis by (cases rs) simp_all
qed (simp_all split: prod.split sum.split option.split)

lemma run_task_weight:
  assumes "i < length (ew_tasks w)"
  shows "engine_weight (run_task env i w) < engine_weight w"
proof -
  obtain cont v where v: "task_step env (ew_tasks w ! i) w = (cont, v)" by fastforce
  have "engine_weight w = sum_list (map task_weight (take i (ew_tasks w) @ ew_tasks w ! i # drop (Suc i) (ew_tasks w)))"
    using assms by (simp add: engine_weight_def id_take_nth_drop [symmetric])
  then show ?thesis
    using task_step_weight [of env "ew_tasks w ! i" w] assms v by (simp add: run_task_def engine_weight_def)
qed

lemma schedule_bounded: "valid_schedule env is w \<Longrightarrow> length is + engine_weight (fold (run_task env) is w) \<le> engine_weight w"
proof (induction "is" arbitrary: w)
  case (Cons i "is")
  then show ?case using Cons.IH [of "run_task env i w"] run_task_weight [of i w env] by fastforce
qed simp

subsection \<open>Tools and prompts\<close>

lemma unattended_tick [simp]: "unattended_ok env (engine_tick w) = unattended_ok env w"
  by (simp add: unattended_ok_def)

lemma unattended_workspace [simp]: "unattended_ok env (w\<lparr>ew_workspace := z\<rparr>) = unattended_ok env w"
  by (simp add: unattended_ok_def)

lemma unattended_prompt:
  "unattended_ok env w \<Longrightarrow> list_all (routine_may_read env) ctx \<Longrightarrow> unattended_ok env (w\<lparr>ew_prompts := ew_prompts w @ [ctx]\<rparr>)"
  by (auto simp: unattended_ok_def list_all_iff)

lemma execute_tool_ok:
  assumes "unattended_ok env w"
  shows "unattended_ok env (snd (execute_tool_for_routine env name params w))"
    and "routine_may_read env (cm_tool_result i name
      (case fst (execute_tool_for_routine env name params w) of Inr s \<Rightarrow> s | Inl e \<Rightarrow> ''Error: '' @ e))"
    and "length (ew_prompts (snd (execute_tool_for_routine env name params w))) = length (ew_prompts w)"
    and "ew_step w \<le> ew_step (snd (execute_tool_for_routine env name params w))"
  using assms
  by (auto simp: execute_tool_for_routine_def unattended_ok_def routine_may_read_def cm_tool_result_def Let_def
      split: option.split tool_outcome.split sum.split)

lemma run_tools_ok:
  assumes "unattended_ok env w" and "list_all (routine_may_read env) ctx" and "run_routine_tools env tcs ctx w = (ctx', v)"
  shows "unattended_ok env v \<and> list_all (routine_may_read env) ctx' \<and> length (ew_prompts v) = length (ew_prompts w) \<and>
    ew_step w \<le> ew_step v"
  using assms
proof (induction tcs arbitrary: ctx w)
  case (Cons tc tcs)
  let ?e = "execute_tool_for_routine env (tc_name tc) (tc_arguments tc) w"
  let ?m = "cm_tool_result (tc_id tc) (tc_name tc) (case fst ?e of Inr s \<Rightarrow> s | Inl e \<Rightarrow> ''Error: '' @ e)"
  have "run_routine_tools env tcs (ctx @ [?m]) (snd ?e) = (ctx', v)"
    using Cons.prems(3) by (simp add: split_beta Let_def)
  moreover have "unattended_ok env (snd ?e)" "list_all (routine_may_read env) (ctx @ [?m])"
    "length (ew_prompts (snd ?e)) = length (ew_prompts w)" "ew_step w \<le> ew_step (snd ?e)"
    using execute_tool_ok [OF Cons.prems(1)] Cons.prems(2) by simp_all
  ultimately show ?case using Cons.IH [of "snd ?e" "ctx @ [?m]"] by simp
qed simp

lemma answer_status_done [simp]: "answer_status c n \<noteq> Ok (RunRunning, rest)"
  by (simp add: answer_status_def)

lemma assistant_may_read: "routine_may_read env (cm_assistant_with_tool_calls c tcs)"
  by (simp add: routine_may_read_def cm_assistant_with_tool_calls_def)

lemma full_job_ok:
  assumes "unattended_ok env w" and "list_all (routine_may_read env) ctx" and "full_job_loop env p m i ctx used w = (res, v)"
  shows "unattended_ok env v \<and> length (ew_prompts v) \<le> length (ew_prompts w) + (m - i) \<and> ew_step w \<le> ew_step v \<and>
    (\<forall>out. res = Ok out \<longrightarrow> fst out \<noteq> RunRunning)"
  using assms
proof (induction env p m i ctx used w arbitrary: res v rule: full_job_loop.induct)
  case (1 env p m i ctx used w)
  let ?w1 = "engine_tick (w\<lparr>ew_prompts := ew_prompts w @ [ctx]\<rparr>)"
  let ?r = "re_respond env (ew_step w) p ctx (tool_definitions (re_tools env (ew_step w)))"
  have w1: "unattended_ok env ?w1" using unattended_prompt [OF 1(2,3)] by simp
  note eq = 1(4) [unfolded full_job_loop.simps [of env p m i ctx used w]]
  show ?case
  proof (cases "m < i + 1")
    case True
    then show ?thesis using eq 1(2) by auto
  next
    case False
    show ?thesis
    proof (cases "\<exists>tcs c a b. ?r = Inr (RToolCalls tcs c, a, b)")
      case True
      then obtain tcs c a b where r: "?r = Inr (RToolCalls tcs c, a, b)" by blast
      let ?ctx = "ctx @ [cm_assistant_with_tool_calls c tcs]"
      obtain ctx' w2 where t: "run_routine_tools env tcs ?ctx ?w1 = (ctx', w2)" by fastforce
      have ok: "unattended_ok env w2" "list_all (routine_may_read env) ctx'"
        "length (ew_prompts w2) = length (ew_prompts w) + 1" "ew_step w \<le> ew_step w2"
        using run_tools_ok [OF w1 _ t] 1(3) assistant_may_read by simp_all
      have rec: "full_job_loop env p m (i + 1) ctx' (used + uint (a + b)) w2 = (res, v)"
        using eq False r t by simp
      from 1(1) [OF refl False refl r refl refl refl refl refl t [symmetric] ok(1,2) rec] ok(3,4) False
      show ?thesis by auto
    next
      case no_tools: False
      have "v = ?w1 \<and> (\<forall>out. res = Ok out \<longrightarrow> fst out \<noteq> RunRunning)"
        using eq False no_tools
        by (auto simp: Let_def split: sum.splits respond_result.splits if_splits)
      then show ?thesis using w1 False by simp
    qed
  qed
qed

lemma prompt_ok [simp]:
  "unattended_ok env (snd (routine_prompt env w)) = unattended_ok env w"
  "ew_prompts (snd (routine_prompt env w)) = ew_prompts w" "ew_step (snd (routine_prompt env w)) = ew_step w"
  by (simp_all add: routine_prompt_def split_beta Let_def)

text \<open>The number of calls of the model that a routine may make.\<close>

definition max_model_calls :: "routine \<Rightarrow> nat" where
  "max_model_calls r = (case rt_action r of Lightweight _ _ _ \<Rightarrow> 1 | FullJob _ _ n \<Rightarrow> unat n)"

lemma user_may_read [simp]: "routine_may_read env (cm_user s)" "routine_may_read env (cm_system s)"
  by (simp_all add: routine_may_read_def)

lemma execute_full_job_ok:
  assumes "unattended_ok env w" and "execute_full_job env d n w = (res, v)"
  shows "unattended_ok env v \<and> length (ew_prompts v) \<le> length (ew_prompts w) + unat n \<and> ew_step w \<le> ew_step v \<and>
    (\<forall>out. res = Some (Ok out) \<longrightarrow> fst out \<noteq> RunRunning)"
proof -
  obtain p w1 where p: "routine_prompt env w = (p, w1)" by fastforce
  have w1: "unattended_ok env w1" "ew_prompts w1 = ew_prompts w" "ew_step w1 = ew_step w"
    using prompt_ok [of env w] assms(1) p by simp_all
  show ?thesis
  proof (cases p)
    case None
    then show ?thesis using assms(2) p w1 by (simp add: execute_full_job_def)
  next
    case (Some q)
    obtain r w2 where l: "full_job_loop env q (unat n) 0 [cm_user (initial_prompt d)] 0 w1 = (r, w2)" by fastforce
    then have "res = Some r" "v = w2" using assms(2) p Some by (simp_all add: execute_full_job_def)
    then show ?thesis using full_job_ok [OF w1(1) _ l] w1 by simp
  qed
qed

lemma lightweight_answer_done [simp]: "lightweight_answer response \<noteq> Ok (RunRunning, rest)"
  by (simp add: lightweight_answer_def Let_def)

lemma execute_lightweight_ok:
  assumes "unattended_ok env w" and "execute_lightweight env r prompt paths n w = (res, v)"
  shows "unattended_ok env v \<and> length (ew_prompts v) \<le> length (ew_prompts w) + 1 \<and> ew_step w \<le> ew_step v \<and>
    (\<forall>out. res = Some (Ok out) \<longrightarrow> fst out \<noteq> RunRunning)"
proof -
  define z where "z = snd (ws_read (re_workspace_env env) (re_workspace env) (''routines/'' @ rt_name r @ ''/state.md'')
    (snd (load_context env paths (ew_workspace w))))"
  obtain p w1 where p: "routine_prompt env (w\<lparr>ew_workspace := z\<rparr>) = (p, w1)" by fastforce
  have w1: "unattended_ok env w1" "ew_prompts w1 = ew_prompts w" "ew_step w1 = ew_step w"
    using prompt_ok [of env "w\<lparr>ew_workspace := z\<rparr>"] assms(1) p by simp_all
  show ?thesis
  proof (cases p)
    case None
    then show ?thesis using assms(2) p w1 by (simp add: execute_lightweight_def split_beta z_def Let_def)
  next
    case (Some q)
    define full where "full = lightweight_prompt prompt (fst (load_context env paths (ew_workspace w)))
      (case fst (ws_read (re_workspace_env env) (re_workspace env) (''routines/'' @ rt_name r @ ''/state.md'')
         (snd (load_context env paths (ew_workspace w)))) of Inr d \<Rightarrow> Some (md_content d) | Inl _ \<Rightarrow> None)"
    define ms where "ms = (if q = [] then [cm_user full] else [cm_system q, cm_user full])"
    have v: "v = engine_tick ((engine_tick w1)\<lparr>ew_prompts := ew_prompts (engine_tick w1) @ [ms]\<rparr>)"
      and res: "res = Some (case re_complete env (ew_step (engine_tick w1)) ms
          (effective_max_tokens (re_metadata env (ew_step w1)) n) of
        Inl e \<Rightarrow> Err (''LLM call failed: '' @ re_display_llm env e) | Inr response \<Rightarrow> lightweight_answer response)"
      using assms(2) p Some
      by (simp_all only: execute_lightweight_def split_beta z_def full_def ms_def Let_def prod.inject fst_conv snd_conv
          prod.case option.case)
    have "\<forall>out. res = Some (Ok out) \<longrightarrow> fst out \<noteq> RunRunning"
      by (auto simp: res split: sum.splits)
    moreover have "list_all (routine_may_read env) ms" by (simp add: ms_def)
    ultimately show ?thesis using unattended_prompt [of env "engine_tick w1" ms] w1 by (simp add: v)
  qed
qed

lemma execute_action_ok:
  assumes "unattended_ok env w" and "execute_action env r w = (res, v)"
  shows "unattended_ok env v \<and> length (ew_prompts v) \<le> length (ew_prompts w) + max_model_calls r \<and> ew_step w \<le> ew_step v \<and>
    (\<forall>out. res = Some (Ok out) \<longrightarrow> fst out \<noteq> RunRunning)"
proof (cases "rt_action r")
  case (Lightweight prompt paths n)
  then have e: "execute_lightweight env r prompt paths n w = (res, v)" and m: "max_model_calls r = 1"
    using assms(2) by (simp_all add: execute_action_def max_model_calls_def)
  show ?thesis unfolding m by (rule execute_lightweight_ok [OF assms(1) e])
next
  case (FullJob title d n)
  then have e: "execute_full_job env d n w = (res, v)" and m: "max_model_calls r = unat n"
    using assms(2) by (simp_all add: execute_action_def max_model_calls_def)
  show ?thesis unfolding m by (rule execute_full_job_ok [OF assms(1) e])
qed

lemma unattended_fields [simp]:
  "unattended_ok env (w\<lparr>ew_tasks := ts\<rparr>) = unattended_ok env w" "unattended_ok env (w\<lparr>ew_runs := xs\<rparr>) = unattended_ok env w"
  "unattended_ok env (w\<lparr>ew_rows := rs\<rparr>) = unattended_ok env w" "unattended_ok env (w\<lparr>ew_running := n\<rparr>) = unattended_ok env w"
  "unattended_ok env (w\<lparr>ew_sent := ns\<rparr>) = unattended_ok env w" "unattended_ok env (w\<lparr>ew_cache := cs\<rparr>) = unattended_ok env w"
  by (simp_all add: unattended_ok_def)

lemma task_step_unattended:
  assumes "unattended_ok env w"
  shows "unattended_ok env (snd (task_step env t w))"
proof (cases t)
  case (Execute_Run r run)
  then show ?thesis using execute_action_ok [OF assms] by (simp split: prod.split option.split)
next
  case (Scan_Events ch c rs)
  then show ?thesis using assms by (cases rs) simp_all
next
  case (Scan_Cron rs)
  then show ?thesis using assms by (cases rs) simp_all
qed (use assms in \<open>auto simp: create_run_def complete_run_def update_runtime_def send_notification_def Let_def split: option.split\<close>)

lemma engine_act_unattended:
  assumes "unattended_ok env w"
  shows "unattended_ok env (engine_act env a w)"
proof (cases a)
  case (Run_Task i)
  then show ?thesis
    using task_step_unattended [OF assms, of "ew_tasks w ! i"] assms by (simp add: run_task_def split_beta Let_def)
next
  case (Handle e)
  then show ?thesis
    using assms
    by (cases e) (simp_all add: check_event_triggers_def check_cron_triggers_def refresh_event_cache_def fire_manual_def
        create_run_def Let_def split: sum.split option.split)
qed

subsection \<open>Runs and their rows\<close>

lemma drawn_mono: "(n :: nat) \<le> m \<Longrightarrow> f ` {..<n} \<subseteq> f ` {..<m}"
  by auto

lemma run_coreD:
  assumes "run_core env P L runs n"
  shows "inj (re_uuid env)" "distinct (map run_id runs)" "distinct P" "distinct L" "run_id ` set runs \<inter> set P = {}"
    "run_id ` set runs \<subseteq> re_uuid env ` {..<n}" "set P \<subseteq> re_uuid env ` {..<n}"
    "set L \<subseteq> run_id ` {x \<in> set runs. run_state x = RunRunning}"
  using assms by (simp_all add: run_core_def)

lemma run_coreI:
  assumes "inj (re_uuid env)" "distinct (map run_id runs)" "distinct P" "distinct L" "run_id ` set runs \<inter> set P = {}"
    "run_id ` set runs \<subseteq> re_uuid env ` {..<n}" "set P \<subseteq> re_uuid env ` {..<n}"
    "set L \<subseteq> run_id ` {x \<in> set runs. run_state x = RunRunning}"
  shows "run_core env P L runs n"
  using assms by (simp add: run_core_def)

lemma run_core_less:
  assumes c: "run_core env P L runs n" and "n \<le> m" and P: "distinct P'" "set P' \<subseteq> set P" and L: "distinct L'" "set L' \<subseteq> set L"
  shows "run_core env P' L' runs m"
proof (rule run_coreI)
  show "run_id ` set runs \<inter> set P' = {}" using run_coreD(5) [OF c] P(2) by blast
  show "run_id ` set runs \<subseteq> re_uuid env ` {..<m}" "set P' \<subseteq> re_uuid env ` {..<m}"
    using run_coreD(6,7) [OF c] P(2) drawn_mono [OF assms(2), of "re_uuid env"] by (meson order_trans)+
  show "set L' \<subseteq> run_id ` {x \<in> set runs. run_state x = RunRunning}" using run_coreD(8) [OF c] L(2) by (rule order_trans [rotated])
qed (rule P L run_coreD [OF c])+

lemma run_core_fresh:
  assumes "run_core env P L runs n" and "n \<le> k"
  shows "re_uuid env k \<notin> run_id ` set runs" "re_uuid env k \<notin> set P" "re_uuid env k \<notin> set L"
proof -
  have "re_uuid env k \<notin> re_uuid env ` {..<n}"
    using assms by (auto simp: run_core_def dest: injD)
  then show "re_uuid env k \<notin> run_id ` set runs" "re_uuid env k \<notin> set P" "re_uuid env k \<notin> set L"
    using run_coreD(6,7,8) [OF assms(1)] by blast+
qed

lemma run_core_spawn:
  assumes c: "run_core env P L runs n" and P: "set P' = insert (re_uuid env n) (set P)" "distinct P'"
  shows "run_core env P' L runs (Suc n)"
proof (rule run_coreI)
  have m: "re_uuid env ` {..<n} \<subseteq> re_uuid env ` {..<Suc n}" by (rule drawn_mono) simp
  show "run_id ` set runs \<inter> set P' = {}"
    using run_coreD(5) [OF c] run_core_fresh(1) [OF c order_refl] by (simp add: P(1))
  show "run_id ` set runs \<subseteq> re_uuid env ` {..<Suc n}" using run_coreD(6) [OF c] m by (rule order_trans)
  show "set P' \<subseteq> re_uuid env ` {..<Suc n}" using run_coreD(7) [OF c] m P(1) by auto
qed (rule P run_coreD [OF c])+

text \<open>A run enters the table: it waited for its record, or its identifier is new.\<close>

lemma run_core_record:
  assumes c: "run_core env P L runs n" and "run_state run = RunRunning" and new: "run_id run \<notin> run_id ` set runs"
    and i: "run_id run \<in> re_uuid env ` {..<m}" and "n \<le> m"
    and P: "set P' = set P - {run_id run}" "distinct P'" and L: "set L' = insert (run_id run) (set L)" "distinct L'"
  shows "run_core env P' L' (runs @ [run]) m"
proof (rule run_coreI)
  have m: "re_uuid env ` {..<n} \<subseteq> re_uuid env ` {..<m}" using assms(5) by (rule drawn_mono)
  show "distinct (map run_id (runs @ [run]))" using run_coreD(2) [OF c] new by simp
  show "run_id ` set (runs @ [run]) \<inter> set P' = {}" using run_coreD(5) [OF c] P(1) by auto
  show "run_id ` set (runs @ [run]) \<subseteq> re_uuid env ` {..<m}" using run_coreD(6) [OF c] m i by auto
  show "set P' \<subseteq> re_uuid env ` {..<m}" using run_coreD(7) [OF c] m P(1) by auto
  show "set L' \<subseteq> run_id ` {x \<in> set (runs @ [run]). run_state x = RunRunning}"
    using run_coreD(8) [OF c] L(1) assms(2) by auto
qed (rule P L run_coreD(1) [OF c])+

text \<open>The row of one run changes; the other live runs keep theirs.\<close>

lemma run_core_complete:
  assumes "run_core env P L runs n" and "n \<le> m" and "set L' = set L - {i}" "distinct L'"
    and f: "\<And>x. run_id (f x) = run_id x" "\<And>x. run_id x \<noteq> i \<Longrightarrow> f x = x"
  shows "run_core env P L' (map f runs) m"
proof -
  have ids: "map run_id (map f runs) = map run_id runs" "run_id ` set (map f runs) = run_id ` set runs"
    using f(1) by (simp_all add: image_image)
  have "set L' \<subseteq> run_id ` {x \<in> set (map f runs). run_state x = RunRunning}"
  proof
    fix j
    assume j: "j \<in> set L'"
    then obtain x where "x \<in> set runs" "run_state x = RunRunning" "run_id x = j"
      using run_coreD(8) [OF assms(1)] assms(3) by blast
    moreover have "f x = x" using j assms(3) f(2) calculation(3) by blast
    ultimately show "j \<in> run_id ` {x \<in> set (map f runs). run_state x = RunRunning}" by force
  qed
  moreover have "re_uuid env ` {..<n} \<subseteq> re_uuid env ` {..<m}" using assms(2) by (rule drawn_mono)
  ultimately show ?thesis
    using run_coreD [OF assms(1)] assms(4) unfolding run_core_def ids by (simp only: simp_thms Un_subset_iff) (meson order_trans)
qed

text \<open>The identifiers of a list of tasks in which one task is replaced.\<close>

lemma middle_less: "distinct (x @ t @ y) \<Longrightarrow> c = t \<or> c = [] \<Longrightarrow> distinct (x @ c @ y) \<and> set (x @ c @ y) \<subseteq> set (x @ t @ y)"
  by auto

lemma middle_add: "distinct (x @ y) \<Longrightarrow> i \<notin> set (x @ y) \<Longrightarrow> distinct (x @ [i] @ y) \<and> set (x @ [i] @ y) = insert i (set (x @ y))"
  by auto

lemma middle_drop: "distinct (x @ [i] @ y) \<Longrightarrow> distinct (x @ y) \<and> set (x @ y) = set (x @ [i] @ y) - {i}"
  by auto

lemma concat_middle: "concat (map f (A @ cont @ B)) = concat (map f A) @ concat (map f cont) @ concat (map f B)"
  "concat (map f (A @ t # B)) = concat (map f A) @ f t @ concat (map f B)"
  by simp_all

lemma run_ok_same:
  assumes ok: "run_ok env (A @ t # B) runs n" and "n \<le> m"
    and "concat (map pending_run cont) = pending_run t \<or> concat (map pending_run cont) = []"
    and "concat (map live_run cont) = live_run t \<or> concat (map live_run cont) = []" and "list_all task_ok cont"
  shows "run_ok env (A @ cont @ B) runs m"
  unfolding run_ok_def
proof
  note core = ok [unfolded run_ok_def, THEN conjunct1, unfolded concat_middle]
  show "run_core env (concat (map pending_run (A @ cont @ B))) (concat (map live_run (A @ cont @ B))) runs m"
    unfolding concat_middle
    using run_core_less [OF core assms(2)] middle_less [OF run_coreD(3) [OF core] assms(3)]
      middle_less [OF run_coreD(4) [OF core] assms(4)] by blast
  show "list_all task_ok (A @ cont @ B)" using assms(1,5) by (simp add: run_ok_def)
qed

lemma run_ok_spawn:
  assumes ok: "run_ok env (A @ t # B) runs n" and t: "pending_run t = []" "live_run t = []" and "run_id run = re_uuid env n"
    and "run_state run = RunRunning" and "pending_run s = []" "live_run s = []" "task_ok s"
  shows "run_ok env (A @ [s, Record_Run r run] @ B) runs (Suc n)"
  unfolding run_ok_def
proof
  note core = ok [unfolded run_ok_def concat_middle t append_Nil, THEN conjunct1]
  have c: "concat (map pending_run [s, Record_Run r run]) = [re_uuid env n]" "concat (map live_run [s, Record_Run r run]) = []"
    using assms by simp_all
  show "run_core env (concat (map pending_run (A @ [s, Record_Run r run] @ B)))
      (concat (map live_run (A @ [s, Record_Run r run] @ B))) runs (Suc n)"
    unfolding concat_middle(1) c append_Nil
    using run_core_spawn [OF core] middle_add [OF run_coreD(3) [OF core] run_core_fresh(2) [OF core order_refl]] by blast
  show "list_all task_ok (A @ [s, Record_Run r run] @ B)" using assms by (simp add: run_ok_def)
qed

lemma run_ok_record:
  assumes ok: "run_ok env (A @ Record_Run r run # B) runs n" and "n \<le> m"
  shows "run_ok env (A @ [Begin_Run r run] @ B) (runs @ [run]) m"
  unfolding run_ok_def
proof
  note core = ok [unfolded run_ok_def concat_middle pending_run.simps live_run.simps append_Nil, THEN conjunct1]
  have new: "run_id run \<notin> run_id ` set runs" "run_id run \<in> re_uuid env ` {..<n}"
    using run_coreD(5,7) [OF core] by auto
  then have nl: "run_id run \<notin> set (concat (map live_run A) @ concat (map live_run B))"
    using run_coreD(8) [OF core] by blast
  have st: "run_state run = RunRunning" using ok by (simp add: run_ok_def)
  have i: "run_id run \<in> re_uuid env ` {..<m}" using new(2) drawn_mono [OF assms(2), of "re_uuid env"] by blast
  have c: "concat (map pending_run [Begin_Run r run]) = []" "concat (map live_run [Begin_Run r run]) = [run_id run]" by simp_all
  show "run_core env (concat (map pending_run (A @ [Begin_Run r run] @ B))) (concat (map live_run (A @ [Begin_Run r run] @ B))) (runs @ [run]) m"
    unfolding concat_middle(1) c append_Nil
    using run_core_record [OF core st new(1) i assms(2)] middle_drop [OF run_coreD(3) [OF core]]
      middle_add [OF run_coreD(4) [OF core] nl] by blast
  show "list_all task_ok (A @ [Begin_Run r run] @ B)" using assms(1) by (simp add: run_ok_def)
qed

lemma run_ok_complete:
  assumes ok: "run_ok env (A @ Complete_Run r run out # B) runs n" and "n \<le> m"
    and f: "\<And>x. run_id (f x) = run_id x" "\<And>x. run_id x \<noteq> run_id run \<Longrightarrow> f x = x"
  shows "run_ok env (A @ [Update_Run r run out] @ B) (map f runs) m"
  unfolding run_ok_def
proof
  note core = ok [unfolded run_ok_def concat_middle pending_run.simps live_run.simps append_Nil, THEN conjunct1]
  have c: "concat (map pending_run [Update_Run r run out]) = []" "concat (map live_run [Update_Run r run out]) = []" by simp_all
  show "run_core env (concat (map pending_run (A @ [Update_Run r run out] @ B))) (concat (map live_run (A @ [Update_Run r run out] @ B))) (map f runs) m"
    unfolding concat_middle(1) c append_Nil
    using run_core_complete [OF core assms(2) _ _ f] middle_drop [OF run_coreD(4) [OF core]] by blast
  show "list_all task_ok (A @ [Update_Run r run out] @ B)" using assms(1) by (simp add: run_ok_def)
qed

lemma run_ok_manual:
  assumes ok: "run_ok env ts runs n" and "run_id run = re_uuid env k" and "n \<le> k" and "k < m" and "run_state run = RunRunning"
  shows "run_ok env (ts @ [Begin_Run r run]) (runs @ [run]) m"
  unfolding run_ok_def
proof
  note core = ok [unfolded run_ok_def, THEN conjunct1]
  note new = run_core_fresh [OF core assms(3), folded assms(2)]
  have i: "run_id run \<in> re_uuid env ` {..<m}" using assms(2,4) by simp
  show "run_core env (concat (map pending_run (ts @ [Begin_Run r run]))) (concat (map live_run (ts @ [Begin_Run r run]))) (runs @ [run]) m"
    using run_core_record [OF core assms(5) new(1) i, of "concat (map pending_run ts)" "concat (map live_run ts) @ [run_id run]"]
      assms(3,4) new(2,3) run_coreD(3,4) [OF core] by simp
  show "list_all task_ok (ts @ [Begin_Run r run])" using ok by (simp add: run_ok_def)
qed

lemma run_ok_quiet:
  assumes "run_ok env (A @ t # B) (ew_runs w) (ew_step w)"
    and "ew_runs v = ew_runs w \<and> ew_step w \<le> ew_step v \<and> concat (map pending_run cont) = [] \<and>
      concat (map live_run cont) = [] \<and> list_all task_ok cont"
  shows "run_ok env (A @ cont @ B) (ew_runs v) (ew_step v)"
  using run_ok_same [OF assms(1)] assms(2) by metis

text \<open>A step of one task among the others.\<close>

lemma run_ok_step:
  assumes ok: "run_ok env (A @ t # B) (ew_runs w) (ew_step w)" and un: "unattended_ok env w" and s: "task_step env t w = (cont, v)"
  shows "run_ok env (A @ cont @ B) (ew_runs v) (ew_step v)"
proof (cases t)
  case (Scan_Events ch c rs)
  then show ?thesis using s by (intro run_ok_quiet [OF ok], cases rs) (auto split: if_splits)
next
  case (Decide_Event ch c r free rs)
  show ?thesis
  proof (cases "free \<and> ew_running w < re_max_routines env")
    case True
    then have "cont = [Scan_Events ch c rs, Record_Run r (new_run env r ''event'' (Some (truncate_detail c 200)) w)]"
      "v = engine_tick w" using s Decide_Event by auto
    then show ?thesis using run_ok_spawn [OF ok] Decide_Event by (simp add: new_run_def)
  next
    case False
    then have "cont = [Scan_Events ch c rs]" "v = w" using s Decide_Event by auto
    then show ?thesis using run_ok_same [OF ok order_refl, of "[Scan_Events ch c rs]"] by simp
  qed
next
  case (Scan_Cron rs)
  then show ?thesis using s by (intro run_ok_quiet [OF ok], cases rs) (auto split: if_splits)
next
  case (Decide_Cron r free rs)
  show ?thesis
  proof (cases free)
    case True
    then have "cont = [Scan_Cron rs, Record_Run r (new_run env r ''cron'' (case rt_trigger r of TrCron s \<Rightarrow> Some s | _ \<Rightarrow> None) w)]"
      "v = engine_tick w" using s Decide_Cron by auto
    then show ?thesis using run_ok_spawn [OF ok] Decide_Cron by (simp add: new_run_def)
  next
    case False
    then have "cont = [Scan_Cron rs]" "v = w" using s Decide_Cron by auto
    then show ?thesis using run_ok_same [OF ok order_refl, of "[Scan_Cron rs]"] by simp
  qed
next
  case (Record_Run r run)
  show ?thesis
  proof (cases "re_db_fails env (ew_step w)")
    case None
    then have "cont = [Begin_Run r run]" "v = engine_tick (w\<lparr>ew_runs := ew_runs w @ [run]\<rparr>)"
      using s Record_Run by (auto simp: create_run_def)
    then show ?thesis using run_ok_record [of env A r run B] ok Record_Run by simp
  next
    case (Some e)
    then have "cont = []" "v = engine_tick w" using s Record_Run by (auto simp: create_run_def)
    then show ?thesis using run_ok_same [OF ok, of _ "[]"] by simp
  qed
next
  case (Begin_Run r run)
  then show ?thesis using s run_ok_same [OF ok order_refl, of "[Execute_Run r run]"] by auto
next
  case (Execute_Run r run)
  obtain res u where e: "execute_action env r w = (res, u)" by fastforce
  note x = execute_action_ok [OF un e] execute_action_fields(2) [OF e]
  show ?thesis
  proof (cases res)
    case None
    then have "cont = []" "v = u" using s Execute_Run e by auto
    then show ?thesis using run_ok_same [OF ok, of _ "[]"] x by simp
  next
    case (Some y)
    then have "cont = [Release_Run r run (case y of Inr out \<Rightarrow> out | Inl e \<Rightarrow> (RunFailed, Some e, None))]" "v = u"
      using s Execute_Run e by auto
    then show ?thesis using run_ok_same [OF ok, of "ew_step u" cont] x Execute_Run Some by (auto split: sum.split)
  qed
next
  case (Release_Run r run out)
  then have "task_ok t" using ok by (simp add: run_ok_def)
  then show ?thesis using s Release_Run run_ok_same [OF ok order_refl, of "[Complete_Run r run out]"] by auto
next
  case (Complete_Run r run out)
  show ?thesis
  proof (cases "re_db_fails env (ew_step w)")
    case None
    let ?f = "\<lambda>x. if run_id x = run_id run
      then x\<lparr>run_completed_at := Some (re_now env (ew_step w)), run_state := fst out, run_result_summary := fst (snd out),
             run_tokens_used := snd (snd out)\<rparr> else x"
    have "cont = [Update_Run r run out]" "ew_runs v = map ?f (ew_runs w)" "ew_step v = Suc (ew_step w)"
      using None s Complete_Run by (auto simp: complete_run_def)
    then show ?thesis using run_ok_complete [of env A r run out B "ew_runs w" "ew_step w" "Suc (ew_step w)" ?f] ok Complete_Run by simp
  next
    case (Some e)
    then have "cont = [Update_Run r run out]" "v = engine_tick w" using s Complete_Run by (auto simp: complete_run_def)
    then show ?thesis using run_ok_same [OF ok, of _ "[Update_Run r run out]"] by simp
  qed
next
  case (Update_Run r run out)
  then show ?thesis
    using s by (intro run_ok_quiet [OF ok]) (auto simp: update_runtime_def Let_def split: option.splits)
next
  case (Notify_Run r out)
  then show ?thesis using s by (intro run_ok_quiet [OF ok]) (auto simp: send_notification_def split: if_splits)
qed

lemma handle_event_runs:
  assumes ok: "runs_ok env w"
  shows "runs_ok env (handle_event env e w)" "set (ew_runs w) \<subseteq> set (ew_runs (handle_event env e w))"
proof -
  have same: "run_ok env (ew_tasks w @ ts) (ew_runs w) m"
    if "ew_step w \<le> m" "concat (map pending_run ts) = []" "concat (map live_run ts) = []" "list_all task_ok ts" for ts m
  proof -
    note core = ok [unfolded runs_ok_def run_ok_def, THEN conjunct1]
    show ?thesis
      unfolding run_ok_def map_append concat_append that(2,3) append_Nil2
      using run_core_less [OF core that(1) run_coreD(3) [OF core] order_refl run_coreD(4) [OF core] order_refl] ok that(4)
      by (simp add: runs_ok_def run_ok_def)
  qed
  note same0 = same [of _ "[]", simplified]
  have m: "run_ok env (ew_tasks w @ [Begin_Run r run]) (ew_runs w @ [run]) m"
    if "run_id run = re_uuid env k" "ew_step w \<le> k" "k < m" "run_state run = RunRunning" for r run k m
    using run_ok_manual [OF _ that] ok by (simp add: runs_ok_def)
  have manual: "runs_ok env (snd (fire_manual env i w)) \<and> set (ew_runs w) \<subseteq> set (ew_runs (snd (fire_manual env i w)))" for i
    using same0 m
    by (auto simp: fire_manual_def create_run_def runs_ok_def new_run_def Let_def split: sum.split option.split)
  show "runs_ok env (handle_event env e w)" "set (ew_runs w) \<subseteq> set (ew_runs (handle_event env e w))"
    using same same0 manual
    by (cases e; auto simp: runs_ok_def check_event_triggers_def check_cron_triggers_def refresh_event_cache_def split: sum.split)+
qed

lemma split_task: "i < length ts \<Longrightarrow> ts = take i ts @ ts ! i # drop (Suc i) ts"
  by (rule id_take_nth_drop)

lemma engine_act_runs_ok:
  assumes "runs_ok env w" and "unattended_ok env w"
  shows "runs_ok env (engine_act env a w)"
proof (cases a)
  case (Handle e)
  then show ?thesis using handle_event_runs [OF assms(1)] by simp
next
  case (Run_Task i)
  show ?thesis
  proof (cases "i < length (ew_tasks w)")
    case True
    let ?t = "ew_tasks w ! i"
    obtain cont v where v: "task_step env ?t w = (cont, v)" by fastforce
    have "run_ok env (take i (ew_tasks w) @ ?t # drop (Suc i) (ew_tasks w)) (ew_runs w) (ew_step w)"
      using assms(1) split_task [OF True] by (simp add: runs_ok_def)
    from run_ok_step [OF this assms(2) v] show ?thesis
      using Run_Task True v by (simp add: run_task_def runs_ok_def)
  qed (use assms Run_Task in \<open>simp add: run_task_def\<close>)
qed

text \<open>A row that is no longer running: only its own task could write it, and that task is past it.\<close>

lemma task_step_finished:
  assumes ok: "runs_ok env w" and "t \<in> set (ew_tasks w)" and x: "x \<in> set (ew_runs w)" "run_state x \<noteq> RunRunning"
  shows "x \<in> set (ew_runs (snd (task_step env t w)))"
proof (cases t)
  case (Complete_Run r run out)
  note core = ok [unfolded runs_ok_def run_ok_def, THEN conjunct1]
  have "run_id run \<in> set (concat (map live_run (ew_tasks w)))" using assms(2) Complete_Run by force
  then have "run_id run \<in> run_id ` {x \<in> set (ew_runs w). run_state x = RunRunning}"
    by (rule subsetD [OF run_coreD(8) [OF core]])
  then obtain y where y: "y \<in> set (ew_runs w)" "run_id run = run_id y" "run_state y = RunRunning" by blast
  have "run_id x \<noteq> run_id run" using x y run_coreD(2) [OF core] by (auto simp: distinct_map inj_on_def)
  then show ?thesis using x(1) Complete_Run by (auto simp: complete_run_def image_iff intro: bexI [of _ x] split: option.split)
next
  case (Execute_Run r run)
  then show ?thesis using x(1) execute_action_fields(2) [of env r w] by (simp split: prod.split option.split)
next
  case (Scan_Events ch c rs)
  then show ?thesis using x(1) by (cases rs) simp_all
next
  case (Scan_Cron rs)
  then show ?thesis using x(1) by (cases rs) simp_all
qed (use x(1) in \<open>auto simp: create_run_def update_runtime_def send_notification_def Let_def split: option.split\<close>)

lemma engine_act_finished:
  assumes "runs_ok env w" and "x \<in> set (ew_runs w)" "run_state x \<noteq> RunRunning"
  shows "x \<in> set (ew_runs (engine_act env a w))"
proof (cases a)
  case (Handle e)
  then show ?thesis using handle_event_runs(2) [OF assms(1), of e] assms(2) by auto
next
  case (Run_Task i)
  then show ?thesis
    using task_step_finished [OF assms(1) _ assms(2,3), of "ew_tasks w ! i"] assms(2) by (simp add: run_task_def split_beta Let_def)
qed

lemma engine_new_ok:
  "table_ok env runs n \<Longrightarrow> runs_ok env (engine_new rows runs ww n)" "unattended_ok env (engine_new rows runs ww n)"
  "\<forall>x \<in> set runs. run_state x \<noteq> RunRunning \<Longrightarrow> runs_tracked (engine_new rows runs ww n)"
  "ew_running (engine_new rows runs ww n) = slots_held (engine_new rows runs ww n) + 0"
  by (simp_all add: runs_ok_def run_ok_def run_core_def engine_new_def unattended_ok_def runs_tracked_def slots_held_def table_ok_def)

lemma engine_reaches_ok:
  assumes "engine_reaches env w v" and "runs_ok env w" "unattended_ok env w"
  shows "runs_ok env v \<and> unattended_ok env v"
  using assms by (induction rule: engine_reaches.induct) (simp_all add: engine_act_runs_ok engine_act_unattended)

text \<open>With a database whose calls succeed, a step that does not panic leaves no running row without a task.\<close>

lemma task_step_tracked:
  assumes ok: "run_ok env (A @ t # B) (ew_runs w) (ew_step w)" and db: "re_db_fails env = (\<lambda>_. None)"
    and s: "task_step env t w = (cont, v)" and np: "\<And>r run. t = Execute_Run r run \<Longrightarrow> fst (execute_action env r w) \<noteq> None"
    and tr: "\<forall>x \<in> set (ew_runs w). run_state x = RunRunning \<longrightarrow> run_id x \<in> set (concat (map live_run (A @ t # B)))"
  shows "\<forall>x \<in> set (ew_runs v). run_state x = RunRunning \<longrightarrow> run_id x \<in> set (concat (map live_run (A @ cont @ B)))"
proof (cases t)
  case (Scan_Events ch c rs)
  then show ?thesis using s tr by (cases rs) (auto split: if_splits)
next
  case (Scan_Cron rs)
  then show ?thesis using s tr by (cases rs) (auto split: if_splits)
next
  case (Execute_Run r run)
  obtain res u where e: "execute_action env r w = (res, u)" by fastforce
  then obtain y where "res = Some y" using np [OF Execute_Run] by auto
  then show ?thesis using s tr Execute_Run e execute_action_fields(2) [OF e] by auto
next
  case (Complete_Run r run out)
  have "fst out \<noteq> RunRunning" using ok Complete_Run by (simp add: run_ok_def)
  then show ?thesis using s tr Complete_Run db by (auto simp: complete_run_def split: if_splits) blast
qed (use s tr db in \<open>auto simp: create_run_def update_runtime_def send_notification_def Let_def split: if_splits\<close>)

lemma engine_act_tracked:
  assumes "runs_ok env w" and "runs_tracked w" and db: "re_db_fails env = (\<lambda>_. None)" and "\<not> panics_at env a w"
  shows "runs_tracked (engine_act env a w)"
proof (cases a)
  case (Handle e)
  then show ?thesis
    using assms(2) db
    by (cases e) (auto simp: runs_tracked_def check_event_triggers_def check_cron_triggers_def refresh_event_cache_def
        fire_manual_def create_run_def Let_def split: sum.split option.split)
next
  case (Run_Task i)
  show ?thesis
  proof (cases "i < length (ew_tasks w)")
    case True
    let ?A = "take i (ew_tasks w)" and ?t = "ew_tasks w ! i" and ?B = "drop (Suc i) (ew_tasks w)"
    obtain cont v where v: "task_step env ?t w = (cont, v)" by fastforce
    have ok: "run_ok env (?A @ ?t # ?B) (ew_runs w) (ew_step w)"
      using assms(1) split_task [OF True] by (simp add: runs_ok_def)
    have tr: "\<forall>x \<in> set (ew_runs w). run_state x = RunRunning \<longrightarrow> run_id x \<in> set (concat (map live_run (?A @ ?t # ?B)))"
      using assms(2) split_task [OF True] by (simp only: runs_tracked_def)
    have np: "fst (execute_action env r w) \<noteq> None" if "?t = Execute_Run r run" for r run
      using assms(4) Run_Task True that by simp
    show ?thesis
      using task_step_tracked [OF ok db v np tr] Run_Task True v by (simp add: run_task_def runs_tracked_def)
  qed (use assms Run_Task in \<open>simp add: run_task_def\<close>)
qed

lemma engine_run_tracked:
  assumes "runs_ok env w" "unattended_ok env w" "runs_tracked w" and db: "re_db_fails env = (\<lambda>_. None)" and "count_panics env as w = 0"
  shows "runs_tracked (fold (engine_act env) as w)"
  using assms
proof (induction as arbitrary: w)
  case (Cons a as)
  then have "\<not> panics_at env a w" "count_panics env as (engine_act env a w) = 0" by (auto split: if_splits)
  then show ?case
    using Cons.IH [of "engine_act env a w"] engine_act_tracked [OF Cons.prems(1,3) db] Cons.prems
      engine_act_runs_ok engine_act_unattended by simp
qed simp

subsection \<open>The cache\<close>

lemma task_step_cache: "ew_cache (snd (task_step env t w)) = ew_cache w"
proof (cases t)
  case (Execute_Run r run)
  then show ?thesis
    using execute_action_fields(4) [of env r w] by (simp split: prod.split option.split)
next
  case (Scan_Events ch c rs)
  then show ?thesis by (cases rs) simp_all
next
  case (Scan_Cron rs)
  then show ?thesis by (cases rs) simp_all
qed (simp_all add: create_run_def complete_run_def update_runtime_def send_notification_def Let_def split: option.split)

lemma engine_act_cache: "a \<noteq> Handle Cache_Refresh \<Longrightarrow> ew_cache (engine_act env a w) = ew_cache w"
proof (cases a)
  case (Run_Task i)
  then show ?thesis using task_step_cache [of env "ew_tasks w ! i" w] by (simp add: run_task_def split_beta Let_def)
next
  case (Handle e)
  then show "a \<noteq> Handle Cache_Refresh \<Longrightarrow> ?thesis"
    by (cases e) (simp_all add: check_event_triggers_def check_cron_triggers_def fire_manual_def create_run_def Let_def
        split: sum.split option.split)
qed

subsection \<open>The workspace behind a routine\<close>

lemma load_context_contents: "contents (snd (load_context env ps ww)) = contents ww"
proof (induction ps arbitrary: ww)
  case (Cons p ps)
  then show ?case by (simp add: split_beta Let_def)
qed simp

text \<open>A memory file that makes the system prompt panic makes every routine panic.\<close>

lemma routine_panics:
  assumes "quiet_engine (re_workspace_env env)"
    and "contents (ew_workspace w) (ws_key (re_workspace env) ''MEMORY.md'') = Some text" and "memory_section text = None"
  shows "fst (execute_action env r w) = None"
proof -
  have p: "fst (routine_prompt env u) = None" if "contents (ew_workspace u) = contents (ew_workspace w)" for u
    using system_prompt_None [OF assms(1), of "re_workspace env" "ew_workspace u"] assms(2,3) that
    by (simp add: routine_prompt_def split_beta Let_def)
  have p2: "fst (routine_prompt env (w\<lparr>ew_workspace := snd (ws_read (re_workspace_env env) (re_workspace env) q
      (snd (load_context env ps (ew_workspace w))))\<rparr>)) = None" for q ps
    by (rule p) (simp add: load_context_contents)
  show ?thesis
  proof (cases "rt_action r")
    case (Lightweight prompt paths n)
    then show ?thesis
      using p2 [of "''routines/'' @ rt_name r @ ''/state.md''" paths]
      by (simp add: execute_action_def execute_lightweight_def split_beta Let_def split: prod.split option.split)
  next
    case (FullJob title d n)
    then show ?thesis
      using p [OF refl] by (cases "routine_prompt env w") (simp add: execute_action_def execute_full_job_def)
  qed
qed

section \<open>Properties\<close>

text \<open>An engine with room for one routine, a routine for every message, and a model that finds nothing.\<close>

definition example_env :: routine_env where
  "example_env =
     \<lparr>re_now = \<lambda>n. 1000, re_uuid = \<lambda>n. n, re_show_uuid = show_nat, re_db_fails = \<lambda>_. None, re_regex_ok = \<lambda>_. True,
      re_is_match = \<lambda>_ _. True, re_cron = \<lambda>_ _. Ok None, re_as_u64 = read_decimal,
      re_complete = \<lambda>_ _ _. Ok \<lparr>rsp_content = ''ROUTINE_OK'', rsp_input_tokens = 1, rsp_output_tokens = 1,
        rsp_finish_reason = Stop, rsp_response_id = None\<rparr>,
      re_metadata = \<lambda>_. Ok None, re_respond = \<lambda>_ _ _ _. Ok (RText ''ROUTINE_OK'', 1, 1), re_display_llm = \<lambda>_. ''error'',
      re_display_tool_error = \<lambda>_. ''error'', re_show_duration = show_nat, re_tools = \<lambda>_. tr_new, re_execute = \<lambda>_ _ _. OutTimeout,
      re_json_pretty = \<lambda>_. Ok ''null'', re_safety = sl_new (\<lambda>_. True) \<lparr>sfc_max_output_length = 100, sfc_injection_check_enabled = True\<rparr>,
      re_policy_match = \<lambda>_ _. False, re_ac = undefined, re_rx = undefined, re_workspace = workspace_new ''ann'',
      re_workspace_env = sample_env, re_max_routines = 1\<rparr>"

definition example_routine :: routine where
  "example_routine =
     \<lparr>rt_id = 7, rt_name = ''watch'', rt_description = [], rt_user_id = ''ann'', rt_enabled = True,
      rt_trigger = TrEvent None ''.*'', rt_action = Lightweight ''check'' [] 100, rt_guardrails = guardrails_default,
      rt_notify = notify_default, rt_last_run_at = None, rt_next_fire_at = None, rt_run_count = 0,
      rt_consecutive_failures = 0, rt_state = JNull, rt_created_at = 0, rt_updated_at = 0\<rparr>"

definition example_engine :: engine_world where
  "example_engine = engine_new [create_routine_row example_routine] [] empty_world 0"

lemma example_fields:
  "re_now example_env n = 1000" "re_uuid example_env n = n" "re_db_fails example_env n = None" "re_is_match example_env p s"
  "re_max_routines example_env = 1" "rt_id example_routine = 7" "rt_last_run_at example_routine = None"
  "rt_trigger example_routine = TrEvent None ''.*''" "gr_max_concurrent (rt_guardrails example_routine) = 1"
  by (simp_all add: example_env_def example_routine_def guardrails_default_def)

lemma example_row: "row_to_routine read_decimal (create_routine_row example_routine) = Ok example_routine"
  by (subst row_roundtrip) (simp_all add: read_decimal_literals example_routine_def guardrails_default_def)

lemma example_refresh:
  "engine_act example_env (Handle Cache_Refresh) (engine_new [create_routine_row example_routine] [] ww 0) =
     (engine_new [create_routine_row example_routine] [] ww 0)\<lparr>ew_cache := [example_routine], ew_step := 1\<rparr>"
  by (simp add: engine_new_def refresh_event_cache_def list_event_routines_def query_rows_def example_env_def
      example_row engine_tick_def) (simp add: create_routine_row_def example_routine_def as_i64_bool_def)

text \<open>C16: the counter of running routines is the number of tasks that hold a slot and the number of tasks that panicked: a slot is never given back twice, but a panic keeps its slot for ever.\<close>

theorem running_count_exact:
  "ew_running (fold (engine_act env) as (engine_new rows runs ww n)) =
     slots_held (fold (engine_act env) as (engine_new rows runs ww n)) + count_panics env as (engine_new rows runs ww n)"
  using engine_run_slots [OF engine_new_ok(4)] by simp


definition bad_memory :: string where
  "bad_memory = [newline, newline, newline] @ replicate 1999 (CHR ''x'') @ ellipsis"

definition bad_world :: workspace_world where
  "bad_world = exec_file sample_env (workspace_new ''ann'') (Write_File ''MEMORY.md'' bad_memory) empty_world"


text \<open>C17: a run that has ended stays as it is: whatever the tasks do and in whatever order, its row is not written again.\<close>

theorem finished_runs_stay:
  assumes "table_ok env runs n" and "engine_reaches env (engine_new rows runs ww n) w"
    and "x \<in> set (ew_runs w)" "run_state x \<noteq> RunRunning" and "engine_reaches env w v"
  shows "x \<in> set (ew_runs v)"
proof -
  have w: "runs_ok env w" "unattended_ok env w"
    using engine_reaches_ok [OF assms(2) engine_new_ok(1) [OF assms(1)] engine_new_ok(2)] by simp_all
  have "x \<in> set (ew_runs v) \<and> runs_ok env v \<and> unattended_ok env v"
    using assms(5,3,4) w
    by (induction rule: engine_reaches.induct) (simp_all add: engine_act_finished engine_act_runs_ok engine_act_unattended)
  then show ?thesis by simp
qed

definition finished_run :: routine_run where
  "finished_run =
     \<lparr>run_id = 3, run_routine_id = 7, run_trigger_type = ''cron'', run_trigger_detail = None, run_started_at = 0,
      run_completed_at = Some 1, run_state = RunOk, run_result_summary = None, run_tokens_used = None, run_job_id = None,
      run_created_at = 0\<rparr>"

lemma finished_table: "table_ok example_env [finished_run] 5"
  by (simp add: table_ok_def example_env_def finished_run_def image_def)

theorem finished_runs_stay_witness:
  "finished_run \<in> set (ew_runs (engine_act example_env (Handle (Manual_Fire 7))
     (engine_new [create_routine_row example_routine] [finished_run] empty_world 5)))"
  by (rule finished_runs_stay [OF finished_table reaches_start _ _ reaches_step [OF reaches_start]])
    (simp_all add: engine_new_def finished_run_def)



text \<open>C15: a routine runs unattended: whatever the model asks for, no tool that needs approval is executed, every executed call has valid parameters, what the model reads of a tool is an error or sanitized and wrapped output, and a run calls the model at most as often as its action allows.\<close>

theorem routine_tools_unattended:
  assumes "engine_reaches env (engine_new rows runs ww n) w" and "execute_action env r w = (res, v)"
  shows "(\<forall>(t, params) \<in> set (ew_executed v). \<not> tool_requires_approval t \<and>
        vr_is_valid (validate_tool_params (sl_validator (re_safety env)) params)) \<and>
    (\<forall>ctx \<in> set (ew_prompts v). \<forall>m \<in> set ctx. routine_may_read env m) \<and>
    length (ew_prompts v) \<le> length (ew_prompts w) + max_model_calls r"
proof -
  have "unattended_ok env w"
    using assms(1) by (induction rule: engine_reaches.induct) (simp_all add: engine_new_ok engine_act_unattended)
  from execute_action_ok [OF this assms(2)] show ?thesis by (simp add: unattended_ok_def)
qed

theorem routine_tools_unattended_witness:
  "length (ew_prompts (snd (execute_action example_env example_routine example_engine))) \<le> 1"
  using routine_tools_unattended [OF reaches_start, of example_env example_routine "[create_routine_row example_routine]" "[]" empty_world 0]
  by (cases "execute_action example_env example_routine example_engine")
    (simp add: example_engine_def engine_new_def max_model_calls_def example_routine_def)

text \<open>The limits on concurrent runs do not hold: a run is counted when its task gets to it, not when it is started, so two messages that arrive together start one routine twice although one run is the limit for the routine and for the engine.\<close>

theorem concurrent_limit_exceeded:
  "\<exists>as. let w = fold (engine_act example_env) as example_engine
     in ew_running w = 2 \<and> re_max_routines example_env = 1 \<and> running_runs (rt_id example_routine) w = 2 \<and>
        gr_max_concurrent (rt_guardrails example_routine) = 1"
proof
  let ?as = "[Handle Cache_Refresh, Handle (Message_Arrives ''cli'' ''a''), Handle (Message_Arrives ''cli'' ''b''),
    Run_Task 0, Run_Task 1, Run_Task 0, Run_Task 2, Run_Task 1, Run_Task 3, Run_Task 1, Run_Task 3]"
  show "let w = fold (engine_act example_env) ?as example_engine
     in ew_running w = 2 \<and> re_max_routines example_env = 1 \<and> running_runs (rt_id example_routine) w = 2 \<and>
        gr_max_concurrent (rt_guardrails example_routine) = 1"
    by (simp only: fold_simps comp_apply example_engine_def example_refresh)
      (simp add: check_event_triggers_def engine_new_def run_task_def event_matches_def check_cooldown_def
        check_concurrent_def running_runs_def new_run_def example_env_def example_routine_def engine_tick_def truncate_detail_def
        create_run_def guardrails_default_def)
qed

text \<open>The cooldown does not hold for routines that wait for messages: the cache that the scan reads keeps the time of the last run from when it was filled. As long as the cache is not filled again, a routine that had not run by then passes the check at any time, however often it has run since.\<close>

theorem event_cooldown_ignored:
  assumes "r \<in> set (ew_cache w)" and "rt_last_run_at r = None" and "Handle Cache_Refresh \<notin> set as"
    and "v = fold (engine_act env) as w"
  shows "r \<in> set (ew_cache v) \<and>
    (event_matches env ch c r \<longrightarrow>
       task_step env (Scan_Events ch c (r # rs)) v = ([Decide_Event ch c r (check_concurrent env r v) rs], engine_tick v))"
proof -
  have "ew_cache v = ew_cache w"
    unfolding assms(4) using assms(3) by (induction as arbitrary: w) (auto simp: engine_act_cache)
  then show ?thesis using assms(1,2) by (simp add: check_cooldown_def)
qed

theorem event_cooldown_ignored_witness:
  "example_routine \<in> set (ew_cache (fold (engine_act example_env) (replicate 20 (Run_Task 0)) (example_engine\<lparr>ew_cache := [example_routine]\<rparr>)))"
  using event_cooldown_ignored [of example_routine "example_engine\<lparr>ew_cache := [example_routine]\<rparr>" "replicate 20 (Run_Task 0)"]
  by (simp add: example_routine_def)

end
