(* ===== verification/Job_Worker.thy ===== *)
theory Job_Worker
  imports Agent_Turn Text_Paths
begin

text \<open>
  The worker of a job, \<open>src/agent/worker.rs\<close>: it plans or selects tools with the language model,
  executes them and marks the job as completed, failed or stuck.

  A worker runs beside the other workers, the scheduler and the commands of the users, all of which
  share the registry of jobs. What it does between two points at which another task may run is one
  step: \<open>phase_step\<close> takes a worker from one phase to the next, on the world as it finds it. The phases
  of a tool call are \<open>tool_phase\<close>; calls that are executed in parallel are a list of them, of which
  a step advances the one the runtime chooses. The world counts steps, so that the clock, the model,
  the tools and the registry of tools may answer differently at each of them, and it keeps what is sent
  to the outside: executed tools, requests to the model, answers of the model, and what is written to
  the database. Requests to the database are not awaited, so whether they succeed is not seen.
\<close>

section \<open>Data\<close>

datatype worker_message = MsgStart | MsgStop | MsgPing

record owned_audit_event =
  aud_event_type :: string
  aud_user_id :: "string option"
  aud_session_id :: "uuid option"
  aud_job_id :: "uuid option"
  aud_actor :: "string option"
  aud_tool_name :: "string option"
  aud_input_hash :: "string option"
  aud_input_summary :: "string option"
  aud_outcome :: "string option"
  aud_error_msg :: "string option"
  aud_duration_ms :: "int option"
  aud_cost_usd :: "string option"
  aud_metadata :: "json option"

record 'd job_env =
  je_now :: "nat \<Rightarrow> time"
  je_later :: "nat \<Rightarrow> time"
  je_uuid :: "nat \<Rightarrow> uuid"
  je_tools :: "nat \<Rightarrow> tool_registry"
  je_llm :: "nat \<Rightarrow> llm"
  je_debug :: bool
  je_plan_parse :: "string \<Rightarrow> string + action_plan"
  je_json_parse :: "string \<Rightarrow> json option"
  je_json_show :: "json \<Rightarrow> string"
  je_json_pretty :: "json \<Rightarrow> string + string"
  je_execute :: "nat \<Rightarrow> tool \<Rightarrow> json \<Rightarrow> 'd job_context \<Rightarrow> tool_outcome"
  je_elapsed :: "nat \<Rightarrow> duration"
  je_sha256 :: "string \<Rightarrow> nat list"
  je_show_uuid :: "uuid \<Rightarrow> string"
  je_parse_uuid :: "string \<Rightarrow> uuid option"
  je_display :: "agent_error \<Rightarrow> string"
  je_display_tool_error :: "tool_error \<Rightarrow> string"
  je_safety :: safety_layer
  je_is_match :: "string \<Rightarrow> string \<Rightarrow> bool"
  je_ac :: ac_find
  je_rx :: rx_find
  je_store :: bool
  je_use_planning :: bool
  je_max_parallel_jobs :: nat
  je_max_repair_attempts :: u32
  je_zero :: 'd
  je_show_cost :: "'d \<Rightarrow> string"
  je_format_time :: "time \<Rightarrow> string"
  je_rfc3339 :: "time \<Rightarrow> string"
  je_secs_since :: "time \<Rightarrow> time \<Rightarrow> int"

record 'd job_world =
  jw_manager :: "'d context_manager"
  jw_step :: nat
  jw_executed :: "(uuid \<times> tool \<times> json \<times> 'd job_context) list"
  jw_requests :: "(uuid \<times> chat_message list) list"
  jw_answers :: "(uuid \<times> string) list"
  jw_statuses :: "(uuid \<times> job_state \<times> string option) list"
  jw_actions :: "(uuid \<times> 'd action_record) list"
  jw_audit :: "owned_audit_event list"
  jw_failures :: "(string \<times> string) list"

definition job_tick :: "'d job_world \<Rightarrow> 'd job_world" where
  "job_tick w = w\<lparr>jw_step := jw_step w + 1\<rparr>"

definition sha256_hex :: "(string \<Rightarrow> nat list) \<Rightarrow> string \<Rightarrow> string" where
  "sha256_hex digest input = concat (map hex_byte (digest input))"

definition truncate_chars :: "string \<Rightarrow> nat \<Rightarrow> string" where
  "truncate_chars s max_chars = concat (take max_chars (utf8_chars s))"

definition spawn_audit :: "bool \<Rightarrow> owned_audit_event \<Rightarrow> 'd job_world \<Rightarrow> 'd job_world" where
  "spawn_audit store ev w = (if store then w\<lparr>jw_audit := jw_audit w @ [ev]\<rparr> else w)"

section \<open>The status of the job\<close>

definition status_event :: "uuid \<Rightarrow> job_state \<Rightarrow> string option \<Rightarrow> owned_audit_event" where
  "status_event j status reason =
     \<lparr>aud_event_type = ''job_state'', aud_user_id = None, aud_session_id = None, aud_job_id = Some j,
      aud_actor = Some ''agent'', aud_tool_name = None, aud_input_hash = None, aud_input_summary = None,
      aud_outcome = Some (if status = JFailed \<or> status = JStuck then ''failure'' else ''success''),
      aud_error_msg = reason, aud_duration_ms = None, aud_cost_usd = None,
      aud_metadata = Some (JObject [(''state'', JString (show_job_state status))])\<rparr>"

definition persist_status :: "'d job_env \<Rightarrow> uuid \<Rightarrow> job_state \<Rightarrow> string option \<Rightarrow> 'd job_world \<Rightarrow> 'd job_world" where
  "persist_status env j status reason w =
     (if \<not> je_store env then w
      else
        (let w1 = (if status \<in> {JFailed, JStuck, JAccepted}
                   then spawn_audit True (status_event j status reason) w else w)
         in w1\<lparr>jw_statuses := jw_statuses w1 @ [(j, status, reason)]\<rparr>))"

text \<open>The common shape of \<open>mark_completed\<close>, \<open>mark_failed\<close> and \<open>mark_stuck\<close>: an update of the context,
  both of its errors as errors of the job, and the status for the database.\<close>

definition mark_job ::
  "'d job_env \<Rightarrow> uuid \<Rightarrow> ('d job_context \<Rightarrow> (string + unit) \<times> 'd job_context) \<Rightarrow> job_state \<Rightarrow> string \<Rightarrow>
     'd job_world \<Rightarrow> (agent_error + unit) \<times> 'd job_world" where
  "mark_job env j f status reason w =
     (case update_context j f (jw_manager w) of
        (Inl e, g) \<Rightarrow> (Err (ErrJob e), job_tick (w\<lparr>jw_manager := g\<rparr>))
      | (Inr (Inl s), g) \<Rightarrow> (Err (ErrJob (JobContextError j s)), job_tick (w\<lparr>jw_manager := g\<rparr>))
      | (Inr (Inr _), g) \<Rightarrow> (Ok (), persist_status env j status (Some reason) (job_tick (w\<lparr>jw_manager := g\<rparr>))))"

definition mark_completed :: "'d job_env \<Rightarrow> uuid \<Rightarrow> 'd job_world \<Rightarrow> (agent_error + unit) \<times> 'd job_world" where
  "mark_completed env j w =
     mark_job env j (transition_to (je_now env (jw_step w)) (je_later env (jw_step w)) JCompleted
       (Some ''Job completed successfully'')) JCompleted ''Job completed successfully'' w"

definition mark_failed :: "'d job_env \<Rightarrow> uuid \<Rightarrow> string \<Rightarrow> 'd job_world \<Rightarrow> (agent_error + unit) \<times> 'd job_world" where
  "mark_failed env j reason w =
     mark_job env j (transition_to (je_now env (jw_step w)) (je_later env (jw_step w)) JFailed (Some reason)) JFailed reason w"

definition mark_job_stuck :: "'d job_env \<Rightarrow> uuid \<Rightarrow> string \<Rightarrow> 'd job_world \<Rightarrow> (agent_error + unit) \<times> 'd job_world" where
  "mark_job_stuck env j reason w =
     mark_job env j (mark_stuck (je_now env (jw_step w)) (je_later env (jw_step w)) reason) JStuck reason w"

section \<open>A tool call\<close>

text \<open>Where \<open>execute_tool_inner\<close> is: before the lookup of the tool, before the context is read, before
  the execution, before the recording, and done.\<close>

datatype 'd tool_phase =
    Look_Up
  | Read_Context tool
  | Execute tool "'d job_context"
  | Record tool "'d job_context" tool_outcome duration
  | Answered "agent_error + string"

definition action_of ::
  "'d job_env \<Rightarrow> nat \<Rightarrow> string \<Rightarrow> json \<Rightarrow> tool_outcome \<Rightarrow> duration \<Rightarrow> 'd memory \<Rightarrow> 'd action_record \<times> 'd memory" where
  "action_of env n name params outcome d m =
     (let (a, m1) = mem_create_action (je_uuid env n) (je_now env n) name params m;
          rec =
            (case outcome of
               OutOk v \<Rightarrow>
                 action_succeed
                   (case je_json_pretty env v of
                      Inr s \<Rightarrow> Some (so_content (sanitize_tool_output (je_is_match env) (je_ac env) (je_rx env) (je_safety env) name s))
                    | Inl _ \<Rightarrow> None)
                   v d a
             | OutError e \<Rightarrow> action_fail (je_display_tool_error env e) d a
             | OutTimeout \<Rightarrow> action_fail ''Execution timeout'' d a)
      in (rec, mem_record_action rec m1))"

definition tool_event ::
  "'d job_env \<Rightarrow> uuid \<Rightarrow> string \<Rightarrow> json \<Rightarrow> 'd job_context \<Rightarrow> tool_outcome \<Rightarrow> duration \<Rightarrow> owned_audit_event" where
  "tool_event env j name params ctx outcome d =
     (let params_str = je_json_show env params
      in \<lparr>aud_event_type = ''tool_call'', aud_user_id = Some (jc_user_id ctx), aud_session_id = jc_conversation_id ctx,
          aud_job_id = Some j, aud_actor = Some ''agent'', aud_tool_name = Some name,
          aud_input_hash = Some (sha256_hex (je_sha256 env) params_str),
          aud_input_summary = Some (truncate_chars params_str 500),
          aud_outcome = Some (case outcome of OutOk _ \<Rightarrow> ''success'' | _ \<Rightarrow> ''failure''),
          aud_error_msg =
            (case outcome of
               OutOk _ \<Rightarrow> None
             | OutError e \<Rightarrow> Some (je_display_tool_error env e)
             | OutTimeout \<Rightarrow> Some ''Execution timeout''),
          aud_duration_ms = Some (int d), aud_cost_usd = None, aud_metadata = None\<rparr>)"

definition record_run ::
  "'d job_env \<Rightarrow> uuid \<Rightarrow> string \<Rightarrow> json \<Rightarrow> 'd job_context \<Rightarrow> tool_outcome \<Rightarrow> duration \<Rightarrow> 'd job_world \<Rightarrow> 'd job_world" where
  "record_run env j name params ctx outcome d w =
     (let (r, g) = update_memory j (action_of env (jw_step w) name params outcome d) (jw_manager w);
          w1 = w\<lparr>jw_manager := g\<rparr>;
          w2 = (case r of
                  Inr a \<Rightarrow> if je_store env then w1\<lparr>jw_actions := jw_actions w1 @ [(j, a)]\<rparr> else w1
                | Inl _ \<Rightarrow> w1)
      in spawn_audit (je_store env) (tool_event env j name params ctx outcome d) w2)"

definition tool_answer :: "'d job_env \<Rightarrow> string \<Rightarrow> tool \<Rightarrow> tool_outcome \<Rightarrow> agent_error + string" where
  "tool_answer env name t outcome =
     (case outcome of
        OutTimeout \<Rightarrow> Err (ErrTool (ToolTimeout name (tool_execution_timeout t)))
      | OutError e \<Rightarrow> Err (ErrTool (ToolExecutionFailed name (je_display_tool_error env e)))
      | OutOk v \<Rightarrow>
          (case je_json_pretty env v of
             Inl e \<Rightarrow> Err (ErrTool (ToolExecutionFailed name (''Failed to serialize result: '' @ e)))
           | Inr s \<Rightarrow> Ok s))"

fun tool_step ::
  "'d job_env \<Rightarrow> uuid \<Rightarrow> string \<Rightarrow> json \<Rightarrow> 'd tool_phase \<Rightarrow> 'd job_world \<Rightarrow> 'd tool_phase \<times> 'd job_world" where
  "tool_step env j name params Look_Up w =
     ((case tr_get (je_tools env (jw_step w)) name of
         None \<Rightarrow> Answered (Err (ErrTool (ToolNotFound name)))
       | Some t \<Rightarrow>
           if tool_requires_approval t then Answered (Err (ErrTool (ToolAuthRequired name))) else Read_Context t),
      job_tick w)"
| "tool_step env j name params (Read_Context t) w =
     ((case get_context j (jw_manager w) of
         Inl e \<Rightarrow> Answered (Err (ErrJob e))
       | Inr ctx \<Rightarrow>
           if jc_state ctx = JCancelled then Answered (Err (ErrTool (ToolExecutionFailed name ''Job is cancelled'')))
           else
             (let validation = validate_tool_params (sl_validator (je_safety env)) params
              in if \<not> vr_is_valid validation
                 then Answered (Err (ErrTool (ToolInvalidParameters name
                        (''Invalid tool parameters: '' @ show_errors (vr_errors validation)))))
                 else Execute t ctx)),
      job_tick w)"
| "tool_step env j name params (Execute t ctx) w =
     (Record t ctx (je_execute env (jw_step w) t params ctx) (je_elapsed env (jw_step w)),
      job_tick (w\<lparr>jw_executed := jw_executed w @ [(j, t, params, ctx)]\<rparr>))"
| "tool_step env j name params (Record t ctx outcome d) w =
     (Answered (tool_answer env name t outcome), job_tick (record_run env j name params ctx outcome d w))"
| "tool_step env j name params (Answered r) w = (Answered r, w)"

fun tool_result :: "'d tool_phase \<Rightarrow> (agent_error + string) option" where
  "tool_result (Answered r) = Some r"
| "tool_result _ = None"

definition block_event :: "uuid \<Rightarrow> string \<Rightarrow> string \<Rightarrow> owned_audit_event" where
  "block_event j name content =
     \<lparr>aud_event_type = ''safety_block'', aud_user_id = None, aud_session_id = None, aud_job_id = Some j,
      aud_actor = Some ''system'', aud_tool_name = Some name, aud_input_hash = None, aud_input_summary = None,
      aud_outcome = Some ''blocked'', aud_error_msg = None, aud_duration_ms = None, aud_cost_usd = None,
      aud_metadata = Some (JObject [(''rule'',
        JString (if contains content ''secret leakage'' then ''secret_leakage'' else ''safety_policy''))])\<rparr>"

text \<open>\<open>process_tool_result\<close>: the message for the model and what is written to the database. It always
  returns \<open>Ok(false)\<close>.\<close>

definition process_tool_result ::
  "'d job_env \<Rightarrow> uuid \<Rightarrow> tool_selection \<Rightarrow> agent_error + string \<Rightarrow> reasoning_context \<Rightarrow> 'd job_world \<Rightarrow>
     reasoning_context \<times> 'd job_world" where
  "process_tool_result env j sel r rc w =
     (case r of
        Inr output \<Rightarrow>
          (let sanitized = sanitize_tool_output (je_is_match env) (je_ac env) (je_rx env) (je_safety env) (ts_tool_name sel) output;
               w1 = (if starts_with (so_content sanitized) ''[Output blocked''
                     then spawn_audit (je_store env) (block_event j (ts_tool_name sel) (so_content sanitized)) w else w)
           in (rc_push (cm_tool_result (ts_tool_call_id sel) (ts_tool_name sel)
                 (wrap_for_llm (ts_tool_name sel) (so_content sanitized) (so_was_modified sanitized))) rc, w1))
      | Inl e \<Rightarrow>
          (rc_push (cm_tool_result (ts_tool_call_id sel) (ts_tool_name sel) (''Error: '' @ je_display env e)) rc,
           if je_store env then w\<lparr>jw_failures := jw_failures w @ [(ts_tool_name sel, je_display env e)]\<rparr> else w))"

text \<open>The results of calls that were executed in parallel, in the order of the selections.\<close>

fun process_results ::
  "'d job_env \<Rightarrow> uuid \<Rightarrow> (tool_selection \<times> 'd tool_phase) list \<Rightarrow> reasoning_context \<Rightarrow> 'd job_world \<Rightarrow>
     reasoning_context \<times> 'd job_world" where
  "process_results env j [] rc w = (rc, w)"
| "process_results env j ((sel, t) # ts) rc w =
     (case tool_result t of
        Some r \<Rightarrow> (let (rc1, w1) = process_tool_result env j sel r rc w in process_results env j ts rc1 w1)
      | None \<Rightarrow> process_results env j ts rc w)"

section \<open>The phases of a worker\<close>

text \<open>What goes on after the tools: the loop, after its \<open>n\<close>-th iteration, or the plan, after an action.\<close>

datatype run_kind = In_Loop nat | In_Plan action_plan nat

datatype 'd worker_phase =
    Waiting
  | Loading
  | Planning reasoning_context
  | Plan_Step action_plan nat reasoning_context
  | Plan_Review reasoning_context
  | Loop_Top nat reasoning_context
  | Loop_Check nat reasoning_context
  | Selecting nat reasoning_context
  | Responding nat reasoning_context
  | Run_Tools run_kind bool "(tool_selection \<times> 'd tool_phase) list" reasoning_context
  | Completing
  | Sticking string
  | Failing string
  | Timing_Out
  | Finished
  | Panicked
  | Aborted

fun ended :: "'d worker_phase \<Rightarrow> bool" where
  "ended Finished = True"
| "ended Panicked = True"
| "ended Aborted = True"
| "ended _ = False"

text \<open>The phases inside \<open>execution_loop\<close>, which \<open>tokio::time::timeout\<close> can cut short.\<close>

fun in_execution_loop :: "'d worker_phase \<Rightarrow> bool" where
  "in_execution_loop Waiting = False"
| "in_execution_loop Loading = False"
| "in_execution_loop (Failing _) = False"
| "in_execution_loop Timing_Out = False"
| "in_execution_loop Finished = False"
| "in_execution_loop Panicked = False"
| "in_execution_loop Aborted = False"
| "in_execution_loop _ = True"

definition MAX_ITERATIONS :: nat where "MAX_ITERATIONS = 50"

definition job_prompt :: "'d job_context \<Rightarrow> string" where
  "job_prompt ctx = join [newline]
     [''You are an autonomous agent working on a job.'', [],
      ''Job: '' @ jc_title ctx, ''Description: '' @ jc_description ctx, [],
      ''You have access to tools to complete this job. Plan your approach and execute tools as needed.'',
      ''You may request multiple tools at once if they can be executed in parallel.'',
      ''Report when the job is complete or if you encounter issues you cannot resolve.'']"

definition initial_context :: "'d job_context \<Rightarrow> reasoning_context" where
  "initial_context ctx = rc_push (cm_system (job_prompt ctx)) (rc_new\<lparr>rc_job_description := Some (jc_description ctx)\<rparr>)"

definition plan_message :: "action_plan \<Rightarrow> chat_message" where
  "plan_message p =
     cm_assistant (''I'' @ apostrophe @ ''ve created a plan to accomplish this goal: '' @ ap_goal p @
       [newline, newline] @ ''Steps:'' @ [newline] @
       join [newline] (map (\<lambda>(i, a). show_nat (i + 1) @ ''. '' @ pa_tool_name a @ '' - '' @ pa_reasoning a)
         (enumerate 0 (ap_actions p))))"

definition plan_selection :: "'d job_env \<Rightarrow> uuid \<Rightarrow> nat \<Rightarrow> planned_action \<Rightarrow> tool_selection" where
  "plan_selection env j i a =
     \<lparr>ts_tool_name = pa_tool_name a, ts_parameters = pa_parameters a, ts_reasoning = pa_reasoning a, ts_alternatives = [],
      ts_tool_call_id = ''plan_'' @ je_show_uuid env j @ ''_'' @ show_nat i\<rparr>"

definition job_reasoning :: "'d job_env \<Rightarrow> 'd job_world \<Rightarrow> reasoning" where
  "job_reasoning env w = reasoning_new (je_llm env (jw_step w))"

definition log_request :: "uuid \<Rightarrow> reasoning_context \<Rightarrow> 'd job_world \<Rightarrow> 'd job_world" where
  "log_request j rc w = job_tick (w\<lparr>jw_requests := jw_requests w @ [(j, rc_messages rc)]\<rparr>)"

definition log_answer :: "uuid \<Rightarrow> string \<Rightarrow> 'd job_world \<Rightarrow> 'd job_world" where
  "log_answer j text w = w\<lparr>jw_answers := jw_answers w @ [(j, text)]\<rparr>"

definition refresh_tools :: "'d job_env \<Rightarrow> 'd job_world \<Rightarrow> reasoning_context \<Rightarrow> reasoning_context" where
  "refresh_tools env w rc = rc\<lparr>rc_available_tools := tool_definitions (je_tools env (jw_step w))\<rparr>"

definition planning_step :: "'d job_env \<Rightarrow> uuid \<Rightarrow> reasoning_context \<Rightarrow> 'd job_world \<Rightarrow> 'd worker_phase \<times> 'd job_world" where
  "planning_step env j rc w =
     (let rc1 = refresh_tools env w rc
      in if je_use_planning env
         then
           (case plan (je_plan_parse env) (job_reasoning env w) rc1 of
              Inr p \<Rightarrow> (Plan_Step p 0 (rc_push (plan_message p) rc1), log_request j rc1 w)
            | Inl _ \<Rightarrow> (Loop_Top 0 rc1, log_request j rc1 w))
         else (Loop_Top 0 rc1, job_tick w))"

definition review_step :: "'d job_env \<Rightarrow> uuid \<Rightarrow> reasoning_context \<Rightarrow> 'd job_world \<Rightarrow> 'd worker_phase \<times> 'd job_world" where
  "review_step env j rc w =
     (let rc1 = rc_push (cm_user (''All planned actions have been executed. Is the job complete? '' @
                  ''If not, what else needs to be done?'')) rc;
          w1 = log_request j rc1 w
      in case respond (je_debug env) (je_json_parse env) (je_json_show env) (job_reasoning env w) rc1 of
           None \<Rightarrow> (Panicked, w1)
         | Some (Inl e) \<Rightarrow> (Failing (je_display env (ErrLlm e)), w1)
         | Some (Inr response) \<Rightarrow>
             (if llm_signals_completion response then Completing
              else Sticking ''Plan completed but job incomplete - needs re-planning'',
              log_answer j response w1))"

definition selecting_step ::
  "'d job_env \<Rightarrow> uuid \<Rightarrow> nat \<Rightarrow> reasoning_context \<Rightarrow> 'd job_world \<Rightarrow> 'd worker_phase \<times> 'd job_world" where
  "selecting_step env j n rc w =
     (let rc1 = refresh_tools env w rc
      in (case select_tools (job_reasoning env w) rc1 of
            Inl e \<Rightarrow> Failing (je_display env (ErrLlm e))
          | Inr [] \<Rightarrow> Responding n rc1
          | Inr [sel] \<Rightarrow> Run_Tools (In_Loop n) False [(sel, Look_Up)] rc1
          | Inr sels \<Rightarrow> Run_Tools (In_Loop n) True (map (\<lambda>sel. (sel, Look_Up)) sels) rc1,
          if rc_available_tools rc1 = [] then job_tick w else log_request j rc1 w))"

definition responding_step ::
  "'d job_env \<Rightarrow> uuid \<Rightarrow> nat \<Rightarrow> reasoning_context \<Rightarrow> 'd job_world \<Rightarrow> 'd worker_phase \<times> 'd job_world" where
  "responding_step env j n rc w =
     (let w1 = log_request j rc w
      in case respond_with_tools (je_debug env) (je_json_parse env) (job_reasoning env w) rc of
           None \<Rightarrow> (Panicked, w1)
         | Some (Inl e) \<Rightarrow> (Failing (je_display env (ErrLlm e)), w1)
         | Some (Inr out) \<Rightarrow>
             (case ro_result out of
                RText response \<Rightarrow>
                  (if llm_signals_completion response then Completing
                   else
                     (let rc1 = rc_push (cm_assistant response) rc
                      in Loop_Top n
                           (if 3 < n \<and> n mod 5 = 0
                            then rc_push (cm_user ''Are you stuck? Do you need help completing this job?'') rc1 else rc1)),
                   log_answer j response w1)
              | RToolCalls calls content \<Rightarrow>
                  (Run_Tools (In_Loop n) False (map (\<lambda>tc. (selection_of [] tc, Look_Up)) calls)
                     (rc_push (cm_assistant_with_tool_calls content calls) rc), w1)))"

text \<open>The indices of the calls that are not answered yet; the runtime chooses one of them.\<close>

definition pending_calls :: "(tool_selection \<times> 'd tool_phase) list \<Rightarrow> nat list" where
  "pending_calls ts = filter (\<lambda>i. tool_result (snd (ts ! i)) = None) [0..<length ts]"

definition advance_call ::
  "'d job_env \<Rightarrow> uuid \<Rightarrow> nat \<Rightarrow> (tool_selection \<times> 'd tool_phase) list \<Rightarrow> 'd job_world \<Rightarrow>
     (tool_selection \<times> 'd tool_phase) list \<times> 'd job_world" where
  "advance_call env j i ts w =
     (let (sel, t) = ts ! i;
          (t', w') = tool_step env j (ts_tool_name sel) (ts_parameters sel) t w
      in (ts[i := (sel, t')], w'))"

definition running_step ::
  "'d job_env \<Rightarrow> uuid \<Rightarrow> nat \<Rightarrow> run_kind \<Rightarrow> bool \<Rightarrow> (tool_selection \<times> 'd tool_phase) list \<Rightarrow> reasoning_context \<Rightarrow>
     'd job_world \<Rightarrow> 'd worker_phase \<times> 'd job_world" where
  "running_step env j c k par ts rc w =
     (case ts of
        [] \<Rightarrow> ((case k of In_Loop n \<Rightarrow> Loop_Top n rc | In_Plan p i \<Rightarrow> Plan_Step p (i + 1) rc), job_tick w)
      | (sel, t) # rest \<Rightarrow>
          if par
          then
            (case pending_calls ts of
               [] \<Rightarrow> (let (rc1, w1) = process_results env j ts rc w in (Run_Tools k par [] rc1, w1))
             | is \<Rightarrow> (let (ts1, w1) = advance_call env j (is ! (c mod length is)) ts w in (Run_Tools k par ts1 rc, w1)))
          else
            (case tool_result t of
               Some r \<Rightarrow> (let (rc1, w1) = process_tool_result env j sel r rc w in (Run_Tools k par rest rc1, w1))
             | None \<Rightarrow> (let (ts1, w1) = advance_call env j 0 ts w in (Run_Tools k par ts1 rc, w1))))"

text \<open>One step of the worker of job \<open>j\<close>, with the messages in its channel; \<open>c\<close> is the choice of the
  runtime among parallel calls. A worker that waits for its first message and has none does nothing.\<close>

fun phase_step ::
  "'d job_env \<Rightarrow> uuid \<Rightarrow> nat \<Rightarrow> worker_message list \<Rightarrow> 'd worker_phase \<Rightarrow> 'd job_world \<Rightarrow>
     worker_message list \<times> 'd worker_phase \<times> 'd job_world" where
  "phase_step env j c inbox Waiting w =
     (case inbox of
        [] \<Rightarrow> ([], Waiting, w)
      | m # ms \<Rightarrow> (ms, if m = MsgStop then Finished else Loading, job_tick w))"
| "phase_step env j c inbox Loading w =
     (inbox, (case get_context j (jw_manager w) of Inl _ \<Rightarrow> Finished | Inr ctx \<Rightarrow> Planning (initial_context ctx)), job_tick w)"
| "phase_step env j c inbox (Planning rc) w = (inbox, planning_step env j rc w)"
| "phase_step env j c inbox (Plan_Step p i rc) w =
     (if i < length (ap_actions p)
      then (tl inbox,
            if inbox \<noteq> [] \<and> hd inbox = MsgStop then Finished
            else Run_Tools (In_Plan p i) False [(plan_selection env j i (ap_actions p ! i), Look_Up)] rc,
            job_tick w)
      else (inbox, Plan_Review rc, job_tick w))"
| "phase_step env j c inbox (Plan_Review rc) w = (inbox, review_step env j rc w)"
| "phase_step env j c inbox (Loop_Top n rc) w =
     (tl inbox, if inbox \<noteq> [] \<and> hd inbox = MsgStop then Finished else Loop_Check n rc, job_tick w)"
| "phase_step env j c inbox (Loop_Check n rc) w =
     (inbox,
      (if (case get_context j (jw_manager w) of Inr ctx \<Rightarrow> jc_state ctx = JCancelled | Inl _ \<Rightarrow> False) then Finished
       else if MAX_ITERATIONS < n + 1 then Sticking ''Maximum iterations exceeded''
       else Selecting (n + 1) rc),
      job_tick w)"
| "phase_step env j c inbox (Selecting n rc) w = (inbox, selecting_step env j n rc w)"
| "phase_step env j c inbox (Responding n rc) w = (inbox, responding_step env j n rc w)"
| "phase_step env j c inbox (Run_Tools k par ts rc) w = (inbox, running_step env j c k par ts rc w)"
| "phase_step env j c inbox Completing w =
     (case mark_completed env j w of
        (Inr _, w1) \<Rightarrow> (inbox, Finished, w1) | (Inl e, w1) \<Rightarrow> (inbox, Failing (je_display env e), w1))"
| "phase_step env j c inbox (Sticking reason) w =
     (case mark_job_stuck env j reason w of
        (Inr _, w1) \<Rightarrow> (inbox, Finished, w1) | (Inl e, w1) \<Rightarrow> (inbox, Failing (je_display env e), w1))"
| "phase_step env j c inbox (Failing reason) w = (inbox, Finished, snd (mark_failed env j reason w))"
| "phase_step env j c inbox Timing_Out w = (inbox, Finished, snd (mark_job_stuck env j ''Execution timeout'' w))"
| "phase_step env j c inbox ph w = (inbox, ph, w)"

section \<open>The states of jobs\<close>

definition job_state_of :: "'d context_manager \<Rightarrow> uuid \<Rightarrow> job_state option" where
  "job_state_of g k = map_option jc_state (hm_get (cmg_contexts g) k)"

text \<open>The state of a job after a transition was tried.\<close>

definition moved :: "job_state \<Rightarrow> job_state option \<Rightarrow> job_state option" where
  "moved s a = (case a of Some x \<Rightarrow> Some (if can_transition_to x s then s else x) | None \<Rightarrow> None)"

lemma job_state_update:
  "job_state_of (snd (update_context j f g)) =
     (job_state_of g)(j := map_option (\<lambda>c. jc_state (snd (f c))) (hm_get (cmg_contexts g) j))"
  by (rule ext) (auto simp: job_state_of_def update_context_def split: option.splits prod.splits)

lemma job_state_memory [simp]: "job_state_of (snd (update_memory j f g)) = job_state_of g"
  by (rule ext) (auto simp: job_state_of_def update_memory_def split: option.splits prod.splits)

lemma job_state_transition:
  "job_state_of (snd (update_context j (transition_to t1 t2 s r) g)) = (job_state_of g)(j := moved s (job_state_of g j))"
  by (auto simp: job_state_update job_state_of_def moved_def transition_to_state split: option.splits)

lemma transition_refused:
  "fst (update_context j (transition_to t1 t2 s r) g) = Ok (Ok ()) \<longleftrightarrow>
     (\<exists>a. job_state_of g j = Some a \<and> can_transition_to a s)"
  by (auto simp: update_context_def job_state_of_def transition_to_def Let_def split: option.splits prod.splits)

lemma mark_job_effect:
  assumes "mark_job env j (transition_to t1 t2 s r) status reason w = (res, w')"
  shows "job_state_of (jw_manager w') = (job_state_of (jw_manager w))(j := moved s (job_state_of (jw_manager w) j))"
    and "is_ok res \<longleftrightarrow> (\<exists>a. job_state_of (jw_manager w) j = Some a \<and> can_transition_to a s)"
proof -
  have m: "jw_manager w' = snd (update_context j (transition_to t1 t2 s r) (jw_manager w))"
    using assms by (auto simp: mark_job_def job_tick_def persist_status_def spawn_audit_def Let_def split: prod.splits sum.splits if_splits)
  then show "job_state_of (jw_manager w') = (job_state_of (jw_manager w))(j := moved s (job_state_of (jw_manager w) j))"
    by (simp add: job_state_transition)
  have "is_ok res \<longleftrightarrow> fst (update_context j (transition_to t1 t2 s r) (jw_manager w)) = Ok (Ok ())"
    using assms by (auto simp: mark_job_def split: prod.splits sum.splits)
  then show "is_ok res \<longleftrightarrow> (\<exists>a. job_state_of (jw_manager w) j = Some a \<and> can_transition_to a s)"
    by (simp only: transition_refused)
qed

lemma mark_stuck_transition: "mark_stuck t1 t2 reason = transition_to t1 t2 JStuck (Some reason)"
  by (simp add: fun_eq_iff mark_stuck_def)

text \<open>The three marks are attempts at a transition.\<close>

fun target :: "'d worker_phase \<Rightarrow> job_state option" where
  "target Completing = Some JCompleted"
| "target (Sticking _) = Some JStuck"
| "target (Failing _) = Some JFailed"
| "target Timing_Out = Some JStuck"
| "target _ = None"

section \<open>What a step leaves alone\<close>

text \<open>The steps of a tool call change the memory of the job, never the state of a job.\<close>

lemma job_world_frame [simp]:
  "jw_manager (job_tick w) = jw_manager w" "jw_manager (spawn_audit b ev w) = jw_manager w"
  "jw_manager (log_request j rc w) = jw_manager w" "jw_manager (log_answer j text w) = jw_manager w"
  "jw_manager (persist_status env j st reason w) = jw_manager w"
  "jw_executed (job_tick w) = jw_executed w" "jw_executed (spawn_audit b ev w) = jw_executed w"
  "jw_executed (log_request j rc w) = jw_executed w" "jw_executed (log_answer j text w) = jw_executed w"
  "jw_executed (persist_status env j st reason w) = jw_executed w"
  "jw_requests (job_tick w) = jw_requests w" "jw_requests (spawn_audit b ev w) = jw_requests w"
  "jw_requests (log_answer j text w) = jw_requests w" "jw_requests (persist_status env j st reason w) = jw_requests w"
  "jw_answers (job_tick w) = jw_answers w" "jw_answers (spawn_audit b ev w) = jw_answers w"
  "jw_answers (log_request j rc w) = jw_answers w" "jw_answers (persist_status env j st reason w) = jw_answers w"
  "jw_requests (log_request j rc w) = jw_requests w @ [(j, rc_messages rc)]"
  "jw_answers (log_answer j text w) = jw_answers w @ [(j, text)]"
  by (simp_all add: job_tick_def spawn_audit_def log_request_def log_answer_def persist_status_def Let_def)

definition logs :: "'d job_world \<Rightarrow> (uuid \<times> chat_message list) list \<times> (uuid \<times> string) list" where
  "logs w = (jw_requests w, jw_answers w)"

lemma record_run_frame [simp]:
  "job_state_of (jw_manager (record_run env j name params ctx outcome d w)) = job_state_of (jw_manager w)"
  "jw_executed (record_run env j name params ctx outcome d w) = jw_executed w"
  "jw_requests (record_run env j name params ctx outcome d w) = jw_requests w"
  "jw_answers (record_run env j name params ctx outcome d w) = jw_answers w"
  by (auto simp: record_run_def Let_def split: prod.splits sum.splits
      dest!: arg_cong [where f = "\<lambda>x. job_state_of (snd x)"])

lemma tool_step_frame:
  assumes "tool_step env j name params t w = (t', w')"
  shows "job_state_of (jw_manager w') = job_state_of (jw_manager w)" "logs w' = logs w"
  using assms by (cases t; auto simp: logs_def)+

lemma process_tool_result_frame:
  assumes "process_tool_result env j sel r rc w = (rc', w')"
  shows "jw_manager w' = jw_manager w" "jw_executed w' = jw_executed w" "logs w' = logs w"
  using assms by (auto simp: process_tool_result_def logs_def Let_def split: sum.splits if_splits)

lemma process_results_frame:
  "process_results env j ts rc w = (rc', w') \<Longrightarrow>
     jw_manager w' = jw_manager w \<and> jw_executed w' = jw_executed w \<and> logs w' = logs w"
proof (induction env j ts rc w rule: process_results.induct)
  case (2 env j sel t ts rc w)
  then show ?case by (auto split: option.splits prod.splits dest: process_tool_result_frame)
qed simp

lemma advance_call_frame:
  assumes "advance_call env j i ts w = (ts', w')"
  shows "job_state_of (jw_manager w') = job_state_of (jw_manager w)" "logs w' = logs w"
  using assms by (auto simp: advance_call_def split: prod.splits dest: tool_step_frame)

lemma running_step_frame:
  assumes "running_step env j c k par ts rc w = (ph', w')"
  shows "job_state_of (jw_manager w') = job_state_of (jw_manager w)" "logs w' = logs w"
  using assms
  by (auto simp: running_step_def logs_def simp del: process_results.simps
      split: list.splits prod.splits if_splits option.splits run_kind.splits
      dest: process_results_frame process_tool_result_frame advance_call_frame)

lemma model_step_frame:
  "jw_manager (snd (planning_step env j rc w)) = jw_manager w"
  "jw_manager (snd (review_step env j rc w)) = jw_manager w"
  "jw_manager (snd (selecting_step env j n rc w)) = jw_manager w"
  "jw_manager (snd (responding_step env j n rc w)) = jw_manager w"
  by (auto simp: planning_step_def review_step_def selecting_step_def responding_step_def Let_def
      split: sum.splits option.splits respond_result.splits)

text \<open>A step of a worker moves its own job only, by a transition of the table, and only as its last step.\<close>

lemma phase_step_state:
  assumes "phase_step env j c inbox ph w = (inbox', ph', w')"
  shows "job_state_of (jw_manager w') = job_state_of (jw_manager w) \<or>
    (\<exists>a s. job_state_of (jw_manager w) j = Some a \<and> can_transition_to a s \<and> s \<in> {JCompleted, JFailed, JStuck} \<and>
       job_state_of (jw_manager w') = (job_state_of (jw_manager w))(j \<mapsto> s) \<and> ended ph' \<and> \<not> ended ph \<and>
       (s = JCompleted \<longrightarrow> ph = Completing))"
proof (cases "target ph")
  case None
  have "job_state_of (jw_manager (snd (running_step env j c k par ts rc w))) = job_state_of (jw_manager w)" for k par ts rc
    by (rule running_step_frame(1) [OF surjective_pairing])
  with None have "job_state_of (jw_manager (snd (snd (phase_step env j c inbox ph w)))) = job_state_of (jw_manager w)"
    by (cases ph; simp add: model_step_frame split: list.split)
  then show ?thesis using assms by simp
next
  case (Some s)
  have eff: "job_state_of (jw_manager w') = (job_state_of (jw_manager w))(j := moved s (job_state_of (jw_manager w) j))"
    using Some assms
    by (cases ph; auto simp: mark_completed_def mark_job_stuck_def mark_stuck_transition mark_failed_def split: prod.splits sum.splits
        dest: mark_job_effect(1) intro: mark_job_effect(1) [OF surjective_pairing])
  show ?thesis
  proof (cases "\<exists>a. job_state_of (jw_manager w) j = Some a \<and> can_transition_to a s")
    case True
    moreover have "ended ph'"
      using Some assms True
      by (cases ph; auto simp: mark_completed_def mark_job_stuck_def mark_stuck_transition mark_failed_def split: prod.splits sum.splits
          dest: mark_job_effect(2))
    moreover have "s \<in> {JCompleted, JFailed, JStuck}" "\<not> ended ph" "s = JCompleted \<longrightarrow> ph = Completing"
      using Some by (cases ph; auto)+
    ultimately show ?thesis using eff by (auto simp: moved_def)
  next
    case False
    then have "moved s (job_state_of (jw_manager w) j) = job_state_of (jw_manager w) j"
      by (auto simp: moved_def split: option.splits)
    then show ?thesis using eff by simp
  qed
qed

section \<open>What a worker may do\<close>

subsection \<open>The tools it executes\<close>

definition tool_run_ok :: "'d job_env \<Rightarrow> uuid \<times> tool \<times> json \<times> 'd job_context \<Rightarrow> bool" where
  "tool_run_ok env x =
     (case x of (j, t, params, ctx) \<Rightarrow>
        \<not> tool_requires_approval t \<and> vr_is_valid (validate_tool_params (sl_validator (je_safety env)) params) \<and>
        jc_state ctx \<noteq> JCancelled)"

fun tool_ok :: "'d job_env \<Rightarrow> tool_selection \<times> 'd tool_phase \<Rightarrow> bool" where
  "tool_ok env (sel, Read_Context t) = (\<not> tool_requires_approval t)"
| "tool_ok env (sel, Execute t ctx) = tool_run_ok env (0, t, ts_parameters sel, ctx)"
| "tool_ok env _ = True"

fun phase_ok :: "'d job_env \<Rightarrow> 'd worker_phase \<Rightarrow> bool" where
  "phase_ok env (Run_Tools k par ts rc) = list_all (tool_ok env) ts"
| "phase_ok env _ = True"

lemma tool_step_ok:
  assumes "tool_step env j (ts_tool_name sel) (ts_parameters sel) t w = (t', w')"
    and "tool_ok env (sel, t)" and "list_all (tool_run_ok env) (jw_executed w)"
  shows "tool_ok env (sel, t') \<and> list_all (tool_run_ok env) (jw_executed w')"
  using assms by (cases t) (auto simp: tool_run_ok_def Let_def split: option.splits sum.splits if_splits)

lemma advance_call_ok:
  assumes "advance_call env j i ts w = (ts', w')" and "i < length ts"
    and "list_all (tool_ok env) ts" and "list_all (tool_run_ok env) (jw_executed w)"
  shows "list_all (tool_ok env) ts' \<and> list_all (tool_run_ok env) (jw_executed w')"
proof -
  obtain sel t where st: "ts ! i = (sel, t)" by fastforce
  then have "tool_ok env (sel, t)" using assms(2,3) by (metis list_all_length)
  moreover obtain t1 w1 where "tool_step env j (ts_tool_name sel) (ts_parameters sel) t w = (t1, w1)" by fastforce
  ultimately show ?thesis
    using assms st tool_step_ok [of env j sel t w t1 w1]
    by (auto simp: advance_call_def list_all_length nth_list_update)
qed

lemma pending_calls_less: "x \<in> set (pending_calls ts) \<Longrightarrow> x < length ts"
  by (simp add: pending_calls_def)

lemma chosen_less: "pending_calls ts = i # is \<Longrightarrow> (i # is) ! (c mod length (i # is)) < length ts"
  using pending_calls_less [of "(i # is) ! (c mod length (i # is))" ts] nth_mem [of "c mod length (i # is)" "i # is"]
  by simp

lemma running_step_ok:
  assumes "running_step env j c k par ts rc w = (ph', w')"
    and "list_all (tool_ok env) ts" and "list_all (tool_run_ok env) (jw_executed w)"
  shows "phase_ok env ph' \<and> list_all (tool_run_ok env) (jw_executed w')"
proof (cases ts)
  case Nil
  then show ?thesis using assms by (auto simp: running_step_def split: run_kind.splits)
next
  case (Cons x rest)
  obtain sel t where x: "x = (sel, t)" by fastforce
  consider (results) "par" "pending_calls ts = []" | (choose) i "is" where "par" "pending_calls ts = i # is"
    | (first) "\<not> par" "tool_result t = None" | (answered) res where "\<not> par" "tool_result t = Some res"
    by (cases par; cases "pending_calls ts"; cases "tool_result t") auto
  then show ?thesis
  proof cases
    case results
    obtain rc1 w1 where p: "process_results env j ts rc w = (rc1, w1)" by fastforce
    show ?thesis
      using assms results Cons x p process_results_frame [OF p] by (auto simp: running_step_def simp del: process_results.simps)
  next
    case choose
    let ?i = "(i # is) ! (c mod length (i # is))"
    obtain ts1 w1 where p: "advance_call env j ?i ts w = (ts1, w1)" by fastforce
    show ?thesis
      using assms choose Cons x p advance_call_ok [OF p chosen_less [OF choose(2)] assms(2,3)]
      by (auto simp: running_step_def)
  next
    case first
    obtain ts1 w1 where p: "advance_call env j 0 ts w = (ts1, w1)" by fastforce
    show ?thesis
      using assms first Cons x p advance_call_ok [OF p _ assms(2,3)] by (auto simp: running_step_def)
  next
    case (answered res)
    obtain rc1 w1 where p: "process_tool_result env j sel res rc w = (rc1, w1)" by fastforce
    show ?thesis
      using assms answered Cons x p process_tool_result_frame [OF p] by (auto simp: running_step_def)
  qed
qed

lemma model_step_executed:
  "jw_executed (snd (planning_step env j rc w)) = jw_executed w \<and> phase_ok env (fst (planning_step env j rc w))"
  "jw_executed (snd (review_step env j rc w)) = jw_executed w \<and> phase_ok env (fst (review_step env j rc w))"
  "jw_executed (snd (selecting_step env j n rc w)) = jw_executed w \<and> phase_ok env (fst (selecting_step env j n rc w))"
  "jw_executed (snd (responding_step env j n rc w)) = jw_executed w \<and> phase_ok env (fst (responding_step env j n rc w))"
  by (auto simp: planning_step_def review_step_def selecting_step_def responding_step_def Let_def list_all_iff
      split: sum.splits option.splits respond_result.splits list.splits)

lemma mark_job_executed:
  "jw_executed (snd (mark_job env j f st reason w)) = jw_executed w" "logs (snd (mark_job env j f st reason w)) = logs w"
  by (auto simp: mark_job_def logs_def split: prod.splits sum.splits)

text \<open>A step that marks the job ends the worker, or leaves it to mark the job as failed.\<close>

lemma marking_step:
  assumes "phase_step env j c inbox ph w = (inbox', ph', w')" and "target ph = Some s"
  shows "jw_executed w' = jw_executed w" "logs w' = logs w"
    "ended ph' \<or> (\<exists>reason. ph' = Failing reason \<and> in_execution_loop ph)"
proof -
  have "w' = snd (mark_job env j (transition_to t1 t2 s r) st reason w) \<Longrightarrow> jw_executed w' = jw_executed w \<and> logs w' = logs w"
    for t1 t2 s r st reason by (simp add: mark_job_executed)
  moreover have "\<exists>t1 t2 s r st reason. w' = snd (mark_job env j (transition_to t1 t2 s r) st reason w)"
    using assms
    by (cases ph; simp add: mark_completed_def mark_job_stuck_def mark_stuck_transition mark_failed_def
        split: prod.splits sum.splits; metis snd_conv)
  ultimately show "jw_executed w' = jw_executed w" "logs w' = logs w" by blast+
  show "ended ph' \<or> (\<exists>reason. ph' = Failing reason \<and> in_execution_loop ph)"
    using assms by (cases ph; auto split: prod.splits sum.splits)
qed

lemma phase_step_ok:
  assumes "phase_step env j c inbox ph w = (inbox', ph', w')"
    and "phase_ok env ph" and "list_all (tool_run_ok env) (jw_executed w)"
  shows "phase_ok env ph' \<and> list_all (tool_run_ok env) (jw_executed w')"
proof (cases "target ph")
  case None
  have "phase_ok env (fst (running_step env j c k par ts rc w)) \<and>
      list_all (tool_run_ok env) (jw_executed (snd (running_step env j c k par ts rc w)))"
    if "list_all (tool_ok env) ts" for k par ts rc
    using running_step_ok [OF surjective_pairing that assms(3)] .
  with None assms(2,3)
  have "phase_ok env (fst (snd (phase_step env j c inbox ph w))) \<and>
      list_all (tool_run_ok env) (jw_executed (snd (snd (phase_step env j c inbox ph w))))"
    by (cases ph; simp add: model_step_executed split: list.split sum.split)
  then show ?thesis using assms(1) by simp
next
  case (Some s)
  then show ?thesis
    using marking_step [OF assms(1) Some] assms(3) by (cases ph'; auto)
qed

subsection \<open>What the model was asked and answered\<close>

definition signalled :: "uuid \<Rightarrow> 'd job_world \<Rightarrow> bool" where
  "signalled j w \<longleftrightarrow> (\<exists>text. (j, text) \<in> set (jw_answers w) \<and> llm_signals_completion text)"

definition request_count :: "uuid \<Rightarrow> 'd job_world \<Rightarrow> nat" where
  "request_count j w = length (filter (\<lambda>x. fst x = j) (jw_requests w))"

text \<open>How often a worker may still call the model.\<close>

fun requests_left :: "'d worker_phase \<Rightarrow> nat" where
  "requests_left Waiting = 2 * MAX_ITERATIONS + 1"
| "requests_left Loading = 2 * MAX_ITERATIONS + 1"
| "requests_left (Planning rc) = 2 * MAX_ITERATIONS + 1"
| "requests_left (Plan_Step p i rc) = 1"
| "requests_left (Plan_Review rc) = 1"
| "requests_left (Loop_Top n rc) = 2 * (MAX_ITERATIONS - n)"
| "requests_left (Loop_Check n rc) = 2 * (MAX_ITERATIONS - n)"
| "requests_left (Selecting n rc) = 2 * (MAX_ITERATIONS - n) + 2"
| "requests_left (Responding n rc) = 2 * (MAX_ITERATIONS - n) + 1"
| "requests_left (Run_Tools (In_Loop n) par ts rc) = 2 * (MAX_ITERATIONS - n)"
| "requests_left (Run_Tools (In_Plan p i) par ts rc) = 1"
| "requests_left _ = 0"

text \<open>What a step of the worker of job \<open>j\<close> adds to the logs: at most one request, within the budget of its
  phase, and answers for \<open>j\<close> only, one of which signals completion when the worker goes on to mark the
  job as completed.\<close>

definition logs_step :: "uuid \<Rightarrow> 'd worker_phase \<Rightarrow> 'd job_world \<Rightarrow> 'd worker_phase \<Rightarrow> 'd job_world \<Rightarrow> bool" where
  "logs_step j ph w ph' w' \<longleftrightarrow>
     request_count j w' + requests_left ph' \<le> request_count j w + requests_left ph \<and>
     (\<forall>k. k \<noteq> j \<longrightarrow> request_count k w' = request_count k w) \<and>
     set (jw_answers w) \<subseteq> set (jw_answers w') \<and>
     (ph' = Completing \<longrightarrow> signalled j w')"

lemma logs_step_quiet:
  "logs w' = logs w \<Longrightarrow> requests_left ph' \<le> requests_left ph \<Longrightarrow> ph' \<noteq> Completing \<Longrightarrow> logs_step j ph w ph' w'"
  by (simp add: logs_step_def logs_def request_count_def)

lemma request_count_frame [simp]:
  "request_count k (job_tick w) = request_count k w"
  "request_count k (log_answer j text w) = request_count k w"
  "request_count k (log_request j rc w) = request_count k w + (if k = j then 1 else 0)"
  by (simp_all add: request_count_def)

lemma signalled_answer [simp]: "llm_signals_completion text \<Longrightarrow> signalled j (log_answer j text w)"
  by (auto simp: signalled_def)

lemma model_step_logs:
  "logs_step j (Planning rc) w (fst (planning_step env j rc w)) (snd (planning_step env j rc w))"
  "logs_step j (Plan_Review rc) w (fst (review_step env j rc w)) (snd (review_step env j rc w))"
  "logs_step j (Selecting n rc) w (fst (selecting_step env j n rc w)) (snd (selecting_step env j n rc w))"
  "logs_step j (Responding n rc) w (fst (responding_step env j n rc w)) (snd (responding_step env j n rc w))"
  by (auto simp: planning_step_def review_step_def selecting_step_def responding_step_def Let_def logs_step_def
      MAX_ITERATIONS_def split: sum.splits option.splits respond_result.splits list.splits)

lemma running_step_logs:
  assumes "running_step env j c k par ts rc w = (ph', w')"
  shows "logs_step j (Run_Tools k par ts rc) w ph' w'"
proof (rule logs_step_quiet)
  show "logs w' = logs w" by (rule running_step_frame(2) [OF assms])
  show "requests_left ph' \<le> requests_left (Run_Tools k par ts rc)" "ph' \<noteq> Completing"
    using assms by (cases k; auto simp: running_step_def simp del: process_results.simps
        split: list.splits prod.splits if_splits option.splits)+
qed

lemma phase_step_logs:
  assumes "phase_step env j c inbox ph w = (inbox', ph', w')"
  shows "logs_step j ph w ph' w' \<or> (ended ph \<and> ph' = ph \<and> w' = w)"
proof (cases "target ph")
  case None
  show ?thesis
  proof (cases ph)
    case (Planning rc)
    then show ?thesis using assms model_step_logs(1) [of j rc w env] by simp
  next
    case (Plan_Review rc)
    then show ?thesis using assms model_step_logs(2) [of j rc w env] by simp
  next
    case (Selecting n rc)
    then show ?thesis using assms model_step_logs(3) [of j n rc w env] by simp
  next
    case (Responding n rc)
    then show ?thesis using assms model_step_logs(4) [of j n rc w env] by simp
  next
    case (Run_Tools k par ts rc)
    then show ?thesis using assms running_step_logs [of env j c k par ts rc w ph' w'] by simp
  next
    case (Loop_Check n rc)
    then show ?thesis
      using assms by (auto simp: logs_def MAX_ITERATIONS_def intro!: logs_step_quiet split: if_splits)
  qed (use assms None in \<open>auto simp: logs_def intro!: logs_step_quiet split: list.splits sum.splits if_splits\<close>)
next
  case (Some s)
  then have "requests_left ph' \<le> requests_left ph" "ph' \<noteq> Completing"
    using marking_step(3) [OF assms Some] by (cases ph'; auto)+
  then show ?thesis using logs_step_quiet [OF marking_step(2) [OF assms Some]] by blast
qed

subsection \<open>Every worker ends\<close>

text \<open>The order on phases: first how far the worker is, then how much its tool calls still have to do.\<close>

fun tool_weight :: "'d tool_phase \<Rightarrow> nat" where
  "tool_weight Look_Up = 5"
| "tool_weight (Read_Context _) = 4"
| "tool_weight (Execute _ _) = 3"
| "tool_weight (Record _ _ _ _) = 2"
| "tool_weight (Answered _) = 1"

fun phase_rank :: "'d worker_phase \<Rightarrow> nat" where
  "phase_rank Waiting = 4"
| "phase_rank Loading = 3"
| "phase_rank (Planning rc) = 2"
| "phase_rank (Completing) = 0"
| "phase_rank (Sticking _) = 0"
| "phase_rank (Failing _) = 0"
| "phase_rank Timing_Out = 0"
| "phase_rank Finished = 0"
| "phase_rank Panicked = 0"
| "phase_rank Aborted = 0"
| "phase_rank _ = 1"

fun stage :: "'d worker_phase \<Rightarrow> nat" where
  "stage (Plan_Step p i rc) = 2 * (length (ap_actions p) - i) + 2"
| "stage (Run_Tools (In_Plan p i) par ts rc) = 2 * max 1 (length (ap_actions p) - i) + 1"
| "stage (Plan_Review rc) = 1"
| "stage (Selecting n rc) = 5 * (MAX_ITERATIONS - n) + 5"
| "stage (Responding n rc) = 5 * (MAX_ITERATIONS - n) + 4"
| "stage (Run_Tools (In_Loop n) par ts rc) = 5 * (MAX_ITERATIONS - n) + 3"
| "stage (Loop_Top n rc) = 5 * (MAX_ITERATIONS - n) + 2"
| "stage (Loop_Check n rc) = 5 * (MAX_ITERATIONS - n) + 1"
| "stage (Completing) = 2"
| "stage (Sticking _) = 2"
| "stage (Failing _) = 1"
| "stage Timing_Out = 1"
| "stage _ = 0"

fun tools_left :: "'d worker_phase \<Rightarrow> nat" where
  "tools_left (Run_Tools k par ts rc) = sum_list (map (\<lambda>(sel, t). tool_weight t) ts)"
| "tools_left _ = 0"

definition phase_less :: "('d worker_phase \<times> 'd worker_phase) set" where
  "phase_less = measures [phase_rank, stage, tools_left]"

lemma wf_phase_less: "wf phase_less"
  by (simp add: phase_less_def)

lemma tool_step_weight:
  "tool_result t = None \<Longrightarrow> tool_weight (fst (tool_step env j name params t w)) < tool_weight t"
  by (cases t) (auto simp: Let_def split: option.splits sum.splits)

lemma advance_call_weight:
  assumes "advance_call env j i ts w = (ts', w')" and "i < length ts" and "tool_result (snd (ts ! i)) = None"
  shows "sum_list (map (\<lambda>(sel, t). tool_weight t) ts') < sum_list (map (\<lambda>(sel, t). tool_weight t) ts)"
proof -
  obtain sel t where st: "ts ! i = (sel, t)" by fastforce
  define t' where "t' = fst (tool_step env j (ts_tool_name sel) (ts_parameters sel) t w)"
  have ts': "ts' = ts[i := (sel, t')]" using assms(1) st by (auto simp: advance_call_def t'_def split: prod.splits)
  have "tool_weight t' < tool_weight t" using assms(3) st tool_step_weight by (auto simp: t'_def)
  moreover obtain A B where "ts = A @ (sel, t) # B" "ts' = A @ (sel, t') # B"
    using st assms(2) ts' by (metis id_take_nth_drop upd_conv_take_nth_drop)
  ultimately show ?thesis by simp
qed

lemma running_step_less:
  assumes "running_step env j c k par ts rc w = (ph', w')"
  shows "(ph', Run_Tools k par ts rc) \<in> phase_less"
proof (cases ts)
  case Nil
  then show ?thesis using assms by (auto simp: running_step_def phase_less_def split: run_kind.splits)
next
  case (Cons x rest)
  obtain sel t where x: "x = (sel, t)" by fastforce
  have pos: "0 < tool_weight t" by (cases t) auto
  have smaller: "(Run_Tools k par ts1 rc1, Run_Tools k par ts rc) \<in> phase_less"
    if "sum_list (map (\<lambda>(sel, t). tool_weight t) ts1) < sum_list (map (\<lambda>(sel, t). tool_weight t) ts)" for ts1 rc1
    using that by (cases k; simp add: phase_less_def)
  consider (results) "par" "pending_calls ts = []" | (choose) i "is" where "par" "pending_calls ts = i # is"
    | (first) "\<not> par" "tool_result t = None" | (answered) res where "\<not> par" "tool_result t = Some res"
    by (cases par; cases "pending_calls ts"; cases "tool_result t") auto
  then show ?thesis
  proof cases
    case results
    then obtain rc1 where "ph' = Run_Tools k par [] rc1"
      using assms Cons x by (auto simp: running_step_def simp del: process_results.simps split: prod.splits)
    then show ?thesis using smaller [of "[]"] Cons x pos by simp
  next
    case choose
    let ?i = "(i # is) ! (c mod length (i # is))"
    have "?i \<in> set (pending_calls ts)" using choose(2) nth_mem [of "c mod length (i # is)" "i # is"] by simp
    then have i: "?i < length ts" "tool_result (snd (ts ! ?i)) = None" by (simp_all add: pending_calls_def)
    obtain ts1 w1 where p: "advance_call env j ?i ts w = (ts1, w1)" by fastforce
    then have "ph' = Run_Tools k par ts1 rc" using assms choose Cons x by (auto simp: running_step_def)
    then show ?thesis using smaller advance_call_weight [OF p i] by simp
  next
    case first
    obtain ts1 w1 where p: "advance_call env j 0 ts w = (ts1, w1)" by fastforce
    then have "ph' = Run_Tools k par ts1 rc" using assms first Cons x by (auto simp: running_step_def)
    then show ?thesis using smaller advance_call_weight [OF p] first Cons x by simp
  next
    case (answered res)
    then obtain rc1 where "ph' = Run_Tools k par rest rc1"
      using assms Cons x by (auto simp: running_step_def split: prod.splits)
    then show ?thesis using smaller [of rest] Cons x pos by simp
  qed
qed

lemma model_step_less:
  "(fst (planning_step env j rc w), Planning rc) \<in> phase_less"
  "(fst (review_step env j rc w), Plan_Review rc) \<in> phase_less"
  "(fst (selecting_step env j n rc w), Selecting n rc) \<in> phase_less"
  "(fst (responding_step env j n rc w), Responding n rc) \<in> phase_less"
  by (auto simp: planning_step_def review_step_def selecting_step_def responding_step_def Let_def phase_less_def
      split: sum.splits option.splits respond_result.splits list.splits)

lemma phase_step_less:
  assumes "phase_step env j c inbox ph w = (inbox', ph', w')" and "\<not> ended ph" and "ph \<noteq> Waiting \<or> inbox \<noteq> []"
  shows "(ph', ph) \<in> phase_less"
proof (cases ph)
  case (Planning rc)
  then show ?thesis using assms model_step_less(1) [of env j rc w] by simp
next
  case (Plan_Review rc)
  then show ?thesis using assms model_step_less(2) [of env j rc w] by simp
next
  case (Selecting n rc)
  then show ?thesis using assms model_step_less(3) [of env j n rc w] by simp
next
  case (Responding n rc)
  then show ?thesis using assms model_step_less(4) [of env j n rc w] by simp
next
  case (Run_Tools k par ts rc)
  then show ?thesis using assms running_step_less [of env j c k par ts rc w ph' w'] by simp
qed (use assms in \<open>auto simp: phase_less_def MAX_ITERATIONS_def split: list.splits sum.splits if_splits prod.splits\<close>)

section \<open>Examples\<close>

text \<open>Jobs for the examples: the model calls the clock when it is offered tools, and otherwise reports
  that the job is complete.\<close>

definition example_clock :: tool where
  "example_clock = tool_defaults ''time'' ''Clock'' JNull"

definition example_model :: llm where
  "example_model =
     \<lparr>llm_model_name = ''m'',
      llm_complete = \<lambda>_. Ok \<lparr>rsp_content = ''The job is complete'', rsp_input_tokens = 1, rsp_output_tokens = 1,
        rsp_finish_reason = Stop, rsp_response_id = None\<rparr>,
      llm_complete_with_tools = \<lambda>_. Ok \<lparr>tcr_content = None,
        tcr_tool_calls = [\<lparr>tc_id = ''c1'', tc_name = ''time'', tc_arguments = JObject []\<rparr>], tcr_input_tokens = 1,
        tcr_output_tokens = 1, tcr_finish_reason = Stop, tcr_response_id = None\<rparr>\<rparr>"

definition example_jobs :: "tool_registry \<Rightarrow> nat job_env" where
  "example_jobs tools =
     \<lparr>je_now = int, je_later = int, je_uuid = \<lambda>n. n, je_tools = \<lambda>_. tools, je_llm = \<lambda>_. example_model,
      je_debug = False, je_plan_parse = \<lambda>_. Err [], je_json_parse = \<lambda>_. None, je_json_show = \<lambda>_. ''{}'',
      je_json_pretty = \<lambda>_. Ok ''9'', je_execute = \<lambda>_ _ _ _. OutOk JNull, je_elapsed = \<lambda>_. 1, je_sha256 = \<lambda>_. [],
      je_show_uuid = show_nat, je_parse_uuid = \<lambda>_. Some 0, je_display = \<lambda>_. ''failed'', je_display_tool_error = \<lambda>_. ''failed'',
      je_safety = sl_new (\<lambda>_. True) \<lparr>sfc_max_output_length = 1000, sfc_injection_check_enabled = True\<rparr>,
      je_is_match = \<lambda>_ _. False, je_ac = \<lambda>_ _. [], je_rx = \<lambda>_ _. [], je_store = False, je_use_planning = False,
      je_max_parallel_jobs = 1, je_max_repair_attempts = 3, je_zero = 0, je_show_cost = show_nat, je_format_time = \<lambda>_. [], je_rfc3339 = \<lambda>_. [],
      je_secs_since = \<lambda>a b. a - b\<rparr>"

definition example_job_world :: "nat job_world" where
  "example_job_world =
     \<lparr>jw_manager = snd (create_job_for_user 0 7 0 ''ann'' ''t'' ''d'' (cmg_new 5)), jw_step = 0, jw_executed = [],
      jw_requests = [], jw_answers = [], jw_statuses = [], jw_actions = [], jw_audit = [], jw_failures = []\<rparr>"

primrec example_phases :: "nat \<Rightarrow> nat worker_phase" where
  "example_phases 0 = Waiting"
| "example_phases (Suc n) =
     fst (snd (phase_step (example_jobs (tr_register_sync True True example_clock tr_new)) 7 0 [MsgStart] (example_phases n)
       example_job_world))"

section \<open>Theorems\<close>

text \<open>C23: a worker ends, however long its tools' lists are and whatever the model answers: the phases it goes through, each from the one before by a step on some world with some messages and some choice of the runtime, reach an end.\<close>

theorem worker_always_ends:
  assumes "\<And>n. phs (Suc n) = fst (snd (phase_step env j (choice n) (inbox n) (phs n) (world n)))"
    and "\<And>n. phs n = Waiting \<Longrightarrow> inbox n \<noteq> []"
  shows "\<exists>n. ended (phs n)"
proof (rule ccontr)
  assume never: "\<not> (\<exists>n. ended (phs n))"
  have "(phs (Suc n), phs n) \<in> phase_less" for n
  proof -
    obtain i p w where step: "phase_step env j (choice n) (inbox n) (phs n) (world n) = (i, p, w)"
      by (metis prod_cases3)
    have "phs n \<noteq> Waiting \<or> inbox n \<noteq> []" using assms(2) by blast
    then have "(p, phs n) \<in> phase_less" using phase_step_less [OF step] never by blast
    then show ?thesis using assms(1) [of n] step by simp
  qed
  then show False using wf_phase_less unfolding wf_iff_no_infinite_down_chain by blast
qed

theorem worker_always_ends_witness: "\<exists>n. ended (example_phases n)"
  by (rule worker_always_ends [where choice = "\<lambda>_. 0" and inbox = "\<lambda>_. [MsgStart]" and world = "\<lambda>_. example_job_world"]) simp_all

end
