(* ===== verification/Self_Repair.thy ===== *)
theory Self_Repair
  imports Context_Manager
begin

text \<open>
  Self repair, \<open>src/agent/self_repair.rs\<close>: the detection and recovery of stuck jobs, and the detection and
  rebuilding of tools that keep failing, with the table of tool failures of \<open>src/db/libsql_backend.rs\<close>. A
  row of that table is a record; a call of the database that fails, the clock and the builder of tools
  are arguments.
\<close>

section \<open>Data\<close>

record stuck_job =
  sj_job_id :: uuid
  sj_last_activity :: time
  sj_stuck_duration :: duration
  sj_last_error :: "string option"
  sj_repair_attempts :: u32

record broken_tool =
  bt_name :: string
  bt_failure_count :: u32
  bt_last_error :: "string option"
  bt_first_failure :: time
  bt_last_failure :: time
  bt_last_build_result :: "json option"
  bt_repair_attempts :: u32

datatype repair_result =
    RepairSuccess string
  | RepairRetry string
  | RepairFailed string
  | RepairManualRequired string

datatype repair_error = RepairErrorFailed string uuid string | RepairMaxAttemptsExceeded string uuid u32

datatype software_type = WasmTool | CliBinary | Library | Script | WebService

datatype build_language = RustLang | PythonLang | TypeScriptLang | JavaScriptLang | GoLang | BashLang

record build_requirement =
  br_name :: string
  br_description :: string
  br_software_type :: software_type
  br_language :: build_language
  br_input_spec :: "string option"
  br_output_spec :: "string option"
  br_dependencies :: "string list"
  br_capabilities :: "string list"

text \<open>Of the result of a build, what the repair reads.\<close>

record build_result =
  bres_success :: bool
  bres_iterations :: u32
  bres_error :: "string option"

section \<open>Stuck jobs\<close>

text \<open>The difference of \<open>chrono\<close>, in seconds, is an argument.\<close>

definition stuck_of :: "(time \<Rightarrow> time \<Rightarrow> int) \<Rightarrow> time \<Rightarrow> uuid \<Rightarrow> 'd job_context \<Rightarrow> stuck_job" where
  "stuck_of secs_since now j ctx =
     \<lparr>sj_job_id = j,
      sj_last_activity = (case jc_started_at ctx of Some t \<Rightarrow> t | None \<Rightarrow> jc_created_at ctx),
      sj_stuck_duration = (case jc_started_at ctx of Some start \<Rightarrow> nat (max (secs_since now start) 0) | None \<Rightarrow> 0),
      sj_last_error = None, sj_repair_attempts = jc_repair_attempts ctx\<rparr>"

definition detect_stuck_jobs :: "(time \<Rightarrow> time \<Rightarrow> int) \<Rightarrow> time \<Rightarrow> 'd context_manager \<Rightarrow> stuck_job list" where
  "detect_stuck_jobs secs_since now g =
     concat (map (\<lambda>j. case get_context j g of
                        Inr ctx \<Rightarrow> if jc_state ctx = JStuck then [stuck_of secs_since now j ctx] else []
                      | Inl _ \<Rightarrow> []) (find_stuck_jobs g))"

definition repair_stuck_job ::
  "(uuid \<Rightarrow> string) \<Rightarrow> (job_error \<Rightarrow> string) \<Rightarrow> time \<Rightarrow> time \<Rightarrow> u32 \<Rightarrow> stuck_job \<Rightarrow> 'd context_manager \<Rightarrow>
     (repair_error + repair_result) \<times> 'd context_manager" where
  "repair_stuck_job show_uuid display t1 t2 max_attempts job g =
     (if max_attempts \<le> sj_repair_attempts job
      then (Ok (RepairManualRequired (''Job '' @ show_uuid (sj_job_id job) @ '' has exceeded maximum repair attempts ('' @
                  show_nat (unat max_attempts) @ '')'')), g)
      else
        case update_context (sj_job_id job) (attempt_recovery t1 t2) g of
          (Inr (Inr _), g1) \<Rightarrow>
            (Ok (RepairSuccess (''Job '' @ show_uuid (sj_job_id job) @ '' recovered and will be retried'')), g1)
        | (Inr (Inl e), g1) \<Rightarrow> (Ok (RepairRetry (''Recovery attempt failed: '' @ e)), g1)
        | (Inl e, g1) \<Rightarrow> (Err (RepairErrorFailed ''job'' (sj_job_id job) (display e)), g1))"

section \<open>Broken tools\<close>

record failure_row =
  fr_tool_name :: string
  fr_error_message :: "string option"
  fr_error_count :: nat
  fr_first_failure :: time
  fr_last_failure :: time
  fr_last_build_result :: "json option"
  fr_repair_attempts :: nat
  fr_repaired_at :: "time option"

type_synonym failure_table = "failure_row list"

definition update_rows :: "string \<Rightarrow> (failure_row \<Rightarrow> failure_row) \<Rightarrow> failure_table \<Rightarrow> failure_table" where
  "update_rows name f rows = map (\<lambda>r. if fr_tool_name r = name then f r else r) rows"

text \<open>A new row has the default of the table for the first failure, the time of the insertion.\<close>

definition record_tool_failure :: "time \<Rightarrow> string \<Rightarrow> string \<Rightarrow> failure_table \<Rightarrow> failure_table" where
  "record_tool_failure now name msg rows =
     (if name \<in> fr_tool_name ` set rows
      then update_rows name
             (\<lambda>r. r\<lparr>fr_error_message := Some msg, fr_error_count := fr_error_count r + 1, fr_last_failure := now\<rparr>) rows
      else rows @ [\<lparr>fr_tool_name = name, fr_error_message = Some msg, fr_error_count = 1, fr_first_failure = now,
                    fr_last_failure = now, fr_last_build_result = None, fr_repair_attempts = 0, fr_repaired_at = None\<rparr>])"

definition broken_of :: "failure_row \<Rightarrow> broken_tool" where
  "broken_of r =
     \<lparr>bt_name = fr_tool_name r, bt_failure_count = of_nat (fr_error_count r), bt_last_error = fr_error_message r,
      bt_first_failure = fr_first_failure r, bt_last_failure = fr_last_failure r,
      bt_last_build_result = fr_last_build_result r, bt_repair_attempts = of_nat (fr_repair_attempts r)\<rparr>"

definition get_broken_tools :: "nat \<Rightarrow> failure_table \<Rightarrow> broken_tool list" where
  "get_broken_tools threshold rows =
     map broken_of
       (rev (sort_key fr_error_count
          (rev (filter (\<lambda>r. threshold \<le> fr_error_count r \<and> fr_repaired_at r = None) rows))))"

definition mark_tool_repaired :: "time \<Rightarrow> string \<Rightarrow> failure_table \<Rightarrow> failure_table" where
  "mark_tool_repaired now name rows = update_rows name (\<lambda>r. r\<lparr>fr_repaired_at := Some now, fr_error_count := 0\<rparr>) rows"

definition increment_repair_attempts :: "string \<Rightarrow> failure_table \<Rightarrow> failure_table" where
  "increment_repair_attempts name rows = update_rows name (\<lambda>r. r\<lparr>fr_repair_attempts := fr_repair_attempts r + 1\<rparr>) rows"

definition BROKEN_THRESHOLD :: nat where "BROKEN_THRESHOLD = 5"

text \<open>Without a database no tool is found broken; so is none when the query fails.\<close>

definition detect_broken_tools :: "failure_table option \<Rightarrow> bool \<Rightarrow> broken_tool list" where
  "detect_broken_tools store fails =
     (case store of
        None \<Rightarrow> []
      | Some rows \<Rightarrow> if fails then [] else get_broken_tools BROKEN_THRESHOLD rows)"

definition repair_requirement :: "broken_tool \<Rightarrow> build_requirement" where
  "repair_requirement t =
     \<lparr>br_name = bt_name t,
      br_description = ''Repair broken WASM tool.'' @ [newline, newline] @ ''Tool name: '' @ bt_name t @ [newline] @
        ''Previous error: '' @ (case bt_last_error t of Some e \<Rightarrow> e | None \<Rightarrow> ''Unknown error'') @ [newline] @
        ''Failure count: '' @ show_nat (unat (bt_failure_count t)) @ [newline, newline] @
        ''Analyze the error, fix the implementation, and rebuild.'',
      br_software_type = WasmTool, br_language = RustLang, br_input_spec = None, br_output_spec = None,
      br_dependencies = [], br_capabilities = [''http'', ''workspace'']\<rparr>"

definition quote_mark :: string where "quote_mark = [CHR 0x27]"

text \<open>The repair of a tool: the result, the table after it, and the requirements that were built. The
  flags tell which writes to the table fail.\<close>

definition repair_broken_tool ::
  "u32 \<Rightarrow> (build_requirement \<Rightarrow> string + build_result) option \<Rightarrow> time \<Rightarrow> bool \<Rightarrow> bool \<Rightarrow> broken_tool \<Rightarrow> failure_table option \<Rightarrow>
     repair_result \<times> failure_table option \<times> build_requirement list" where
  "repair_broken_tool max_attempts builder now increment_fails mark_fails t store =
     (case builder of
        None \<Rightarrow> (RepairManualRequired (''Builder not available for repairing tool '' @ quote_mark @ bt_name t @ quote_mark), store, [])
      | Some build \<Rightarrow>
          (case store of
             None \<Rightarrow> (RepairManualRequired ''Store not available for tracking repair'', store, [])
           | Some rows \<Rightarrow>
               if max_attempts \<le> bt_repair_attempts t
               then (RepairManualRequired (''Tool '' @ quote_mark @ bt_name t @ quote_mark @ '' exceeded max repair attempts ('' @
                       show_nat (unat max_attempts) @ '')''), store, [])
               else
                 (let rows1 = (if increment_fails then rows else increment_repair_attempts (bt_name t) rows);
                      requirement = repair_requirement t
                  in case build requirement of
                       Inl e \<Rightarrow> (RepairRetry (''Repair build error: '' @ e), Some rows1, [requirement])
                     | Inr result \<Rightarrow>
                         if bres_success result
                         then (RepairSuccess (''Tool '' @ quote_mark @ bt_name t @ quote_mark @ '' repaired successfully after '' @
                                 show_nat (unat (bres_iterations result)) @ '' iterations''),
                               Some (if mark_fails then rows1 else mark_tool_repaired now (bt_name t) rows1), [requirement])
                         else (RepairRetry (''Repair attempt '' @ show_nat (unat (bt_repair_attempts t + 1)) @ '' for '' @
                                 quote_mark @ bt_name t @ quote_mark @ '' failed: '' @
                                 (case bres_error result of Some e \<Rightarrow> e | None \<Rightarrow> ''Unknown error'')),
                               Some rows1, [requirement]))))"

text \<open>One round of the repair of tools: each of the tools that were found broken, in order. What the
  builder answers and which writes fail may differ from tool to tool.\<close>

fun repair_round ::
  "u32 \<Rightarrow> (nat \<Rightarrow> build_requirement \<Rightarrow> string + build_result) \<Rightarrow> time \<Rightarrow> (nat \<Rightarrow> bool) \<Rightarrow> (nat \<Rightarrow> bool) \<Rightarrow> nat \<Rightarrow> broken_tool list \<Rightarrow>
     failure_table \<Rightarrow> failure_table \<times> build_requirement list" where
  "repair_round m build now inc mrk n [] rows = (rows, [])"
| "repair_round m build now inc mrk n (t # ts) rows =
     (let (_, store, built) = repair_broken_tool m (Some (build n)) now (inc n) (mrk n) t (Some rows);
          rows1 = (case store of Some r \<Rightarrow> r | None \<Rightarrow> rows);
          (rows2, built2) = repair_round m build now inc mrk (n + 1) ts rows1
      in (rows2, built @ built2))"

section \<open>Lemmas\<close>

lemma update_rows_names [simp]:
  "(\<And>r. fr_tool_name (f r) = fr_tool_name r) \<Longrightarrow> map fr_tool_name (update_rows name f rows) = map fr_tool_name rows"
  by (auto simp: update_rows_def)

lemma stuck_of_fields [simp]:
  "sj_job_id (stuck_of secs now j ctx) = j" "sj_repair_attempts (stuck_of secs now j ctx) = jc_repair_attempts ctx"
  by (simp_all add: stuck_of_def)

lemma detect_stuck_state:
  "job \<in> set (detect_stuck_jobs secs now g) \<Longrightarrow>
     \<exists>ctx. hm_get (cmg_contexts g) (sj_job_id job) = Some ctx \<and> jc_state ctx = JStuck \<and>
           sj_repair_attempts job = jc_repair_attempts ctx"
  by (auto simp: detect_stuck_jobs_def get_context_def split: sum.splits option.splits if_splits)

lemma detect_stuck_complete:
  assumes "hm_get (cmg_contexts g) j = Some ctx" and "jc_state ctx = JStuck"
  shows "j \<in> sj_job_id ` set (detect_stuck_jobs secs now g)"
proof -
  have "j \<in> set (find_stuck_jobs g)" using assms by (force simp: find_stuck_jobs_def hm_get_def dest: map_of_SomeD)
  moreover have "get_context j g = Ok ctx" using assms(1) by (simp add: get_context_def)
  ultimately show ?thesis using assms(2) by (force simp: detect_stuck_jobs_def)
qed

section \<open>Theorems\<close>

text \<open>A stuck job is found, and it is recovered as often as the limit allows: recovery puts it in progress and counts the attempt, and once the limit is reached it is left as it is and a person is asked for.\<close>

theorem stuck_jobs_recovered_within_limit:
  assumes "hm_get (cmg_contexts g) j = Some ctx" and "jc_state ctx = JStuck"
    and "job \<in> set (detect_stuck_jobs secs now g)" and "sj_job_id job = j"
  shows "j \<in> sj_job_id ` set (detect_stuck_jobs secs now g) \<and>
    (if jc_repair_attempts ctx < m
     then (\<exists>msg ctx'. fst (repair_stuck_job su disp t1 t2 m job g) = Ok (RepairSuccess msg) \<and>
             hm_get (cmg_contexts (snd (repair_stuck_job su disp t1 t2 m job g))) j = Some ctx' \<and>
             jc_state ctx' = JInProgress \<and> jc_repair_attempts ctx' = jc_repair_attempts ctx + 1)
     else (\<exists>msg. repair_stuck_job su disp t1 t2 m job g = (Ok (RepairManualRequired msg), g)))"
proof -
  have found: "sj_repair_attempts job = jc_repair_attempts ctx" using detect_stuck_state [OF assms(3)] assms(1,4) by auto
  have rec: "fst (attempt_recovery t1 t2 ctx) = Ok ()" "jc_state (snd (attempt_recovery t1 t2 ctx)) = JInProgress"
    "jc_repair_attempts (snd (attempt_recovery t1 t2 ctx)) = jc_repair_attempts ctx + 1"
    using assms(2) by (simp_all add: attempt_recovery_def transition_to_def Let_def frame push_transition_def stamp_state_def)
  then obtain ctx' where "attempt_recovery t1 t2 ctx = (Ok (), ctx')" by (metis prod.collapse)
  then show ?thesis
    using detect_stuck_complete [OF assms(1,2)] assms(1,4) found rec
    by (auto simp: repair_stuck_job_def update_context_def linorder_not_less [symmetric])
qed

definition sample_stuck :: "nat context_manager" where
  "sample_stuck =
     snd (update_context 1 (mark_stuck 3 3 ''Execution timeout'')
       (snd (update_context 1 (transition_to 2 2 JInProgress None)
          (snd (create_job_for_user 0 1 0 ''ann'' ''t'' ''d'' (cmg_new 5))))))"

definition sample_stuck_ctx :: "nat job_context" where
  "sample_stuck_ctx = the (hm_get (cmg_contexts sample_stuck) 1)"

lemma sample_stuck_state:
  "hm_get (cmg_contexts sample_stuck) 1 = Some sample_stuck_ctx" "jc_state sample_stuck_ctx = JStuck"
  "detect_stuck_jobs (\<lambda>a b. a - b) 9 sample_stuck = [stuck_of (\<lambda>a b. a - b) 9 1 sample_stuck_ctx]"
  by code_simp+

theorem stuck_jobs_recovered_within_limit_witness:
  "1 \<in> sj_job_id ` set (detect_stuck_jobs (\<lambda>a b. a - b) 9 sample_stuck) \<and>
    (if jc_repair_attempts sample_stuck_ctx < 3
     then (\<exists>msg ctx'. fst (repair_stuck_job show_nat (\<lambda>_. []) 5 5 3 (stuck_of (\<lambda>a b. a - b) 9 1 sample_stuck_ctx) sample_stuck) =
               Ok (RepairSuccess msg) \<and>
             hm_get (cmg_contexts (snd (repair_stuck_job show_nat (\<lambda>_. []) 5 5 3 (stuck_of (\<lambda>a b. a - b) 9 1 sample_stuck_ctx)
               sample_stuck))) 1 = Some ctx' \<and>
             jc_state ctx' = JInProgress \<and> jc_repair_attempts ctx' = jc_repair_attempts sample_stuck_ctx + 1)
     else (\<exists>msg. repair_stuck_job show_nat (\<lambda>_. []) 5 5 3 (stuck_of (\<lambda>a b. a - b) 9 1 sample_stuck_ctx) sample_stuck =
             (Ok (RepairManualRequired msg), sample_stuck)))"
  by (rule stuck_jobs_recovered_within_limit [OF sample_stuck_state(1,2)]) (simp_all add: sample_stuck_state(3))

text \<open>The events that change the table of tool failures.\<close>

datatype failure_event = Tool_Failed time string string | Repair_Tried string | Tool_Repaired time string

fun failure_step :: "failure_event \<Rightarrow> failure_table \<Rightarrow> failure_table" where
  "failure_step (Tool_Failed now name msg) rows = record_tool_failure now name msg rows"
| "failure_step (Repair_Tried name) rows = increment_repair_attempts name rows"
| "failure_step (Tool_Repaired now name) rows = mark_tool_repaired now name rows"

definition marked :: "string \<Rightarrow> failure_table \<Rightarrow> bool" where
  "marked n rows \<longleftrightarrow> n \<in> set (map fr_tool_name rows) \<and> (\<forall>r \<in> set rows. fr_tool_name r = n \<longrightarrow> fr_repaired_at r \<noteq> None)"

lemma marked_update:
  assumes "marked n rows" and "\<And>r. fr_tool_name (f r) = fr_tool_name r"
    and "\<And>r. fr_repaired_at r \<noteq> None \<Longrightarrow> fr_repaired_at (f r) \<noteq> None"
  shows "marked n (update_rows name f rows)"
  unfolding marked_def update_rows_names [of f, OF assms(2)]
  using assms by (auto simp: marked_def update_rows_def)

lemma marked_step: "marked n rows \<Longrightarrow> marked n (failure_step e rows)"
proof (cases e)
  case (Tool_Failed now name msg)
  assume "marked n rows"
  show ?thesis
  proof (cases "name \<in> fr_tool_name ` set rows")
    case True
    with Tool_Failed \<open>marked n rows\<close> show ?thesis by (simp add: record_tool_failure_def marked_update)
  next
    case False
    with Tool_Failed \<open>marked n rows\<close> show ?thesis by (auto simp: record_tool_failure_def marked_def)
  qed
qed (auto simp: increment_repair_attempts_def mark_tool_repaired_def intro!: marked_update)

lemma marked_steps: "marked n rows \<Longrightarrow> marked n (fold failure_step es rows)"
  by (induction es arbitrary: rows) (simp_all add: marked_step)

text \<open>A tool that was repaired once is never found broken again, however often it fails: a failure counts up the row that still carries the time of the repair.\<close>

theorem repaired_tool_not_found:
  assumes "n \<in> fr_tool_name ` set rows"
  shows "n \<notin> bt_name ` set (get_broken_tools threshold (fold failure_step es (mark_tool_repaired now n rows)))"
proof -
  have "marked n (mark_tool_repaired now n rows)"
    using assms by (auto simp: marked_def mark_tool_repaired_def update_rows_def)
  then have "marked n (fold failure_step es (mark_tool_repaired now n rows))" by (rule marked_steps)
  then show ?thesis by (auto simp: marked_def get_broken_tools_def broken_of_def)
qed

theorem repaired_tool_not_found_witness:
  "''grep'' \<notin> bt_name ` set (get_broken_tools 5 (fold failure_step (replicate 9 (Tool_Failed 7 ''grep'' ''bad''))
     (mark_tool_repaired 3 ''grep'' (record_tool_failure 1 ''grep'' ''bad'' []))))"
  by (rule repaired_tool_not_found) (simp add: record_tool_failure_def)

end
