(* ===== verification/Job_Scheduler.thy ===== *)
theory Job_Scheduler
  imports Job_Worker Self_Repair
begin

text \<open>
  The jobs of the agent as a whole: the scheduler, \<open>src/agent/scheduler.rs\<close>, the commands on jobs of
  \<open>src/agent/agent_loop.rs\<close>, the tools of \<open>src/tools/builtin/job.rs\<close> that create and cancel jobs, and the
  repair of stuck jobs, running beside the workers.

  A job that is scheduled has a worker, and the worker's position in the list of all workers is its
  handle. The tasks that are under way and wait for their turn are \<open>sys_calls\<close>; each of them advances by
  one step at a time, in any order. \<open>Scheduler::schedule\<close> and \<open>Scheduler::cleanup_finished\<close> hold the write
  lock of the table of jobs from the first look to the last write and are one step.
  \<open>Scheduler::stop\<close> holds it across a pause, so it has three steps, and \<open>sys_stop\<close> says at which of them
  the lock is held; whoever needs the lock then waits.
\<close>

section \<open>The system\<close>

record 'd worker =
  wk_job :: uuid
  wk_inbox :: "worker_message list"
  wk_phase :: "'d worker_phase"

text \<open>The text of the command that waits for a stop is kept with it, if there is one.\<close>

datatype stop_phase = Stop_Abort uuid nat "string option" | Stop_Mark uuid "string option"

datatype call =
    Schedule_New uuid string
  | Help_Recover uuid string u32
  | Help_Schedule uuid string u32
  | Stop_Job uuid "string option"
  | Clean_Check uuid
  | Clean_Remove uuid
  | Repair_Job stuck_job

record 'd job_system =
  sys_world :: "'d job_world"
  sys_jobs :: "(uuid, nat) hash_map"
  sys_workers :: "'d worker list"
  sys_stop :: "stop_phase option"
  sys_calls :: "call list"
  sys_replies :: "(agent_error + string) list"
  sys_notices :: "string list"
  sys_saved :: "'d job_context list"

definition system_new :: "nat \<Rightarrow> 'd job_system" where
  "system_new max_jobs =
     \<lparr>sys_world = \<lparr>jw_manager = cmg_new max_jobs, jw_step = 0, jw_executed = [], jw_requests = [], jw_answers = [],
        jw_statuses = [], jw_actions = [], jw_audit = [], jw_failures = []\<rparr>,
      sys_jobs = [], sys_workers = [], sys_stop = None, sys_calls = [], sys_replies = [], sys_notices = [],
      sys_saved = []\<rparr>"

abbreviation sys_manager :: "'d job_system \<Rightarrow> 'd context_manager" where
  "sys_manager s \<equiv> jw_manager (sys_world s)"

definition set_manager :: "'d context_manager \<Rightarrow> 'd job_system \<Rightarrow> 'd job_system" where
  "set_manager g s = s\<lparr>sys_world := job_tick ((sys_world s)\<lparr>jw_manager := g\<rparr>)\<rparr>"

definition reply :: "agent_error + string \<Rightarrow> 'd job_system \<Rightarrow> 'd job_system" where
  "reply r s = s\<lparr>sys_replies := sys_replies s @ [r]\<rparr>"

definition spawn :: "call \<Rightarrow> 'd job_system \<Rightarrow> 'd job_system" where
  "spawn c s = s\<lparr>sys_calls := sys_calls s @ [c]\<rparr>"

definition is_finished :: "'d job_system \<Rightarrow> nat \<Rightarrow> bool" where
  "is_finished s i = (i < length (sys_workers s) \<longrightarrow> ended (wk_phase (sys_workers s ! i)))"

section \<open>Workers\<close>

definition work :: "'d job_env \<Rightarrow> nat \<Rightarrow> nat \<Rightarrow> 'd job_system \<Rightarrow> 'd job_system" where
  "work env i c s =
     (if i < length (sys_workers s)
      then
        (let wk = sys_workers s ! i;
             (inbox, ph, w) = phase_step env (wk_job wk) c (wk_inbox wk) (wk_phase wk) (sys_world s)
         in s\<lparr>sys_workers := (sys_workers s)[i := wk\<lparr>wk_inbox := inbox, wk_phase := ph\<rparr>], sys_world := w\<rparr>)
      else s)"

definition set_phase :: "nat \<Rightarrow> 'd worker_phase \<Rightarrow> 'd job_system \<Rightarrow> 'd job_system" where
  "set_phase i ph s =
     (if i < length (sys_workers s)
      then s\<lparr>sys_workers := (sys_workers s)[i := (sys_workers s ! i)\<lparr>wk_phase := ph\<rparr>]\<rparr> else s)"

text \<open>The timeout of a job fires.\<close>

definition time_out :: "nat \<Rightarrow> 'd job_system \<Rightarrow> 'd job_system" where
  "time_out i s =
     (if i < length (sys_workers s) \<and> in_execution_loop (wk_phase (sys_workers s ! i)) then set_phase i Timing_Out s else s)"

section \<open>The scheduler\<close>

definition schedule :: "'d job_env \<Rightarrow> uuid \<Rightarrow> 'd job_system \<Rightarrow> (job_error + unit) \<times> 'd job_system" where
  "schedule env j s =
     (if hm_contains (sys_jobs s) j then (Ok (), s)
      else if je_max_parallel_jobs env \<le> length (sys_jobs s) then (Err (MaxJobsExceeded (je_max_parallel_jobs env)), s)
      else
        (let n = jw_step (sys_world s)
         in case update_context j (transition_to (je_now env n) (je_later env n) JInProgress (Some ''Scheduled for execution''))
                   (sys_manager s) of
              (Inl e, g) \<Rightarrow> (Err e, set_manager g s)
            | (Inr (Inl msg), g) \<Rightarrow> (Err (JobContextError j msg), set_manager g s)
            | (Inr (Inr _), g) \<Rightarrow>
                (Ok (),
                 spawn (Clean_Check j)
                   ((set_manager g s)
                      \<lparr>sys_workers := sys_workers s @ [\<lparr>wk_job = j, wk_inbox = [MsgStart], wk_phase = Waiting\<rparr>],
                       sys_jobs := hm_insert j (length (sys_workers s)) (sys_jobs s)\<rparr>))))"

definition is_running :: "uuid \<Rightarrow> 'd job_system \<Rightarrow> bool" where
  "is_running j s = hm_contains (sys_jobs s) j"

definition running_count :: "'d job_system \<Rightarrow> nat" where
  "running_count s = length (sys_jobs s)"

definition running_jobs :: "'d job_system \<Rightarrow> uuid list" where
  "running_jobs s = map fst (sys_jobs s)"

text \<open>\<open>stop\<close>: the job leaves the table and its worker is told to stop, \<dots>\<close>

definition stop_reply :: "string option \<Rightarrow> job_error + unit \<Rightarrow> 'd job_system \<Rightarrow> 'd job_system" where
  "stop_reply who r s =
     (case who of
        None \<Rightarrow> s
      | Some job_id \<Rightarrow>
          (case r of
             Inl e \<Rightarrow> reply (Err (ErrJob e)) s
           | Inr _ \<Rightarrow> reply (Ok (''Job '' @ job_id @ '' has been cancelled.'')) s))"

definition stop_begin :: "uuid \<Rightarrow> string option \<Rightarrow> 'd job_system \<Rightarrow> 'd job_system" where
  "stop_begin j who s =
     (case hm_get (sys_jobs s) j of
        None \<Rightarrow> stop_reply who (Ok ()) s
      | Some i \<Rightarrow>
          s\<lparr>sys_jobs := hm_remove j (sys_jobs s),
            sys_workers :=
              (if i < length (sys_workers s)
               then (sys_workers s)[i := (sys_workers s ! i)\<lparr>wk_inbox := wk_inbox (sys_workers s ! i) @ [MsgStop]\<rparr>]
               else sys_workers s),
            sys_stop := Some (Stop_Abort j i who)\<rparr>)"

text \<open>\<dots> after a pause it is aborted if it is still running, and the job is marked as cancelled.\<close>

definition stop_mark :: "'d job_env \<Rightarrow> uuid \<Rightarrow> string option \<Rightarrow> 'd job_system \<Rightarrow> 'd job_system" where
  "stop_mark env j who s =
     (let n = jw_step (sys_world s);
          (r, g) = update_context j (transition_to (je_now env n) (je_later env n) JCancelled (Some ''Stopped by scheduler''))
                     (sys_manager s);
          s1 = (set_manager g s)\<lparr>sys_stop := None\<rparr>
      in case r of
           Inl e \<Rightarrow> stop_reply who (Err e) s1
         | Inr _ \<Rightarrow>
             stop_reply who (Ok ())
               (if je_store env
                then s1\<lparr>sys_world := (sys_world s1)\<lparr>jw_statuses := jw_statuses (sys_world s1) @
                          [(j, JCancelled, Some ''Stopped by scheduler'')]\<rparr>\<rparr>
                else s1))"

definition stop_step :: "'d job_env \<Rightarrow> 'd job_system \<Rightarrow> 'd job_system" where
  "stop_step env s =
     (case sys_stop s of
        None \<Rightarrow> s
      | Some (Stop_Abort j i who) \<Rightarrow> (if is_finished s i then s else set_phase i Aborted s)\<lparr>sys_stop := Some (Stop_Mark j who)\<rparr>
      | Some (Stop_Mark j who) \<Rightarrow> stop_mark env j who s)"

definition cleanup_finished :: "'d job_system \<Rightarrow> 'd job_system" where
  "cleanup_finished s = s\<lparr>sys_jobs := filter (\<lambda>(j, i). \<not> is_finished s i) (sys_jobs s)\<rparr>"

section \<open>Commands\<close>

definition show_debug_state :: "job_state \<Rightarrow> string" where
  "show_debug_state st =
     (case st of
        JPending \<Rightarrow> ''Pending'' | JInProgress \<Rightarrow> ''InProgress'' | JCompleted \<Rightarrow> ''Completed'' | JSubmitted \<Rightarrow> ''Submitted''
      | JAccepted \<Rightarrow> ''Accepted'' | JFailed \<Rightarrow> ''Failed'' | JStuck \<Rightarrow> ''Stuck'' | JCancelled \<Rightarrow> ''Cancelled'')"

text \<open>Writing a new job to the database is not awaited.\<close>

definition save_job :: "'d job_env \<Rightarrow> uuid \<Rightarrow> 'd job_system \<Rightarrow> 'd job_system" where
  "save_job env j s =
     (if je_store env
      then (case get_context j (sys_manager s) of Inr ctx \<Rightarrow> s\<lparr>sys_saved := sys_saved s @ [ctx]\<rparr> | Inl _ \<Rightarrow> s)
      else s)"

text \<open>The creation of a job, its category and its first saving are one step, since they concern a job
  that no other task has been told of.\<close>

definition handle_create_job ::
  "'d job_env \<Rightarrow> string \<Rightarrow> string \<Rightarrow> string \<Rightarrow> string option \<Rightarrow> 'd job_system \<Rightarrow> 'd job_system" where
  "handle_create_job env user title description category s =
     (let n = jw_step (sys_world s)
      in case create_job_for_user (je_zero env) (je_uuid env n) (je_now env n) user title description (sys_manager s) of
           (Inl e, g) \<Rightarrow> reply (Err (ErrJob e)) (set_manager g s)
         | (Inr j, g) \<Rightarrow>
             (let g1 = (case category of
                          Some cat \<Rightarrow> snd (update_context j (\<lambda>c. ((), c\<lparr>jc_category := Some cat\<rparr>)) g)
                        | None \<Rightarrow> g)
              in spawn (Schedule_New j title) (save_job env j (set_manager g1 s))))"

text \<open>A command that names a job looks it up and refuses it to a user who does not own it.\<close>

definition own_job :: "'d job_env \<Rightarrow> string \<Rightarrow> string \<Rightarrow> 'd job_system \<Rightarrow> job_error + uuid \<times> 'd job_context" where
  "own_job env user job_id s =
     (case je_parse_uuid env job_id of
        None \<Rightarrow> Err (JobNotFound 0)
      | Some j \<Rightarrow>
          (case get_context j (sys_manager s) of
             Inl e \<Rightarrow> Err e
           | Inr ctx \<Rightarrow> if jc_user_id ctx \<noteq> user then Err (JobNotFound j) else Ok (j, ctx)))"

definition handle_check_status :: "'d job_env \<Rightarrow> string \<Rightarrow> string option \<Rightarrow> 'd job_system \<Rightarrow> agent_error + string" where
  "handle_check_status env user job_id s =
     (case job_id of
        Some i \<Rightarrow>
          (case own_job env user i s of
             Inl e \<Rightarrow> Err (ErrJob e)
           | Inr (j, ctx) \<Rightarrow>
               Ok (''Job: '' @ jc_title ctx @ [newline] @ ''Status: '' @ show_debug_state (jc_state ctx) @ [newline] @
                   ''Created: '' @ je_format_time env (jc_created_at ctx) @ [newline] @
                   ''Started: '' @ (case jc_started_at ctx of Some t \<Rightarrow> je_format_time env t | None \<Rightarrow> ''Not started'') @ [newline] @
                   ''Actual cost: '' @ je_show_cost env (jc_actual_cost ctx)))
      | None \<Rightarrow>
          (let sm = summary_for user (sys_manager s)
           in Ok (''Jobs summary:'' @ [newline] @ ''  Total: '' @ show_nat (cs_total sm) @ [newline] @
                  ''  In Progress: '' @ show_nat (cs_in_progress sm) @ [newline] @
                  ''  Completed: '' @ show_nat (cs_completed sm) @ [newline] @
                  ''  Failed: '' @ show_nat (cs_failed sm) @ [newline] @ ''  Stuck: '' @ show_nat (cs_stuck sm))))"

definition handle_list_jobs :: "'d job_env \<Rightarrow> string \<Rightarrow> 'd job_system \<Rightarrow> string" where
  "handle_list_jobs env user s =
     (let jobs = all_jobs_for user (sys_manager s)
      in if jobs = [] then ''No jobs found.''
         else
           ''Jobs:'' @ [newline] @
           concat (map (\<lambda>j. case get_context j (sys_manager s) of
                              Inr ctx \<Rightarrow>
                                if jc_user_id ctx = user
                                then ''  '' @ je_show_uuid env j @ '' - '' @ jc_title ctx @ '' ('' @
                                     show_debug_state (jc_state ctx) @ '')'' @ [newline]
                                else []
                            | Inl _ \<Rightarrow> []) jobs))"

definition handle_cancel_job :: "'d job_env \<Rightarrow> string \<Rightarrow> string \<Rightarrow> 'd job_system \<Rightarrow> 'd job_system" where
  "handle_cancel_job env user job_id s =
     (case own_job env user job_id s of
        Inl e \<Rightarrow> reply (Err (ErrJob e)) s
      | Inr (j, _) \<Rightarrow> spawn (Stop_Job j (Some job_id)) s)"

definition handle_help_job :: "'d job_env \<Rightarrow> string \<Rightarrow> string \<Rightarrow> 'd job_system \<Rightarrow> 'd job_system" where
  "handle_help_job env user job_id s =
     (case own_job env user job_id s of
        Inl e \<Rightarrow> reply (Err (ErrJob e)) s
      | Inr (j, ctx) \<Rightarrow>
          if jc_state ctx = JStuck then spawn (Help_Recover j job_id (jc_repair_attempts ctx)) s
          else reply (Ok (''Job '' @ job_id @ '' is not stuck (current state: '' @ show_debug_state (jc_state ctx) @
                          ''). No help needed.'')) s)"

section \<open>Tools on jobs\<close>

text \<open>\<open>create_job\<close> without a sandbox: the job is created, and nothing schedules it.\<close>

definition execute_local :: "'d job_env \<Rightarrow> string \<Rightarrow> string \<Rightarrow> string \<Rightarrow> 'd job_system \<Rightarrow> json \<times> 'd job_system" where
  "execute_local env user title description s =
     (let n = jw_step (sys_world s)
      in case create_job_for_user (je_zero env) (je_uuid env n) (je_now env n) user title description (sys_manager s) of
           (Inr j, g) \<Rightarrow>
             (JObject [(''job_id'', JString (je_show_uuid env j)), (''title'', JString title), (''status'', JString ''pending''),
                       (''message'', JString (''Created job '' @ apostrophe @ title @ apostrophe))], set_manager g s)
         | (Inl e, g) \<Rightarrow> (JObject [(''error'', JString (je_display env (ErrJob e)))], set_manager g s))"

definition missing_param :: "string \<Rightarrow> tool_error" where
  "missing_param name = InvalidParameters (''missing '' @ apostrophe @ name @ apostrophe @ '' parameter'')"

definition create_job_tool ::
  "'d job_env \<Rightarrow> string \<Rightarrow> json \<Rightarrow> 'd job_system \<Rightarrow> (tool_error + json) \<times> 'd job_system" where
  "create_job_tool env user params s =
     (case json_get_str params ''title'' of
        None \<Rightarrow> (Err (missing_param ''title''), s)
      | Some title \<Rightarrow>
          (case json_get_str params ''description'' of
             None \<Rightarrow> (Err (missing_param ''description''), s)
           | Some description \<Rightarrow> (let (v, s1) = execute_local env user title description s in (Ok v, s1))))"

text \<open>The identifier that a tool is given.\<close>

definition job_param :: "'d job_env \<Rightarrow> json \<Rightarrow> tool_error + uuid" where
  "job_param env params =
     (case json_get_str params ''job_id'' of
        None \<Rightarrow> Err (missing_param ''job_id'')
      | Some i \<Rightarrow>
          (case je_parse_uuid env i of
             None \<Rightarrow> Err (InvalidParameters (''invalid job ID format: '' @ i))
           | Some j \<Rightarrow> Ok j))"

definition cancel_own :: "'d job_env \<Rightarrow> nat \<Rightarrow> string \<Rightarrow> 'd job_context \<Rightarrow> (string + unit) \<times> 'd job_context" where
  "cancel_own env n user ctx =
     (if jc_user_id ctx \<noteq> user then (Err ''Job not found'', ctx)
      else transition_to (je_now env n) (je_later env n) JCancelled (Some ''Cancelled by user'') ctx)"

definition cancel_job_tool ::
  "'d job_env \<Rightarrow> string \<Rightarrow> json \<Rightarrow> 'd job_system \<Rightarrow> (tool_error + json) \<times> 'd job_system" where
  "cancel_job_tool env user params s =
     (case job_param env params of
        Inl e \<Rightarrow> (Err e, s)
      | Inr j \<Rightarrow>
          (case update_context j (cancel_own env (jw_step (sys_world s)) user) (sys_manager s) of
             (Inr (Inr _), g) \<Rightarrow>
               (Ok (JObject [(''job_id'', JString (je_show_uuid env j)), (''status'', JString ''cancelled''),
                             (''message'', JString ''Job cancelled successfully'')]), set_manager g s)
           | (Inr (Inl reason), g) \<Rightarrow>
               (Ok (JObject [(''error'', JString (''Cannot cancel job: '' @ reason))]), set_manager g s)
           | (Inl e, g) \<Rightarrow>
               (Ok (JObject [(''error'', JString (''Job not found: '' @ je_display env (ErrJob e)))]), set_manager g s)))"

definition job_status_tool :: "'d job_env \<Rightarrow> string \<Rightarrow> json \<Rightarrow> 'd job_system \<Rightarrow> tool_error + json" where
  "job_status_tool env user params s =
     (case job_param env params of
        Inl e \<Rightarrow> Err e
      | Inr j \<Rightarrow>
          (case get_context j (sys_manager s) of
             Inl e \<Rightarrow> Ok (JObject [(''error'', JString (''Job not found: '' @ je_display env (ErrJob e)))])
           | Inr ctx \<Rightarrow>
               if jc_user_id ctx \<noteq> user then Ok (JObject [(''error'', JString ''Job not found'')])
               else
                 (let time = (\<lambda>t. case t of Some x \<Rightarrow> JString (je_rfc3339 env x) | None \<Rightarrow> JNull)
                  in Ok (JObject
                    [(''job_id'', JString (je_show_uuid env j)), (''title'', JString (jc_title ctx)),
                     (''description'', JString (jc_description ctx)), (''status'', JString (show_debug_state (jc_state ctx))),
                     (''created_at'', JString (je_rfc3339 env (jc_created_at ctx))), (''started_at'', time (jc_started_at ctx)),
                     (''completed_at'', time (jc_completed_at ctx)), (''actual_cost'', JString (je_show_cost env (jc_actual_cost ctx)))]))))"

definition list_filter :: "string \<Rightarrow> job_state \<Rightarrow> bool" where
  "list_filter f st =
     (if f = ''completed'' then st = JCompleted else if f = ''failed'' then st = JFailed
      else if f = ''active'' then is_active st else True)"

definition list_jobs_tool :: "'d job_env \<Rightarrow> string \<Rightarrow> json \<Rightarrow> 'd job_system \<Rightarrow> json" where
  "list_jobs_tool env user params s =
     (let f = (case json_get_str params ''filter'' of Some x \<Rightarrow> x | None \<Rightarrow> ''all'');
          ids = (if f = ''active'' then active_jobs_for user (sys_manager s) else all_jobs_for user (sys_manager s));
          jobs = concat (map (\<lambda>j. case get_context j (sys_manager s) of
                                    Inr ctx \<Rightarrow>
                                      if list_filter f (jc_state ctx)
                                      then [JObject [(''job_id'', JString (je_show_uuid env j)), (''title'', JString (jc_title ctx)),
                                                     (''status'', JString (show_debug_state (jc_state ctx))),
                                                     (''created_at'', JString (je_rfc3339 env (jc_created_at ctx)))]]
                                      else []
                                  | Inl _ \<Rightarrow> []) ids);
          sm = summary_for user (sys_manager s);
          num = (\<lambda>n. JNumber (show_nat n))
      in JObject [(''jobs'', JArray jobs),
           (''summary'', JObject [(''total'', num (cs_total sm)), (''pending'', num (cs_pending sm)),
              (''in_progress'', num (cs_in_progress sm)), (''completed'', num (cs_completed sm)), (''failed'', num (cs_failed sm))])])"

section \<open>Steps\<close>

definition help_reply :: "string \<Rightarrow> u32 \<Rightarrow> string" where
  "help_reply job_id attempts =
     ''Job '' @ job_id @ '' was stuck. Attempting recovery (attempt #'' @ show_nat (unat (attempts + 1)) @ '').''"

definition repair_notice :: "'d job_env \<Rightarrow> stuck_job \<Rightarrow> repair_error + repair_result \<Rightarrow> string list" where
  "repair_notice env job r =
     (let head = ''Self-Repair: Job '' @ je_show_uuid env (sj_job_id job)
      in case r of
           Inr (RepairSuccess msg) \<Rightarrow>
             [head @ '' was stuck for '' @ show_nat (sj_stuck_duration job) @ ''s, recovery succeeded: '' @ msg]
         | Inr (RepairFailed msg) \<Rightarrow>
             [head @ '' was stuck for '' @ show_nat (sj_stuck_duration job) @ ''s, recovery failed permanently: '' @ msg]
         | Inr (RepairManualRequired msg) \<Rightarrow> [head @ '' needs manual intervention: '' @ msg]
         | _ \<Rightarrow> [])"

text \<open>The recovery of a job by the help command, which goes on to schedule it; the two halves of the loop
  that takes a finished job out of the table; and the repair of a job that was found stuck.\<close>

definition help_recover :: "'d job_env \<Rightarrow> uuid \<Rightarrow> string \<Rightarrow> u32 \<Rightarrow> 'd job_system \<Rightarrow> call list \<times> 'd job_system" where
  "help_recover env j job_id attempts s =
     (let n = jw_step (sys_world s)
      in case update_context j (attempt_recovery (je_now env n) (je_later env n)) (sys_manager s) of
           (Inl e, g) \<Rightarrow> ([], reply (Err (ErrJob e)) (set_manager g s))
         | (Inr (Inl msg), g) \<Rightarrow> ([], reply (Err (ErrJob (JobContextError j msg))) (set_manager g s))
         | (Inr (Inr _), g) \<Rightarrow> ([Help_Schedule j job_id attempts], set_manager g s))"

definition clean_check :: "uuid \<Rightarrow> 'd job_system \<Rightarrow> call" where
  "clean_check j s =
     (if (case hm_get (sys_jobs s) j of Some i \<Rightarrow> is_finished s i | None \<Rightarrow> True) then Clean_Remove j else Clean_Check j)"

definition clean_remove :: "uuid \<Rightarrow> 'd job_system \<Rightarrow> 'd job_system" where
  "clean_remove j s = s\<lparr>sys_jobs := hm_remove j (sys_jobs s)\<rparr>"

definition repair_job :: "'d job_env \<Rightarrow> stuck_job \<Rightarrow> 'd job_system \<Rightarrow> 'd job_system" where
  "repair_job env job s =
     (let n = jw_step (sys_world s);
          (r, g) = repair_stuck_job (je_show_uuid env) (\<lambda>e. je_display env (ErrJob e)) (je_now env n) (je_later env n)
                     (je_max_repair_attempts env) job (sys_manager s);
          s1 = set_manager g s
      in s1\<lparr>sys_notices := sys_notices s1 @ repair_notice env job r\<rparr>)"

definition repair_scan :: "'d job_env \<Rightarrow> 'd job_system \<Rightarrow> 'd job_system" where
  "repair_scan env s =
     s\<lparr>sys_calls := sys_calls s @
         map Repair_Job (detect_stuck_jobs (je_secs_since env) (je_now env (jw_step (sys_world s))) (sys_manager s))\<rparr>"

definition stop_all :: "'d job_system \<Rightarrow> 'd job_system" where
  "stop_all s = s\<lparr>sys_calls := sys_calls s @ map (\<lambda>j. Stop_Job j None) (running_jobs s)\<rparr>"

text \<open>A step of a pending call: the calls it leaves, and the system. Those that need the lock of the table
  leave themselves while it is held.\<close>

fun call_step :: "'d job_env \<Rightarrow> call \<Rightarrow> 'd job_system \<Rightarrow> call list \<times> 'd job_system" where
  "call_step env (Schedule_New j title) s =
     (if sys_stop s \<noteq> None then ([Schedule_New j title], s)
      else
        (case schedule env j s of
           (Inl e, s1) \<Rightarrow> ([], reply (Err (ErrJob e)) s1)
         | (Inr _, s1) \<Rightarrow>
             ([], reply (Ok (''Created job: '' @ title @ [newline] @ ''ID: '' @ je_show_uuid env j @ [newline, newline] @
                             ''The job has been scheduled and is now running.'')) s1)))"
| "call_step env (Help_Recover j job_id attempts) s = help_recover env j job_id attempts s"
| "call_step env (Help_Schedule j job_id attempts) s =
     (if sys_stop s \<noteq> None then ([Help_Schedule j job_id attempts], s)
      else
        (case schedule env j s of
           (Inl e, s1) \<Rightarrow> ([], reply (Err (ErrJob e)) s1)
         | (Inr _, s1) \<Rightarrow> ([], reply (Ok (help_reply job_id attempts)) s1)))"
| "call_step env (Stop_Job j who) s = (if sys_stop s \<noteq> None then ([Stop_Job j who], s) else ([], stop_begin j who s))"
| "call_step env (Clean_Check j) s = (if sys_stop s \<noteq> None then ([Clean_Check j], s) else ([clean_check j s], s))"
| "call_step env (Clean_Remove j) s = (if sys_stop s \<noteq> None then ([Clean_Remove j], s) else ([], clean_remove j s))"
| "call_step env (Repair_Job job) s = ([], repair_job env job s)"

datatype job_act =
    Work nat nat
  | Time_Out nat
  | Stop_Step
  | Call nat
  | Create_Command string string string "string option"
  | Cancel_Command string string
  | Help_Command string string
  | Create_Tool string json
  | Cancel_Tool string json
  | Repair_Scan
  | Clean_Up
  | Stop_All

fun system_act :: "'d job_env \<Rightarrow> job_act \<Rightarrow> 'd job_system \<Rightarrow> 'd job_system" where
  "system_act env (Work i c) s = work env i c s"
| "system_act env (Time_Out i) s = time_out i s"
| "system_act env Stop_Step s = stop_step env s"
| "system_act env (Call k) s =
     (if k < length (sys_calls s)
      then
        (let cs = sys_calls s;
             (left, s1) = call_step env (cs ! k) (s\<lparr>sys_calls := take k cs @ drop (Suc k) cs\<rparr>)
         in s1\<lparr>sys_calls := sys_calls s1 @ left\<rparr>)
      else s)"
| "system_act env (Create_Command user title description category) s = handle_create_job env user title description category s"
| "system_act env (Cancel_Command user job_id) s = handle_cancel_job env user job_id s"
| "system_act env (Help_Command user job_id) s = handle_help_job env user job_id s"
| "system_act env (Create_Tool user params) s = snd (create_job_tool env user params s)"
| "system_act env (Cancel_Tool user params) s = snd (cancel_job_tool env user params s)"
| "system_act env Repair_Scan s = repair_scan env s"
| "system_act env Clean_Up s = (if sys_stop s \<noteq> None then s else cleanup_finished s)"
| "system_act env Stop_All s = stop_all s"

definition job_run :: "'d job_env \<Rightarrow> job_act list \<Rightarrow> 'd job_system \<Rightarrow> 'd job_system" where
  "job_run env acts s = fold (system_act env) acts s"

inductive job_reachable :: "'d job_env \<Rightarrow> nat \<Rightarrow> 'd job_system \<Rightarrow> bool"
  for env :: "'d job_env" and max_jobs :: nat
where
  reachable_new: "job_reachable env max_jobs (system_new max_jobs)"
| reachable_act: "job_reachable env max_jobs s \<Longrightarrow> job_reachable env max_jobs (system_act env a s)"

section \<open>Invariants\<close>

lemmas call_defs [simp] = help_recover_def clean_check_def clean_remove_def repair_job_def repair_scan_def stop_all_def

text \<open>What the invariants speak of: the state of each job, and which worker is running which job.\<close>

abbreviation sys_state :: "'d job_system \<Rightarrow> uuid \<Rightarrow> job_state option" where
  "sys_state s \<equiv> job_state_of (sys_manager s)"

definition crew :: "'d job_system \<Rightarrow> (uuid \<times> bool) list" where
  "crew s = map (\<lambda>wk. (wk_job wk, \<not> ended (wk_phase wk))) (sys_workers s)"

abbreviation sys_clock :: "'d job_system \<Rightarrow> nat" where
  "sys_clock s \<equiv> jw_step (sys_world s)"

text \<open>A job is spent when its worker has ended.\<close>

definition spent :: "(uuid \<times> bool) list \<Rightarrow> uuid \<Rightarrow> bool" where
  "spent L j \<longleftrightarrow> j \<in> fst ` set L \<and> (j, True) \<notin> set L"

definition ids_ok :: "'d job_env \<Rightarrow> nat \<Rightarrow> (uuid \<Rightarrow> job_state option) \<Rightarrow> bool" where
  "ids_ok env n st \<longleftrightarrow> (\<forall>j. st j \<noteq> None \<longrightarrow> (\<exists>k < n. j = je_uuid env k))"

definition crew_ok :: "(uuid \<Rightarrow> job_state option) \<Rightarrow> (uuid \<times> bool) list \<Rightarrow> bool" where
  "crew_ok st L \<longleftrightarrow>
     distinct (map fst L) \<and>
     (\<forall>j \<in> fst ` set L. st j \<noteq> None \<and> st j \<noteq> Some JPending) \<and>
     (\<forall>j. (j, True) \<in> set L \<longrightarrow> st j \<in> {Some JInProgress, Some JCancelled}) \<and>
     (\<forall>j. st j = Some JStuck \<longrightarrow> j \<in> fst ` set L)"

fun call_ok :: "(uuid \<Rightarrow> job_state option) \<Rightarrow> (uuid \<times> bool) list \<Rightarrow> call \<Rightarrow> bool" where
  "call_ok st L (Schedule_New j title) = (st j \<in> {Some JPending, Some JCancelled} \<and> j \<notin> fst ` set L)"
| "call_ok st L (Help_Schedule j job_id n) = (spent L j \<and> st j \<noteq> Some JStuck)"
| "call_ok st L (Clean_Check j) = (j \<in> fst ` set L)"
| "call_ok st L (Clean_Remove j) = spent L j"
| "call_ok st L _ = True"

fun new_id :: "call \<Rightarrow> uuid list" where
  "new_id (Schedule_New j title) = [j]"
| "new_id _ = []"

definition calls_ok :: "(uuid \<Rightarrow> job_state option) \<Rightarrow> (uuid \<times> bool) list \<Rightarrow> call list \<Rightarrow> bool" where
  "calls_ok st L cs \<longleftrightarrow> (\<forall>c \<in> set cs. call_ok st L c) \<and> distinct (concat (map new_id cs))"

fun aborting :: "stop_phase option \<Rightarrow> nat" where
  "aborting (Some (Stop_Abort _ _ _)) = 1"
| "aborting _ = 0"

definition jobs_table_ok :: "nat \<Rightarrow> (uuid \<times> bool) list \<Rightarrow> (uuid, nat) hash_map \<Rightarrow> stop_phase option \<Rightarrow> bool" where
  "jobs_table_ok m L jobs stop \<longleftrightarrow>
     hm_ok jobs \<and>
     (\<forall>j i. hm_get jobs j = Some i \<longrightarrow> i < length L \<and> fst (L ! i) = j) \<and>
     (\<forall>i < length L. snd (L ! i) \<longrightarrow> hm_get jobs (fst (L ! i)) = Some i \<or> (\<exists>who. stop = Some (Stop_Abort (fst (L ! i)) i who))) \<and>
     length jobs + aborting stop \<le> m"

definition sys_inv :: "'d job_env \<Rightarrow> 'd job_system \<Rightarrow> bool" where
  "sys_inv env s \<longleftrightarrow>
     ids_ok env (sys_clock s) (sys_state s) \<and> crew_ok (sys_state s) (crew s) \<and>
     calls_ok (sys_state s) (crew s) (sys_calls s) \<and>
     jobs_table_ok (je_max_parallel_jobs env) (crew s) (sys_jobs s) (sys_stop s)"

lemma sys_inv_new: "sys_inv env (system_new max_jobs)"
  by (simp add: sys_inv_def system_new_def ids_ok_def crew_ok_def calls_ok_def jobs_table_ok_def crew_def job_state_of_def cmg_new_def
      hm_ok_def)

subsection \<open>How the parts of the invariant survive\<close>

text \<open>A state changes to one that is allowed for its job: nothing becomes pending or stuck, and a job whose
  worker is running stays in progress or is cancelled.\<close>

definition mild :: "(uuid \<Rightarrow> job_state option) \<Rightarrow> (uuid \<Rightarrow> job_state option) \<Rightarrow> bool" where
  "mild st st' \<longleftrightarrow>
     (\<forall>j. st' j = st j \<or> (\<exists>a. st j = Some a \<and> can_transition_to a JCancelled \<and> st' j = Some JCancelled) \<or> (st j = Some JStuck \<and> st' j = Some JInProgress))"

lemma mild_refl [simp]: "mild st st"
  by (simp add: mild_def)

lemma mild_cancel: "mild st (st(j := moved JCancelled (st j)))"
  by (auto simp: mild_def moved_def split: option.splits)

lemma mild_recover: "st j = Some JStuck \<Longrightarrow> mild st (st(j \<mapsto> JInProgress))"
  by (simp add: mild_def)

lemma mild_ids: "mild st st' \<Longrightarrow> ids_ok env n st \<Longrightarrow> ids_ok env n st'"
proof -
  assume mild: "mild st st'" and ok: "ids_ok env n st"
  have "st' j \<noteq> None \<Longrightarrow> st j \<noteq> None" for j using mild unfolding mild_def by (metis option.distinct(1))
  then show ?thesis using ok by (simp add: ids_ok_def)
qed

lemma mild_crew: "mild st st' \<Longrightarrow> crew_ok st L \<Longrightarrow> crew_ok st' L"
proof -
  assume mild: "mild st st'" and ok: "crew_ok st L"
  have at: "st' j = st j \<or> (\<exists>a. st j = Some a \<and> can_transition_to a JCancelled \<and> st' j = Some JCancelled) \<or> (st j = Some JStuck \<and> st' j = Some JInProgress)" for j
    using mild by (simp add: mild_def)
  show ?thesis
    unfolding crew_ok_def
  proof (intro conjI ballI allI impI)
    show "distinct (map fst L)" using ok by (simp add: crew_ok_def)
    fix j
    show "j \<in> fst ` set L \<Longrightarrow> st' j \<noteq> None" "j \<in> fst ` set L \<Longrightarrow> st' j \<noteq> Some JPending"
      using ok at [of j] by (auto simp: crew_ok_def)
    show "(j, True) \<in> set L \<Longrightarrow> st' j \<in> {Some JInProgress, Some JCancelled}"
      using ok at [of j] by (auto simp: crew_ok_def)
    show "st' j = Some JStuck \<Longrightarrow> j \<in> fst ` set L" using ok at [of j] by (auto simp: crew_ok_def)
  qed
qed

lemma mild_call: "mild st st' \<Longrightarrow> call_ok st L c \<Longrightarrow> call_ok st' L c"
proof -
  assume mild: "mild st st'" and ok: "call_ok st L c"
  have at: "st' j = st j \<or> (\<exists>a. st j = Some a \<and> can_transition_to a JCancelled \<and> st' j = Some JCancelled) \<or> (st j = Some JStuck \<and> st' j = Some JInProgress)" for j
    using mild by (simp add: mild_def)
  show ?thesis
  proof (cases c)
    case (Schedule_New j title)
    then show ?thesis using ok at [of j] by auto
  next
    case (Help_Schedule j job_id n)
    then show ?thesis using ok at [of j] by auto
  qed (use ok in auto)
qed

lemma mild_calls: "mild st st' \<Longrightarrow> calls_ok st L cs \<Longrightarrow> calls_ok st' L cs"
  using mild_call unfolding calls_ok_def by blast

text \<open>The end of a worker.\<close>

lemma crew_end_mem:
  assumes "distinct (map fst L)" and "i < length L" and "L ! i = (j, True)"
  shows "map fst (L[i := (j, False)]) = map fst L" "(k, True) \<in> set (L[i := (j, False)]) \<longleftrightarrow> (k, True) \<in> set L \<and> k \<noteq> j"
proof -
  show names: "map fst (L[i := (j, False)]) = map fst L"
    using assms(2,3) by (metis fst_conv list_update_id map_update)
  show "(k, True) \<in> set (L[i := (j, False)]) \<longleftrightarrow> (k, True) \<in> set L \<and> k \<noteq> j"
  proof -
    obtain A B where L: "L = A @ (j, True) # B" "length A = i" using assms(2,3) by (metis id_take_nth_drop length_take min.absorb4)
    then have "(j, True) \<notin> set A" "(j, True) \<notin> set B" using assms(1) by (auto simp: image_iff)
    then show ?thesis using L by auto
  qed
qed

lemma crew_end_image:
  assumes "distinct (map fst L)" and "i < length L" and "L ! i = (j, True)"
  shows "fst ` set (L[i := (j, False)]) = fst ` set L"
  using crew_end_mem(1) [OF assms] by (metis list.set_map)

lemma spent_end:
  assumes "distinct (map fst L)" and "i < length L" and "L ! i = (j, True)"
  shows "spent (L[i := (j, False)]) k \<longleftrightarrow> spent L k \<or> k = j"
proof -
  have "j \<in> fst ` set L" using assms(2,3) by (metis fst_conv image_eqI nth_mem)
  then show ?thesis using crew_end_mem(2) [OF assms] crew_end_image [OF assms] by (auto simp: spent_def)
qed

lemma live_not_spent: "(j, True) \<in> set L \<Longrightarrow> \<not> spent L j"
  by (simp add: spent_def)

lemma end_parts:
  assumes ok: "crew_ok st L" "calls_ok st L cs" and i: "i < length L" "L ! i = (j, True)"
    and st': "st' = st \<or> (\<exists>x \<in> {JCompleted, JFailed, JStuck}. st' = st(j \<mapsto> x))"
  shows "crew_ok st' (L[i := (j, False)])" "calls_ok st' (L[i := (j, False)]) cs"
proof -
  have d: "distinct (map fst L)" using ok(1) by (simp add: crew_ok_def)
  note mem = crew_end_mem(2) [OF d i] and img = crew_end_image [OF d i]
  have live: "(j, True) \<in> set L" using i by (metis nth_mem)
  then have in_j: "j \<in> fst ` set L" by (metis fst_conv image_eqI)
  have other: "k \<noteq> j \<Longrightarrow> st' k = st k" for k using st' by auto
  have j': "st' j \<noteq> None \<and> st' j \<noteq> Some JPending"
    using st' ok(1) in_j by (auto simp: crew_ok_def)
  show "crew_ok st' (L[i := (j, False)])"
    unfolding crew_ok_def crew_end_mem(1) [OF d i] img
  proof (intro conjI ballI allI impI)
    show "distinct (map fst L)" by (rule d)
    fix k
    show "k \<in> fst ` set L \<Longrightarrow> st' k \<noteq> None"
      using ok(1) other [of k] j' unfolding crew_ok_def by (cases "k = j") auto
    show "k \<in> fst ` set L \<Longrightarrow> st' k \<noteq> Some JPending"
      using ok(1) other [of k] j' unfolding crew_ok_def by (cases "k = j") auto
    show "(k, True) \<in> set (L[i := (j, False)]) \<Longrightarrow> st' k \<in> {Some JInProgress, Some JCancelled}"
      using ok(1) other [of k] mem by (simp add: crew_ok_def)
    show "st' k = Some JStuck \<Longrightarrow> k \<in> fst ` set L"
      using ok(1) other [of k] in_j by (cases "k = j") (auto simp: crew_ok_def)
  qed
  have "call_ok st' (L[i := (j, False)]) c" if c: "c \<in> set cs" for c
  proof -
    have "call_ok st L c" using ok(2) c by (simp add: calls_ok_def)
    then show ?thesis
    proof (cases c)
      case (Schedule_New k title)
      with \<open>call_ok st L c\<close> in_j have "k \<noteq> j" by auto
      with Schedule_New \<open>call_ok st L c\<close> show ?thesis by (simp add: other img)
    next
      case (Help_Schedule k job_id n)
      with \<open>call_ok st L c\<close> live_not_spent [OF live] have "k \<noteq> j" by auto
      with Help_Schedule \<open>call_ok st L c\<close> show ?thesis by (simp add: other spent_end [OF d i])
    next
      case (Clean_Check k)
      with \<open>call_ok st L c\<close> show ?thesis by (simp add: img)
    next
      case (Clean_Remove k)
      with \<open>call_ok st L c\<close> show ?thesis by (simp add: spent_end [OF d i])
    qed simp_all
  qed
  then show "calls_ok st' (L[i := (j, False)]) cs" using ok(2) by (simp add: calls_ok_def)
qed

lemma end_table:
  assumes "jobs_table_ok m L jobs stop" and "map fst L' = map fst L" and "\<And>k. k < length L \<Longrightarrow> snd (L' ! k) \<Longrightarrow> snd (L ! k)"
  shows "jobs_table_ok m L' jobs stop"
proof -
  have len: "length L' = length L" using assms(2) by (metis length_map)
  have "k < length L \<Longrightarrow> fst (L' ! k) = fst (L ! k)" for k using assms(2) len by (metis nth_map)
  then show ?thesis using assms(1,3) len unfolding jobs_table_ok_def by metis
qed

lemma ids_later: "ids_ok env n st \<Longrightarrow> n \<le> n' \<Longrightarrow> ids_ok env n' st"
  unfolding ids_ok_def by (meson less_le_trans)

text \<open>A new worker for a pending job that has none, and a new job.\<close>

lemma start_parts:
  assumes ok: "crew_ok st L" "calls_ok st L cs" and j: "st j = Some JPending" "j \<notin> fst ` set L" "j \<notin> set (concat (map new_id cs))"
  shows "crew_ok (st(j \<mapsto> JInProgress)) (L @ [(j, True)])"
    and "calls_ok (st(j \<mapsto> JInProgress)) (L @ [(j, True)]) (cs @ [Clean_Check j])"
proof -
  show "crew_ok (st(j \<mapsto> JInProgress)) (L @ [(j, True)])"
    using ok(1) j(2) unfolding crew_ok_def by (auto simp: image_iff)
  have "call_ok (st(j \<mapsto> JInProgress)) (L @ [(j, True)]) c" if c: "c \<in> set cs" for c
  proof -
    have co: "call_ok st L c" using ok(2) c by (simp add: calls_ok_def)
    have no: "j \<notin> set (new_id c)" using j(3) c by auto
    have "spent L k \<Longrightarrow> spent (L @ [(j, True)]) k \<and> k \<noteq> j" for k using j(2) by (auto simp: spent_def)
    then show ?thesis using co no by (cases c) auto
  qed
  then show "calls_ok (st(j \<mapsto> JInProgress)) (L @ [(j, True)]) (cs @ [Clean_Check j])"
    using ok(2) by (auto simp: calls_ok_def)
qed

lemma hm_insert_length: "hm_get m k = None \<Longrightarrow> length (hm_insert k v m) = Suc (length m)"
  by (induction m) (auto simp: hm_get_def hm_insert_def split: if_splits)

lemma hm_remove_length: "length (hm_remove k m) \<le> length m"
  by (simp add: hm_remove_def AList.delete_eq)

lemma hm_remove_shorter: "hm_get m k = Some v \<Longrightarrow> Suc (length (hm_remove k m)) \<le> length m"
  using length_filter_less [of "(k, v)" m "\<lambda>(k', v). k \<noteq> k'"] map_of_SomeD [of m k v]
  by (auto simp: hm_get_def hm_remove_def AList.delete_eq Suc_le_eq)

lemma start_table:
  assumes ok: "jobs_table_ok m L jobs None" and "hm_get jobs j = None" and "length jobs < m" and "j \<notin> fst ` set L"
  shows "jobs_table_ok m (L @ [(j, True)]) (hm_insert j (length L) jobs) None"
proof -
  have "k < length L \<Longrightarrow> fst (L ! k) \<noteq> j" for k using assms(4) by (metis image_eqI nth_mem)
  moreover have "length (hm_insert j (length L) jobs) = Suc (length jobs)"
    using assms(2) by (simp add: hm_insert_length)
  ultimately show ?thesis
    using ok assms(2,3) unfolding jobs_table_ok_def
    by (auto simp: nth_append less_Suc_eq hm_ok_insert)
qed

lemma create_parts:
  assumes ok: "ids_ok env n st" "crew_ok st L" "calls_ok st L cs" and new: "st j = None" "j = je_uuid env n"
  shows "ids_ok env (Suc n) (st(j \<mapsto> JPending))" "crew_ok (st(j \<mapsto> JPending)) L" "calls_ok (st(j \<mapsto> JPending)) L cs"
    "calls_ok (st(j \<mapsto> JPending)) L (cs @ [Schedule_New j title])"
proof -
  show "ids_ok env (Suc n) (st(j \<mapsto> JPending))" using ok(1) new(2) by (auto simp: ids_ok_def less_Suc_eq)
  have out: "j \<notin> fst ` set L" using ok(2) new(1) by (auto simp: crew_ok_def)
  then have "(j, True) \<notin> set L" by (metis fst_conv image_eqI)
  then show "crew_ok (st(j \<mapsto> JPending)) L" using ok(2) out by (auto simp: crew_ok_def)
  have "call_ok (st(j \<mapsto> JPending)) L c \<and> j \<notin> set (new_id c)" if c: "c \<in> set cs" for c
  proof -
    have "call_ok st L c" using ok(3) c by (simp add: calls_ok_def)
    then show ?thesis using new(1) out by (cases c) (auto simp: spent_def)
  qed
  then show "calls_ok (st(j \<mapsto> JPending)) L cs" "calls_ok (st(j \<mapsto> JPending)) L (cs @ [Schedule_New j title])"
    using ok(3) out by (auto simp: calls_ok_def)
qed

subsection \<open>Frames\<close>

lemma system_frame [simp]:
  "sys_world (reply r s) = sys_world s" "sys_jobs (reply r s) = sys_jobs s" "sys_workers (reply r s) = sys_workers s"
  "sys_stop (reply r s) = sys_stop s" "sys_calls (reply r s) = sys_calls s"
  "sys_world (spawn c s) = sys_world s" "sys_jobs (spawn c s) = sys_jobs s" "sys_workers (spawn c s) = sys_workers s"
  "sys_stop (spawn c s) = sys_stop s" "sys_calls (spawn c s) = sys_calls s @ [c]"
  "sys_manager (set_manager g s) = g" "sys_clock (set_manager g s) = Suc (sys_clock s)"
  "sys_jobs (set_manager g s) = sys_jobs s" "sys_workers (set_manager g s) = sys_workers s"
  "sys_stop (set_manager g s) = sys_stop s" "sys_calls (set_manager g s) = sys_calls s"
  by (simp_all add: reply_def spawn_def set_manager_def job_tick_def)

lemma save_job_frame [simp]:
  "sys_world (save_job env j s) = sys_world s" "sys_jobs (save_job env j s) = sys_jobs s"
  "sys_workers (save_job env j s) = sys_workers s" "sys_stop (save_job env j s) = sys_stop s"
  "sys_calls (save_job env j s) = sys_calls s"
  by (simp_all add: save_job_def split: sum.splits)

lemma stop_reply_frame [simp]:
  "sys_world (stop_reply who r s) = sys_world s" "sys_jobs (stop_reply who r s) = sys_jobs s"
  "sys_workers (stop_reply who r s) = sys_workers s" "sys_stop (stop_reply who r s) = sys_stop s"
  "sys_calls (stop_reply who r s) = sys_calls s"
  by (simp_all add: stop_reply_def split: option.splits sum.splits)

lemma crew_cong: "sys_workers s' = sys_workers s \<Longrightarrow> crew s' = crew s"
  by (simp add: crew_def)

lemma crew_length [simp]: "length (crew s) = length (sys_workers s)"
  by (simp add: crew_def)

lemma crew_nth: "i < length (sys_workers s) \<Longrightarrow>
    crew s ! i = (wk_job (sys_workers s ! i), \<not> ended (wk_phase (sys_workers s ! i)))"
  by (simp add: crew_def)

lemma crew_update: "crew (s\<lparr>sys_workers := (sys_workers s)[i := wk]\<rparr>) = (crew s)[i := (wk_job wk, \<not> ended (wk_phase wk))]"
  by (simp add: crew_def map_update)

lemma calls_ok_add:
  "calls_ok st L (cs @ [c]) \<longleftrightarrow> calls_ok st L cs \<and> call_ok st L c \<and> set (new_id c) \<inter> set (concat (map new_id cs)) = {}"
  by (cases c) (auto simp: calls_ok_def)

lemma calls_ok_pick:
  assumes "calls_ok st L cs" and "k < length cs"
  shows "calls_ok st L (take k cs @ drop (Suc k) cs)" "call_ok st L (cs ! k)"
    "set (new_id (cs ! k)) \<inter> set (concat (map new_id (take k cs @ drop (Suc k) cs))) = {}"
proof -
  define A c B where "A = take k cs" and "c = cs ! k" and "B = drop (Suc k) cs"
  then have cs: "cs = A @ c # B" "c = cs ! k" and rest: "take k cs @ drop (Suc k) cs = A @ B"
    using assms(2) by (simp_all add: id_take_nth_drop)
  show "calls_ok st L (take k cs @ drop (Suc k) cs)" using assms(1) unfolding rest by (auto simp: cs(1) calls_ok_def)
  show "call_ok st L (cs ! k)" using assms by (simp add: calls_ok_def)
  show "set (new_id (cs ! k)) \<inter> set (concat (map new_id (take k cs @ drop (Suc k) cs))) = {}"
    using assms(1) unfolding rest cs(2) [symmetric] by (auto simp: cs(1) calls_ok_def)
qed

text \<open>A step that changes neither workers nor table, and states mildly.\<close>

lemma sys_inv_mild:
  assumes "sys_inv env s" and "mild (sys_state s) (sys_state s')" and "sys_clock s \<le> sys_clock s'"
    and "sys_workers s' = sys_workers s" and "sys_jobs s' = sys_jobs s" and "sys_stop s' = sys_stop s"
    and "sys_calls s' = sys_calls s"
  shows "sys_inv env s'"
  using assms crew_cong [OF assms(4)] ids_later [of env, OF _ assms(3)]
  by (simp add: sys_inv_def mild_crew mild_calls mild_ids)

lemma sys_inv_reply [simp]:
  "sys_inv env (reply r s) = sys_inv env s" "sys_inv env (stop_reply who x s) = sys_inv env s"
  using crew_cong [of "reply r s" s] crew_cong [of "stop_reply who x s" s] by (simp_all add: sys_inv_def)

lemma sys_inv_manager:
  assumes "sys_inv env s" and "mild (sys_state s) (job_state_of g)"
  shows "sys_inv env (set_manager g s)"
  by (rule sys_inv_mild [OF assms(1)]) (use assms(2) in simp_all)

lemma transition_states:
  "update_context j (transition_to t1 t2 x r) g = (res, g') \<Longrightarrow>
     job_state_of g' = (job_state_of g)(j := moved x (job_state_of g j))"
  using job_state_transition [of j t1 t2 x r g] by simp

text \<open>The end of a worker, and a step of one that goes on.\<close>

lemma crew_same_inv:
  assumes "sys_inv env s" and "sys_state s' = sys_state s" and "sys_clock s \<le> sys_clock s'" and "crew s' = crew s"
    and "sys_jobs s' = sys_jobs s" and "sys_stop s' = sys_stop s" and "sys_calls s' = sys_calls s"
  shows "sys_inv env s'"
  using assms ids_later [of env, OF _ assms(3)] by (simp add: sys_inv_def)

lemma crew_end_inv:
  assumes inv: "sys_inv env s" and i: "i < length (crew s)" "crew s ! i = (j, True)"
    and st: "sys_state s' = sys_state s \<or> (\<exists>x \<in> {JCompleted, JFailed, JStuck}. sys_state s' = (sys_state s)(j \<mapsto> x))"
    and s': "sys_clock s \<le> sys_clock s'" "crew s' = (crew s)[i := (j, False)]" "sys_jobs s' = sys_jobs s"
      "sys_stop s' = sys_stop s" "sys_calls s' = sys_calls s"
  shows "sys_inv env s'"
proof -
  note ok = inv [unfolded sys_inv_def]
  have d: "distinct (map fst (crew s))" using ok by (simp add: crew_ok_def)
  have "j \<in> fst ` set (crew s)" using i by (metis fst_conv image_eqI nth_mem)
  then have "sys_state s j \<noteq> None" using ok by (auto simp: crew_ok_def)
  then have "\<And>k. sys_state s' k \<noteq> None \<Longrightarrow> sys_state s k \<noteq> None" using st by (auto split: if_splits)
  then have "ids_ok env (sys_clock s) (sys_state s')" using ok by (simp add: ids_ok_def)
  moreover have "crew_ok (sys_state s') (crew s')" "calls_ok (sys_state s') (crew s') (sys_calls s)"
    using end_parts [of "sys_state s" "crew s" "sys_calls s" i j "sys_state s'"] ok i st unfolding s'(2) by blast+
  moreover have "snd (crew s' ! k) \<Longrightarrow> snd (crew s ! k)" if "k < length (crew s)" for k
    using that s'(2) by (cases "k = i") auto
  then have "jobs_table_ok (je_max_parallel_jobs env) (crew s') (sys_jobs s) (sys_stop s)"
    using end_table ok crew_end_mem(1) [OF d i] s'(2) by metis
  ultimately show ?thesis using s' ids_later [of env, OF _ s'(1)] by (simp add: sys_inv_def)
qed

subsection \<open>Workers and the scheduler keep the invariant\<close>

lemma tool_step_clock: "tool_step env j name params t w = (t', w') \<Longrightarrow> jw_step w \<le> jw_step w'"
  by (cases t) (auto simp: job_tick_def record_run_def spawn_audit_def Let_def split: prod.splits sum.splits)

lemma process_tool_result_clock: "process_tool_result env j sel r rc w = (rc', w') \<Longrightarrow> jw_step w' = jw_step w"
  by (auto simp: process_tool_result_def spawn_audit_def Let_def split: sum.splits if_splits)

lemma process_results_clock: "process_results env j ts rc w = (rc', w') \<Longrightarrow> jw_step w' = jw_step w"
proof (induction env j ts rc w rule: process_results.induct)
  case (2 env j sel t ts rc w)
  then show ?case by (auto split: option.splits prod.splits dest: process_tool_result_clock)
qed simp

lemma running_step_clock: "running_step env j c k par ts rc w = (ph', w') \<Longrightarrow> jw_step w \<le> jw_step w'"
  by (auto simp: running_step_def advance_call_def job_tick_def simp del: process_results.simps
      split: list.splits prod.splits if_splits option.splits run_kind.splits
      dest: process_results_clock process_tool_result_clock tool_step_clock)

lemma mark_job_clock: "jw_step w \<le> jw_step (snd (mark_job env j f st reason w))"
  by (auto simp: mark_job_def persist_status_def spawn_audit_def job_tick_def Let_def split: prod.splits sum.splits)

lemma phase_step_clock:
  assumes "phase_step env j c inbox ph w = (inbox', ph', w')"
  shows "jw_step w \<le> jw_step w'"
proof -
  have mark: "mark_job env j f st reason w = (r, w1) \<Longrightarrow> jw_step w \<le> jw_step w1" for f st reason r w1
    using mark_job_clock [of w env j f st reason] by simp
  show ?thesis
    using assms
    by (cases ph; auto simp: planning_step_def review_step_def selecting_step_def responding_step_def log_request_def
        log_answer_def job_tick_def Let_def mark_completed_def mark_failed_def mark_job_stuck_def mark_job_clock
        split: list.splits prod.splits sum.splits option.splits respond_result.splits if_splits
        dest: mark running_step_clock)
qed

lemma work_inv:
  assumes "sys_inv env s"
  shows "sys_inv env (work env i c s)"
proof (cases "i < length (sys_workers s)")
  case True
  define wk where "wk = sys_workers s ! i"
  obtain inbox ph w where step: "phase_step env (wk_job wk) c (wk_inbox wk) (wk_phase wk) (sys_world s) = (inbox, ph, w)"
    by (metis prod_cases3)
  define s' where "s' = work env i c s"
  have s': "sys_world s' = w" "sys_jobs s' = sys_jobs s" "sys_stop s' = sys_stop s" "sys_calls s' = sys_calls s"
    "crew s' = (crew s)[i := (wk_job wk, \<not> ended ph)]"
    using True step by (simp_all add: s'_def work_def wk_def crew_def map_update)
  have at: "crew s ! i = (wk_job wk, \<not> ended (wk_phase wk))" using True by (simp add: crew_nth wk_def)
  have clock: "sys_clock s \<le> sys_clock s'" using phase_step_clock [OF step] s'(1) by simp
  have still: "ended (wk_phase wk) \<Longrightarrow> ph = wk_phase wk \<and> w = sys_world s" using step by (cases "wk_phase wk") auto
  note states = phase_step_state [OF step, folded s'(1)]
  have "sys_inv env s'"
  proof (cases "\<not> ended (wk_phase wk) \<and> ended ph")
    case True
    then show ?thesis
      using crew_end_inv [OF assms, of i "wk_job wk" s'] states at s' clock \<open>i < length _\<close> by auto
  next
    case False
    then have "ended ph = ended (wk_phase wk)" using still by auto
    then have "crew s' = crew s" using s'(5) at list_update_id [of "crew s" i] by simp
    moreover have "sys_state s' = sys_state s" using states False by blast
    ultimately show ?thesis using crew_same_inv [OF assms _ clock] s' by blast
  qed
  then show ?thesis by (simp add: s'_def)
qed (use assms in \<open>simp add: work_def\<close>)

lemma set_phase_parts:
  "sys_world (set_phase i ph s) = sys_world s" "sys_jobs (set_phase i ph s) = sys_jobs s"
  "sys_stop (set_phase i ph s) = sys_stop s" "sys_calls (set_phase i ph s) = sys_calls s"
  "i < length (sys_workers s) \<Longrightarrow> crew (set_phase i ph s) = (crew s)[i := (wk_job (sys_workers s ! i), \<not> ended ph)]"
  by (simp_all add: set_phase_def crew_update)

lemma time_out_inv:
  assumes "sys_inv env s"
  shows "sys_inv env (time_out i s)"
proof (cases "i < length (sys_workers s) \<and> in_execution_loop (wk_phase (sys_workers s ! i))")
  case True
  then have "\<not> ended (wk_phase (sys_workers s ! i))" by (cases "wk_phase (sys_workers s ! i)") auto
  then have "crew (set_phase i Timing_Out s) = crew s"
    using True list_update_id [of "crew s" i] by (simp add: set_phase_parts crew_nth)
  then show ?thesis using True assms by (auto simp: time_out_def set_phase_parts intro: crew_same_inv)
next
  case False
  then have "time_out i s = s" by (auto simp: time_out_def)
  then show ?thesis using assms by simp
qed

lemma abort_inv:
  assumes "sys_inv env s"
  shows "sys_inv env (if is_finished s i then s else set_phase i Aborted s)"
proof (cases "is_finished s i")
  case False
  then have i: "i < length (sys_workers s)" "crew s ! i = (wk_job (sys_workers s ! i), True)"
    by (simp_all add: is_finished_def crew_nth)
  then have "sys_inv env (set_phase i Aborted s)"
    by (intro crew_end_inv [OF assms, of i "wk_job (sys_workers s ! i)"]) (simp_all add: set_phase_parts)
  with False show ?thesis by simp
qed (use assms in simp)

lemma abort_table:
  assumes "jobs_table_ok m L jobs (Some (Stop_Abort j i who))" and "i < length L \<longrightarrow> \<not> snd (L ! i)"
  shows "jobs_table_ok m L jobs (Some (Stop_Mark j who))"
  using assms unfolding jobs_table_ok_def by auto

lemma stop_mark_mild: "mild (sys_state s) (sys_state (stop_mark env j who s))"
  using mild_cancel [of "sys_state s" j]
  by (auto simp: stop_mark_def Let_def dest: transition_states split: prod.splits sum.splits)

lemma stop_step_inv:
  assumes inv: "sys_inv env s"
  shows "sys_inv env (stop_step env s)"
proof (cases "sys_stop s")
  case (Some ph)
  show ?thesis
  proof (cases ph)
    case (Stop_Abort j i who)
    define s1 where "s1 = (if is_finished s i then s else set_phase i Aborted s)"
    have "i < length (crew s1) \<longrightarrow> \<not> snd (crew s1 ! i)"
      by (auto simp: s1_def is_finished_def crew_nth set_phase_parts set_phase_def)
    moreover have "sys_inv env s1" unfolding s1_def by (rule abort_inv [OF inv])
    moreover have "sys_stop s1 = Some (Stop_Abort j i who)" using Some Stop_Abort by (simp add: s1_def set_phase_parts)
    ultimately have "sys_inv env (s1\<lparr>sys_stop := Some (Stop_Mark j who)\<rparr>)"
      using abort_table crew_cong [of "s1\<lparr>sys_stop := Some (Stop_Mark j who)\<rparr>" s1] by (auto simp: sys_inv_def)
    then show ?thesis using Some Stop_Abort by (simp add: stop_step_def s1_def)
  next
    case (Stop_Mark j who)
    define s1 where "s1 = s\<lparr>sys_stop := None\<rparr>"
    have "sys_inv env s1"
      using inv Some Stop_Mark crew_cong [of s1 s] by (auto simp: sys_inv_def s1_def jobs_table_ok_def)
    moreover have "mild (sys_state s1) (sys_state (stop_mark env j who s))" by (simp add: s1_def stop_mark_mild)
    ultimately have "sys_inv env (stop_mark env j who s)"
      by (elim sys_inv_mild) (auto simp: stop_mark_def s1_def Let_def split: prod.splits sum.splits)
    then show ?thesis using Some Stop_Mark by (simp add: stop_step_def)
  qed
qed (use inv in \<open>simp add: stop_step_def\<close>)

lemma stop_table:
  assumes "jobs_table_ok m L jobs None" and "hm_get jobs j = Some i"
  shows "jobs_table_ok m L (hm_remove j jobs) (Some (Stop_Abort j i who))"
  using assms hm_remove_shorter [OF assms(2)] unfolding jobs_table_ok_def by auto

lemma stop_begin_inv:
  assumes inv: "sys_inv env s" and free: "sys_stop s = None"
  shows "sys_inv env (stop_begin j who s)"
proof (cases "hm_get (sys_jobs s) j")
  case None
  then show ?thesis using inv by (simp add: stop_begin_def)
next
  case (Some i)
  define s' where "s' = stop_begin j who s"
  have "crew s' = crew s"
    using Some by (auto simp: s'_def stop_begin_def crew_def map_update list_update_same_conv)
  moreover have "sys_world s' = sys_world s" "sys_jobs s' = hm_remove j (sys_jobs s)" "sys_calls s' = sys_calls s"
    "sys_stop s' = Some (Stop_Abort j i who)" using Some by (simp_all add: s'_def stop_begin_def)
  ultimately have "sys_inv env s'" using inv free stop_table [OF _ Some] by (simp add: sys_inv_def)
  then show ?thesis by (simp add: s'_def)
qed

lemma remove_table:
  assumes "jobs_table_ok m L jobs stop" and "\<And>i. i < length L \<Longrightarrow> snd (L ! i) \<Longrightarrow> hm_get jobs (fst (L ! i)) = Some i \<Longrightarrow> P (fst (L ! i), i)"
  shows "jobs_table_ok m L (filter P jobs) stop"
proof -
  have ok: "hm_ok jobs" using assms(1) by (simp add: jobs_table_ok_def)
  have get: "hm_get (filter P jobs) j = Some i \<longleftrightarrow> hm_get jobs j = Some i \<and> P (j, i)" for j i
    using hm_get_filter [OF ok, of P j] by (auto split: option.splits)
  have "length (filter P jobs) \<le> length jobs" by simp
  then have len: "length (filter P jobs) + aborting stop \<le> m" using assms(1) unfolding jobs_table_ok_def by linarith
  show ?thesis
    unfolding jobs_table_ok_def get
    using assms ok len unfolding jobs_table_ok_def by blast
qed

lemma drop_jobs_inv:
  assumes "sys_inv env s" and "\<And>i. i < length (crew s) \<Longrightarrow> snd (crew s ! i) \<Longrightarrow> P (fst (crew s ! i), i)"
  shows "sys_inv env (s\<lparr>sys_jobs := filter P (sys_jobs s)\<rparr>)"
  using assms remove_table [of "je_max_parallel_jobs env" "crew s" "sys_jobs s" "sys_stop s" P]
    crew_cong [of "s\<lparr>sys_jobs := filter P (sys_jobs s)\<rparr>" s]
  by (simp add: sys_inv_def)

lemma cleanup_inv: "sys_inv env s \<Longrightarrow> sys_inv env (cleanup_finished s)"
  unfolding cleanup_finished_def by (rule drop_jobs_inv) (auto simp: is_finished_def crew_nth)

lemma clean_remove_inv:
  assumes "sys_inv env s" and "spent (crew s) j"
  shows "sys_inv env (s\<lparr>sys_jobs := hm_remove j (sys_jobs s)\<rparr>)"
proof -
  have "fst (crew s ! i) \<noteq> j" if "i < length (crew s)" "snd (crew s ! i)" for i
    using assms(2) that nth_mem [of i "crew s"] by (cases "crew s ! i") (auto simp: spent_def)
  then show ?thesis
    unfolding hm_remove_def AList.delete_eq by (intro drop_jobs_inv [OF assms(1)]) auto
qed

subsection \<open>Scheduling and creating jobs\<close>

text \<open>What \<open>schedule\<close> does: nothing, or a refused transition, or it starts a worker.\<close>

lemma schedule_cases:
  assumes "schedule env j s = (r, s')"
  obtains (unchanged) "s' = s"
  | (refused) g where "s' = set_manager g s" "job_state_of g = sys_state s" "\<not> is_ok r"
  | (started) a g where "sys_state s j = Some a" "can_transition_to a JInProgress" "hm_get (sys_jobs s) j = None"
      "length (sys_jobs s) < je_max_parallel_jobs env" "job_state_of g = (sys_state s)(j \<mapsto> JInProgress)" "r = Ok ()"
      "s' = spawn (Clean_Check j)
         ((set_manager g s)
            \<lparr>sys_workers := sys_workers s @ [\<lparr>wk_job = j, wk_inbox = [MsgStart], wk_phase = Waiting\<rparr>],
             sys_jobs := hm_insert j (length (sys_workers s)) (sys_jobs s)\<rparr>)"
proof -
  let ?f = "transition_to (je_now env (sys_clock s)) (je_later env (sys_clock s)) JInProgress (Some ''Scheduled for execution'')"
  obtain x g where up: "update_context j ?f (sys_manager s) = (x, g)" by fastforce
  note g = transition_states [OF up] and ok = transition_refused [of j _ _ _ _ "sys_manager s", of "je_now env (sys_clock s)"
      "je_later env (sys_clock s)" JInProgress "Some ''Scheduled for execution''", unfolded up fst_conv]
  consider (no) "hm_contains (sys_jobs s) j \<or> je_max_parallel_jobs env \<le> length (sys_jobs s)"
    | (bad) "x \<noteq> Ok (Ok ())" "\<not> hm_contains (sys_jobs s) j" "length (sys_jobs s) < je_max_parallel_jobs env"
    | (good) "x = Ok (Ok ())" "\<not> hm_contains (sys_jobs s) j" "length (sys_jobs s) < je_max_parallel_jobs env"
    by fastforce
  then show thesis
  proof cases
    case no
    then show thesis using assms by (intro unchanged) (auto simp: schedule_def split: if_splits)
  next
    case bad
    then have "moved JInProgress (sys_state s j) = sys_state s j" using ok by (auto simp: moved_def split: option.splits)
    then have "job_state_of g = sys_state s" using g by simp
    moreover have "s' = set_manager g s" "\<not> is_ok r"
      using assms bad up by (auto simp: schedule_def Let_def split: sum.splits)
    ultimately show thesis by (intro refused)
  next
    case good
    then obtain a where a: "sys_state s j = Some a" "can_transition_to a JInProgress" using ok by blast
    then have "job_state_of g = (sys_state s)(j \<mapsto> JInProgress)" using g by (simp add: moved_def)
    then show thesis
      using a good assms up by (intro started [of a g]) (auto simp: schedule_def Let_def hm_contains_def)
  qed
qed

lemma schedule_quiet_inv:
  assumes "sys_inv env s" and "\<And>a. sys_state s j = Some a \<Longrightarrow> \<not> can_transition_to a JInProgress" and "schedule env j s = (r, s')"
  shows "sys_inv env s'"
  using assms(3)
proof (cases rule: schedule_cases)
  case (refused g)
  then show ?thesis using assms(1) by (simp add: sys_inv_manager)
qed (use assms in auto)

lemma schedule_new_inv:
  assumes inv: "sys_inv env s" and call: "call_ok (sys_state s) (crew s) (Schedule_New j title)" and free: "sys_stop s = None"
    and new: "j \<notin> set (concat (map new_id (sys_calls s)))" and step: "schedule env j s = (r, s')"
  shows "sys_inv env s'"
  using step
proof (cases rule: schedule_cases)
  case (started a g)
  note ok = inv [unfolded sys_inv_def]
  have j: "sys_state s j = Some JPending" "j \<notin> fst ` set (crew s)" using call started(1,2) by auto
  have s': "crew s' = crew s @ [(j, True)]" "sys_state s' = (sys_state s)(j \<mapsto> JInProgress)"
    "sys_calls s' = sys_calls s @ [Clean_Check j]" "sys_jobs s' = hm_insert j (length (crew s)) (sys_jobs s)"
    "sys_stop s' = None" "sys_clock s' = Suc (sys_clock s)"
    using started(5) free by (simp_all add: started(7) crew_def)
  have "crew_ok (sys_state s') (crew s')" "calls_ok (sys_state s') (crew s') (sys_calls s')"
    using start_parts [of "sys_state s" "crew s" "sys_calls s" j] j new ok by (simp_all add: s')
  moreover have "jobs_table_ok (je_max_parallel_jobs env) (crew s') (sys_jobs s') (sys_stop s')"
    using start_table [OF _ started(3,4) j(2)] ok free by (simp add: s' del: crew_length)
  moreover have "ids_ok env (sys_clock s') (sys_state s')"
    using ok j(1) unfolding s' ids_ok_def by (metis fun_upd_apply less_SucI option.distinct(1))
  ultimately show ?thesis by (simp add: sys_inv_def)
qed (use inv in \<open>auto simp: sys_inv_manager\<close>)

lemma create_states:
  assumes "create_job_for_user zero j now user title description g = (r, g')"
  shows "(\<exists>e. r = Err e \<and> job_state_of g' = job_state_of g) \<or> (r = Ok j \<and> job_state_of g' = (job_state_of g)(j \<mapsto> JPending))"
  using assms
  by (auto simp: create_job_for_user_def Let_def job_state_of_def fun_eq_iff jc_with_user_def split: if_splits)

lemma create_inv:
  assumes inv: "sys_inv env s" and "inj (je_uuid env)"
    and made: "create_job_for_user (je_zero env) (je_uuid env (sys_clock s)) now user title description (sys_manager s) = (Ok j, g)"
    and g': "job_state_of g' = job_state_of g"
  shows "sys_inv env (set_manager g' s)" "sys_inv env (spawn (Schedule_New j name) (save_job env j (set_manager g' s)))"
proof -
  note ok = inv [unfolded sys_inv_def]
  have j: "j = je_uuid env (sys_clock s)" and st: "job_state_of g' = (sys_state s)(j \<mapsto> JPending)"
    using create_states [OF made] g' by auto
  have new: "sys_state s j = None" using ok assms(2) j by (auto simp: ids_ok_def dest: injD)
  have crews: "crew (set_manager g' s) = crew s" "crew (spawn c (save_job env k (set_manager g' s))) = crew s" for c k
    by (simp_all add: crew_def)
  show "sys_inv env (set_manager g' s)" "sys_inv env (spawn (Schedule_New j name) (save_job env j (set_manager g' s)))"
    using create_parts(1-3) [of env "sys_clock s" "sys_state s" "crew s" "sys_calls s" j]
      create_parts(4) [of env "sys_clock s" "sys_state s" "crew s" "sys_calls s" j name] new j ok by (simp_all add: sys_inv_def crews st)
qed

subsection \<open>Every step keeps the invariant\<close>

lemma recover_states:
  assumes "update_context j (attempt_recovery t1 t2) g = (r, g')"
  shows "job_state_of g' = (if job_state_of g j = Some JStuck then (job_state_of g)(j \<mapsto> JInProgress) else job_state_of g)"
    and "r = Ok (Ok ()) \<Longrightarrow> job_state_of g j = Some JStuck"
proof -
  have "job_state_of g' = (job_state_of g)(j := map_option (\<lambda>c. jc_state (snd (attempt_recovery t1 t2 c))) (hm_get (cmg_contexts g) j))"
    using job_state_update [of j "attempt_recovery t1 t2" g] assms by simp
  then show "job_state_of g' = (if job_state_of g j = Some JStuck then (job_state_of g)(j \<mapsto> JInProgress) else job_state_of g)"
    by (cases "hm_get (cmg_contexts g) j") (auto simp: attempt_recovery_state job_state_of_def fun_eq_iff)
  show "r = Ok (Ok ()) \<Longrightarrow> job_state_of g j = Some JStuck"
    using assms by (auto simp: update_context_def attempt_recovery_def job_state_of_def split: option.splits prod.splits if_splits)
qed

lemma recover_mild: "update_context j (attempt_recovery t1 t2) g = (r, g') \<Longrightarrow> mild (job_state_of g) (job_state_of g')"
  using recover_states(1) mild_recover by (metis mild_refl)

lemma repair_mild:
  assumes "repair_stuck_job su disp t1 t2 m job g = (r, g')"
  shows "mild (job_state_of g) (job_state_of g')"
  using assms recover_mild by (auto simp: repair_stuck_job_def split: if_splits prod.splits sum.splits)

lemma stuck_spent: "crew_ok st L \<Longrightarrow> st j = Some JStuck \<Longrightarrow> spent L j"
  by (auto simp: crew_ok_def spent_def)

lemma add_call_inv:
  assumes "sys_inv env s" and "call_ok (sys_state s) (crew s) c" and "set (new_id c) \<inter> set (concat (map new_id (sys_calls s))) = {}"
    and "sys_world s' = sys_world s" "sys_workers s' = sys_workers s" "sys_jobs s' = sys_jobs s" "sys_stop s' = sys_stop s"
    and "sys_calls s' = sys_calls s @ [c]"
  shows "sys_inv env s'"
  using assms crew_cong [OF assms(5)] by (simp add: sys_inv_def calls_ok_add)

lemma add_quiet_calls_inv:
  assumes "sys_inv env s" and "\<And>c. c \<in> set cs \<Longrightarrow> new_id c = [] \<and> call_ok (sys_state s) (crew s) c"
  shows "sys_inv env (s\<lparr>sys_calls := sys_calls s @ cs\<rparr>)"
proof -
  have "concat (map new_id cs) = []" using assms(2) by simp
  then have "calls_ok (sys_state s) (crew s) (sys_calls s @ cs)" using assms by (auto simp: sys_inv_def calls_ok_def simp del: concat_eq_Nil_conv)
  then show ?thesis using assms(1) crew_cong [of "s\<lparr>sys_calls := sys_calls s @ cs\<rparr>" s] by (simp add: sys_inv_def)
qed

lemma help_schedule_quiet:
  assumes "sys_inv env s" and "spent (crew s) j" and "sys_state s j \<noteq> Some JStuck" and "sys_state s j = Some a"
  shows "\<not> can_transition_to a JInProgress"
proof -
  have "a \<noteq> JPending" using assms by (auto simp: sys_inv_def crew_ok_def spent_def)
  then show ?thesis using assms(3,4) by (cases a) auto
qed

lemma call_step_inv:
  assumes inv: "sys_inv env s" and call: "call_ok (sys_state s) (crew s) c"
    and new: "set (new_id c) \<inter> set (concat (map new_id (sys_calls s))) = {}" and step: "call_step env c s = (left, s')"
  shows "sys_inv env (s'\<lparr>sys_calls := sys_calls s' @ left\<rparr>)"
proof -
  have keep: "sys_inv env (s\<lparr>sys_calls := sys_calls s @ [c]\<rparr>)" by (rule add_call_inv [OF inv call new]) simp_all
  show ?thesis
  proof (cases "left = [c] \<and> s' = s")
    case True
    then show ?thesis using keep by simp
  next
    case moved: False
    show ?thesis
    proof (cases c)
      case (Schedule_New j title)
      with step moved obtain r s1 where "sys_stop s = None" "schedule env j s = (r, s1)" "left = []" "\<exists>x. s' = reply x s1"
        by (auto split: if_splits sum.splits prod.splits)
      then show ?thesis using schedule_new_inv [OF inv, of j title r s1] Schedule_New call new by auto
    next
      case (Help_Recover j job_id n)
      obtain r g where up: "update_context j (attempt_recovery (je_now env (sys_clock s)) (je_later env (sys_clock s))) (sys_manager s) = (r, g)"
        by fastforce
      have inv1: "sys_inv env (set_manager g s)" by (rule sys_inv_manager [OF inv recover_mild [OF up]])
      show ?thesis
      proof (cases "r = Ok (Ok ())")
        case True
        then have stuck: "sys_state s j = Some JStuck" by (rule recover_states(2) [OF up])
        then have "spent (crew s) j" using inv stuck_spent by (auto simp: sys_inv_def)
        then have "call_ok (sys_state (set_manager g s)) (crew (set_manager g s)) (Help_Schedule j job_id n)"
          using stuck recover_states(1) [OF up] crew_cong [of "set_manager g s" s] by simp
        then show ?thesis
          using Help_Recover step up True add_quiet_calls_inv [OF inv1, of "[Help_Schedule j job_id n]"] by auto
      next
        case False
        then have "left = [] \<and> (\<exists>x. s' = reply x (set_manager g s))"
          using Help_Recover step up by (auto split: sum.splits)
        then show ?thesis using inv1 by auto
      qed
    next
      case (Help_Schedule j job_id n)
      with step moved obtain r s1 where "schedule env j s = (r, s1)" "left = []" "\<exists>x. s' = reply x s1"
        by (auto split: if_splits sum.splits prod.splits)
      moreover have "\<not> can_transition_to a JInProgress" if "sys_state s j = Some a" for a
        using help_schedule_quiet [OF inv _ _ that] Help_Schedule call by auto
      ultimately show ?thesis using schedule_quiet_inv [OF inv, of j r s1] by auto
    next
      case (Stop_Job j who)
      with step moved have "sys_stop s = None" "left = []" "s' = stop_begin j who s" by (auto split: if_splits)
      then show ?thesis using stop_begin_inv [OF inv] by simp
    next
      case (Clean_Check j)
      with step moved have free: "sys_stop s = None" and s': "s' = s" "left = [Clean_Remove j]"
        and fin: "case hm_get (sys_jobs s) j of Some i \<Rightarrow> is_finished s i | None \<Rightarrow> True"
        by (auto split: if_splits)
      have "(j, True) \<notin> set (crew s)"
      proof
        assume "(j, True) \<in> set (crew s)"
        then obtain i where i: "i < length (crew s)" "crew s ! i = (j, True)" by (metis in_set_conv_nth)
        then have "hm_get (sys_jobs s) j = Some i" using inv free by (force simp: sys_inv_def jobs_table_ok_def)
        with fin i show False by (simp add: is_finished_def crew_nth)
      qed
      then have "call_ok (sys_state s) (crew s) (Clean_Remove j)" using call Clean_Check by (simp add: spent_def)
      then show ?thesis using s' add_quiet_calls_inv [OF inv, of "[Clean_Remove j]"] by auto
    next
      case (Clean_Remove j)
      with step moved have "s' = s\<lparr>sys_jobs := hm_remove j (sys_jobs s)\<rparr>" "left = []" by (auto split: if_splits)
      then show ?thesis using clean_remove_inv [OF inv] Clean_Remove call by simp
    next
      case (Repair_Job job)
      obtain r g where rep: "repair_stuck_job (je_show_uuid env) (\<lambda>e. je_display env (ErrJob e)) (je_now env (sys_clock s))
          (je_later env (sys_clock s)) (je_max_repair_attempts env) job (sys_manager s) = (r, g)"
        by fastforce
      have "sys_inv env (set_manager g s)" by (rule sys_inv_manager [OF inv repair_mild [OF rep]])
      then have "sys_inv env ((set_manager g s)\<lparr>sys_notices := x\<rparr>)" for x
        by (rule sys_inv_mild) simp_all
      then show ?thesis using Repair_Job step rep by (auto simp: Let_def)
    qed
  qed
qed

lemma cancel_own_mild:
  assumes "update_context j (cancel_own env n user) g = (r, g')"
  shows "mild (job_state_of g) (job_state_of g')"
proof -
  have "job_state_of g' = (job_state_of g)(j := map_option (\<lambda>c. jc_state (snd (cancel_own env n user c))) (hm_get (cmg_contexts g) j))"
    using job_state_update [of j "cancel_own env n user" g] assms by simp
  then show ?thesis
    by (cases "hm_get (cmg_contexts g) j") (auto simp: mild_def job_state_of_def cancel_own_def transition_to_state)
qed

lemma system_act_inv:
  assumes inv: "sys_inv env s" and fresh: "inj (je_uuid env)"
  shows "sys_inv env (system_act env a s)"
proof (cases a)
  case (Call k)
  show ?thesis
  proof (cases "k < length (sys_calls s)")
    case True
    let ?rest = "take k (sys_calls s) @ drop (Suc k) (sys_calls s)"
    define s0 where "s0 = s\<lparr>sys_calls := ?rest\<rparr>"
    obtain left s1 where step: "call_step env (sys_calls s ! k) s0 = (left, s1)" by fastforce
    have s0: "crew s0 = crew s" "sys_calls s0 = ?rest" "sys_world s0 = sys_world s" by (simp_all add: s0_def crew_def)
    have calls: "calls_ok (sys_state s) (crew s) (sys_calls s)" using inv by (simp add: sys_inv_def)
    note pick = calls_ok_pick [OF calls True]
    have "sys_inv env s0" using inv pick(1) s0 by (simp add: sys_inv_def s0_def)
    from call_step_inv [OF this _ _ step] show ?thesis
      using Call True pick(2,3) step s0 by (simp add: s0_def [symmetric])
  qed (use Call inv in simp)
next
  case (Create_Command user title description category)
  obtain r g where made: "create_job_for_user (je_zero env) (je_uuid env (sys_clock s)) (je_now env (sys_clock s)) user title
      description (sys_manager s) = (r, g)" by fastforce
  show ?thesis
  proof (cases r)
    case (Inl e)
    then show ?thesis
      using Create_Command made create_states [OF made] inv by (auto simp: handle_create_job_def intro!: sys_inv_manager)
  next
    case (Inr j)
    have cat: "job_state_of (snd (update_context j (\<lambda>c. ((), c\<lparr>jc_category := x\<rparr>)) g)) = job_state_of g" for x
      by (auto simp: job_state_update job_state_of_def fun_eq_iff)
    show ?thesis
      using Create_Command made Inr create_inv(2) [OF inv fresh made [unfolded Inr], of _ title] cat
      by (simp add: handle_create_job_def Let_def split: option.splits)
  qed
next
  case (Cancel_Command user job_id)
  then show ?thesis
    using inv by (auto simp: handle_cancel_job_def intro!: add_call_inv [OF inv, of "Stop_Job _ _"] split: sum.splits)
next
  case (Help_Command user job_id)
  then show ?thesis
    using inv by (auto simp: handle_help_job_def intro!: add_call_inv [OF inv, of "Help_Recover _ _ _"] split: sum.splits)
next
  case (Create_Tool user params)
  have "sys_inv env (snd (execute_local env user title description s))" for title description
  proof -
    obtain r g where made: "create_job_for_user (je_zero env) (je_uuid env (sys_clock s)) (je_now env (sys_clock s)) user title
        description (sys_manager s) = (r, g)" by fastforce
    show ?thesis
    proof (cases r)
      case (Inl e)
      then show ?thesis
        using made create_states [OF made] inv by (auto simp: execute_local_def Let_def intro!: sys_inv_manager)
    next
      case (Inr j)
      then show ?thesis
        using made create_inv(1) [OF inv fresh made [unfolded Inr] refl] by (simp add: execute_local_def Let_def)
    qed
  qed
  then show ?thesis using Create_Tool inv by (auto simp: create_job_tool_def split: option.splits prod.splits) (metis snd_conv)+
next
  case (Cancel_Tool user params)
  then show ?thesis
    using inv by (auto simp: cancel_job_tool_def split: sum.splits prod.splits dest: cancel_own_mild intro: sys_inv_manager)
qed (use inv in \<open>auto simp: work_inv time_out_inv stop_step_inv cleanup_inv intro!: add_quiet_calls_inv\<close>)

lemma reachable_inv: "job_reachable env m s \<Longrightarrow> inj (je_uuid env) \<Longrightarrow> sys_inv env s"
  by (induction rule: job_reachable.induct) (simp_all add: sys_inv_new system_act_inv)

section \<open>What the workers of the system have done\<close>

text \<open>Every tool that was executed was allowed, a worker that marks its job as completed was told so by
  the model, and a job's calls of the model stay within its budget.\<close>

definition record_ok :: "'d job_env \<Rightarrow> 'd job_world \<Rightarrow> 'd worker \<Rightarrow> bool" where
  "record_ok env w wk \<longleftrightarrow>
     phase_ok env (wk_phase wk) \<and> (wk_phase wk = Completing \<longrightarrow> signalled (wk_job wk) w) \<and>
     request_count (wk_job wk) w + requests_left (wk_phase wk) \<le> 2 * MAX_ITERATIONS + 1"

definition records_ok :: "'d job_env \<Rightarrow> 'd job_system \<Rightarrow> bool" where
  "records_ok env s \<longleftrightarrow>
     list_all (tool_run_ok env) (jw_executed (sys_world s)) \<and>
     (\<forall>wk \<in> set (sys_workers s). record_ok env (sys_world s) wk) \<and>
     (\<forall>j. j \<notin> wk_job ` set (sys_workers s) \<longrightarrow> request_count j (sys_world s) = 0) \<and>
     (\<forall>j. sys_state s j = Some JCompleted \<longrightarrow> signalled j (sys_world s))"

lemma records_ok_new: "records_ok env (system_new max_jobs)"
  by (simp add: records_ok_def system_new_def request_count_def job_state_of_def cmg_new_def)

text \<open>A step that adds nothing to the records: workers only lose their turn, or begin.\<close>

definition quiet_step :: "'d job_system \<Rightarrow> 'd job_system \<Rightarrow> bool" where
  "quiet_step s s' \<longleftrightarrow>
     logs (sys_world s') = logs (sys_world s) \<and> jw_executed (sys_world s') = jw_executed (sys_world s) \<and>
     (\<forall>j. sys_state s j = Some JCompleted \<longleftrightarrow> sys_state s' j = Some JCompleted) \<and>
     wk_job ` set (sys_workers s) \<subseteq> wk_job ` set (sys_workers s') \<and>
     (\<forall>wk' \<in> set (sys_workers s').
        (\<exists>wk \<in> set (sys_workers s). wk_job wk' = wk_job wk \<and>
           (wk_phase wk' = wk_phase wk \<or> (\<not> ended (wk_phase wk) \<and> wk_phase wk' \<in> {Timing_Out, Aborted}))) \<or>
        (wk_phase wk' = Waiting \<and> wk_job wk' \<notin> wk_job ` set (sys_workers s)))"

lemma quiet_step_refl [simp]: "quiet_step s s"
  by (auto simp: quiet_step_def)

lemma quiet_records:
  assumes ok: "records_ok env s" and q: "quiet_step s s'"
  shows "records_ok env s'"
proof -
  have logs: "request_count j (sys_world s') = request_count j (sys_world s)" "signalled j (sys_world s') = signalled j (sys_world s)" for j
    using q by (simp_all add: quiet_step_def logs_def request_count_def signalled_def)
  have "record_ok env (sys_world s') wk'" if wk': "wk' \<in> set (sys_workers s')" for wk'
  proof -
    consider (old) wk where "wk \<in> set (sys_workers s)" "wk_job wk' = wk_job wk"
        "wk_phase wk' = wk_phase wk \<or> wk_phase wk' \<in> {Timing_Out, Aborted}"
      | (new) "wk_phase wk' = Waiting" "wk_job wk' \<notin> wk_job ` set (sys_workers s)"
      using q wk' unfolding quiet_step_def by blast
    then show ?thesis
    proof cases
      case old
      then have "record_ok env (sys_world s) wk" using ok by (simp add: records_ok_def)
      then show ?thesis using old(2,3) by (auto simp: record_ok_def logs)
    next
      case new
      then have "request_count (wk_job wk') (sys_world s) = 0" using ok by (simp add: records_ok_def)
      then show ?thesis using new(1) by (simp add: record_ok_def logs)
    qed
  qed
  moreover have "request_count j (sys_world s) = 0" if "j \<notin> wk_job ` set (sys_workers s')" for j
  proof -
    have "j \<notin> wk_job ` set (sys_workers s)" using q that by (auto simp only: quiet_step_def)
    then show ?thesis using ok by (simp add: records_ok_def)
  qed
  ultimately show ?thesis using ok q unfolding records_ok_def logs by (simp add: quiet_step_def)
qed

lemma quiet_same:
  assumes "sys_workers s' = sys_workers s" and "logs (sys_world s') = logs (sys_world s)"
    and "jw_executed (sys_world s') = jw_executed (sys_world s)"
    and "\<And>j. sys_state s j = Some JCompleted \<longleftrightarrow> sys_state s' j = Some JCompleted"
  shows "quiet_step s s'"
  using assms by (auto simp: quiet_step_def)

lemma set_manager_world [simp]:
  "logs (sys_world (set_manager g s)) = logs (sys_world s)" "jw_executed (sys_world (set_manager g s)) = jw_executed (sys_world s)"
  by (simp_all add: set_manager_def logs_def)

lemma mild_completed: "mild st st' \<Longrightarrow> st j = Some JCompleted \<longleftrightarrow> st' j = Some JCompleted"
  unfolding mild_def by (metis can_transition_to.simps(3) empty_iff insert_iff job_state.distinct option.inject)

lemma quiet_frame [simp]:
  "quiet_step s (s'\<lparr>sys_calls := x\<rparr>) = quiet_step s s'" "quiet_step s (reply r s') = quiet_step s s'" "quiet_step s (stop_reply who y s') = quiet_step s s'"
  "quiet_step s (save_job env j s') = quiet_step s s'" "quiet_step s (spawn c s') = quiet_step s s'" "quiet_step s (s'\<lparr>sys_notices := n\<rparr>) = quiet_step s s'" "quiet_step s (s'\<lparr>sys_stop := p\<rparr>) = quiet_step s s'"
  "quiet_step s (s'\<lparr>sys_jobs := m\<rparr>) = quiet_step s s'" "quiet_step (s\<lparr>sys_calls := x\<rparr>) s' = quiet_step s s'"
  by (simp_all add: quiet_step_def)

lemma quiet_manager: "mild (sys_state s) (job_state_of g) \<Longrightarrow> quiet_step s (set_manager g s)"
  by (rule quiet_same) (simp_all add: mild_completed)

lemma quiet_update:
  assumes "i < length (sys_workers s)" and "sys_workers s' = (sys_workers s)[i := wk]" and "sys_world s' = sys_world s"
    and "wk_job wk = wk_job (sys_workers s ! i)" and "wk_phase wk = wk_phase (sys_workers s ! i) \<or>
      (\<not> ended (wk_phase (sys_workers s ! i)) \<and> wk_phase wk \<in> {Timing_Out, Aborted})"
  shows "quiet_step s s'"
proof -
  have "map wk_job (sys_workers s') = map wk_job (sys_workers s)"
    using assms(1,2,4) by (simp add: map_update list_update_same_conv)
  then have names: "wk_job ` set (sys_workers s') = wk_job ` set (sys_workers s)" by (metis list.set_map)
  have "wk' = wk \<or> wk' \<in> set (sys_workers s)" if "wk' \<in> set (sys_workers s')" for wk'
    using that assms(2) set_update_subset_insert [of "sys_workers s" i wk] by auto
  moreover have "sys_workers s ! i \<in> set (sys_workers s)" using assms(1) by simp
  ultimately have "\<exists>wk \<in> set (sys_workers s). wk_job wk' = wk_job wk \<and>
      (wk_phase wk' = wk_phase wk \<or> (\<not> ended (wk_phase wk) \<and> wk_phase wk' \<in> {Timing_Out, Aborted}))"
    if "wk' \<in> set (sys_workers s')" for wk' using that assms(4,5) by metis
  then show ?thesis using names assms(3) by (simp add: quiet_step_def)
qed

lemma quiet_set_phase: "ph \<in> {Timing_Out, Aborted} \<Longrightarrow> \<not> is_finished s i \<Longrightarrow> quiet_step s (set_phase i ph s)"
  by (cases "i < length (sys_workers s)") (auto simp: set_phase_def is_finished_def intro: quiet_update)

lemma quiet_stop_begin: "quiet_step s (stop_begin j who s)"
proof (cases "hm_get (sys_jobs s) j")
  case (Some i)
  show ?thesis
  proof (cases "i < length (sys_workers s)")
    case True
    show ?thesis by (rule quiet_update [OF True, where wk = "(sys_workers s ! i)\<lparr>wk_inbox := wk_inbox (sys_workers s ! i) @ [MsgStop]\<rparr>"]) (use Some True in \<open>simp_all add: stop_begin_def\<close>)
  next
    case False
    then show ?thesis by (intro quiet_same) (simp_all add: stop_begin_def Some)
  qed
qed (simp add: stop_begin_def)

lemma crew_jobs: "wk_job ` set (sys_workers s) = fst ` set (crew s)"
  by (simp add: crew_def image_image)

lemma quiet_schedule:
  assumes "schedule env j s = (r, s')" and "sys_state s j = Some JPending \<or> sys_state s j = Some JStuck \<Longrightarrow> j \<notin> fst ` set (crew s)"
  shows "quiet_step s s'"
  using assms(1)
proof (cases rule: schedule_cases)
  case (refused g)
  then show ?thesis by (simp add: quiet_manager)
next
  case (started a g)
  then have "j \<notin> wk_job ` set (sys_workers s)" using assms(2) by (cases a) (auto simp: crew_jobs)
  moreover have "sys_state s k = Some JCompleted \<longleftrightarrow> ((sys_state s)(j \<mapsto> JInProgress)) k = Some JCompleted" for k
    using started(1,2) by auto
  ultimately show ?thesis
    using started(5) unfolding started(7) by (auto simp: quiet_step_def)
qed simp

lemma quiet_create:
  assumes "create_job_for_user zero j now user title description (sys_manager s) = (r, g)" and "sys_state s j = None"
    and "job_state_of g' = job_state_of g"
  shows "quiet_step s (set_manager g' s)"
  using create_states [OF assms(1)] assms(2,3) by (intro quiet_same) (auto split: if_splits)

lemma call_step_quiet:
  assumes inv: "sys_inv env s" and call: "call_ok (sys_state s) (crew s) c" and step: "call_step env c s = (left, s')"
  shows "quiet_step s s'"
proof (cases c)
  case (Schedule_New j title)
  have "quiet_step s s1" if "schedule env j s = (r, s1)" for r s1
    using quiet_schedule [OF that] call Schedule_New by auto
  then show ?thesis using Schedule_New step by (auto split: if_splits sum.splits prod.splits)
next
  case (Help_Recover j job_id n)
  obtain r g where up: "update_context j (attempt_recovery (je_now env (sys_clock s)) (je_later env (sys_clock s))) (sys_manager s) = (r, g)"
    by fastforce
  then have "quiet_step s (set_manager g s)" by (intro quiet_manager recover_mild)
  then show ?thesis using Help_Recover step up by (auto split: sum.splits)
next
  case (Help_Schedule j job_id n)
  have "quiet_step s s1" if "schedule env j s = (r, s1)" for r s1
    using quiet_schedule [OF that] call Help_Schedule inv by (auto simp: sys_inv_def crew_ok_def spent_def)
  then show ?thesis using Help_Schedule step by (auto split: if_splits sum.splits prod.splits)
next
  case (Repair_Job job)
  obtain r g where rep: "repair_stuck_job (je_show_uuid env) (\<lambda>e. je_display env (ErrJob e)) (je_now env (sys_clock s))
      (je_later env (sys_clock s)) (je_max_repair_attempts env) job (sys_manager s) = (r, g)"
    by fastforce
  have "quiet_step s (set_manager g s)" by (rule quiet_manager [OF repair_mild [OF rep]])
  then show ?thesis using Repair_Job step rep by (auto simp: Let_def)
qed (use step quiet_stop_begin in \<open>auto split: if_splits\<close>)

lemma stop_step_quiet: "quiet_step s (stop_step env s)"
proof (cases "sys_stop s")
  case (Some ph)
  show ?thesis
  proof (cases ph)
    case (Stop_Mark j who)
    have "quiet_step s (stop_mark env j who s)"
    proof (rule quiet_same)
      show "sys_workers (stop_mark env j who s) = sys_workers s" "logs (sys_world (stop_mark env j who s)) = logs (sys_world s)"
        "jw_executed (sys_world (stop_mark env j who s)) = jw_executed (sys_world s)"
        by (auto simp: stop_mark_def Let_def set_manager_def logs_def split: prod.splits sum.splits)
    qed (rule mild_completed [OF stop_mark_mild])
    then show ?thesis using Some Stop_Mark by (simp add: stop_step_def)
  qed (simp add: Some stop_step_def quiet_set_phase)
qed (simp add: stop_step_def)

lemma quiet_time_out: "quiet_step s (time_out i s)"
proof (cases "i < length (sys_workers s) \<and> in_execution_loop (wk_phase (sys_workers s ! i))")
  case True
  then have "\<not> is_finished s i" by (cases "wk_phase (sys_workers s ! i)") (simp_all add: is_finished_def)
  then show ?thesis using True by (simp add: time_out_def quiet_set_phase)
next
  case False
  then have "time_out i s = s" by (auto simp: time_out_def)
  then show ?thesis by simp
qed

lemma system_act_quiet:
  assumes inv: "sys_inv env s" and fresh: "inj (je_uuid env)" and "\<And>i c. a \<noteq> Work i c"
  shows "quiet_step s (system_act env a s)"
proof (cases a)
  case (Call k)
  show ?thesis
  proof (cases "k < length (sys_calls s)")
    case True
    let ?rest = "take k (sys_calls s) @ drop (Suc k) (sys_calls s)"
    define s0 where "s0 = s\<lparr>sys_calls := ?rest\<rparr>"
    obtain left s1 where step: "call_step env (sys_calls s ! k) s0 = (left, s1)" by fastforce
    have s0: "crew s0 = crew s" "sys_world s0 = sys_world s" by (simp_all add: s0_def crew_def)
    have calls: "calls_ok (sys_state s) (crew s) (sys_calls s)" using inv by (simp add: sys_inv_def)
    note pick = calls_ok_pick [OF calls True]
    have "sys_inv env s0" using inv pick(1) s0 by (simp add: sys_inv_def s0_def)
    from call_step_quiet [OF this _ step] show ?thesis
      using Call True pick(2,3) step s0 by (simp add: s0_def)
  qed (use Call in simp)
next
  case (Create_Command user title description category)
  obtain r g where made: "create_job_for_user (je_zero env) (je_uuid env (sys_clock s)) (je_now env (sys_clock s)) user title
      description (sys_manager s) = (r, g)" by fastforce
  have "sys_state s (je_uuid env (sys_clock s)) = None" using inv fresh by (auto simp: sys_inv_def ids_ok_def dest: injD)
  note made_quiet = quiet_create [OF made this]
  have "job_state_of (snd (update_context j (\<lambda>c. ((), c\<lparr>jc_category := x\<rparr>)) g)) = job_state_of g" for j x
    by (auto simp: job_state_update job_state_of_def fun_eq_iff)
  then show ?thesis
    using Create_Command made made_quiet by (auto simp: handle_create_job_def Let_def split: option.splits sum.splits)
next
  case (Create_Tool user params)
  have "sys_state s (je_uuid env (sys_clock s)) = None" using inv fresh by (auto simp: sys_inv_def ids_ok_def dest: injD)
  then have "quiet_step s (snd (execute_local env user title description s))" for title description
    using quiet_create [OF _ _ refl] by (auto simp: execute_local_def Let_def split: prod.splits sum.splits)
  then show ?thesis using Create_Tool by (auto simp: create_job_tool_def split: option.splits prod.splits) (metis snd_conv)+
next
  case (Cancel_Tool user params)
  then show ?thesis
    by (auto simp: cancel_job_tool_def split: sum.splits prod.splits dest: cancel_own_mild intro: quiet_manager)
qed (use assms(3) in \<open>auto simp: quiet_time_out stop_step_quiet handle_cancel_job_def handle_help_job_def
      cleanup_finished_def split: sum.splits\<close>)

text \<open>A step of a worker.\<close>

lemma work_parts:
  assumes "i < length (sys_workers s)"
  obtains inbox ph where
    "phase_step env (wk_job (sys_workers s ! i)) c (wk_inbox (sys_workers s ! i)) (wk_phase (sys_workers s ! i)) (sys_world s) =
       (inbox, ph, sys_world (work env i c s))"
    "sys_workers (work env i c s) = (sys_workers s)[i := (sys_workers s ! i)\<lparr>wk_inbox := inbox, wk_phase := ph\<rparr>]"
proof -
  obtain inbox ph w where
    "phase_step env (wk_job (sys_workers s ! i)) c (wk_inbox (sys_workers s ! i)) (wk_phase (sys_workers s ! i)) (sys_world s) =
       (inbox, ph, w)"
    by (metis prod_cases3)
  then show thesis using assms by (intro that [of inbox ph]) (simp_all add: work_def)
qed

lemma work_records:
  assumes inv: "sys_inv env s" and ok: "records_ok env s"
  shows "records_ok env (work env i c s)"
proof (cases "i < length (sys_workers s)")
  case True
  define wk j w w' where "wk = sys_workers s ! i" and "j = wk_job wk" and "w = sys_world s" and "w' = sys_world (work env i c s)"
  obtain inbox ph where step: "phase_step env j c (wk_inbox wk) (wk_phase wk) w = (inbox, ph, w')"
    and ws: "sys_workers (work env i c s) = (sys_workers s)[i := wk\<lparr>wk_inbox := inbox, wk_phase := ph\<rparr>]"
    using work_parts [OF True, of env c] unfolding wk_def j_def w_def w'_def by metis
  have wk: "wk \<in> set (sys_workers s)" using True by (simp add: wk_def)
  then have old: "record_ok env w wk" using ok by (simp add: records_ok_def w_def)
  have d: "distinct (map wk_job (sys_workers s))" using inv by (simp add: sys_inv_def crew_ok_def crew_def comp_def)
  show ?thesis
  proof (cases "ended (wk_phase wk) \<and> ph = wk_phase wk \<and> w' = w")
    case still: True
    have "quiet_step s (work env i c s)"
      by (rule quiet_update [OF True ws]) (use still in \<open>simp_all add: w_def w'_def wk_def\<close>)
    then show ?thesis by (rule quiet_records [OF ok])
  next
    case False
    then have log: "logs_step j (wk_phase wk) w ph w'" using phase_step_logs [OF step] by blast
    have new: "record_ok env w' (wk\<lparr>wk_inbox := inbox, wk_phase := ph\<rparr>)"
      using old log phase_step_ok [OF step] ok by (simp add: record_ok_def logs_step_def j_def records_ok_def w_def)
    have mono: "signalled k w \<Longrightarrow> signalled k w'" for k using log by (auto simp: logs_step_def signalled_def)
    have "record_ok env w' x" if x: "x \<in> set (sys_workers (work env i c s))" for x
    proof -
      obtain k where k: "k < length (sys_workers s)" "x = sys_workers (work env i c s) ! k"
        using x by (auto simp: ws in_set_conv_nth)
      show ?thesis
      proof (cases "k = i")
        case True
        then show ?thesis using k new by (simp add: ws)
      next
        case False
        then have "x = sys_workers s ! k" using k by (simp add: ws)
        moreover have "wk_job (sys_workers s ! k) \<noteq> j"
          using False d k(1) True by (auto simp: j_def wk_def distinct_conv_nth)
        moreover have "record_ok env w (sys_workers s ! k)" using ok k(1) by (simp add: records_ok_def w_def)
        ultimately show ?thesis using log mono by (simp add: record_ok_def logs_step_def)
      qed
    qed
    moreover have "list_all (tool_run_ok env) (jw_executed w')"
      using phase_step_ok [OF step] old ok by (simp add: record_ok_def records_ok_def w_def)
    moreover have "request_count k w' = 0" if "k \<notin> wk_job ` set (sys_workers (work env i c s))" for k
    proof -
      have "map wk_job (sys_workers (work env i c s)) = map wk_job (sys_workers s)"
        using True by (simp add: ws map_update list_update_same_conv wk_def)
      then have "k \<notin> wk_job ` set (sys_workers s)" using that by (metis list.set_map)
      then show ?thesis using log ok wk by (auto simp: logs_step_def records_ok_def w_def j_def)
    qed
    moreover have "signalled k w'" if fin: "sys_state (work env i c s) k = Some JCompleted" for k
      using phase_step_state [OF step] fin old mono ok
      by (auto simp: records_ok_def record_ok_def w_def w'_def j_def split: if_splits)
    ultimately show ?thesis unfolding records_ok_def w'_def by blast
  qed
qed (use ok in \<open>simp add: work_def\<close>)

lemma reachable_records: "job_reachable env m s \<Longrightarrow> inj (je_uuid env) \<Longrightarrow> records_ok env s"
proof (induction rule: job_reachable.induct)
  case (reachable_act s a)
  then have inv: "sys_inv env s" by (simp add: reachable_inv)
  show ?case
  proof (cases "\<exists>i c. a = Work i c")
    case True
    then show ?thesis using work_records [OF inv] reachable_act by auto
  next
    case False
    then have "quiet_step s (system_act env a s)" using reachable_act(3) by (intro system_act_quiet [OF inv]) auto
    then show ?thesis using quiet_records reachable_act by blast
  qed
qed (simp add: records_ok_new)

section \<open>Jobs whose worker has ended\<close>

definition runs_of :: "uuid \<Rightarrow> 'd job_world \<Rightarrow> (uuid \<times> tool \<times> json \<times> 'd job_context) list" where
  "runs_of k w = filter (\<lambda>x. fst x = k) (jw_executed w)"

lemma tool_step_runs: "tool_step env j name params t w = (t', w') \<Longrightarrow> k \<noteq> j \<Longrightarrow> runs_of k w' = runs_of k w"
  by (cases t) (auto simp: runs_of_def)

lemma result_runs:
  "process_tool_result env j sel r rc w = (rc', w') \<Longrightarrow> runs_of k w' = runs_of k w"
  "process_results env j ts rc w = (rc', w') \<Longrightarrow> runs_of k w' = runs_of k w"
  by (auto simp: runs_of_def dest: process_tool_result_frame(2) process_results_frame)

lemma running_step_runs: "running_step env j c kind par ts rc w = (ph', w') \<Longrightarrow> k \<noteq> j \<Longrightarrow> runs_of k w' = runs_of k w"
  by (auto simp: running_step_def advance_call_def simp del: process_results.simps
      split: list.splits prod.splits if_splits option.splits run_kind.splits
      dest: tool_step_runs result_runs) (auto simp: runs_of_def)

lemma phase_step_runs:
  assumes "phase_step env j c inbox ph w = (inbox', ph', w')" and "k \<noteq> j"
  shows "runs_of k w' = runs_of k w"
proof (cases "target ph")
  case None
  have "runs_of k (snd (running_step env j c kind par ts rc w)) = runs_of k w" for kind par ts rc
    using running_step_runs [OF surjective_pairing assms(2)] .
  with None have "runs_of k (snd (snd (phase_step env j c inbox ph w))) = runs_of k w"
    by (cases ph; simp add: model_step_executed runs_of_def split: list.split)
  then show ?thesis using assms(1) by simp
next
  case (Some s)
  then show ?thesis using marking_step(1) [OF assms(1) Some] by (simp add: runs_of_def)
qed

definition job_settled :: "uuid \<Rightarrow> 'd job_system \<Rightarrow> 'd job_system \<Rightarrow> bool" where
  "job_settled j s s' \<longleftrightarrow>
     runs_of j (sys_world s') = runs_of j (sys_world s) \<and> request_count j (sys_world s') = request_count j (sys_world s) \<and>
     (sys_state s' j = Some JCompleted \<longleftrightarrow> sys_state s j = Some JCompleted)"

lemma live_iff: "(j, True) \<in> set (crew s) \<longleftrightarrow> (\<exists>wk \<in> set (sys_workers s). wk_job wk = j \<and> \<not> ended (wk_phase wk))"
  by (auto simp: crew_def image_iff)

lemma spent_iff:
  "spent (crew s) j \<longleftrightarrow> j \<in> wk_job ` set (sys_workers s) \<and> (\<forall>wk \<in> set (sys_workers s). wk_job wk = j \<longrightarrow> ended (wk_phase wk))"
  unfolding spent_def crew_jobs [symmetric] live_iff by blast

lemma quiet_settled:
  assumes q: "quiet_step s s'" and j: "spent (crew s) j"
  shows "job_settled j s s' \<and> spent (crew s') j"
proof -
  have "j \<in> wk_job ` set (sys_workers s')" using q j unfolding quiet_step_def spent_iff by blast
  moreover have "ended (wk_phase wk')" if "wk' \<in> set (sys_workers s')" "wk_job wk' = j" for wk'
    using q j that unfolding quiet_step_def spent_iff by (metis (no_types, lifting))
  ultimately have "spent (crew s') j" by (simp add: spent_iff)
  then show ?thesis using q by (simp add: job_settled_def quiet_step_def logs_def request_count_def runs_of_def)
qed

lemma work_other:
  assumes "i < length (sys_workers s)" and "wk_job (sys_workers s ! i) \<noteq> j \<or> ended (wk_phase (sys_workers s ! i))"
  shows "job_settled j s (work env i c s)"
proof -
  define wk where "wk = sys_workers s ! i"
  obtain inbox ph where step: "phase_step env (wk_job wk) c (wk_inbox wk) (wk_phase wk) (sys_world s) = (inbox, ph, sys_world (work env i c s))"
    using work_parts [OF assms(1), of env c] unfolding wk_def by metis
  show ?thesis
  proof (cases "ended (wk_phase wk)")
    case True
    then have "sys_world (work env i c s) = sys_world s" using step by (cases "wk_phase wk") auto
    then show ?thesis by (simp add: job_settled_def)
  next
    case False
    then have j: "wk_job wk \<noteq> j" using assms(2) by (simp add: wk_def)
    then have "request_count j (sys_world (work env i c s)) = request_count j (sys_world s)"
      using phase_step_logs [OF step] by (auto simp: logs_step_def)
    moreover have "sys_state (work env i c s) j = sys_state s j" using phase_step_state [OF step] j by auto
    ultimately show ?thesis using phase_step_runs [OF step] j by (simp add: job_settled_def)
  qed
qed

lemma system_act_settled:
  assumes inv: "sys_inv env s" and fresh: "inj (je_uuid env)" and j: "spent (crew s) j"
  shows "job_settled j s (system_act env a s) \<and> spent (crew (system_act env a s)) j"
proof (cases "\<exists>i c. a = Work i c")
  case True
  then obtain i c where a: "a = Work i c" by blast
  show ?thesis
  proof (cases "i < length (sys_workers s)")
    case True
    let ?wk = "sys_workers s ! i"
    have other: "wk_job ?wk \<noteq> j \<or> ended (wk_phase ?wk)" using j True by (auto simp: spent_iff)
    obtain inbox ph where step: "phase_step env (wk_job ?wk) c (wk_inbox ?wk) (wk_phase ?wk) (sys_world s) = (inbox, ph, sys_world (work env i c s))"
      and ws: "sys_workers (work env i c s) = (sys_workers s)[i := ?wk\<lparr>wk_inbox := inbox, wk_phase := ph\<rparr>]"
      using work_parts [OF True, of env c] by metis
    have names: "map wk_job (sys_workers (work env i c s)) = map wk_job (sys_workers s)"
      using True by (simp add: ws map_update list_update_same_conv)
    have "ended (wk_phase x)" if "x \<in> set (sys_workers (work env i c s))" "wk_job x = j" for x
    proof -
      have "x = ?wk\<lparr>wk_inbox := inbox, wk_phase := ph\<rparr> \<or> x \<in> set (sys_workers s)"
        using that(1) set_update_subset_insert [of "sys_workers s" i] by (auto simp: ws)
      moreover have "ended (wk_phase ?wk) \<Longrightarrow> ph = wk_phase ?wk" using step by (cases "wk_phase ?wk") auto
      ultimately show ?thesis using other that(2) j by (auto simp: spent_iff)
    qed
    then have "spent (crew (work env i c s)) j"
      using j names by (metis list.set_map spent_iff)
    then show ?thesis using a work_other [OF True other] by simp
  qed (use a j in \<open>simp add: work_def job_settled_def\<close>)
next
  case False
  then show ?thesis using quiet_settled [OF system_act_quiet [OF inv fresh] j] by blast
qed

lemma reachable_run: "job_reachable env m s \<Longrightarrow> job_reachable env m (job_run env acts s)"
  by (induction acts arbitrary: s) (simp_all add: job_run_def reachable_act)

lemma job_run_settled:
  assumes "job_reachable env m s" and "inj (je_uuid env)" and "spent (crew s) j"
  shows "job_settled j s (job_run env acts s) \<and> spent (crew (job_run env acts s)) j"
  using assms(1,3)
proof (induction acts arbitrary: s)
  case (Cons a acts)
  have "job_settled j s (system_act env a s)" "spent (crew (system_act env a s)) j"
    using system_act_settled [OF reachable_inv [OF Cons(2) assms(2)] assms(2) Cons(3)] by blast+
  then show ?case using Cons(1) [OF reachable_act [OF Cons(2)]] by (simp add: job_run_def job_settled_def)
qed (simp add: job_run_def job_settled_def)

lemma completed_act:
  assumes inv: "sys_inv env s" and fresh: "inj (je_uuid env)" and fin: "sys_state s j = Some JCompleted"
  shows "sys_state (system_act env a s) j = Some JCompleted"
proof (cases "\<exists>i c. a = Work i c")
  case True
  then obtain i c where a: "a = Work i c" by blast
  show ?thesis
  proof (cases "i < length (sys_workers s)")
    case True
    have "(j, True) \<notin> set (crew s)" using inv fin by (auto simp: sys_inv_def crew_ok_def)
    then have "wk_job (sys_workers s ! i) \<noteq> j \<or> ended (wk_phase (sys_workers s ! i))"
      using True unfolding live_iff by auto
    then show ?thesis using work_other [OF True, of j env c] fin a by (simp add: job_settled_def)
  qed (use a fin in \<open>simp add: work_def\<close>)
next
  case False
  then show ?thesis using system_act_quiet [OF inv fresh, of a] fin by (auto simp: quiet_step_def)
qed

lemma completed_run:
  assumes "job_reachable env m s" and "inj (je_uuid env)" and "sys_state s j = Some JCompleted"
  shows "sys_state (job_run env acts s) j = Some JCompleted"
  using assms(1,3)
proof (induction acts arbitrary: s)
  case (Cons a acts)
  from Cons(1) [OF reachable_act [OF Cons(2)] completed_act [OF reachable_inv [OF Cons(2) assms(2)] assms(2) Cons(3)]]
  show ?case by (simp add: job_run_def)
qed (simp add: job_run_def)

section \<open>Examples\<close>

text \<open>A job that is started, one that then gets stuck, one that is completed, and one that executes a tool.\<close>

definition example_started :: "tool_registry \<Rightarrow> nat job_system" where
  "example_started tools = job_run (example_jobs tools) [Create_Command ''ann'' ''t'' ''d'' None, Call 0, Work 0 0, Work 0 0] (system_new 1)"

definition example_stuck :: "nat job_system" where
  "example_stuck = job_run (example_jobs tr_new) [Time_Out 0, Work 0 0] (example_started tr_new)"

definition example_completed :: "nat job_system" where
  "example_completed = job_run (example_jobs tr_new) (replicate 6 (Work 0 0)) (example_started tr_new)"

definition example_tools :: tool_registry where
  "example_tools = tr_register_sync True True example_clock tr_new"

definition example_executed :: "nat job_system" where
  "example_executed = job_run (example_jobs example_tools) (replicate 7 (Work 0 0)) (example_started example_tools)"

definition example_help :: "job_act list" where
  "example_help = [Help_Command ''ann'' ''0'', Call 1, Call 1, Repair_Scan, Call 1, Work 0 0, Work 0 0]"

definition example_foreign :: "nat job_system" where
  "example_foreign = set_manager (snd (create_job_for_user 0 0 0 ''ann'' ''t'' ''d'' (cmg_new 5))) (system_new 5)"

definition example_params :: json where
  "example_params = JObject [(''job_id'', JString ''0'')]"

lemma example_reachable:
  "job_reachable (example_jobs tools) 1 (example_started tools)"
  "job_reachable (example_jobs tr_new) 1 example_stuck" "job_reachable (example_jobs tr_new) 1 example_completed"
  "job_reachable (example_jobs example_tools) 1 example_executed"
  unfolding example_stuck_def example_completed_def example_executed_def example_started_def
  by (intro reachable_run reachable_new)+

lemma example_fresh: "inj (je_uuid (example_jobs tools))"
  by (simp add: example_jobs_def inj_def)

lemmas context_step = update_context_def transition_to_def stamp_state_def push_transition_def hm_get_def hm_insert_def
  get_context_def Let_def job_state_of_def

lemma example_started_parts:
  obtains rc c where "sys_workers (example_started tools) = [\<lparr>wk_job = 0, wk_inbox = [], wk_phase = Planning rc\<rparr>]"
    "cmg_contexts (sys_manager (example_started tools)) = [(0, c)]" "jc_state c = JInProgress"
    "jw_executed (sys_world (example_started tools)) = []"
proof -
  have "\<exists>rc. sys_workers (example_started tools) = [\<lparr>wk_job = 0, wk_inbox = [], wk_phase = Planning rc\<rparr>]"
    "\<exists>c. cmg_contexts (sys_manager (example_started tools)) = [(0, c)] \<and> jc_state c = JInProgress"
    "jw_executed (sys_world (example_started tools)) = []"
    unfolding example_started_def
    by (simp_all add: job_run_def work_def handle_create_job_def create_job_for_user_def schedule_def jc_with_user_def
        set_manager_def reply_def spawn_def job_tick_def hm_count_def hm_contains_def system_new_def cmg_new_def
        MAX_TRANSITIONS_def example_jobs_def context_step)
  then show thesis using that by blast
qed

lemma example_planning:
  "planning_step (example_jobs tools) j rc w = (Loop_Top 0 (refresh_tools (example_jobs tools) w rc), job_tick w)"
  by (simp add: planning_step_def example_jobs_def)

lemma example_no_tools: "rc_available_tools (refresh_tools (example_jobs tr_new) w rc) = []"
  by (simp add: refresh_tools_def example_jobs_def tool_definitions_def tr_new_def)

lemma example_responding:
  assumes "rc_available_tools rc = []"
  shows "responding_step (example_jobs tr_new) j n rc w = (Completing, log_answer j ''The job is complete'' (log_request j rc w))"
proof -
  have "clean_response False ''The job is complete'' = Some ''The job is complete''" by code_simp
  moreover have "llm_signals_completion ''The job is complete''" by code_simp
  ultimately show ?thesis
    using assms
    by (simp add: responding_step_def respond_with_tools_def example_jobs_def job_reasoning_def reasoning_new_def example_model_def
        recover_tool_calls_from_content_def Let_def)
qed

lemma example_selecting:
  "selecting_step (example_jobs tr_new) j n rc w = (Responding n (refresh_tools (example_jobs tr_new) w rc), job_tick w)"
  by (simp add: selecting_step_def example_no_tools select_tools_def)

lemma example_calling:
  "\<exists>sel rc1 w1. selecting_step (example_jobs example_tools) j n rc w = (Run_Tools (In_Loop n) False [(sel, Look_Up)] rc1, w1) \<and>
     ts_tool_name sel = ''time'' \<and> ts_parameters sel = JObject [] \<and> jw_manager w1 = jw_manager w \<and> jw_executed w1 = jw_executed w"
  by (auto simp: selecting_step_def select_tools_def refresh_tools_def example_jobs_def example_model_def job_reasoning_def
      reasoning_new_def selection_of_def tool_definitions_def example_tools_def tr_register_sync_def tr_new_def hm_insert_def Let_def)

lemma example_tool_found: "tr_get (je_tools (example_jobs example_tools) n) ''time'' = Some example_clock"
  by (simp add: example_jobs_def example_tools_def tr_register_sync_def tr_get_def example_clock_def tool_defaults_def Let_def)

lemma example_valid: "vr_is_valid (validate_tool_params (sl_validator (je_safety (example_jobs tools))) (JObject []))"
  by (simp add: validate_tool_params_def vr_ok_def)

lemma example_stuck_parts:
  "job_state_of (sys_manager example_stuck) 0 = Some JStuck" "map wk_job (sys_workers example_stuck) = [0]"
  "map (\<lambda>wk. ended (wk_phase wk)) (sys_workers example_stuck) = [True]"
proof -
  obtain rc c where "sys_workers (example_started tr_new) = [\<lparr>wk_job = 0, wk_inbox = [], wk_phase = Planning rc\<rparr>]"
    "cmg_contexts (sys_manager (example_started tr_new)) = [(0, c)]" "jc_state c = JInProgress"
    by (rule example_started_parts)
  then show "job_state_of (sys_manager example_stuck) 0 = Some JStuck" "map wk_job (sys_workers example_stuck) = [0]"
    "map (\<lambda>wk. ended (wk_phase wk)) (sys_workers example_stuck) = [True]"
    unfolding example_stuck_def
    by (simp_all add: job_run_def time_out_def set_phase_def work_def mark_job_stuck_def mark_stuck_transition mark_job_def
        context_step split: prod.split)
qed

lemma example_completed_state: "job_state_of (sys_manager example_completed) 0 = Some JCompleted"
proof -
  obtain rc c where "sys_workers (example_started tr_new) = [\<lparr>wk_job = 0, wk_inbox = [], wk_phase = Planning rc\<rparr>]"
    "cmg_contexts (sys_manager (example_started tr_new)) = [(0, c)]" "jc_state c = JInProgress"
    by (rule example_started_parts)
  then show ?thesis
    unfolding example_completed_def
    by (simp add: job_run_def work_def eval_nat_numeral example_planning example_selecting example_no_tools example_responding
        MAX_ITERATIONS_def mark_completed_def mark_job_def context_step split: prod.split)
qed

lemma example_executed_run:
  "\<exists>ctx. jw_executed (sys_world example_executed) = [(0, example_clock, JObject [], ctx)]"
proof -
  obtain rc c where s: "sys_workers (example_started example_tools) = [\<lparr>wk_job = 0, wk_inbox = [], wk_phase = Planning rc\<rparr>]"
    "cmg_contexts (sys_manager (example_started example_tools)) = [(0, c)]" "jc_state c = JInProgress"
    "jw_executed (sys_world (example_started example_tools)) = []"
    by (rule example_started_parts)
  let ?w = "job_tick (job_tick (job_tick (sys_world (example_started example_tools))))"
  let ?rc = "refresh_tools (example_jobs example_tools) (sys_world (example_started example_tools)) rc"
  obtain sel rc1 w1 where "selecting_step (example_jobs example_tools) 0 1 ?rc ?w = (Run_Tools (In_Loop 1) False [(sel, Look_Up)] rc1, w1)"
    "ts_tool_name sel = ''time''" "ts_parameters sel = JObject []" "jw_manager w1 = jw_manager ?w" "jw_executed w1 = jw_executed ?w"
    using example_calling [of 0 1 ?rc ?w] by blast
  moreover have "\<not> tool_requires_approval example_clock" by (simp add: example_clock_def tool_defaults_def)
  ultimately show ?thesis
    using s unfolding example_executed_def
    by (simp add: job_run_def work_def eval_nat_numeral example_planning example_tool_found example_valid running_step_def
        advance_call_def MAX_ITERATIONS_def get_context_def hm_get_def Let_def)
qed

section \<open>Theorems\<close>

text \<open>C20: whatever the order in which workers, the scheduler, commands and repairs run: every tool that a worker has executed needs no approval, its parameters passed the validation, and the job was not cancelled when its context was read for the call.\<close>

theorem job_tools_checked:
  assumes "job_reachable env m s" and "inj (je_uuid env)"
    and "(j, t, params, ctx) \<in> set (jw_executed (sys_world s))"
  shows "\<not> tool_requires_approval t \<and> vr_is_valid (validate_tool_params (sl_validator (je_safety env)) params) \<and>
    jc_state ctx \<noteq> JCancelled"
  using reachable_records [OF assms(1,2)] assms(3) by (force simp: records_ok_def tool_run_ok_def list_all_iff)

theorem job_tools_checked_witness:
  "\<not> tool_requires_approval (fst (snd (hd (jw_executed (sys_world example_executed))))) \<and>
   vr_is_valid (validate_tool_params (sl_validator (je_safety (example_jobs example_tools)))
     (fst (snd (snd (hd (jw_executed (sys_world example_executed))))))) \<and>
   jc_state (snd (snd (snd (hd (jw_executed (sys_world example_executed)))))) \<noteq> JCancelled"
proof -
  have "hd (jw_executed (sys_world example_executed)) \<in> set (jw_executed (sys_world example_executed))"
    using example_executed_run by auto
  then show ?thesis using job_tools_checked [OF example_reachable(4) example_fresh] by (metis prod.collapse)
qed



text \<open>C21: a job is completed only if the model said so itself: one of its own answers for this job, which is not the output of a tool, signals completion.\<close>

theorem completion_comes_from_the_model:
  assumes "job_reachable env m s" and "inj (je_uuid env)" and "job_state_of (jw_manager (sys_world s)) j = Some JCompleted"
  shows "\<exists>text. (j, text) \<in> set (jw_answers (sys_world s)) \<and> llm_signals_completion text"
  using reachable_records [OF assms(1,2)] assms(3) by (simp add: records_ok_def signalled_def)

theorem completion_comes_from_the_model_witness:
  "\<exists>text. (0, text) \<in> set (jw_answers (sys_world example_completed)) \<and> llm_signals_completion text"
  by (rule completion_comes_from_the_model [OF example_reachable(3) example_fresh example_completed_state])

text \<open>C24: a job costs at most 101 requests to the model: one for a plan and two for each of fifty iterations.\<close>

theorem job_requests_bounded:
  assumes "job_reachable env m s" and "inj (je_uuid env)"
  shows "request_count j (sys_world s) \<le> 101"
proof (cases "j \<in> wk_job ` set (sys_workers s)")
  case True
  then show ?thesis using reachable_records [OF assms] by (auto simp: records_ok_def record_ok_def MAX_ITERATIONS_def)
next
  case False
  then show ?thesis using reachable_records [OF assms] by (simp add: records_ok_def)
qed

theorem job_requests_bounded_witness: "request_count 0 (sys_world example_completed) \<le> 101"
  by (rule job_requests_bounded [OF example_reachable(3) example_fresh])

text \<open>C25: once the worker of a job has ended the job is never worked on again, although a stuck job can be put back in progress by the help command and by self repair: no tool is executed for it, the model is not asked about it, no other worker is started for it, and it is completed only if it was so already.\<close>

theorem ended_job_not_resumed:
  assumes "job_reachable env m s" and "inj (je_uuid env)"
    and "wk \<in> set (sys_workers s)" and "ended (wk_phase wk)" and "wk_job wk = j"
  shows "runs_of j (sys_world (job_run env acts s)) = runs_of j (sys_world s) \<and>
    request_count j (sys_world (job_run env acts s)) = request_count j (sys_world s) \<and>
    filter (\<lambda>x. wk_job x = j \<and> \<not> ended (wk_phase x)) (sys_workers (job_run env acts s)) = [] \<and>
    (job_state_of (jw_manager (sys_world (job_run env acts s))) j = Some JCompleted \<longleftrightarrow>
       job_state_of (jw_manager (sys_world s)) j = Some JCompleted)"
proof -
  have "distinct (map wk_job (sys_workers s))"
    using reachable_inv [OF assms(1,2)] by (simp add: sys_inv_def crew_ok_def crew_def comp_def)
  then have "spent (crew s) j" using assms(3-5) unfolding spent_iff by (metis distinct_map image_eqI inj_onD)
  from job_run_settled [OF assms(1,2) this, of acts] show ?thesis
    by (auto simp: job_settled_def spent_iff filter_empty_conv)
qed

theorem ended_job_not_resumed_witness:
  "runs_of 0 (sys_world (job_run (example_jobs tr_new) example_help example_stuck)) = runs_of 0 (sys_world example_stuck) \<and>
   request_count 0 (sys_world (job_run (example_jobs tr_new) example_help example_stuck)) = request_count 0 (sys_world example_stuck) \<and>
   filter (\<lambda>x. wk_job x = 0 \<and> \<not> ended (wk_phase x)) (sys_workers (job_run (example_jobs tr_new) example_help example_stuck)) = [] \<and>
   (job_state_of (jw_manager (sys_world (job_run (example_jobs tr_new) example_help example_stuck))) 0 = Some JCompleted \<longleftrightarrow>
      job_state_of (jw_manager (sys_world example_stuck)) 0 = Some JCompleted)"
proof -
  obtain wk where "sys_workers example_stuck = [wk]" using example_stuck_parts(2) by auto
  then have "wk \<in> set (sys_workers example_stuck)" "ended (wk_phase wk)" "wk_job wk = 0" using example_stuck_parts(2,3) by auto
  then show ?thesis by (rule ended_job_not_resumed [OF example_reachable(2) example_fresh])
qed

lemma active_count_ge:
  assumes "finite J" and "\<And>j. j \<in> J \<Longrightarrow> job_state_of g j = Some JCompleted"
  shows "card J \<le> active_count g"
proof -
  let ?L = "filter (\<lambda>x. active_ctx (snd x)) (cmg_contexts g)"
  have "J \<subseteq> set (map fst ?L)"
  proof
    fix j assume "j \<in> J"
    then obtain c where "hm_get (cmg_contexts g) j = Some c" "jc_state c = JCompleted"
      using assms(2) by (auto simp: job_state_of_def)
    then have "(j, c) \<in> set ?L" by (simp add: hm_get_def map_of_SomeD active_ctx_def is_active_def)
    then show "j \<in> set (map fst ?L)" by (force simp: image_iff)
  qed
  then have "card J \<le> length (map fst ?L)" by (rule order_trans [OF card_mono [OF List.finite_set] card_length])
  also have "length (map fst ?L) = active_count g"
    by (simp add: active_count_def hm_count_def filter_map comp_def)
  finally show ?thesis .
qed

lemma manager_max [simp]:
  "cmg_max_jobs (snd (update_context j f g)) = cmg_max_jobs g" "cmg_max_jobs (snd (update_memory j h g)) = cmg_max_jobs g"
  "cmg_max_jobs (snd (create_job_for_user zero i now user title description g)) = cmg_max_jobs g"
  by (auto simp: update_context_def update_memory_def create_job_for_user_def Let_def split: option.splits prod.splits)

lemma manager_max_eq:
  "update_context j f g = (r, g') \<Longrightarrow> cmg_max_jobs g' = cmg_max_jobs g"
  "update_memory j h g = (r2, g') \<Longrightarrow> cmg_max_jobs g' = cmg_max_jobs g"
  "create_job_for_user zero i now user title description g = (r3, g') \<Longrightarrow> cmg_max_jobs g' = cmg_max_jobs g"
  using manager_max(1) [of j f g] manager_max(2) [of j h g] manager_max(3) [of zero i now user title description g] by simp_all

abbreviation world_max :: "'d job_world \<Rightarrow> nat" where
  "world_max w \<equiv> cmg_max_jobs (jw_manager w)"

lemma tool_step_max: "tool_step env j name params t w = (t', w') \<Longrightarrow> world_max w' = world_max w"
  by (cases t) (auto simp: record_run_def Let_def split: prod.splits sum.splits dest: manager_max_eq)

lemma result_max:
  "process_tool_result env j sel r rc w = (rc', w') \<Longrightarrow> world_max w' = world_max w"
  "process_results env j ts rc w = (rc', w') \<Longrightarrow> world_max w' = world_max w"
  by (auto dest: process_tool_result_frame(1) process_results_frame)

lemma running_step_max: "running_step env j c kind par ts rc w = (ph', w') \<Longrightarrow> world_max w' = world_max w"
  by (auto simp: running_step_def advance_call_def simp del: process_results.simps
      split: list.splits prod.splits if_splits option.splits run_kind.splits dest: tool_step_max result_max)

lemma mark_job_max: "world_max (snd (mark_job env j f st reason w)) = world_max w"
  by (auto simp: mark_job_def split: prod.splits sum.splits dest: manager_max_eq)

lemma phase_step_max:
  assumes "phase_step env j c inbox ph w = (inbox', ph', w')"
  shows "world_max w' = world_max w"
proof -
  have "world_max (snd (running_step env j c kind par ts rc w)) = world_max w" for kind par ts rc
    by (rule running_step_max [OF surjective_pairing])
  moreover have "mark_job env j f st reason w = (r, w1) \<Longrightarrow> world_max w1 = world_max w" for f st reason r w1
    using mark_job_max [of env j f st reason w] by simp
  ultimately have "world_max (snd (snd (phase_step env j c inbox ph w))) = world_max w"
    by (cases ph; auto simp: model_step_frame mark_completed_def mark_failed_def mark_job_stuck_def mark_job_max
        split: list.split prod.split sum.split)
  then show ?thesis using assms by simp
qed

abbreviation sys_max :: "'d job_system \<Rightarrow> nat" where
  "sys_max s \<equiv> world_max (sys_world s)"

lemma work_max: "sys_max (work env i c s) = sys_max s"
  by (auto simp: work_def Let_def split: prod.splits dest: phase_step_max)

lemma repair_max: "repair_stuck_job su disp t1 t2 n job g = (r, g') \<Longrightarrow> cmg_max_jobs g' = cmg_max_jobs g"
  by (auto simp: repair_stuck_job_def split: if_splits prod.splits sum.splits dest: manager_max_eq)

lemma schedule_max: "schedule env j s = (r, s') \<Longrightarrow> sys_max s' = sys_max s"
  by (auto simp: schedule_def Let_def split: if_splits prod.splits sum.splits dest: manager_max_eq)

lemma call_step_max: "call_step env c s = (left, s') \<Longrightarrow> sys_max s' = sys_max s"
  by (cases c) (auto simp: Let_def stop_begin_def split: if_splits prod.splits sum.splits option.splits
      dest: manager_max_eq schedule_max repair_max)

lemma stop_step_max: "sys_max (stop_step env s) = sys_max s"
  by (auto simp: stop_step_def stop_mark_def Let_def set_phase_parts split: option.splits stop_phase.splits prod.splits sum.splits
      dest: manager_max_eq)

lemma system_act_max: "sys_max (system_act env a s) = sys_max s"
proof (cases a)
  case (Call k)
  then show ?thesis by (auto simp: Let_def split: prod.splits dest!: call_step_max)
next
  case (Create_Command user title description category)
  then show ?thesis by (auto simp: handle_create_job_def Let_def split: prod.splits sum.splits option.splits dest: manager_max_eq)
next
  case (Create_Tool user params)
  then show ?thesis
    by (auto simp: create_job_tool_def execute_local_def Let_def split: option.splits prod.splits sum.splits dest: manager_max_eq)
next
  case (Cancel_Tool user params)
  then show ?thesis by (auto simp: cancel_job_tool_def split: prod.splits sum.splits dest: manager_max_eq)
qed (auto simp: work_max time_out_def set_phase_parts stop_step_max handle_cancel_job_def handle_help_job_def
      cleanup_finished_def split: sum.splits)

lemma reachable_max: "job_reachable env m s \<Longrightarrow> sys_max s = m"
  by (induction rule: job_reachable.induct) (simp_all add: system_act_max, simp add: system_new_def cmg_new_def)

text \<open>C26: completed jobs use up the registry: once as many jobs are completed as the registry may hold, no job can be created any more, whatever happens in between.\<close>

theorem completed_jobs_exhaust_registry:
  assumes "job_reachable env m s" and "inj (je_uuid env)"
    and "finite J" and "m \<le> card J" and "\<And>j. j \<in> J \<Longrightarrow> job_state_of (jw_manager (sys_world s)) j = Some JCompleted"
  shows "sys_replies (system_act env (Create_Command user title description category) (job_run env acts s)) =
      sys_replies (job_run env acts s) @ [Err (ErrJob (MaxJobsExceeded m))] \<and>
    sys_calls (system_act env (Create_Command user title description category) (job_run env acts s)) = sys_calls (job_run env acts s)"
proof -
  let ?s = "job_run env acts s"
  have "card J \<le> active_count (sys_manager ?s)"
    by (rule active_count_ge [OF assms(3)]) (rule completed_run [OF assms(1,2,5)])
  moreover have "sys_max ?s = m" by (rule reachable_max [OF reachable_run [OF assms(1)]])
  ultimately show ?thesis
    using assms(4) by (simp add: handle_create_job_def create_job_for_user_def active_count_def Let_def reply_def set_manager_def)
qed

theorem completed_jobs_exhaust_registry_witness:
  "sys_replies (system_act (example_jobs tr_new) (Create_Command ''ann'' ''u'' ''e'' None)
       (job_run (example_jobs tr_new) [Clean_Up] example_completed)) =
     sys_replies (job_run (example_jobs tr_new) [Clean_Up] example_completed) @ [Err (ErrJob (MaxJobsExceeded 1))] \<and>
   sys_calls (system_act (example_jobs tr_new) (Create_Command ''ann'' ''u'' ''e'' None)
       (job_run (example_jobs tr_new) [Clean_Up] example_completed)) =
     sys_calls (job_run (example_jobs tr_new) [Clean_Up] example_completed)"
  by (rule completed_jobs_exhaust_registry [OF example_reachable(3) example_fresh, where J = "{0}"])
    (use example_completed_state in auto)

text \<open>A job of another user is hidden from the commands and the tools on jobs: each is answered that the job was not found, nothing of its context is in the answer, and no job changes its state.\<close>

theorem foreign_job_hidden:
  assumes "hm_get (cmg_contexts (jw_manager (sys_world s))) j = Some ctx" and "jc_user_id ctx \<noteq> user"
    and "je_parse_uuid env job_id = Some j" and "json_get_str params ''job_id'' = Some job_id"
  shows "handle_check_status env user (Some job_id) s = Err (ErrJob (JobNotFound j)) \<and>
    handle_cancel_job env user job_id s = reply (Err (ErrJob (JobNotFound j))) s \<and>
    handle_help_job env user job_id s = reply (Err (ErrJob (JobNotFound j))) s \<and>
    job_status_tool env user params s = Ok (JObject [(''error'', JString ''Job not found'')]) \<and>
    fst (cancel_job_tool env user params s) = Ok (JObject [(''error'', JString ''Cannot cancel job: Job not found'')]) \<and>
    job_state_of (jw_manager (sys_world (snd (cancel_job_tool env user params s)))) = job_state_of (jw_manager (sys_world s))"
proof -
  have own: "own_job env user job_id s = Err (JobNotFound j)" using assms(1-3) by (simp add: own_job_def get_context_def)
  have param: "job_param env params = Ok j" using assms(3,4) by (simp add: job_param_def)
  have "job_state_of (snd (update_context j (cancel_own env (sys_clock s) user) (sys_manager s))) = sys_state s"
    using assms(1,2) by (auto simp: job_state_update cancel_own_def job_state_of_def)
  then show ?thesis
    using own param assms(1,2)
    by (auto simp: handle_check_status_def handle_cancel_job_def handle_help_job_def job_status_tool_def cancel_job_tool_def
        get_context_def update_context_def cancel_own_def)
qed

theorem foreign_job_hidden_witness:
  "handle_check_status (example_jobs tr_new) ''bob'' (Some ''0'') example_foreign = Err (ErrJob (JobNotFound 0)) \<and>
   handle_cancel_job (example_jobs tr_new) ''bob'' ''0'' example_foreign = reply (Err (ErrJob (JobNotFound 0))) example_foreign \<and>
   handle_help_job (example_jobs tr_new) ''bob'' ''0'' example_foreign = reply (Err (ErrJob (JobNotFound 0))) example_foreign \<and>
   job_status_tool (example_jobs tr_new) ''bob'' example_params example_foreign = Ok (JObject [(''error'', JString ''Job not found'')]) \<and>
   fst (cancel_job_tool (example_jobs tr_new) ''bob'' example_params example_foreign) =
     Ok (JObject [(''error'', JString ''Cannot cancel job: Job not found'')]) \<and>
   job_state_of (jw_manager (sys_world (snd (cancel_job_tool (example_jobs tr_new) ''bob'' example_params example_foreign)))) =
     job_state_of (jw_manager (sys_world example_foreign))"
  by (rule foreign_job_hidden [where ctx = "jc_with_user 0 0 0 ''ann'' ''t'' ''d''"])
    (simp_all add: example_foreign_def example_params_def example_jobs_def create_job_for_user_def cmg_new_def system_new_def
      set_manager_def hm_count_def jc_with_user_def Let_def json_get_str_def json_get_def)

end
