(* ===== verification/Spec2Isabelle.thy ===== *)
theory Spec2Isabelle
  imports Agent_Dispatch Wasm_Wrapper Rate_Limiter Proxy_Policy Safety_Layer Llm_Resilience Pairing_Store Routine_Engine Job_Scheduler
begin

text \<open>
  A verification library for RustyTalon, a personal assistant that runs language-model agents, tools
  and container jobs for several users. The Rust sources are under \<open>src/src\<close>; file names below are
  relative to it.

  \<^bold>\<open>The program and its parts.\<close> Messages arrive from channels. \<open>agent/submission.rs\<close> parses a
  message into a submission, \<open>agent/session_manager.rs\<close> finds the session of its user and the thread
  of its conversation, and \<open>agent/agent_loop.rs\<close> runs the command on the thread
  (\<open>agent/session.rs\<close>) and on its undo history (\<open>agent/undo.rs\<close>). A message that is no command
  becomes a turn: a loop in which the model answers or asks for tools, some of which wait for the
  user's approval, while \<open>agent/compaction.rs\<close> keeps the conversation within the model's context. What
  the assistant remembers between conversations is the workspace (\<open>workspace/\<close>, in tables of
  \<open>db/libsql_backend.rs\<close>), and routines (\<open>agent/routine.rs\<close>, \<open>agent/routine_engine.rs\<close>) run without a
  user when a message matches or the clock says so. Longer work runs as jobs, whose
  state machine, memory and registry are \<open>context/state.rs\<close>, \<open>context/memory.rs\<close> and
  \<open>context/manager.rs\<close>; \<open>agent/scheduler.rs\<close> starts and stops their workers (\<open>agent/worker.rs\<close>), and
  \<open>agent/self_repair.rs\<close> recovers the stuck ones. Turns, routines and workers talk to the model through
  \<open>llm/reasoning.rs\<close>. What tools return passes through \<open>safety/\<close> before the model reads it.
  Tools compiled to WebAssembly run behind \<open>tools/wasm/\<close>, which decides what they may reach: the
  capabilities, the endpoint allowlist, the rate limiter, the credential injector and the state of
  one execution. Containers reach the network only through the proxy of \<open>sandbox/\<close>. Who may write to a
  channel is decided by \<open>pairing/store.rs\<close>.

  \<^bold>\<open>Which theory models which part.\<close>
  \<^item> \<open>Rust_Prelude\<close>: the part of the Rust standard library the code calls (byte strings, \<open>trim\<close>,
    \<open>split\<close>, \<open>replace\<close>, \<open>lines\<close>, \<open>Result\<close>, durations, JSON values) with its lemmas. A \<open>String\<close> is
    the list of its bytes, a \<open>Result\<close> is \<open>result\<close> with \<open>Err\<close> and \<open>Ok\<close>, a fixed-width counter is a
    word or a number with its bound written out.
  \<^item> \<open>Containers\<close>: hash maps as association lists, with the contracts \<open>key_value\<close> (a keyed store)
    and \<open>capped_history\<close> (a log that forgets its oldest entries) as locales.
  \<^item> \<open>Chat_Message\<close>: the messages and roles of \<open>llm/provider.rs\<close>.
  \<^item> \<open>Job_State\<close>: \<open>JobState\<close>, \<open>JobContext\<close> and its operations; \<open>Job_Memory\<close>: \<open>ActionRecord\<close>,
    \<open>ConversationMemory\<close> and \<open>Memory\<close>; \<open>Context_Manager\<close>: \<open>ContextManager\<close>.
  \<^item> \<open>Session_Model\<close>: \<open>Session\<close>, \<open>Thread\<close> and \<open>Turn\<close>; \<open>Undo\<close>: \<open>UndoManager\<close>; \<open>Submission\<close>:
    \<open>SubmissionParser\<close>; \<open>Session_Manager\<close>: \<open>SessionManager\<close>; \<open>Agent_Commands\<close>: the handlers of
    \<open>agent_loop.rs\<close> for the commands that call no model (undo, redo, interrupt, clear, new thread,
    switch, resume).
  \<^item> \<open>Text_Paths\<close>: case folding, character boundaries and file paths of the standard library;
    \<open>Message_Router\<close>: \<open>agent/router.rs\<close> and the lookup of skills; \<open>Context_Compaction\<close>:
    \<open>agent/context_monitor.rs\<close> and \<open>agent/compaction.rs\<close>; \<open>Tool_Registry\<close>: \<open>tools/tool.rs\<close> and
    \<open>tools/registry.rs\<close>; \<open>Shell_Tool\<close>: \<open>tools/builtin/shell.rs\<close>; \<open>Agent_Turn\<close>: the turns, the tool
    loop, approvals, credentials and persistence of \<open>agent_loop.rs\<close>; \<open>Agent_Dispatch\<close>: its
    \<open>handle_message\<close> from the parser to the reply, with the hydration of stored conversations.
  \<^item> \<open>Pairing_Store\<close>: \<open>pairing/store.rs\<close> over a map of files.
  \<^item> \<open>Result_State\<close>: the combinators for operations that change a world and may fail or panic;
    \<open>Workspace_Search\<close>: \<open>workspace/chunker.rs\<close> and \<open>workspace/search.rs\<close>; \<open>Workspace_Docs\<close>: the
    documents and the tables; \<open>Workspace_Store\<close>: the operations of \<open>workspace/mod.rs\<close> on them.
  \<^item> \<open>Routine_Model\<close>: \<open>agent/routine.rs\<close> and the rows of routines; \<open>Routine_Engine\<close>:
    \<open>agent/routine_engine.rs\<close>, with the task of a run as a sequence of atomic steps.
  \<^item> \<open>Host_Pattern\<close>: the contract \<open>zone_matcher\<close> of host patterns, which the three components that
    match hosts interpret; \<open>Wasm_Capabilities\<close>: \<open>tools/wasm/capabilities.rs\<close> and the credential
    mappings of \<open>secrets/types.rs\<close>; \<open>Wasm_Allowlist\<close>: \<open>tools/wasm/allowlist.rs\<close>; \<open>Rate_Limiter\<close>:
    \<open>tools/wasm/rate_limiter.rs\<close>; \<open>Credential_Injector\<close>: \<open>tools/wasm/credential_injector.rs\<close>;
    \<open>Wasm_Host\<close>: \<open>tools/wasm/host.rs\<close> and \<open>tools/wasm/limits.rs\<close>; \<open>Net_Address\<close> and
    \<open>Wasm_Wrapper\<close>: the address checks and the host functions of \<open>tools/wasm/wrapper.rs\<close>.
  \<^item> \<open>Llm_Reasoning\<close>: \<open>llm/reasoning.rs\<close> with its prompts, and the requests of \<open>llm/provider.rs\<close>.
  \<^item> \<open>Job_Worker\<close>: \<open>agent/worker.rs\<close>, a worker as the phases between which other tasks may run;
    \<open>Self_Repair\<close>: \<open>agent/self_repair.rs\<close> and the table of tool failures; \<open>Job_Scheduler\<close>: the table of
    \<open>agent/scheduler.rs\<close>, the commands on jobs of \<open>agent_loop.rs\<close> and the tools of
    \<open>tools/builtin/job.rs\<close>, all of them interleaved with the workers by \<open>system_act\<close>.
  \<^item> \<open>Llm_Resilience\<close>: \<open>llm/failover.rs\<close>, \<open>llm/tracked.rs\<close>, \<open>llm/retry.rs\<close> and \<open>llm/costs.rs\<close>.
  \<^item> \<open>Proxy_Policy\<close>: \<open>sandbox/config.rs\<close> and \<open>sandbox/proxy/\<close>.
  \<^item> \<open>Validator\<close>, \<open>Safety_Policy\<close>, \<open>Sanitizer\<close>, \<open>Leak_Detector\<close> and \<open>Safety_Layer\<close>: the files of
    \<open>safety/\<close>, in that order.

  \<^bold>\<open>How state and operations correspond.\<close> A struct is a record with a short prefix on its fields, an
  enum a datatype. A method on \<open>&mut self\<close> is a function that returns the updated record, together
  with its result if it has one. What a lock protects is the value; an operation that holds its lock
  throughout is one step, and the interleavings of concurrent callers are the sequences of such
  steps. The tasks of the routine engine do not hold a lock, so their atomic steps are interleaved
  explicitly by \<open>engine_act\<close>; so are those of workers, commands, stops and repairs by \<open>system_act\<close>,
  where the lock of the table of jobs, which a stop holds across a pause, is a field of the state. A fresh identifier or a time stamp is an argument of the operation that draws it, so a
  theorem holds for every identifier or clock it may get. A panic is \<open>None\<close> where the code can reach
  one.

  \<^bold>\<open>What is a parameter.\<close> Code outside the repository is an argument of the definitions that call
  it: the expression engine (\<open>regex\<close>) and the multi-pattern matcher (\<open>aho_corasick\<close>), the store of
  secrets, the JSON and UUID parsers and printers, the clock and the calendar of \<open>chrono\<close>, \<open>cron\<close>, the
  random generator, the network, the language model, the tools, processes and containers, the
  embedding service, the ranking of the SQL engine and which of its calls fail, the failing of file
  operations, the iteration order of hash maps and the rounding of floating-point numbers. Theorems
  that rely on one of them name the documented behaviour they need as a hypothesis, and their
  witnesses instantiate it.

  \<^bold>\<open>What the lemmas show.\<close>
  \<^item> Conversations: no command of a user touches a thread of another; the mapping from channels to
    threads is stable; turn numbers are positions; restoring a thread from its messages, and undo
    followed by redo, bring the conversation back; pruning removes exactly the idle sessions.
  \<^item> Jobs: only transitions of the table happen and the log of them is a path of bounded length;
    terminal states are absorbing; the number of active jobs never exceeds its limit. In every
    interleaving a worker executes only tools that need no approval, with validated parameters; a job
    is completed only on the word of the model; the running workers respect the limit and no job gets
    two; a worker ends and makes at most 101 requests; the jobs of other users stay hidden.
  \<^item> Responses: what a finished thinking block holds does not reach the user; text without tags is
    kept; recovered tool calls name known tools.
  \<^item> Tool sandbox: an admitted URL is an https URL to a host in the zone of an allowed pattern;
    credentials go only to hosts they are mapped to; quotas bound one execution; base64 round trip.
  \<^item> Container sandbox: the proxy forwards only to allowed domains.
  \<^item> Safety layer: every output is scanned, blocked or redacted before the model sees it; wrapped
    content cannot close its element; redaction removes exactly the ranges found.
  \<^item> Turns: a tool that needs approval is executed only with the approval of its user, a destructive
    shell command needs it each time; a turn calls the model a bounded number of times, what the model
    reads of a tool is sanitized, and the thread is never left processing; a token for an extension
    reaches neither the history nor the model; compaction keeps the recent turns as they are.
  \<^item> Pairing: only a pending, unexpired request can make its sender allowed; the number of pending
    requests is bounded; a requested code can be approved.
  \<^item> Workspace: the files of a user refine a map from paths to contents; no operation reads or writes
    the documents of another; identifiers are unique, chunks belong to documents and are the chunks of
    their document's text; the chunks hold every word; the fusion returns the best scores.
  \<^item> Routines: no tool that needs approval runs unattended; the counter of running routines is exact;
    a run that has ended is not written again; every schedule of the tasks ends, and with a database
    that answers and no panic no run is left running.
  \<^item> Some theorems record behaviour that departs from what the code intends: an undo that repeats
    its checkpoint, a URL whose query hides its host, fixed windows, redaction of nested ranges, the
    order of escaping, a slice inside a character, an approval that forgets earlier senders, limits on
    concurrent runs that messages arriving together pass, slots that panics keep, stuck jobs that
    recovery strands, completed jobs that use up the registry, repaired tools that are never found
    broken again, an unfinished tag that repeats the text before it.

  \<^bold>\<open>Termination and bounds.\<close> Every recursion of the library ends by structure or by a measure that is
  proved, and nothing runs on fuel, but for the chunker, whose loop does not end for some settings: it
  is a \<open>partial_function\<close> in \<open>option\<close>, with a theorem that says exactly when it returns. The tool loops
  end by the distance of their counter from its limit, the tasks of the engine by the weight of what
  they still have to do, and a worker by a lexicographic order on its phases. Counters are natural numbers where the code's width cannot be reached
  (iterations, chunk positions) and carry their width where it can (timeouts, token counts, back-off
  delays, stored seconds).

  \<^bold>\<open>What is not modelled.\<close> The summaries, suggestions and background tasks of \<open>agent_loop.rs\<close> other
  than the repair of jobs; the sub-tasks of the scheduler, which nothing calls, and the heartbeat; the
  routing and the adapters of \<open>llm/\<close>; jobs in containers; the runtime and the loader of
  \<open>tools/wasm/\<close>; \<open>secrets/\<close> beyond its types, \<open>orchestrator/\<close>, \<open>estimation/\<close>, \<open>evaluation/\<close>,
  \<open>extensions/\<close>. Out of scope are the channels, the PostgreSQL back end and the operations of the
  libSQL back end that neither the workspace, the routines nor the repair of tools call, the command line, the set-up
  wizard and the container driver, which are input and output.
\<close>

end
